(* ===== verification/Prelude.thy ===== *)
theory Prelude
  imports Main "HOL-Library.Word"
begin

text \<open>
  Shared vocabulary of the development: the result type of fallible Python code, the
  masking lemmas that turn the tools' bit operations on unbounded integers into
  arithmetic modulo a power of two, and a few facts on lists that several components use.

  Python integers are unbounded, so every value of the tools is an \<open>int\<close> here, and each
  mask the source writes (\<open>& 0xFFFF\<close>, \<open>& 0x7FFF\<close>, ...) is written out with the
  bit operations of the library.
\<close>

unbundle bit_operations_syntax

named_theorems mask_simps \<open>masks and shifts of nonnegative integers as mod and div\<close>
named_theorems bound_intros \<open>range facts of masked values, as conditional rewrite rules\<close>

section \<open>Results of code that may raise\<close>

type_synonym ('e, 'a) result = "'e + 'a"

definition bindE :: "('e, 'a) result \<Rightarrow> ('a \<Rightarrow> ('e, 'b) result) \<Rightarrow> ('e, 'b) result" where
  "bindE m f = (case m of Inl e \<Rightarrow> Inl e | Inr x \<Rightarrow> f x)"

lemma bindE_simps [simp]:
  "bindE (Inl e) f = Inl e"
  "bindE (Inr x) f = f x"
  by (simp_all add: bindE_def)

lemma bindE_Inr_iff: "bindE m f = Inr y \<longleftrightarrow> (\<exists>x. m = Inr x \<and> f x = Inr y)"
  by (cases m) auto

lemma bindE_Inl_iff: "bindE m f = Inl e \<longleftrightarrow> m = Inl e \<or> (\<exists>x. m = Inr x \<and> f x = Inl e)"
  by (cases m) auto

lemma bindE_InrE:
  assumes "bindE m f = Inr y"
  obtains x where "m = Inr x" and "f x = Inr y"
  using assms by (auto simp: bindE_Inr_iff)

lemma bindE_cong [fundef_cong]:
  "m = m' \<Longrightarrow> (\<And>x. m' = Inr x \<Longrightarrow> f x = f' x) \<Longrightarrow> bindE m f = bindE m' f'"
  by (cases m') auto

text \<open>The monadic map of a Python comprehension or loop whose body may raise.\<close>

fun mapE :: "('a \<Rightarrow> ('e, 'b) result) \<Rightarrow> 'a list \<Rightarrow> ('e, 'b list) result" where
  "mapE f [] = Inr []"
| "mapE f (x # xs) = bindE (f x) (\<lambda>y. bindE (mapE f xs) (\<lambda>ys. Inr (y # ys)))"

lemma mapE_length: "mapE f xs = Inr ys \<Longrightarrow> length ys = length xs"
  by (induction xs arbitrary: ys) (auto simp: bindE_Inr_iff)

lemma mapE_nth: "mapE f xs = Inr ys \<Longrightarrow> i < length xs \<Longrightarrow> f (xs ! i) = Inr (ys ! i)"
  by (induction xs arbitrary: ys i) (auto simp: bindE_Inr_iff nth_Cons split: nat.splits)

lemma mapE_all_Inr: "(\<And>x. x \<in> set xs \<Longrightarrow> f x = Inr (g x)) \<Longrightarrow> mapE f xs = Inr (map g xs)"
  by (induction xs) auto

section \<open>Masks and shifts\<close>

lemma and_mask: "x AND (2 ^ n - 1) = x mod 2 ^ n" for x :: int
  by (simp add: take_bit_eq_mask flip: take_bit_eq_mod mask_eq_exp_minus_1)

lemma and_65535 [mask_simps]: "x AND 65535 = x mod 65536" for x :: int
  by (rule and_mask [of x 16, simplified])

lemma and_32767 [mask_simps]: "x AND 32767 = x mod 32768" for x :: int
  by (rule and_mask [of x 15, simplified])

lemma and_255 [mask_simps]: "x AND 255 = x mod 256" for x :: int
  by (rule and_mask [of x 8, simplified])

lemma and_127 [mask_simps]: "x AND 127 = x mod 128" for x :: int
  by (rule and_mask [of x 7, simplified])

lemma and_31 [mask_simps]: "x AND 31 = x mod 32" for x :: int
  by (rule and_mask [of x 5, simplified])

lemma and_15 [mask_simps]: "x AND 15 = x mod 16" for x :: int
  by (rule and_mask [of x 4, simplified])

lemma and_7 [mask_simps]: "x AND 7 = x mod 8" for x :: int
  by (rule and_mask [of x 3, simplified])

lemma and_3 [mask_simps]: "x AND 3 = x mod 4" for x :: int
  by (rule and_mask [of x 2, simplified])

lemma drop_bit_div [mask_simps]: "drop_bit n (x :: int) = x div 2 ^ n"
  by (simp add: drop_bit_eq_div)

lemma push_bit_mult [mask_simps]: "push_bit n (x :: int) = x * 2 ^ n"
  by (simp add: push_bit_eq_mult)

text \<open>The even part of a byte, \<open>x & 0xFE\<close>.\<close>

lemma and_254 [mask_simps]: "(x :: int) AND 254 = x mod 256 - x mod 2"
proof -
  have "x AND 254 = 2 * ((x div 2) mod 128)"
    by (simp add: and_int_rec [of x 254] and_127)
  moreover have "x mod (2 * 128) = 2 * ((x div 2) mod 128) + x mod 2"
    by (rule zmod_zmult2_eq) simp
  ultimately show ?thesis by simp
qed

text \<open>A value in the unsigned range of \<open>n\<close> bits; bit operations stay inside it.\<close>

definition fits :: "nat \<Rightarrow> int \<Rightarrow> bool" where
  "fits n x \<longleftrightarrow> 0 \<le> x \<and> x < 2 ^ n"

lemma fits_take_bit: "fits n x \<longleftrightarrow> take_bit n x = x"
  by (auto simp: fits_def take_bit_int_eq_self_iff)

lemma fits_and [bound_intros]: "fits n x \<Longrightarrow> fits n (x AND y)"
  by (metis fits_take_bit take_bit_eq_mask and.assoc and.commute)

lemma fits_or [bound_intros]: "fits n x \<Longrightarrow> fits n y \<Longrightarrow> fits n (x OR y)"
  by (simp add: fits_take_bit)

lemma fits_xor [bound_intros]: "fits n x \<Longrightarrow> fits n y \<Longrightarrow> fits n (x XOR y)"
  by (simp add: fits_take_bit)

lemma fits_mod [bound_intros]: "fits 16 (x mod 65536)"
  by (simp add: fits_def)

lemma fits_mono: "fits m x \<Longrightarrow> m \<le> n \<Longrightarrow> fits n x"
  unfolding fits_def by (meson less_le_trans one_le_numeral power_increasing)

section \<open>Lists\<close>

lemma list_all_update: "list_all P xs \<Longrightarrow> P v \<Longrightarrow> list_all P (xs[i := v])"
  by (metis (no_types) list_all_iff insertE set_update_subset_insert subsetD)

lemma list_all_nthD: "list_all P xs \<Longrightarrow> i < length xs \<Longrightarrow> P (xs ! i)"
  by (simp add: list_all_length)

text \<open>
  Python's slice assignment \<open>xs[i:i+len(ys)] = ys\<close> for a slice that lies inside \<open>xs\<close>.
\<close>

definition blit :: "nat \<Rightarrow> 'a list \<Rightarrow> 'a list \<Rightarrow> 'a list" where
  "blit i ys xs = take i xs @ ys @ drop (i + length ys) xs"

lemma length_blit: "i + length ys \<le> length xs \<Longrightarrow> length (blit i ys xs) = length xs"
  by (simp add: blit_def)

lemma nth_blit:
  assumes "i + length ys \<le> length xs" and "k < length xs"
  shows "blit i ys xs ! k = (if i \<le> k \<and> k < i + length ys then ys ! (k - i) else xs ! k)"
  using assms by (auto simp: blit_def nth_append min_def)

end
