(* ===== verification/PyText.thy ===== *)
theory PyText
  imports Prelude "HOL-Library.Char_ord"
begin

text \<open>
  The string operations of Python's standard library that the tools use, on ASCII text:
  whitespace, \<open>strip\<close>, \<open>upper\<close>, \<open>lower\<close>, \<open>split(None, 1)\<close>, \<open>startswith\<close>, and the
  \<open>%d\<close> and \<open>%04X\<close> conversions. A string is a list of characters with codes below 256;
  case conversion is the ASCII one.
\<close>

section \<open>Characters\<close>

definition ccode :: "char \<Rightarrow> nat" where
  "ccode c = of_char c"

definition cchr :: "nat \<Rightarrow> char" where
  "cchr n = char_of n"

lemma ccode_cchr: "n < 256 \<Longrightarrow> ccode (cchr n) = n"
  by (simp add: ccode_def cchr_def)

lemma ccode_lt: "ccode c < 256"
  by (simp add: ccode_def)

text \<open>\<open>str.isspace\<close> of one ASCII character: tab to carriage return, the four separators, blank.\<close>

definition py_space :: "char \<Rightarrow> bool" where
  "py_space c \<longleftrightarrow> (9 \<le> ccode c \<and> ccode c \<le> 13) \<or> (28 \<le> ccode c \<and> ccode c \<le> 32)"

definition is_digit :: "char \<Rightarrow> bool" where
  "is_digit c \<longleftrightarrow> 48 \<le> ccode c \<and> ccode c \<le> 57"

definition is_upper :: "char \<Rightarrow> bool" where
  "is_upper c \<longleftrightarrow> 65 \<le> ccode c \<and> ccode c \<le> 90"

definition is_lower :: "char \<Rightarrow> bool" where
  "is_lower c \<longleftrightarrow> 97 \<le> ccode c \<and> ccode c \<le> 122"

text \<open>The character classes \<open>[A-Za-z_]\<close> and \<open>[A-Za-z0-9_]\<close>.\<close>

definition ident_start :: "char \<Rightarrow> bool" where
  "ident_start c \<longleftrightarrow> is_upper c \<or> is_lower c \<or> c = CHR ''_''"

definition ident_char :: "char \<Rightarrow> bool" where
  "ident_char c \<longleftrightarrow> ident_start c \<or> is_digit c"

definition upper_char :: "char \<Rightarrow> char" where
  "upper_char c = (if is_lower c then cchr (ccode c - 32) else c)"

definition lower_char :: "char \<Rightarrow> char" where
  "lower_char c = (if is_upper c then cchr (ccode c + 32) else c)"

lemmas char_class_defs = py_space_def is_digit_def is_upper_def is_lower_def
  ident_start_def ident_char_def

section \<open>Strings\<close>

definition py_upper :: "string \<Rightarrow> string" where
  "py_upper = map upper_char"

definition py_lower :: "string \<Rightarrow> string" where
  "py_lower = map lower_char"

definition lstrip :: "string \<Rightarrow> string" where
  "lstrip = dropWhile py_space"

definition rstrip :: "string \<Rightarrow> string" where
  "rstrip xs = rev (dropWhile py_space (rev xs))"

definition py_strip :: "string \<Rightarrow> string" where
  "py_strip xs = rstrip (lstrip xs)"

definition startswith :: "string \<Rightarrow> string \<Rightarrow> bool" where
  "startswith xs p \<longleftrightarrow> take (length p) xs = p"

definition endswith :: "string \<Rightarrow> string \<Rightarrow> bool" where
  "endswith xs p \<longleftrightarrow> length p \<le> length xs \<and> drop (length xs - length p) xs = p"

text \<open>
  \<open>s.split(None, 1)\<close>: no field for a blank string, one field for a single word, otherwise
  the first word and the rest with its leading whitespace removed (trailing whitespace of
  the rest is kept, as in Python).
\<close>

definition split1 :: "string \<Rightarrow> string list" where
  "split1 xs =
     (let ys = lstrip xs;
          w = takeWhile (\<lambda>c. \<not> py_space c) ys;
          rest = lstrip (dropWhile (\<lambda>c. \<not> py_space c) ys)
      in if ys = [] then [] else if rest = [] then [w] else [w, rest])"

section \<open>Number formatting\<close>

definition hex_digit :: "nat \<Rightarrow> char" where
  "hex_digit n = (if n < 10 then cchr (48 + n) else cchr (55 + n))"

fun hex_str :: "nat \<Rightarrow> string" where
  "hex_str n = (if n < 16 then [hex_digit n] else hex_str (n div 16) @ [hex_digit (n mod 16)])"

declare hex_str.simps [simp del]

fun dec_str :: "nat \<Rightarrow> string" where
  "dec_str n = (if n < 10 then [hex_digit n] else dec_str (n div 10) @ [hex_digit (n mod 10)])"

declare dec_str.simps [simp del]

text \<open>\<open>'%d' % n\<close>, \<open>'%04X' % n\<close> (for \<open>0 \<le> n\<close>).\<close>

definition fmt_d :: "int \<Rightarrow> string" where
  "fmt_d n = (if n < 0 then CHR ''-'' # dec_str (nat (- n)) else dec_str (nat n))"

definition fmt_04X :: "int \<Rightarrow> string" where
  "fmt_04X n = (let h = hex_str (nat n) in replicate (4 - length h) (CHR ''0'') @ h)"

text \<open>\<open>sep.join(parts)\<close>.\<close>

fun py_join :: "string \<Rightarrow> string list \<Rightarrow> string" where
  "py_join sep [] = []"
| "py_join sep [x] = x"
| "py_join sep (x # y # ys) = x @ sep @ py_join sep (y # ys)"

section \<open>Facts\<close>

lemma lstrip_hd: "lstrip xs = y # ys \<Longrightarrow> \<not> py_space y"
  unfolding lstrip_def by (metis dropWhile_eq_Cons_conv)

lemma lstrip_id: "xs = [] \<or> \<not> py_space (hd xs) \<Longrightarrow> lstrip xs = xs"
  by (cases xs) (auto simp: lstrip_def)

lemma rstrip_id: "xs = [] \<or> \<not> py_space (last xs) \<Longrightarrow> rstrip xs = xs"
  by (cases xs rule: rev_cases) (auto simp: rstrip_def)

lemma rstrip_last: "rstrip xs \<noteq> [] \<Longrightarrow> \<not> py_space (last (rstrip xs))"
  unfolding rstrip_def
  by (metis hd_dropWhile last_rev rev_is_Nil_conv rev_rev_ident hd_rev)

text \<open>A string that neither starts nor ends with whitespace.\<close>

definition trimmed :: "string \<Rightarrow> bool" where
  "trimmed xs \<longleftrightarrow> xs = [] \<or> (\<not> py_space (hd xs) \<and> \<not> py_space (last xs))"

lemma py_strip_trimmed_id: "trimmed xs \<Longrightarrow> py_strip xs = xs"
  by (auto simp: py_strip_def trimmed_def lstrip_id rstrip_id)

lemma rstrip_prefix: "\<exists>ys. xs = rstrip xs @ ys"
proof -
  have "xs = rev (takeWhile py_space (rev xs) @ dropWhile py_space (rev xs))" by simp
  then show ?thesis unfolding rstrip_def by (metis rev_append)
qed

lemma trimmed_py_strip: "trimmed (py_strip xs)"
proof (cases "py_strip xs = []")
  case False
  obtain ys where ys: "lstrip xs = py_strip xs @ ys"
    using rstrip_prefix [of "lstrip xs"] unfolding py_strip_def by blast
  then have "lstrip xs = hd (py_strip xs) # (tl (py_strip xs) @ ys)" using False by simp
  then have "\<not> py_space (hd (py_strip xs))" by (rule lstrip_hd)
  moreover have "\<not> py_space (last (py_strip xs))"
    using False rstrip_last unfolding py_strip_def by blast
  ultimately show ?thesis by (simp add: trimmed_def)
qed (simp add: trimmed_def)

lemma py_strip_idem [simp]: "py_strip (py_strip xs) = py_strip xs"
  by (rule py_strip_trimmed_id [OF trimmed_py_strip])

section \<open>Evaluation\<close>

text \<open>
  The character classes as membership in a list of characters, which is faster to evaluate than a
  comparison of codes.
\<close>

lemma char_codes_member:
  assumes "list_all (\<lambda>n. n < 256) ns"
  shows "c \<in> set (map cchr ns) \<longleftrightarrow> ccode c \<in> set ns"
proof -
  have "cchr (ccode c) = c" by (simp add: cchr_def ccode_def)
  moreover have "ccode (cchr n) = n" if "n \<in> set ns" for n
    using that assms ccode_cchr by (simp add: list_all_iff)
  ultimately show ?thesis by force
qed

lemma py_space_code [code]: "py_space c \<longleftrightarrow> c \<in> set [CHR 0x09, CHR 0x0A, CHR 0x0B, CHR 0x0C, CHR 0x0D, CHR 0x1C, CHR 0x1D, CHR 0x1E, CHR 0x1F, CHR 0x20]"
proof -
  have chars: "[CHR 0x09, CHR 0x0A, CHR 0x0B, CHR 0x0C, CHR 0x0D, CHR 0x1C, CHR 0x1D, CHR 0x1E, CHR 0x1F, CHR 0x20] = map cchr [9, 10, 11, 12, 13, 28, 29, 30, 31, 32]" by code_simp
  have codes: "n \<in> set [9, 10, 11, 12, 13, 28, 29, 30, 31, 32] \<longleftrightarrow> (9 \<le> n \<and> n \<le> 13) \<or> (28 \<le> n \<and> n \<le> 32)" for n :: nat by (simp, presburger)
  have "c \<in> set (map cchr [9, 10, 11, 12, 13, 28, 29, 30, 31, 32]) \<longleftrightarrow> ccode c \<in> set [9, 10, 11, 12, 13, 28, 29, 30, 31, 32]"
    by (rule char_codes_member) simp
  then show ?thesis unfolding py_space_def chars codes by blast
qed

lemma is_digit_code [code]: "is_digit c \<longleftrightarrow> c \<in> set ''0123456789''"
proof -
  have chars: "''0123456789'' = map cchr [48, 49, 50, 51, 52, 53, 54, 55, 56, 57]" by code_simp
  have codes: "n \<in> set [48, 49, 50, 51, 52, 53, 54, 55, 56, 57] \<longleftrightarrow> 48 \<le> n \<and> n \<le> 57" for n :: nat by (simp, presburger)
  have "c \<in> set (map cchr [48, 49, 50, 51, 52, 53, 54, 55, 56, 57]) \<longleftrightarrow> ccode c \<in> set [48, 49, 50, 51, 52, 53, 54, 55, 56, 57]"
    by (rule char_codes_member) simp
  then show ?thesis unfolding is_digit_def chars codes by blast
qed

lemma is_upper_code [code]: "is_upper c \<longleftrightarrow> c \<in> set ''ABCDEFGHIJKLMNOPQRSTUVWXYZ''"
proof -
  have chars: "''ABCDEFGHIJKLMNOPQRSTUVWXYZ'' = map cchr [65, 66, 67, 68, 69, 70, 71, 72, 73, 74, 75, 76, 77, 78, 79, 80, 81, 82, 83, 84, 85, 86, 87, 88, 89, 90]" by code_simp
  have codes: "n \<in> set [65, 66, 67, 68, 69, 70, 71, 72, 73, 74, 75, 76, 77, 78, 79, 80, 81, 82, 83, 84, 85, 86, 87, 88, 89, 90] \<longleftrightarrow> 65 \<le> n \<and> n \<le> 90" for n :: nat by (simp, presburger)
  have "c \<in> set (map cchr [65, 66, 67, 68, 69, 70, 71, 72, 73, 74, 75, 76, 77, 78, 79, 80, 81, 82, 83, 84, 85, 86, 87, 88, 89, 90]) \<longleftrightarrow> ccode c \<in> set [65, 66, 67, 68, 69, 70, 71, 72, 73, 74, 75, 76, 77, 78, 79, 80, 81, 82, 83, 84, 85, 86, 87, 88, 89, 90]"
    by (rule char_codes_member) simp
  then show ?thesis unfolding is_upper_def chars codes by blast
qed

lemma is_lower_code [code]: "is_lower c \<longleftrightarrow> c \<in> set ''abcdefghijklmnopqrstuvwxyz''"
proof -
  have chars: "''abcdefghijklmnopqrstuvwxyz'' = map cchr [97, 98, 99, 100, 101, 102, 103, 104, 105, 106, 107, 108, 109, 110, 111, 112, 113, 114, 115, 116, 117, 118, 119, 120, 121, 122]" by code_simp
  have codes: "n \<in> set [97, 98, 99, 100, 101, 102, 103, 104, 105, 106, 107, 108, 109, 110, 111, 112, 113, 114, 115, 116, 117, 118, 119, 120, 121, 122] \<longleftrightarrow> 97 \<le> n \<and> n \<le> 122" for n :: nat by (simp, presburger)
  have "c \<in> set (map cchr [97, 98, 99, 100, 101, 102, 103, 104, 105, 106, 107, 108, 109, 110, 111, 112, 113, 114, 115, 116, 117, 118, 119, 120, 121, 122]) \<longleftrightarrow> ccode c \<in> set [97, 98, 99, 100, 101, 102, 103, 104, 105, 106, 107, 108, 109, 110, 111, 112, 113, 114, 115, 116, 117, 118, 119, 120, 121, 122]"
    by (rule char_codes_member) simp
  then show ?thesis unfolding is_lower_def chars codes by blast
qed

end
