(* ===== verification/SimMachine.thy ===== *)
theory SimMachine
  imports PyText
begin

text \<open>
  The state of the instruction-set simulator (class \<open>Sim\<close> of \<open>tools/riscc_sim.py\<close>) and its
  memory and device operations: construction from an image, the UART, the loads and stores
  with the memory-mapped test interrupt, UART and result registers, and the trace output.
  The attributes of a \<open>Sim\<close> object are the fields of the record \<open>sim\<close>; methods take the
  record and return the updated one.
\<close>

section \<open>Memory map\<close>

definition UART_DATA_W :: int where "UART_DATA_W = 0x7FF8"
definition UART_STATE_W :: int where "UART_STATE_W = 0x7FF9"
definition TEST_IRQ_W :: int where "TEST_IRQ_W = 0x7FFD"
definition RESULT_W :: int where "RESULT_W = 0x7FFF"
definition RESET_PC :: int where "RESET_PC = 0"

lemmas io_map_defs = UART_DATA_W_def UART_STATE_W_def TEST_IRQ_W_def RESULT_W_def

definition sx8 :: "int \<Rightarrow> int" where
  "sx8 v = (if v AND 0x80 \<noteq> 0 then v - 256 else v)"

definition sx16 :: "int \<Rightarrow> int" where
  "sx16 v = (if v AND 0x8000 \<noteq> 0 then v - 0x10000 else v)"

text \<open>The exception the simulator raises on an encoding its profile does not define.\<close>

datatype sim_error = Undefined string

section \<open>State\<close>

record sim =
  sim_mem :: "int list"
  sim_r :: "int list"
  sim_s :: "int list"
  sim_pc :: int
  sim_ie :: int
  sim_irq_line :: int
  sim_nano :: bool
  sim_sys_tier :: bool
  sim_shifts :: bool
  sim_long_jall :: bool
  sim_full :: bool
  sim_mdu :: bool
  sim_iflush :: bool
  sim_insns :: int
  sim_trace :: bool
  sim_trace_steps :: int
  sim_mem_written :: "bool list"
  sim_irq_taken :: int
  sim_done :: bool
  sim_uart :: bool
  sim_uart_in :: "int list"
  sim_uart_out :: "int list"
  sim_uart_rx_data :: int
  sim_uart_rx_ready :: bool
  sim_uart_rx_overflow :: bool
  sim_uart_irq_en :: int
  sim_uart_tx_ready :: bool
  sim_halted :: bool
  sim_stdout :: "string list"

text \<open>
  The loop of the constructor that packs the image's bytes into little-endian words, over
  the remaining bytes and the index \<open>w = i >> 1\<close>. An odd last byte has a zero high half.
\<close>

fun load_image :: "int list \<Rightarrow> nat \<Rightarrow> int list \<Rightarrow> int list" where
  "load_image [] w m = m"
| "load_image [lo] w m = (if w < 32768 then m[w := lo OR push_bit 8 0] else m)"
| "load_image (lo # hi # rest) w m =
     (if w < 32768 then load_image rest (Suc w) (m[w := lo OR push_bit 8 hi]) else m)"

declare load_image.simps [simp del]

lemma load_image_eval:
  "load_image [] w xs = xs"
  "load_image [lo] w xs = (if w < 32768 then xs[w := lo OR push_bit 8 0] else xs)"
  "load_image (lo # hi # rest) w xs =
     (if w < 32768 then load_image rest (w + 1) (xs[w := lo OR push_bit 8 hi]) else xs)"
  by (simp_all add: load_image.simps)

text \<open>The keyword parameters of the constructor, with the source's defaults.\<close>

record sim_opts =
  opt_sys_tier :: bool
  opt_full :: bool
  opt_mdu :: bool
  opt_nano :: bool
  opt_trace :: bool
  opt_uart :: bool
  opt_uart_in :: "int list"
  opt_iflush :: bool

definition default_opts :: sim_opts where
  "default_opts = \<lparr>opt_sys_tier = True, opt_full = False, opt_mdu = False, opt_nano = False,
     opt_trace = False, opt_uart = False, opt_uart_in = [], opt_iflush = False\<rparr>"

definition sim_init :: "int list \<Rightarrow> sim_opts \<Rightarrow> sim" where
  "sim_init img opts =
     (let nano = opt_nano opts;
          sys_tier = (if nano then False else opt_sys_tier opts);
          full = (opt_full opts \<and> \<not> nano)
      in
     \<lparr>sim_mem = load_image img 0 (replicate 32768 0),
      sim_r = replicate 8 0, sim_s = replicate 8 0,
      sim_pc = RESET_PC, sim_ie = 0, sim_irq_line = 0,
      sim_nano = nano,
      sim_sys_tier = sys_tier,
      sim_shifts = (nano \<or> opt_full opts),
      sim_long_jall = (opt_sys_tier opts \<and> \<not> nano),
      sim_full = full,
      sim_mdu = (opt_mdu opts \<and> full),
      sim_iflush = (opt_iflush opts \<and> sys_tier),
      sim_insns = 0, sim_trace = opt_trace opts, sim_trace_steps = 0,
      sim_mem_written = replicate 32768 False, sim_irq_taken = 0, sim_done = False,
      sim_uart = opt_uart opts, sim_uart_in = opt_uart_in opts, sim_uart_out = [],
      sim_uart_rx_data = 0, sim_uart_rx_ready = False, sim_uart_rx_overflow = False,
      sim_uart_irq_en = 0, sim_uart_tx_ready = True, sim_halted = False,
      sim_stdout = []\<rparr>)"

section \<open>UART\<close>

definition service_uart :: "sim \<Rightarrow> sim" where
  "service_uart m =
     (if sim_uart m \<and> \<not> sim_uart_rx_ready m \<and> sim_uart_in m \<noteq> [] then
        m\<lparr>sim_uart_rx_data := hd (sim_uart_in m), sim_uart_in := tl (sim_uart_in m),
          sim_uart_rx_ready := True\<rparr>
      else m)"

definition uart_irq :: "sim \<Rightarrow> bool" where
  "uart_irq m \<longleftrightarrow>
     sim_uart m \<and>
     ((sim_uart_irq_en m AND 1 \<noteq> 0 \<and> sim_uart_rx_ready m) \<or>
      (sim_uart_irq_en m AND 2 \<noteq> 0 \<and> sim_uart_tx_ready m))"

section \<open>Memory operations\<close>

text \<open>The word index of a byte address, \<open>(baddr >> 1) & 0x7FFF\<close>.\<close>

definition word_index :: "int \<Rightarrow> int" where
  "word_index baddr = drop_bit 1 baddr AND 0x7FFF"

definition load_word :: "int \<Rightarrow> sim \<Rightarrow> int \<times> sim" where
  "load_word baddr m =
     (let waddr = word_index baddr in
      if waddr = TEST_IRQ_W then
        (if sim_irq_line m \<noteq> 0 then 1 else 0, m\<lparr>sim_irq_line := 0\<rparr>)
      else if sim_uart m \<and> waddr = UART_DATA_W then
        (sim_uart_rx_data m, m\<lparr>sim_uart_rx_ready := False, sim_uart_rx_overflow := False\<rparr>)
      else if sim_uart m \<and> waddr = UART_STATE_W then
        ((if sim_uart_rx_overflow m then 4 else 0) OR
         (if sim_uart_rx_ready m then 2 else 0) OR
         (if sim_uart_tx_ready m then 1 else 0), m)
      else (sim_mem m ! nat waddr, m))"

text \<open>The word \<open>old\<close> with the bytes selected by \<open>bmask\<close> replaced by those of \<open>val\<close>.\<close>

definition merge_bytes :: "int \<Rightarrow> int \<Rightarrow> int \<Rightarrow> int" where
  "merge_bytes old val bmask =
     (let old1 = (if bmask AND 1 \<noteq> 0 then (old AND 0xFF00) OR (val AND 0x00FF) else old)
      in if bmask AND 2 \<noteq> 0 then (old1 AND 0x00FF) OR (val AND 0xFF00) else old1)"

definition store_word :: "int \<Rightarrow> int \<Rightarrow> int \<Rightarrow> sim \<Rightarrow> sim" where
  "store_word baddr val bmask m =
     (let w = word_index baddr in
      if sim_uart m \<and> (w = UART_DATA_W \<or> w = UART_STATE_W) then
        let m1 = m\<lparr>sim_mem_written := (sim_mem_written m)[nat w := True]\<rparr> in
        if w = UART_DATA_W \<and> bmask AND 1 \<noteq> 0 then
          m1\<lparr>sim_uart_out := sim_uart_out m @ [val AND 0xFF], sim_uart_tx_ready := True\<rparr>
        else if w = UART_STATE_W \<and> bmask AND 1 \<noteq> 0 then
          m1\<lparr>sim_uart_irq_en := val AND 3\<rparr>
        else m1
      else
        let m1 = m\<lparr>sim_mem := (sim_mem m)[nat w := merge_bytes (sim_mem m ! nat w) val bmask],
                   sim_mem_written := (sim_mem_written m)[nat w := True]\<rparr>;
            m2 = (if w = TEST_IRQ_W then m1\<lparr>sim_irq_line := 1\<rparr> else m1)
        in if w = RESULT_W then m2\<lparr>sim_done := True\<rparr> else m2)"

definition ldb :: "int \<Rightarrow> bool \<Rightarrow> sim \<Rightarrow> int" where
  "ldb baddr sgnd m =
     (let w = sim_mem m ! nat (word_index baddr);
          b = (if baddr AND 1 \<noteq> 0 then drop_bit 8 w AND 0xFF else w AND 0xFF)
      in if sgnd \<and> b AND 0x80 \<noteq> 0 then b OR 0xFF00 else b)"

definition stb :: "int \<Rightarrow> int \<Rightarrow> sim \<Rightarrow> sim" where
  "stb baddr val m =
     (if baddr AND 1 \<noteq> 0 then store_word baddr (push_bit 8 (val AND 0xFF)) 2 m
      else store_word baddr (val AND 0xFF) 1 m)"

section \<open>Trace output\<close>

definition trace_line :: "int \<Rightarrow> int \<Rightarrow> int \<Rightarrow> int \<Rightarrow> int list \<Rightarrow> int list \<Rightarrow> string" where
  "trace_line steps pc ir ie regs sregs =
     ''TRACE step='' @ fmt_d steps @ '' pc='' @ fmt_04X pc @ '' ir='' @ fmt_04X ir @
     '' ie='' @ fmt_d ie @ '' r='' @ py_join '','' (map fmt_04X regs) @
     '' s='' @ py_join '','' (map fmt_04X sregs)"

definition emit_trace :: "int \<Rightarrow> sim \<Rightarrow> sim" where
  "emit_trace ir m =
     (if \<not> sim_trace m then m
      else m\<lparr>sim_stdout := sim_stdout m @
               [trace_line (sim_trace_steps m) (sim_pc m AND 0x7FFF) (ir AND 0xFFFF)
                  (sim_ie m AND 1) (sim_r m) (sim_s m)],
             sim_trace_steps := sim_trace_steps m + 1\<rparr>)"

end
