(* ===== verification/SimStep.thy ===== *)
theory SimStep
  imports SimMachine
begin

text \<open>
  One architectural step of the simulator, \<open>Sim.step\<close> of \<open>tools/riscc_sim.py\<close>: interrupt
  entry at the instruction boundary, fetch, field extraction and the instruction groups.
  Each group is a function of the state after the instruction counter was incremented, of
  the decoded fields and of \<open>pc_next\<close>; it returns the new state and the new \<open>pc_next\<close>, or
  the \<open>Undefined\<close> exception with the source's message.
\<close>

type_synonym exec_result = "(sim_error, sim \<times> int) result"

abbreviation undef :: "string \<Rightarrow> exec_result" where
  "undef msg \<equiv> Inl (Undefined msg)"

text \<open>\<open>self.r[i]\<close>, \<open>self.s[i]\<close> and their assignments; every index is a three-bit field.\<close>

definition get_r :: "sim \<Rightarrow> int \<Rightarrow> int" where
  "get_r m i = sim_r m ! nat i"

definition get_s :: "sim \<Rightarrow> int \<Rightarrow> int" where
  "get_s m i = sim_s m ! nat i"

definition set_r :: "int \<Rightarrow> int \<Rightarrow> sim \<Rightarrow> sim" where
  "set_r i v m = m\<lparr>sim_r := (sim_r m)[nat i := v]\<rparr>"

definition set_s :: "int \<Rightarrow> int \<Rightarrow> sim \<Rightarrow> sim" where
  "set_s i v m = m\<lparr>sim_s := (sim_s m)[nat i := v]\<rparr>"

section \<open>Long instruction\<close>

definition exec_long :: "sim \<Rightarrow> int \<Rightarrow> int \<Rightarrow> exec_result" where
  "exec_long m ddd pc_next =
     (if \<not> sim_long_jall m then undef ''long instruction outside a profile with JALL''
      else
        let extension = sim_mem m ! nat (pc_next AND 0x7FFF);
            m1 = (if ddd \<noteq> 0 then set_s ddd (push_bit 1 (sim_pc m + 2) AND 0xFFFF) m else m)
        in Inr (m1, drop_bit 1 extension AND 0x7FFF))"

section \<open>Compact load and store\<close>

definition exec_mem :: "sim \<Rightarrow> int \<Rightarrow> int \<Rightarrow> int \<Rightarrow> int \<Rightarrow> int \<Rightarrow> exec_result" where
  "exec_mem m ir ddd aaa imm8 pc_next =
     (let addr = (get_r m aaa + sx8 (imm8 AND 0xFE)) AND 0xFFFF in
      if ir AND 1 \<noteq> 0 then Inr (store_word addr (get_r m ddd) 3 m, pc_next)
      else (case load_word addr m of (v, m1) \<Rightarrow> Inr (set_r ddd v m1, pc_next)))"

section \<open>Immediate and branch group\<close>

definition branch_taken :: "sim \<Rightarrow> int \<Rightarrow> bool" where
  "branch_taken m ddd =
     [get_r m 0 = 0, get_r m 0 \<noteq> 0, get_r m 0 AND 0x8000 \<noteq> 0,
      \<not> (get_r m 0 AND 0x8000 \<noteq> 0)] ! nat ddd"

definition branch_rel :: "int \<Rightarrow> int" where
  "branch_rel imm8 = sx8 (drop_bit 1 imm8 OR push_bit 7 (imm8 AND 1))"

definition exec_branch :: "sim \<Rightarrow> int \<Rightarrow> int \<Rightarrow> int \<Rightarrow> exec_result" where
  "exec_branch m ddd imm8 pc_next =
     (let rel = branch_rel imm8 in
      if ddd < 4 then
        Inr (m, if branch_taken m ddd then (pc_next + rel) AND 0x7FFF else pc_next)
      else if ddd = 4 then
        Inr (if rel = -1 then m\<lparr>sim_halted := True\<rparr> else m, (pc_next + rel) AND 0x7FFF)
      else undef ''branch cc 101/110/111 reserved'')"

definition exec_imm :: "sim \<Rightarrow> int \<Rightarrow> int \<Rightarrow> int \<Rightarrow> int \<Rightarrow> exec_result" where
  "exec_imm m ddd aaa imm8 pc_next =
     (if aaa = 0 then Inr (set_r ddd imm8 m, pc_next)
      else if aaa = 1 then Inr (set_r ddd (push_bit 8 imm8 AND 0xFFFF) m, pc_next)
      else if aaa = 2 then
        Inr (set_r ddd ((get_r m ddd + sx8 imm8) AND 0xFFFF) m, pc_next)
      else if aaa = 3 then
        (if sim_nano m then undef ''CMPI in nano''
         else Inr (set_r 0 ((get_r m ddd - sx8 imm8) AND 0xFFFF) m, pc_next))
      else if aaa = 4 then Inr (set_r ddd (get_r m ddd AND imm8) m, pc_next)
      else if aaa = 5 then Inr (set_r ddd (get_r m ddd OR imm8) m, pc_next)
      else if aaa = 6 then Inr (set_r ddd (get_r m ddd XOR imm8) m, pc_next)
      else exec_branch m ddd imm8 pc_next)"

section \<open>Register format\<close>

definition exec_alu :: "sim \<Rightarrow> int \<Rightarrow> int \<Rightarrow> int \<Rightarrow> int \<Rightarrow> int \<Rightarrow> exec_result" where
  "exec_alu m ddd aaa f5 bbb pc_next =
     (let a = get_r m aaa; b = get_r m bbb; put = (\<lambda>res. Inr (set_r ddd res m, pc_next)) in
      if f5 = 0 then put ((a + b) AND 0xFFFF)
      else if f5 = 1 then put ((a - b) AND 0xFFFF)
      else if f5 = 2 then
        (if sim_nano m then put (if a < b then 1 else 0)
         else put (if sx16 a < sx16 b then 1 else 0))
      else if f5 = 3 then put (if a < b then 1 else 0)
      else if f5 = 4 then put (a AND b)
      else if f5 = 5 then put (a OR b)
      else if f5 = 6 then put (a XOR b)
      else if \<not> sim_full m then undef ''MUL without the full profile''
      else put ((a * b) AND 0xFFFF))"

text \<open>The loop of SRLI and SRAI: \<open>n\<close> single-bit right shifts, filling from the sign for SRAI.\<close>

fun shift_right_loop :: "nat \<Rightarrow> bool \<Rightarrow> int \<Rightarrow> int" where
  "shift_right_loop 0 arith v = v"
| "shift_right_loop (Suc n) arith v =
     shift_right_loop n arith
       (drop_bit 1 v OR (if arith \<and> v AND 0x8000 \<noteq> 0 then 0x8000 else 0))"

definition shift_count :: "sim \<Rightarrow> int \<Rightarrow> nat" where
  "shift_count m bbb = (if sim_nano m then 1 else if sim_shifts m then nat (bbb + 1) else 1)"

definition exec_mdu :: "sim \<Rightarrow> int \<Rightarrow> int \<Rightarrow> int \<Rightarrow> int \<Rightarrow> int \<Rightarrow> exec_result" where
  "exec_mdu m ddd aaa f5 bbb pc_next =
     (if \<not> sim_mdu m then undef ''MDU instruction without the mdu extension''
      else if f5 = 0x14 then
        (if ddd = aaa then undef ''MULHU requires distinct low/high registers''
         else
           let product = get_r m aaa * get_r m bbb in
           Inr (set_r aaa (drop_bit 16 product AND 0xFFFF) (set_r ddd (product AND 0xFFFF) m),
                pc_next))
      else if card {ddd, aaa, bbb} \<noteq> 3 then undef ''DIVU requires distinct registers''
      else
        let remainder = get_r m ddd; quotient = get_r m aaa; divisor = get_r m bbb in
        if divisor = 0 \<or> remainder \<ge> divisor then undef ''DIVU operand precondition failed''
        else
          let dividend = push_bit 16 remainder OR quotient in
          Inr (set_r ddd (dividend mod divisor) (set_r aaa (dividend div divisor) m), pc_next))"

definition exec_funnel :: "sim \<Rightarrow> int \<Rightarrow> int \<Rightarrow> int \<Rightarrow> int \<Rightarrow> exec_result" where
  "exec_funnel m ddd aaa bbb pc_next =
     (if bbb > 1 then undef ''compact funnel selector reserved''
      else if sim_nano m then undef ''funnel shift in nano''
      else
        let shifted = get_r m ddd; endpoint = get_r m aaa in
        if bbb = 0 then
          Inr (set_r ddd ((push_bit 1 shifted OR drop_bit 15 endpoint) AND 0xFFFF) m, pc_next)
        else
          Inr (set_r ddd (drop_bit 1 shifted OR push_bit 15 (endpoint AND 1)) m, pc_next))"

definition exec_control :: "sim \<Rightarrow> int \<Rightarrow> int \<Rightarrow> int \<Rightarrow> int \<Rightarrow> exec_result" where
  "exec_control m ddd aaa bbb pc_next =
     (if sim_nano m then
        (if bbb \<noteq> 1 then undef ''non-JALR sys op in nano''
         else
           let target = drop_bit 1 (get_r m aaa) AND 0x7FFF;
               m1 = (if ddd \<noteq> 0 then set_r ddd (push_bit 1 pc_next AND 0xFFFF) m else m)
           in Inr (m1, target))
      else if bbb = 0 then
        (if ddd = 0 then Inr (m, drop_bit 1 (get_s m aaa) AND 0x7FFF)
         else if ddd = 5 \<and> sim_sys_tier m then
           Inr (m\<lparr>sim_ie := 1\<rparr>, drop_bit 1 (get_s m aaa) AND 0x7FFF)
         else if ddd = 3 \<and> sim_iflush m then
           (if aaa \<noteq> 0 then undef ''IFLUSH aaa field reserved'' else Inr (m, pc_next))
         else if (ddd = 2 \<or> ddd = 7) \<and> sim_sys_tier m then
           (if aaa \<noteq> 0 then undef ''CLI/STI aaa field reserved''
            else Inr (m\<lparr>sim_ie := (if ddd = 7 then 1 else 0)\<rparr>, pc_next))
         else undef ''control selector reserved'')
      else if bbb = 1 then
        (let target = drop_bit 1 (get_r m aaa) AND 0x7FFF;
             m1 = (if ddd \<noteq> 0 then set_s ddd (push_bit 1 pc_next AND 0xFFFF) m else m)
         in Inr (m1, target))
      else if bbb = 2 then Inr (set_r ddd (get_s m aaa) m, pc_next)
      else if bbb = 3 then Inr (set_s ddd (get_r m aaa) m, pc_next)
      else undef ''system sub-op reserved'')"

definition exec_reg :: "sim \<Rightarrow> int \<Rightarrow> int \<Rightarrow> int \<Rightarrow> int \<Rightarrow> int \<Rightarrow> exec_result" where
  "exec_reg m ddd aaa f5 bbb pc_next =
     (if f5 < 0x08 then exec_alu m ddd aaa f5 bbb pc_next
      else if f5 = 0x08 then
        (case load_word ((get_r m aaa + get_r m bbb) AND 0xFFFF) m of
           (v, m1) \<Rightarrow> Inr (set_r ddd v m1, pc_next))
      else if f5 = 0x0A then
        (if bbb = 0 then Inr (set_r ddd (ldb (get_r m aaa) False m) m, pc_next)
         else undef ''direct load sub-op reserved'')
      else if f5 = 0x0E then
        (if bbb \<noteq> 0 then undef ''direct byte-load sub-op reserved''
         else Inr (set_r ddd (ldb (get_r m aaa) True m) m, pc_next))
      else if f5 = 0x0C \<or> f5 = 0x0D then
        Inr (set_r ddd (shift_right_loop (shift_count m bbb) (f5 = 0x0D) (get_r m aaa)) m, pc_next)
      else if f5 = 0x0F then
        (if sim_nano m \<or> \<not> sim_shifts m then undef ''SLLI is only in the full profile''
         else Inr (set_r ddd (push_bit (nat (bbb + 1)) (get_r m aaa) AND 0xFFFF) m, pc_next))
      else if f5 = 0x10 \<or> f5 = 0x14 then exec_mdu m ddd aaa f5 bbb pc_next
      else if f5 = 0x11 then exec_funnel m ddd aaa bbb pc_next
      else if f5 = 0x0B then
        (if bbb \<noteq> 0 then undef ''STB sub-op reserved''
         else Inr (stb (get_r m aaa) (get_r m ddd) m, pc_next))
      else if f5 = 0x1F then exec_control m ddd aaa bbb pc_next
      else undef ''register-format reserved'')"

section \<open>Decode and step\<close>

definition exec_insn :: "sim \<Rightarrow> int \<Rightarrow> int \<Rightarrow> exec_result" where
  "exec_insn m ir pc_next =
     (let opc = drop_bit 14 ir;
          ddd = drop_bit 11 ir AND 7;
          aaa = drop_bit 8 ir AND 7;
          f5 = drop_bit 3 ir AND 0x1F;
          bbb = ir AND 7;
          imm8 = ir AND 0xFF
      in if ir AND 0xC7FF = 0x0034 then exec_long m ddd pc_next
         else if opc = 1 then exec_mem m ir ddd aaa imm8 pc_next
         else if opc = 2 then exec_imm m ddd aaa imm8 pc_next
         else exec_reg m ddd aaa f5 bbb pc_next)"

definition irq_pending :: "sim \<Rightarrow> bool" where
  "irq_pending m \<longleftrightarrow> sim_sys_tier m \<and> sim_ie m \<noteq> 0 \<and> (sim_irq_line m \<noteq> 0 \<or> uart_irq m)"

definition enter_irq :: "int \<Rightarrow> sim \<Rightarrow> sim" where
  "enter_irq ir m =
     emit_trace ir
       ((set_s 0 (push_bit 1 (sim_pc m) AND 0xFFFF) m)\<lparr>sim_ie := 0, sim_pc := 2,
          sim_irq_taken := sim_irq_taken m + 1\<rparr>)"

definition step :: "sim \<Rightarrow> (sim_error, sim) result" where
  "step m0 =
     (let m = service_uart m0;
          ir = sim_mem m ! nat (sim_pc m AND 0x7FFF)
      in if irq_pending m then Inr (enter_irq ir m)
         else
           let m1 = m\<lparr>sim_insns := sim_insns m + 1\<rparr>;
               pc_next = (sim_pc m + 1) AND 0x7FFF
           in bindE (exec_insn m1 ir pc_next)
                (\<lambda>(m2, pc_next'). Inr (emit_trace ir (m2\<lparr>sim_pc := pc_next'\<rparr>))))"

end
