(* ===== verification/SimInv.thy ===== *)
theory SimInv
  imports SimStep
begin

text \<open>
  The well-formedness invariant of the simulator state and its preservation by every
  operation: 32768 words of memory and sixteen registers of 16 bits each, a 15-bit word
  program counter, boolean interrupt flags, byte-sized UART data. Because every array index
  of the source is a masked value, this invariant is what makes each of its list accesses
  in range.
\<close>

definition words16 :: "nat \<Rightarrow> int list \<Rightarrow> bool" where
  "words16 n xs \<longleftrightarrow> length xs = n \<and> list_all (fits 16) xs"

definition is_bit :: "int \<Rightarrow> bool" where
  "is_bit x \<longleftrightarrow> x = 0 \<or> x = 1"

lemma is_bit_consts [simp]: "is_bit 0" "is_bit 1"
  by (simp_all add: is_bit_def)

definition wf_sim :: "sim \<Rightarrow> bool" where
  "wf_sim m \<longleftrightarrow>
     words16 32768 (sim_mem m) \<and> words16 8 (sim_r m) \<and> words16 8 (sim_s m) \<and>
     fits 15 (sim_pc m) \<and> is_bit (sim_ie m) \<and> is_bit (sim_irq_line m) \<and>
     length (sim_mem_written m) = 32768 \<and>
     list_all (fits 8) (sim_uart_in m) \<and> list_all (fits 8) (sim_uart_out m) \<and>
     fits 8 (sim_uart_rx_data m) \<and> fits 2 (sim_uart_irq_en m) \<and> 0 \<le> sim_insns m"

named_theorems wf_intros \<open>preservation of the simulator invariant\<close>

section \<open>Ranges of decoded values\<close>

lemma words16_nth [bound_intros]: "words16 n xs \<Longrightarrow> i < n \<Longrightarrow> fits 16 (xs ! i)"
  by (auto simp: words16_def list_all_length)

lemma words16_update: "words16 n xs \<Longrightarrow> fits 16 v \<Longrightarrow> words16 n (xs[i := v])"
  by (simp add: words16_def list_all_update)

lemma word_index_range: "0 \<le> word_index a" "word_index a < 32768"
  by (simp_all add: word_index_def mask_simps)

lemma word_index_nat: "nat (word_index a) < 32768"
  using word_index_range [of a] by linarith

lemma fits_and_mask [bound_intros]:
  "fits 16 (x AND 65535)" "fits 15 (x AND 32767)" "fits 8 (x AND 255)" "fits 2 (x AND 3)"
  "fits 3 (x AND 7)"
  by (simp_all add: mask_simps fits_def)

lemma fits8_16: "fits 8 x \<Longrightarrow> fits 16 x"
  by (erule fits_mono) simp

lemma fits16_consts [bound_intros]: "fits 16 0" "fits 16 1" "fits 15 2"
  by (simp_all add: fits_def)

lemma fits_if [bound_intros]: "fits n a \<Longrightarrow> fits n b \<Longrightarrow> fits n (if c then a else b)"
  by simp

lemma fits_drop_bit [bound_intros]: "fits k v \<Longrightarrow> fits k (drop_bit n v)"
  by (metis add.commute drop_bit_drop_bit drop_bit_of_0 fits_take_bit
      take_bit_eq_self_iff_drop_bit_eq_0)

lemma fits_push_15 [bound_intros]: "fits 16 (push_bit 15 (v AND 1))"
  by (simp add: and_one_eq mod_2_eq_odd fits_def)

lemma fits_push_15_mod [bound_intros]: "fits 16 (push_bit 15 (v mod 2))"
  by (simp add: mod_2_eq_odd fits_def)

lemma fits_and_const [bound_intros]:
  "fits 16 (x AND 255)" "fits 16 (255 AND x)" "fits 16 (65280 AND x)" "fits 16 (x AND 32768)"
  using fits_and [of 16 255 x] fits_and [of 16 65280 x] fits_and [of 16 32768 x]
  by (simp_all add: and.commute [of x] fits_def)

lemma fits_push_8 [bound_intros]: "fits 8 v \<Longrightarrow> fits 16 (push_bit 8 v)"
  by (simp add: fits_def mask_simps)

lemma fits_numerals [bound_intros]: "fits 16 0x8000" "fits 16 0xFF00" "fits 16 0xFF"
  by (simp_all add: fits_def)

lemma fits_merge_bytes [bound_intros]:
  "fits 16 old \<Longrightarrow> fits 16 (merge_bytes old val k)"
  by (simp add: merge_bytes_def Let_def and.commute [of val] bound_intros)

lemma fits_shift_right_loop [bound_intros]:
  "fits 16 v \<Longrightarrow> fits 16 (shift_right_loop n arith v)"
  by (induction n arith v rule: shift_right_loop.induct) (simp_all add: bound_intros)

lemma div_less_bound:
  fixes x d n :: int
  assumes "x < d * n" and "0 < d"
  shows "x div d < n"
proof (rule ccontr)
  assume "\<not> x div d < n"
  then have "d * n \<le> d * (x div d)" using assms(2) by (simp add: mult_left_mono)
  also have "\<dots> \<le> x"
    using assms(2) minus_mod_eq_mult_div [of x d] pos_mod_sign [of d x] by linarith
  finally show False using assms(1) by simp
qed

text \<open>A register pair as a 32-bit value: the shifted high part and the low part are disjoint.\<close>

lemma pair_value:
  assumes "fits 16 q"
  shows "push_bit 16 rm OR q = rm * 0x10000 + q"
proof -
  have "push_bit 16 rm AND q = push_bit 16 rm AND take_bit 16 q"
    using assms by (simp add: fits_take_bit)
  also have "\<dots> = 0"
    by (simp add: bit_eq_iff bit_and_iff bit_push_bit_iff bit_take_bit_iff)
  finally show ?thesis using disjunctive_add_eq_or [of "push_bit 16 rm" q] by (simp add: mask_simps)
qed

lemma fits_div_mod:
  assumes "fits 16 q" and "fits 16 d" and "fits 16 rm" and "rm < d"
  shows "fits 16 ((push_bit 16 rm OR q) div d)" and "fits 16 ((push_bit 16 rm OR q) mod d)"
proof -
  have or: "push_bit 16 rm OR q = rm * 65536 + q"
    using pair_value [OF assms(1)] .
  have "rm * 65536 + q < d * 65536"
    using assms by (auto simp: fits_def)
  moreover have d: "0 < d" using assms by (auto simp: fits_def)
  ultimately have "(rm * 65536 + q) div d < 65536" by (rule div_less_bound)
  moreover have "0 \<le> (rm * 65536 + q) div d"
    using assms d by (auto simp: fits_def pos_imp_zdiv_nonneg_iff)
  ultimately show "fits 16 ((push_bit 16 rm OR q) div d)" by (simp add: or fits_def)
  have "d < 65536" using assms(2) by (simp add: fits_def)
  then show "fits 16 ((push_bit 16 rm OR q) mod d)"
    using pos_mod_bound [OF d, of "rm * 65536 + q"] pos_mod_sign [OF d, of "rm * 65536 + q"]
    unfolding or fits_def by simp
qed

section \<open>Register and memory operations\<close>

lemma wf_simD:
  assumes "wf_sim m"
  shows "words16 32768 (sim_mem m)" "words16 8 (sim_r m)" "words16 8 (sim_s m)"
    "fits 15 (sim_pc m)" "is_bit (sim_ie m)" "is_bit (sim_irq_line m)"
    "length (sim_mem_written m) = 32768"
  using assms by (simp_all add: wf_sim_def)

lemma field_range: "nat (x AND 7) < 8"
  by (simp add: mask_simps nat_less_iff)

lemma get_r_fits [bound_intros]: "wf_sim m \<Longrightarrow> nat i < 8 \<Longrightarrow> fits 16 (get_r m i)"
  unfolding get_r_def by (rule words16_nth [OF wf_simD(2)])

lemma get_s_fits [bound_intros]: "wf_sim m \<Longrightarrow> nat i < 8 \<Longrightarrow> fits 16 (get_s m i)"
  unfolding get_s_def by (rule words16_nth [OF wf_simD(3)])

lemma mem_fits [bound_intros]: "wf_sim m \<Longrightarrow> i < 32768 \<Longrightarrow> fits 16 (sim_mem m ! i)"
  by (rule words16_nth [OF wf_simD(1)])

lemma wf_set_r [wf_intros]: "wf_sim m \<Longrightarrow> fits 16 v \<Longrightarrow> wf_sim (set_r i v m)"
  by (simp add: wf_sim_def set_r_def words16_update)

lemma wf_set_s [wf_intros]: "wf_sim m \<Longrightarrow> fits 16 v \<Longrightarrow> wf_sim (set_s i v m)"
  by (simp add: wf_sim_def set_s_def words16_update)

lemma wf_set_ie [wf_intros]: "wf_sim m \<Longrightarrow> is_bit v \<Longrightarrow> wf_sim (m\<lparr>sim_ie := v\<rparr>)"
  by (simp add: wf_sim_def)

lemma wf_set_pc [wf_intros]: "wf_sim m \<Longrightarrow> fits 15 v \<Longrightarrow> wf_sim (m\<lparr>sim_pc := v\<rparr>)"
  by (simp add: wf_sim_def)

lemma wf_set_halted [wf_intros]: "wf_sim m \<Longrightarrow> wf_sim (m\<lparr>sim_halted := b\<rparr>)"
  by (simp add: wf_sim_def)

lemma wf_count_insn [wf_intros]: "wf_sim m \<Longrightarrow> wf_sim (m\<lparr>sim_insns := sim_insns m + 1\<rparr>)"
  by (simp add: wf_sim_def)

lemma wf_service_uart [wf_intros]: "wf_sim m \<Longrightarrow> wf_sim (service_uart m)"
  by (cases "sim_uart_in m") (auto simp: wf_sim_def service_uart_def)

lemma wf_emit_trace [wf_intros]: "wf_sim m \<Longrightarrow> wf_sim (emit_trace ir m)"
  by (simp add: wf_sim_def emit_trace_def)

lemma wf_load_word [wf_intros]: "wf_sim m \<Longrightarrow> wf_sim (snd (load_word a m))"
  by (simp add: load_word_def Let_def wf_sim_def fits_def)

lemma fits_load_word [bound_intros]:
  assumes "wf_sim m" shows "fits 16 (fst (load_word a m))"
proof -
  have "fits 16 (sim_mem m ! nat (word_index a))"
    using assms word_index_nat by (rule mem_fits)
  moreover have "fits 16 (sim_uart_rx_data m)"
    using assms by (auto simp: wf_sim_def intro: fits8_16)
  ultimately show ?thesis by (simp add: load_word_def Let_def) (simp add: fits_def)
qed

lemma wf_store_word [wf_intros]:
  assumes "wf_sim m" shows "wf_sim (store_word a v k m)"
proof -
  have "fits 16 (merge_bytes (sim_mem m ! nat (word_index a)) v k)"
    using assms word_index_nat by (intro fits_merge_bytes mem_fits)
  then show ?thesis
    using assms
    by (auto simp: store_word_def Let_def wf_sim_def words16_update fits_and_mask)
qed

lemma wf_stb [wf_intros]: "wf_sim m \<Longrightarrow> wf_sim (stb a v m)"
  by (simp add: stb_def wf_store_word)

lemma fits_ldb [bound_intros]: "fits 16 (ldb a sg m)"
  by (simp add: ldb_def Let_def bound_intros)

section \<open>Instruction groups\<close>

text \<open>What an instruction group promises when it does not raise.\<close>

definition wf_exec :: "exec_result \<Rightarrow> bool" where
  "wf_exec res = (case res of Inl e \<Rightarrow> True | Inr (m, p) \<Rightarrow> wf_sim m \<and> fits 15 p)"

lemma wf_exec_simps [wf_intros]:
  "wf_exec (Inl e)"
  "wf_exec (Inr (m, p)) \<longleftrightarrow> wf_sim m \<and> fits 15 p"
  "wf_exec (if c then x else y) \<longleftrightarrow> (if c then wf_exec x else wf_exec y)"
  by (simp_all add: wf_exec_def)

lemmas exec_simps = wf_intros bound_intros Let_def case_prod_beta

lemma wf_exec_long: "wf_sim m \<Longrightarrow> wf_exec (exec_long m ddd p)"
  by (simp add: exec_long_def exec_simps)

lemma wf_exec_mem:
  assumes "wf_sim m" "nat ddd < 8" "fits 15 p"
  shows "wf_exec (exec_mem m ir ddd aaa imm8 p)"
  using assms by (simp add: exec_mem_def exec_simps)

lemma wf_exec_branch: "wf_sim m \<Longrightarrow> fits 15 p \<Longrightarrow> wf_exec (exec_branch m ddd imm8 p)"
  by (simp add: exec_branch_def exec_simps)

lemma wf_exec_imm:
  assumes "wf_sim m" "nat ddd < 8" "fits 8 imm8" "fits 15 p"
  shows "wf_exec (exec_imm m ddd aaa imm8 p)"
  using assms by (simp add: exec_imm_def wf_exec_branch fits8_16 exec_simps)

lemma wf_exec_alu:
  assumes "wf_sim m" "nat aaa < 8" "nat bbb < 8" "fits 15 p"
  shows "wf_exec (exec_alu m ddd aaa f5 bbb p)"
  using assms by (simp add: exec_alu_def exec_simps)

lemma wf_exec_mdu:
  assumes "wf_sim m" "nat ddd < 8" "nat aaa < 8" "nat bbb < 8" "fits 15 p"
  shows "wf_exec (exec_mdu m ddd aaa f5 bbb p)"
  using assms by (simp add: exec_mdu_def fits_div_mod exec_simps)

lemma wf_exec_funnel:
  assumes "wf_sim m" "nat ddd < 8" "fits 15 p"
  shows "wf_exec (exec_funnel m ddd aaa bbb p)"
  using assms by (simp add: exec_funnel_def exec_simps)

lemma wf_exec_control:
  assumes "wf_sim m" "nat aaa < 8" "fits 15 p"
  shows "wf_exec (exec_control m ddd aaa bbb p)"
  using assms by (simp add: exec_control_def exec_simps)

lemma wf_exec_reg:
  assumes "wf_sim m" "nat ddd < 8" "nat aaa < 8" "nat bbb < 8" "fits 15 p"
  shows "wf_exec (exec_reg m ddd aaa f5 bbb p)"
  using assms
  by (simp add: exec_reg_def wf_exec_alu wf_exec_mdu wf_exec_funnel wf_exec_control exec_simps)

lemma wf_exec_insn:
  assumes "wf_sim m" "fits 15 p"
  shows "wf_exec (exec_insn m ir p)"
  using assms
  by (simp add: exec_insn_def Let_def wf_exec_simps wf_exec_long wf_exec_mem wf_exec_imm
      wf_exec_reg field_range fits_and_mask)

section \<open>The step\<close>

lemma wf_enter_irq: "wf_sim m \<Longrightarrow> wf_sim (enter_irq ir m)"
proof -
  assume "wf_sim m"
  then have "wf_sim (set_s 0 (push_bit 1 (sim_pc m) AND 65535) m)"
    by (simp add: exec_simps)
  then show ?thesis
    unfolding enter_irq_def by (intro wf_emit_trace) (simp add: wf_sim_def fits_def)
qed

lemma wf_step: "wf_sim m \<Longrightarrow> step m = Inr m' \<Longrightarrow> wf_sim m'"
proof -
  assume wf: "wf_sim m" and st: "step m = Inr m'"
  define m1 where "m1 = service_uart m"
  define ir where "ir = sim_mem m1 ! nat (sim_pc m1 AND 32767)"
  have wf1: "wf_sim m1" unfolding m1_def using wf by (rule wf_service_uart)
  show ?thesis
  proof (cases "irq_pending m1")
    case True
    then show ?thesis
      using st wf_enter_irq [OF wf1] by (auto simp: step_def Let_def m1_def ir_def)
  next
    case False
    have "wf_exec (exec_insn (m1\<lparr>sim_insns := sim_insns m1 + 1\<rparr>) ir ((sim_pc m1 + 1) AND 32767))"
      using wf1 by (intro wf_exec_insn wf_count_insn fits_and_mask)
    then show ?thesis
      using st False
      by (auto simp: step_def Let_def m1_def ir_def bindE_Inr_iff wf_exec_def split_beta
          intro!: wf_emit_trace wf_set_pc)
  qed
qed

lemma wf_load_image:
  "list_all (fits 8) bs \<Longrightarrow> words16 32768 xs \<Longrightarrow> words16 32768 (load_image bs w xs)"
proof (induction bs w xs rule: load_image.induct)
  case (3 lo hi rest w xs)
  then show ?case
    by (simp add: load_image.simps words16_update fits_or fits8_16 fits_push_8)
qed (simp_all add: load_image.simps words16_update fits_or fits8_16)

lemma words16_replicate: "words16 n (replicate n 0)"
  by (simp add: words16_def list_all_length fits_def)

lemma wf_sim_init:
  assumes "list_all (fits 8) img" and "list_all (fits 8) (opt_uart_in opts)"
  shows "wf_sim (sim_init img opts)"
  using assms wf_load_image [OF assms(1) words16_replicate]
  by (simp add: wf_sim_def sim_init_def words16_replicate Let_def) (simp add: fits_def RESET_PC_def)

end
