(* ===== verification/SimFrame.thy ===== *)
theory SimFrame
  imports SimInv
begin

text \<open>
  What an instruction may change: a frame relation between the states before and after.
  The profile switches and the counters the step itself owns are constant, memory changes
  only where \<open>mem_written\<close> records it, the UART output only grows, and the result register
  is the only thing that ends a run. Every operation is shown to respect the relation once;
  the properties of whole steps and runs follow from it.
\<close>

section \<open>Profile of a state\<close>

definition profile_of :: "sim \<Rightarrow> bool list" where
  "profile_of m = [sim_nano m, sim_sys_tier m, sim_shifts m, sim_long_jall m, sim_full m,
     sim_mdu m, sim_iflush m, sim_trace m, sim_uart m]"

section \<open>The frame relation\<close>

text \<open>Memory written or unchanged, word by word.\<close>

definition mem_frame :: "sim \<Rightarrow> sim \<Rightarrow> bool" where
  "mem_frame m m' \<longleftrightarrow>
     length (sim_mem m') = length (sim_mem m) \<and>
     length (sim_mem_written m') = length (sim_mem_written m) \<and>
     (\<forall>w < length (sim_mem_written m). sim_mem_written m ! w \<longrightarrow> sim_mem_written m' ! w) \<and>
     (\<forall>w < length (sim_mem m). sim_mem_written m' ! w \<or> sim_mem m' ! w = sim_mem m ! w)"

text \<open>\<open>sim_done\<close> is set exactly when the result register has been stored to.\<close>

definition done_consistent :: "sim \<Rightarrow> bool" where
  "done_consistent m \<longleftrightarrow> (sim_done m \<longleftrightarrow> sim_mem_written m ! nat RESULT_W)"

definition evolves :: "sim \<Rightarrow> sim \<Rightarrow> bool" where
  "evolves m m' \<longleftrightarrow>
     profile_of m' = profile_of m \<and> sim_insns m' = sim_insns m \<and>
     sim_irq_taken m' = sim_irq_taken m \<and> sim_uart_in m' = sim_uart_in m \<and>
     sim_pc m' = sim_pc m \<and>
     sim_stdout m' = sim_stdout m \<and> sim_trace_steps m' = sim_trace_steps m \<and>
     (\<exists>out. sim_uart_out m' = sim_uart_out m @ out) \<and>
     (wf_sim m \<longrightarrow> mem_frame m m' \<and> (done_consistent m \<longrightarrow> done_consistent m'))"

lemma mem_frame_refl [simp]: "mem_frame m m"
  by (simp add: mem_frame_def)

lemma mem_frame_trans:
  "wf_sim m \<Longrightarrow> mem_frame m m' \<Longrightarrow> mem_frame m' m'' \<Longrightarrow> mem_frame m m''"
  unfolding mem_frame_def wf_sim_def words16_def by metis

lemma mem_frame_same:
  "sim_mem m' = sim_mem m \<Longrightarrow> sim_mem_written m' = sim_mem_written m \<Longrightarrow> mem_frame m m'"
  by (simp add: mem_frame_def)

lemma done_consistent_same:
  "sim_mem_written m' = sim_mem_written m \<Longrightarrow> sim_done m' = sim_done m \<Longrightarrow>
   done_consistent m' = done_consistent m"
  by (simp add: done_consistent_def)

named_theorems evolve_intros \<open>operations inside the frame\<close>

lemma evolves_refl [evolve_intros]: "evolves m m"
  by (simp add: evolves_def)

lemma evolves_trans: "evolves m m' \<Longrightarrow> (wf_sim m \<Longrightarrow> wf_sim m') \<Longrightarrow> evolves m' m'' \<Longrightarrow> evolves m m''"
  unfolding evolves_def by (auto intro: mem_frame_trans)

lemma evolves_set_r [evolve_intros]: "evolves m m' \<Longrightarrow> evolves m (set_r i v m')"
  by (simp add: evolves_def set_r_def profile_of_def mem_frame_def done_consistent_def)

lemma evolves_set_s [evolve_intros]: "evolves m m' \<Longrightarrow> evolves m (set_s i v m')"
  by (simp add: evolves_def set_s_def profile_of_def mem_frame_def done_consistent_def)

lemma evolves_set_ie [evolve_intros]: "evolves m m' \<Longrightarrow> evolves m (m'\<lparr>sim_ie := v\<rparr>)"
  by (simp add: evolves_def profile_of_def mem_frame_def done_consistent_def)

lemma evolves_halt [evolve_intros]: "evolves m m' \<Longrightarrow> evolves m (m'\<lparr>sim_halted := b\<rparr>)"
  by (simp add: evolves_def profile_of_def mem_frame_def done_consistent_def)

lemma evolves_if [evolve_intros]: "evolves m a \<Longrightarrow> evolves m b \<Longrightarrow> evolves m (if c then a else b)"
  by simp

lemma evolves_load_word [evolve_intros]: "evolves m (snd (load_word a m))"
  by (simp add: evolves_def load_word_def Let_def profile_of_def mem_frame_def
      done_consistent_def)

lemma io_map_distinct [simp]:
  "UART_DATA_W \<noteq> UART_STATE_W" "UART_DATA_W \<noteq> TEST_IRQ_W" "UART_DATA_W \<noteq> RESULT_W"
  "UART_STATE_W \<noteq> UART_DATA_W" "UART_STATE_W \<noteq> TEST_IRQ_W" "UART_STATE_W \<noteq> RESULT_W"
  "TEST_IRQ_W \<noteq> UART_DATA_W" "TEST_IRQ_W \<noteq> UART_STATE_W" "TEST_IRQ_W \<noteq> RESULT_W"
  "RESULT_W \<noteq> UART_DATA_W" "RESULT_W \<noteq> UART_STATE_W" "RESULT_W \<noteq> TEST_IRQ_W"
  "nat UART_DATA_W \<noteq> nat RESULT_W" "nat UART_STATE_W \<noteq> nat RESULT_W"
  "nat TEST_IRQ_W \<noteq> nat RESULT_W"
  by (simp_all add: io_map_defs)

lemma nat_word_index_RESULT: "nat (word_index a) = nat RESULT_W \<longleftrightarrow> word_index a = RESULT_W"
  using word_index_range [of a] by (auto simp: RESULT_W_def)

lemma mem_frame_store_word: "wf_sim m \<Longrightarrow> mem_frame m (store_word a v k m)"
  using word_index_nat [of a]
  by (auto simp: mem_frame_def store_word_def Let_def wf_sim_def words16_def nth_list_update)

lemma done_store_word:
  "wf_sim m \<Longrightarrow> done_consistent m \<Longrightarrow> done_consistent (store_word a v k m)"
  using word_index_nat [of a]
  by (auto simp: done_consistent_def store_word_def Let_def wf_sim_def nth_list_update
      nat_word_index_RESULT)

lemma evolves_store_word [evolve_intros]: "evolves m (store_word a v k m)"
proof -
  have "profile_of (store_word a v k m) = profile_of m \<and>
      sim_insns (store_word a v k m) = sim_insns m \<and>
      sim_irq_taken (store_word a v k m) = sim_irq_taken m \<and>
      sim_uart_in (store_word a v k m) = sim_uart_in m \<and>
      sim_pc (store_word a v k m) = sim_pc m \<and>
      sim_stdout (store_word a v k m) = sim_stdout m \<and>
      sim_trace_steps (store_word a v k m) = sim_trace_steps m \<and>
      (\<exists>out. sim_uart_out (store_word a v k m) = sim_uart_out m @ out)"
    by (simp add: store_word_def Let_def profile_of_def)
  then show ?thesis
    by (auto simp: evolves_def mem_frame_store_word done_store_word)
qed

lemma evolves_stb [evolve_intros]: "evolves m (stb a v m)"
  by (simp add: stb_def evolves_store_word)

section \<open>Instruction groups respect the frame\<close>

definition evolves_exec :: "sim \<Rightarrow> exec_result \<Rightarrow> bool" where
  "evolves_exec m res = (case res of Inl e \<Rightarrow> True | Inr (m', p) \<Rightarrow> evolves m m')"

lemma evolves_exec_simps:
  "evolves_exec m (Inl e)"
  "evolves_exec m (Inr (m', p)) \<longleftrightarrow> evolves m m'"
  "evolves_exec m (if c then x else y) \<longleftrightarrow> (if c then evolves_exec m x else evolves_exec m y)"
  by (simp_all add: evolves_exec_def)

lemmas exec_frame = evolves_exec_simps evolve_intros Let_def case_prod_beta

lemma evolves_exec_long: "evolves_exec m (exec_long m ddd p)"
  by (simp add: exec_long_def exec_frame)

lemma evolves_exec_mem: "evolves_exec m (exec_mem m ir ddd aaa imm8 p)"
  by (simp add: exec_mem_def exec_frame)

lemma evolves_exec_branch: "evolves_exec m (exec_branch m ddd imm8 p)"
  by (simp add: exec_branch_def exec_frame)

lemma evolves_exec_alu: "evolves_exec m (exec_alu m ddd aaa f5 bbb p)"
  by (simp add: exec_alu_def exec_frame)

lemma evolves_exec_mdu: "evolves_exec m (exec_mdu m ddd aaa f5 bbb p)"
  by (simp add: exec_mdu_def exec_frame)

lemma evolves_exec_funnel: "evolves_exec m (exec_funnel m ddd aaa bbb p)"
  by (simp add: exec_funnel_def exec_frame)

lemma evolves_exec_control: "evolves_exec m (exec_control m ddd aaa bbb p)"
  by (simp add: exec_control_def exec_frame)

lemma evolves_exec_imm: "evolves_exec m (exec_imm m ddd aaa imm8 p)"
  by (simp add: exec_imm_def evolves_exec_branch exec_frame)

lemma evolves_exec_reg: "evolves_exec m (exec_reg m ddd aaa f5 bbb p)"
  by (simp add: exec_reg_def evolves_exec_alu evolves_exec_mdu evolves_exec_funnel
      evolves_exec_control exec_frame)

lemma evolves_exec_insn: "evolves_exec m (exec_insn m ir p)"
  by (simp add: exec_insn_def Let_def evolves_exec_simps(3) evolves_exec_long evolves_exec_mem
      evolves_exec_imm evolves_exec_reg)

lemma exec_insn_evolves: "exec_insn m ir p = Inr (m', p') \<Longrightarrow> evolves m m'"
  using evolves_exec_insn [of m ir p] by (simp add: evolves_exec_simps)

section \<open>The step\<close>

text \<open>
  The two ways a step can go, with the state before it after UART service: an interrupt is
  entered, or one instruction is executed.
\<close>

lemma step_cases:
  assumes "step m0 = Inr m'"
  obtains (irq) "irq_pending (service_uart m0)"
      "m' = enter_irq (sim_mem m0 ! nat (sim_pc m0 AND 0x7FFF)) (service_uart m0)"
  | (insn) m2 p where "\<not> irq_pending (service_uart m0)"
      "exec_insn ((service_uart m0)\<lparr>sim_insns := sim_insns m0 + 1\<rparr>)
         (sim_mem m0 ! nat (sim_pc m0 AND 0x7FFF)) ((sim_pc m0 + 1) AND 0x7FFF) = Inr (m2, p)"
      "m' = emit_trace (sim_mem m0 ! nat (sim_pc m0 AND 0x7FFF)) (m2\<lparr>sim_pc := p\<rparr>)"
proof -
  have same: "sim_mem (service_uart m0) = sim_mem m0" "sim_pc (service_uart m0) = sim_pc m0"
    "sim_insns (service_uart m0) = sim_insns m0"
    by (simp_all add: service_uart_def)
  show thesis
    using assms irq insn by (auto simp: step_def Let_def same bindE_Inr_iff split: if_splits)
qed

lemma service_uart_frame:
  "sim_mem (service_uart m) = sim_mem m" "sim_mem_written (service_uart m) = sim_mem_written m"
  "sim_pc (service_uart m) = sim_pc m" "sim_insns (service_uart m) = sim_insns m"
  "sim_done (service_uart m) = sim_done m" "profile_of (service_uart m) = profile_of m"
  "sim_uart_out (service_uart m) = sim_uart_out m" "sim_ie (service_uart m) = sim_ie m"
  "sim_stdout (service_uart m) = sim_stdout m" "sim_trace_steps (service_uart m) = sim_trace_steps m"
  "sim_s (service_uart m) = sim_s m" "sim_r (service_uart m) = sim_r m"
  "sim_irq_taken (service_uart m) = sim_irq_taken m" "sim_irq_line (service_uart m) = sim_irq_line m"
  "sim_halted (service_uart m) = sim_halted m"
  by (simp_all add: service_uart_def profile_of_def)

lemma emit_trace_frame:
  "sim_mem (emit_trace ir m) = sim_mem m" "sim_mem_written (emit_trace ir m) = sim_mem_written m"
  "sim_pc (emit_trace ir m) = sim_pc m" "sim_insns (emit_trace ir m) = sim_insns m"
  "sim_done (emit_trace ir m) = sim_done m" "profile_of (emit_trace ir m) = profile_of m"
  "sim_uart_out (emit_trace ir m) = sim_uart_out m" "sim_ie (emit_trace ir m) = sim_ie m"
  "sim_s (emit_trace ir m) = sim_s m" "sim_r (emit_trace ir m) = sim_r m"
  "sim_irq_taken (emit_trace ir m) = sim_irq_taken m" "sim_irq_line (emit_trace ir m) = sim_irq_line m"
  "sim_halted (emit_trace ir m) = sim_halted m" "sim_uart_in (emit_trace ir m) = sim_uart_in m"
  by (simp_all add: emit_trace_def profile_of_def)

lemma enter_irq_frame:
  "sim_mem (enter_irq ir m) = sim_mem m" "sim_mem_written (enter_irq ir m) = sim_mem_written m"
  "sim_insns (enter_irq ir m) = sim_insns m" "sim_done (enter_irq ir m) = sim_done m"
  "profile_of (enter_irq ir m) = profile_of m" "sim_uart_out (enter_irq ir m) = sim_uart_out m"
  "sim_ie (enter_irq ir m) = 0" "sim_pc (enter_irq ir m) = 2" "sim_r (enter_irq ir m) = sim_r m"
  "sim_irq_taken (enter_irq ir m) = sim_irq_taken m + 1"
  "sim_s (enter_irq ir m) = (sim_s m)[0 := push_bit 1 (sim_pc m) AND 0xFFFF]"
  by (simp_all add: enter_irq_def emit_trace_def profile_of_def set_s_def)

lemmas frame_simps = service_uart_frame emit_trace_frame enter_irq_frame

lemma step_mem_frame:
  assumes "wf_sim m" and "step m = Inr m'"
  shows "mem_frame m m'" and "done_consistent m \<Longrightarrow> done_consistent m'"
    and "profile_of m' = profile_of m" and "\<exists>out. sim_uart_out m' = sim_uart_out m @ out"
proof -
  let ?P = "mem_frame m m' \<and> (done_consistent m \<longrightarrow> done_consistent m') \<and>
    profile_of m' = profile_of m \<and> (\<exists>out. sim_uart_out m' = sim_uart_out m @ out)"
  have "?P"
    using assms(2)
  proof (cases rule: step_cases)
    case irq
    then show ?thesis by (simp add: mem_frame_def done_consistent_def frame_simps)
  next
    case (insn m2 p)
    let ?m1 = "(service_uart m)\<lparr>sim_insns := sim_insns m + 1\<rparr>"
    have "wf_sim ?m1"
      using wf_count_insn [OF wf_service_uart [OF assms(1)]] by (simp add: frame_simps)
    moreover have "profile_of ?m1 = profile_of m"
      by (simp add: service_uart_def profile_of_def)
    moreover have "evolves ?m1 m2" using insn(2) by (rule exec_insn_evolves)
    moreover have "profile_of (m2\<lparr>sim_pc := p\<rparr>) = profile_of m2" by (simp add: profile_of_def)
    ultimately show ?thesis
      using insn(3) by (simp add: evolves_def mem_frame_def done_consistent_def frame_simps)
  qed
  then show "mem_frame m m'" and "done_consistent m \<Longrightarrow> done_consistent m'"
    and "profile_of m' = profile_of m" and "\<exists>out. sim_uart_out m' = sim_uart_out m @ out"
    by auto
qed

end
