(* ===== verification/SimMem.thy ===== *)
theory SimMem
  imports SimFrame
begin

text \<open>
  The memory of the simulator as its byte-addressed client sees it. The interface is a
  locale, \<open>byte_store\<close>: a read and a write of one byte at an address, and the laws of a
  store over 65536 byte addresses. The clients' facts (block writes, independence of the
  order of writes) are proved once there. The simulator's \<open>ldb\<close> and \<open>stb\<close> implement it on
  plain addresses; word loads and stores are the little-endian combination of two bytes.
\<close>

section \<open>The interface\<close>

lemma offsets_distinct:
  assumes "i < 65536" "j < 65536" "i \<noteq> j"
  shows "(a + int i) mod 65536 \<noteq> (a + int j) mod 65536"
proof
  assume "(a + int i) mod 65536 = (a + int j) mod 65536"
  from mod_diff_cong [OF this refl [of "a mod 65536"]]
  have "int i mod 65536 = int j mod 65536" by simp
  then show False using assms by simp
qed

locale byte_store =
  fixes rd :: "int \<Rightarrow> 'm \<Rightarrow> int" and wr :: "int \<Rightarrow> int \<Rightarrow> 'm \<Rightarrow> 'm"
    and plain :: "'m \<Rightarrow> int \<Rightarrow> bool" and inv :: "'m \<Rightarrow> bool"
  assumes wr_inv: "inv m \<Longrightarrow> inv (wr a v m)"
    and plain_wr: "plain (wr a v m) b = plain m b"
    and rd_wr_same: "inv m \<Longrightarrow> plain m a \<Longrightarrow> b mod 65536 = a mod 65536 \<Longrightarrow> rd b (wr a v m) = v mod 256"
    and rd_wr_other: "inv m \<Longrightarrow> a mod 65536 \<noteq> b mod 65536 \<Longrightarrow> rd b (wr a v m) = rd b m"
begin

text \<open>Writing a block of bytes at consecutive addresses, last byte first.\<close>

lemma block_inv: "inv m \<Longrightarrow> inv (foldr (\<lambda>i. wr (a + int i) (f i)) is m)"
  by (induction "is") (simp_all add: wr_inv)

lemma block_plain: "plain (foldr (\<lambda>i. wr (a + int i) (f i)) is m) b = plain m b"
  by (induction "is") (simp_all add: plain_wr)

lemma block_read_other:
  "inv m \<Longrightarrow> (\<And>i. i \<in> set is \<Longrightarrow> (a + int i) mod 65536 \<noteq> b mod 65536) \<Longrightarrow>
   rd b (foldr (\<lambda>i. wr (a + int i) (f i)) is m) = rd b m"
  by (induction "is") (simp_all add: rd_wr_other block_inv)

lemma block_read:
  assumes "inv m" "distinct is" "\<And>i. i \<in> set is \<Longrightarrow> i < 65536" "j \<in> set is"
    "plain m (a + int j)"
  shows "rd (a + int j) (foldr (\<lambda>i. wr (a + int i) (f i)) is m) = f j mod 256"
  using assms(2-4)
proof (induction "is")
  case (Cons i "is")
  show ?case
  proof (cases "i = j")
    case True
    then show ?thesis using assms(1,5) by (simp add: rd_wr_same block_inv block_plain)
  next
    case False
    then have "(a + int i) mod 65536 \<noteq> (a + int j) mod 65536"
      using Cons.prems by (intro offsets_distinct) auto
    then show ?thesis
      using Cons False assms(1) by (auto simp: rd_wr_other block_inv)
  qed
qed simp

lemma writes_commute:
  assumes "inv m" "plain m a" "plain m b" "a mod 65536 \<noteq> b mod 65536"
  shows "rd c (wr a v (wr b u m)) = rd c (wr b u (wr a v m))"
proof -
  consider "c mod 65536 = a mod 65536" | "c mod 65536 = b mod 65536"
    | "a mod 65536 \<noteq> c mod 65536" "b mod 65536 \<noteq> c mod 65536" by fastforce
  then show ?thesis
  proof cases
    case 1
    then have "b mod 65536 \<noteq> c mod 65536" using assms(4) by simp
    with 1 show ?thesis
      using assms by (simp add: rd_wr_same [of _ a] rd_wr_other [of _ b] wr_inv plain_wr)
  next
    case 2
    then have "a mod 65536 \<noteq> c mod 65536" using assms(4) by simp
    with 2 show ?thesis
      using assms by (simp add: rd_wr_same [of _ b] rd_wr_other [of _ a] wr_inv plain_wr)
  next
    case 3
    then show ?thesis
      using assms by (simp add: rd_wr_other [of _ a] rd_wr_other [of _ b] wr_inv)
  qed
qed

end

section \<open>The simulator's bytes\<close>

text \<open>An address whose word is neither the test interrupt nor an enabled UART register.\<close>

definition plain_addr :: "sim \<Rightarrow> int \<Rightarrow> bool" where
  "plain_addr m a \<longleftrightarrow> word_index a \<noteq> TEST_IRQ_W \<and>
     (sim_uart m \<longrightarrow> word_index a \<noteq> UART_DATA_W \<and> word_index a \<noteq> UART_STATE_W)"

definition read_byte :: "int \<Rightarrow> sim \<Rightarrow> int" where
  "read_byte a m = ldb a False m"

lemma word_index_mod: "word_index a = (a mod 65536) div 2"
proof -
  have "a mod 65536 = 2 * ((a div 2) mod 32768) + a mod 2"
    using zmod_zmult2_eq [of 32768 a 2] by simp
  then show ?thesis by (simp add: word_index_def mask_simps)
qed

lemma same_byte_iff:
  "a mod 65536 = b mod 65536 \<longleftrightarrow> word_index a = word_index b \<and> a mod 2 = b mod (2::int)"
proof -
  have split: "x mod 65536 = 2 * word_index x + x mod 2" for x :: int
    using zmod_zmult2_eq [of 32768 x 2] by (simp add: word_index_def mask_simps)
  have par: "x mod 2 = (x mod 65536) mod 2" for x :: int
    by (rule mod_mod_cancel [symmetric]) simp
  show ?thesis
  proof
    assume eq: "a mod 65536 = b mod 65536"
    then show "word_index a = word_index b \<and> a mod 2 = b mod 2"
      using par [of a] par [of b] by (simp add: word_index_mod)
  next
    assume "word_index a = word_index b \<and> a mod 2 = b mod 2"
    then show "a mod 65536 = b mod 65536" using split [of a] split [of b] by simp
  qed
qed

lemma low_merge: "((x AND 65280) OR (y AND 255)) AND 255 = y AND (255::int)"
  by (simp add: bit.conj_disj_distrib2 and.assoc)

lemma high_merge: "drop_bit 8 ((x AND 65280) OR (y AND 255)) AND 255 = drop_bit 8 x AND (255::int)"
  by (simp add: and.assoc)

lemma low_merge2: "((x AND 255) OR (y AND 65280)) AND 255 = x AND (255::int)"
  by (simp add: bit.conj_disj_distrib2 and.assoc)

lemma high_merge2: "drop_bit 8 ((x AND 255) OR (y AND 65280)) AND 255 = drop_bit 8 y AND (255::int)"
  by (simp add: and.assoc)

lemma merge_bytes_low: "merge_bytes old v 1 AND 255 = v AND 255"
    "drop_bit 8 (merge_bytes old v 1) AND 255 = drop_bit 8 old AND 255"
  by (simp_all add: merge_bytes_def low_merge high_merge)

lemma merge_bytes_high: "merge_bytes old v 2 AND 255 = old AND 255"
    "drop_bit 8 (merge_bytes old v 2) AND 255 = drop_bit 8 v AND 255"
  by (simp_all add: merge_bytes_def low_merge2 high_merge2)

lemma read_byte_alt:
  "read_byte a m = (if a mod 2 = 0 then sim_mem m ! nat (word_index a) AND 255
     else drop_bit 8 (sim_mem m ! nat (word_index a)) AND 255)"
  by (simp add: read_byte_def ldb_def Let_def mask_simps and_one_eq)

lemma store_word_plain:
  assumes "wf_sim m" "plain_addr m a"
  shows "sim_mem (store_word a v k m) =
    (sim_mem m)[nat (word_index a) := merge_bytes (sim_mem m ! nat (word_index a)) v k]"
  using assms by (auto simp: store_word_def Let_def plain_addr_def)

lemma store_word_mem_other:
  assumes "w \<noteq> word_index a" "0 \<le> w"
  shows "sim_mem (store_word a v k m) ! nat w = sim_mem m ! nat w"
  using assms word_index_range [of a]
  by (simp add: store_word_def Let_def nth_list_update eq_nat_nat_iff)

lemma store_word_mem_same:
  assumes "wf_sim m" "plain_addr m a"
  shows "sim_mem (store_word a v k m) ! nat (word_index a) =
    merge_bytes (sim_mem m ! nat (word_index a)) v k"
  using assms word_index_nat [of a]
  by (simp add: store_word_plain wf_sim_def words16_def)

lemma plain_store_word: "plain_addr (store_word a v k m) b = plain_addr m b"
  by (simp add: plain_addr_def store_word_def Let_def)

lemma plain_stb: "plain_addr (stb a v m) b = plain_addr m b"
  by (simp add: stb_def plain_store_word)

lemma read_stb_same:
  assumes "wf_sim m" "plain_addr m a" "b mod 65536 = a mod 65536"
  shows "read_byte b (stb a v m) = v mod 256"
proof -
  have w: "word_index b = word_index a" and p: "b mod 2 = a mod 2"
    using assms(3) same_byte_iff by blast+
  show ?thesis
  proof (cases "a mod 2 = 0")
    case True
    then have "stb a v m = store_word a (v AND 255) 1 m"
      by (simp add: stb_def and_one_eq)
    then show ?thesis
      using True p assms(1,2)
      by (simp add: read_byte_alt w store_word_mem_same merge_bytes_low and.assoc flip: and_255)
  next
    case False
    then have "stb a v m = store_word a (push_bit 8 (v AND 255)) 2 m"
      by (simp add: stb_def and_one_eq)
    moreover have "drop_bit 8 (push_bit 8 (v AND 255)) AND 255 = v mod 256"
      by (simp add: and.assoc mask_simps)
    ultimately show ?thesis
      using False p assms(1,2)
      by (simp add: read_byte_alt w store_word_mem_same merge_bytes_high flip: and_255)
  qed
qed

lemma read_stb_other:
  assumes "wf_sim m" "a mod 65536 \<noteq> b mod 65536"
  shows "read_byte b (stb a v m) = read_byte b m"
proof (cases "word_index b = word_index a \<and> sim_mem (stb a v m) \<noteq> sim_mem m")
  case False
  then show ?thesis
    using word_index_range [of b]
    by (auto simp: read_byte_alt stb_def store_word_mem_other)
next
  case True
  then have par: "b mod 2 \<noteq> a mod 2" using assms(2) same_byte_iff by metis
  have i: "nat (word_index a) < length (sim_mem m)"
    using assms(1) word_index_nat by (simp add: wf_sim_def words16_def)
  have upd: "sim_mem (store_word a u k m) ! nat (word_index a) =
      merge_bytes (sim_mem m ! nat (word_index a)) u k" if "sim_mem (store_word a u k m) \<noteq> sim_mem m"
    for u k
    using that i by (auto simp: store_word_def Let_def split: if_splits)
  show ?thesis
  proof (cases "a mod 2 = 0")
    case True': True
    then have st: "stb a v m = store_word a (v AND 255) 1 m"
      by (simp add: stb_def and_one_eq)
    have "b mod 2 = 1" using par True' by presburger
    then show ?thesis
      using True upd [of "v AND 255" 1] by (simp add: read_byte_alt st merge_bytes_low)
  next
    case False
    then have st: "stb a v m = store_word a (push_bit 8 (v AND 255)) 2 m"
      by (simp add: stb_def and_one_eq)
    have "b mod 2 = 0" using par False by presburger
    then show ?thesis
      using True upd [of "push_bit 8 (v AND 255)" 2]
      by (simp add: read_byte_alt st merge_bytes_high)
  qed
qed

interpretation ram: byte_store read_byte stb plain_addr wf_sim
  by unfold_locales (auto intro: wf_stb simp: plain_stb read_stb_same read_stb_other)

section \<open>Words\<close>

text \<open>The two bytes of a word, little-endian.\<close>

lemma word_of_bytes:
  "fits 16 w \<Longrightarrow> w = (w AND 255) + 256 * (drop_bit 8 w AND 255)"
proof -
  assume "fits 16 w"
  then have "w div 256 < 256" "0 \<le> w div 256"
    using div_less_bound [of w 256 256] by (simp_all add: fits_def pos_imp_zdiv_nonneg_iff)
  then have "w div 256 mod 256 = w div 256" by simp
  then show ?thesis by (simp add: mask_simps)
qed

lemma load_word_plain: "plain_addr m a \<Longrightarrow> load_word a m = (sim_mem m ! nat (word_index a), m)"
proof -
  assume "plain_addr m a"
  then have "(word_index a = TEST_IRQ_W) = False"
    "(sim_uart m \<and> word_index a = UART_DATA_W) = False"
    "(sim_uart m \<and> word_index a = UART_STATE_W) = False"
    unfolding plain_addr_def by blast+
  then show ?thesis by (simp only: load_word_def Let_def if_False)
qed

lemma load_word_bytes:
  assumes "wf_sim m" "plain_addr m a" "a mod 2 = 0"
  shows "fst (load_word a m) = read_byte a m + 256 * read_byte (a + 1) m"
proof -
  have "(a + 1) div 2 = a div 2" and odd: "(a + 1) mod 2 = 1"
    using assms(3) by presburger+
  then have "word_index (a + 1) = word_index a" by (simp add: word_index_def mask_simps)
  moreover note odd
  moreover have "fits 16 (sim_mem m ! nat (word_index a))"
    using assms(1) word_index_nat by (rule mem_fits)
  ultimately show ?thesis
    using assms by (simp add: load_word_plain read_byte_alt flip: word_of_bytes)
qed

lemma merge_bytes_both: "fits 16 v \<Longrightarrow> merge_bytes old v 3 = v"
proof -
  assume v: "fits 16 v"
  have "merge_bytes old v 3 = (v AND 255) OR (v AND 65280)"
    by (simp add: merge_bytes_def bit.conj_disj_distrib2 and.assoc)
  also have "\<dots> = v AND (255 OR 65280)" by (rule bit.conj_disj_distrib [symmetric])
  also have "\<dots> = v" using v by (simp add: mask_simps fits_def)
  finally show ?thesis .
qed

lemma load_store_word:
  assumes "wf_sim m" "plain_addr m a" "fits 16 v"
  shows "fst (load_word a (store_word a v 3 m)) = v"
  using assms by (simp add: load_word_plain plain_store_word store_word_mem_same merge_bytes_both)

end
