(* ===== verification/SimRun.thy ===== *)
theory SimRun
  imports SimFrame
begin

text \<open>
  The run loop of the simulator (\<open>Sim.run\<close>), the verdict \<open>main\<close> derives from it, and the
  general theory of step machines it rests on. The loop is a partial function: with
  \<open>max_insns <= 0\<close> it need not end, and \<open>None\<close> is "does not return". The window callback
  \<open>update\<close> is a parameter: \<open>upd k\<close> says whether its \<open>k\<close>-th call returned something other
  than \<open>False\<close>.
\<close>

section \<open>Machines with a partial step\<close>

fun iterE :: "nat \<Rightarrow> ('s \<Rightarrow> ('e, 's) result) \<Rightarrow> 's \<Rightarrow> ('e, 's) result" where
  "iterE 0 f s = Inr s"
| "iterE (Suc n) f s = bindE (f s) (iterE n f)"

text \<open>The interface of a machine: a step that may raise and an invariant it keeps.\<close>

locale machine =
  fixes stp :: "'s \<Rightarrow> ('e, 's) result" and inv :: "'s \<Rightarrow> bool"
  assumes stp_inv: "inv s \<Longrightarrow> stp s = Inr s' \<Longrightarrow> inv s'"
begin

lemma iter_inv: "inv s \<Longrightarrow> iterE n stp s = Inr s' \<Longrightarrow> inv s'"
  by (induction n arbitrary: s) (auto simp: bindE_Inr_iff intro: stp_inv)

lemma iter_rel:
  assumes refl: "\<And>s. R s s" and trans: "\<And>a b c. inv a \<Longrightarrow> R a b \<Longrightarrow> R b c \<Longrightarrow> R a c"
    and step: "\<And>s s'. inv s \<Longrightarrow> stp s = Inr s' \<Longrightarrow> R s s'"
  shows "inv s \<Longrightarrow> iterE n stp s = Inr s' \<Longrightarrow> R s s'"
proof (induction n arbitrary: s)
  case 0
  then show ?case using refl by simp
next
  case (Suc n)
  then obtain t where t: "stp s = Inr t" "iterE n stp t = Inr s'"
    by (auto simp: bindE_Inr_iff)
  have "R t s'" using Suc.IH [OF stp_inv [OF Suc.prems(1) t(1)] t(2)] .
  then show ?case using trans [OF Suc.prems(1) step [OF Suc.prems(1) t(1)]] by blast
qed

end

text \<open>A machine with a clock that every step advances: runs below a bound are finite.\<close>

locale clocked_machine = machine stp inv
  for stp :: "'s \<Rightarrow> ('e, 's) result" and inv :: "'s \<Rightarrow> bool" +
  fixes clock :: "'s \<Rightarrow> int"
  assumes stp_clock: "inv s \<Longrightarrow> stp s = Inr s' \<Longrightarrow> clock s < clock s'"
begin

lemma iter_clock: "inv s \<Longrightarrow> iterE n stp s = Inr s' \<Longrightarrow> clock s + int n \<le> clock s'"
proof (induction n arbitrary: s)
  case (Suc n)
  then obtain t where t: "stp s = Inr t" "iterE n stp t = Inr s'"
    by (auto simp: bindE_Inr_iff)
  then show ?case
    using Suc.IH [OF stp_inv [OF Suc.prems(1) t(1)] t(2)] stp_clock [OF Suc.prems(1) t(1)]
    by simp
qed simp

text \<open>Induction on the time left until a bound.\<close>

lemma time_induct [consumes 1, case_names step]:
  assumes "inv s"
    and "\<And>s. inv s \<Longrightarrow> (\<And>s'. clock s < bnd \<Longrightarrow> stp s = Inr s' \<Longrightarrow> P s') \<Longrightarrow> P s"
  shows "P s"
  using assms(1)
proof (induction "nat (bnd - clock s)" arbitrary: s rule: less_induct)
  case less
  show ?case
  proof (rule assms(2) [OF less.prems])
    fix s' assume "clock s < bnd" and s': "stp s = Inr s'"
    then have "nat (bnd - clock s') < nat (bnd - clock s)"
      using stp_clock [OF less.prems s'] by simp
    then show "P s'" using less.hyps stp_inv [OF less.prems s'] by blast
  qed
qed

end

section \<open>The simulator as a clocked machine\<close>

text \<open>
  An executed instruction advances the counter by one; an interrupt entry does not, but it
  clears the interrupt enable, so no two entries follow each other.
\<close>

definition sim_clock :: "sim \<Rightarrow> int" where
  "sim_clock m = 2 * sim_insns m + (if sim_ie m = 0 then 1 else 0)"

lemma step_clock:
  assumes "wf_sim m" and "step m = Inr m'"
  shows "sim_clock m < sim_clock m'"
  using assms(2)
proof (cases rule: step_cases)
  case irq
  then show ?thesis by (simp add: sim_clock_def frame_simps irq_pending_def)
next
  case (insn m2 p)
  have "sim_insns m2 = sim_insns m + 1"
    using exec_insn_evolves [OF insn(2)] by (simp add: evolves_def)
  then show ?thesis using insn(3) by (simp add: sim_clock_def frame_simps)
qed

interpretation simm: clocked_machine step wf_sim sim_clock
  by unfold_locales (auto intro: wf_step step_clock)

section \<open>The run loop\<close>

definition keeps_running :: "int \<Rightarrow> sim \<Rightarrow> bool" where
  "keeps_running max_insns m \<longleftrightarrow>
     (max_insns \<le> 0 \<or> sim_insns m < max_insns) \<and> \<not> sim_done m \<and> \<not> sim_halted m"

partial_function (option) run_loop ::
  "int \<Rightarrow> (nat \<Rightarrow> bool) option \<Rightarrow> int \<Rightarrow> nat \<Rightarrow> int \<Rightarrow> sim \<Rightarrow> (sim_error, sim) result option"
where
  "run_loop max_insns upd upd_insns k next_update m =
     (if keeps_running max_insns m then
        (case step m of
           Inl e \<Rightarrow> Some (Inl e)
         | Inr m1 \<Rightarrow>
             (case upd of
                None \<Rightarrow> run_loop max_insns upd upd_insns k next_update m1
              | Some f \<Rightarrow>
                  if sim_insns m1 \<ge> next_update then
                    (if \<not> f k then Some (Inr m1)
                     else run_loop max_insns upd upd_insns (Suc k) (sim_insns m1 + upd_insns) m1)
                  else run_loop max_insns upd upd_insns k next_update m1))
      else Some (Inr m))"

definition outcome_of :: "sim \<Rightarrow> string" where
  "outcome_of m = (if sim_done m then ''DONE'' else if sim_halted m then ''HALT'' else ''TIMEOUT'')"

definition run ::
  "int \<Rightarrow> (nat \<Rightarrow> bool) option \<Rightarrow> int \<Rightarrow> sim \<Rightarrow> (sim_error, sim \<times> string) result option" where
  "run max_insns upd upd_insns m =
     map_option (\<lambda>res. bindE res (\<lambda>m'. Inr (m', outcome_of m')))
       (run_loop max_insns upd upd_insns 0 upd_insns m)"

section \<open>Termination and partial correctness\<close>

lemma run_loop_terminates:
  assumes "0 < mx" and "wf_sim m"
  shows "\<exists>res. run_loop mx upd ui k nu m = Some res"
  using assms(2)
proof (induction m arbitrary: k nu rule: simm.time_induct [where bnd = "2 * mx"])
  case (step m)
  show ?case
  proof (cases "keeps_running mx m")
    case False
    then show ?thesis by (simp add: run_loop.simps)
  next
    case True
    then have "sim_insns m < mx" using assms(1) by (simp add: keeps_running_def)
    then have "sim_clock m < 2 * mx" by (simp add: sim_clock_def)
    then have rec: "\<And>s' k nu. SimStep.step m = Inr s' \<Longrightarrow> \<exists>res. run_loop mx upd ui k nu s' = Some res"
      using step by blast
    show ?thesis
      using rec True
      by (subst run_loop.simps) (auto split: sum.split option.split)
  qed
qed

text \<open>What a returned state is: reached by some number of steps, none of them past a stop.\<close>

lemma run_loop_reaches:
  assumes "run_loop mx upd ui k nu m = Some (Inr m')"
  shows "\<exists>n. iterE n step m = Inr m' \<and>
    (\<forall>j < n. \<exists>mj. iterE j step m = Inr mj \<and> keeps_running mx mj) \<and>
    (\<not> keeps_running mx m' \<or> upd \<noteq> None)"
proof (rule run_loop.raw_induct [where P = "\<lambda>mx upd ui k nu m res. \<forall>m'. res = Inr m' \<longrightarrow>
      (\<exists>n. iterE n step m = Inr m' \<and>
       (\<forall>j < n. \<exists>mj. iterE j step m = Inr mj \<and> keeps_running mx mj) \<and>
       (\<not> keeps_running mx m' \<or> upd \<noteq> None))", OF _ assms, rule_format, OF _ refl])
  fix rl :: "int \<Rightarrow> (nat \<Rightarrow> bool) option \<Rightarrow> int \<Rightarrow> nat \<Rightarrow> int \<Rightarrow> sim \<Rightarrow> (sim_error, sim) result option"
    and mx ui nu :: int and upd :: "(nat \<Rightarrow> bool) option" and k m res m'
  let ?Q = "\<lambda>m m' n. iterE n step m = Inr m' \<and>
       (\<forall>j < n. \<exists>mj. iterE j step m = Inr mj \<and> keeps_running mx mj) \<and>
       (\<not> keeps_running mx m' \<or> upd \<noteq> None)"
  assume IH: "\<And>mx upd ui k nu m res m'. rl mx upd ui k nu m = Some res \<Longrightarrow> res = Inr m' \<Longrightarrow>
      \<exists>n. iterE n step m = Inr m' \<and>
       (\<forall>j < n. \<exists>mj. iterE j step m = Inr mj \<and> keeps_running mx mj) \<and>
       (\<not> keeps_running mx m' \<or> upd \<noteq> None)"
    and eq: "(if keeps_running mx m then
        (case step m of
           Inl e \<Rightarrow> Some (Inl e)
         | Inr m1 \<Rightarrow>
             (case upd of
                None \<Rightarrow> rl mx upd ui k nu m1
              | Some f \<Rightarrow>
                  if nu \<le> sim_insns m1 then
                    (if \<not> f k then Some (Inr m1) else rl mx upd ui (Suc k) (sim_insns m1 + ui) m1)
                  else rl mx upd ui k nu m1))
      else Some (Inr m)) = Some res" and res: "res = Inr m'"
  show "\<exists>n. ?Q m m' n"
  proof (cases "keeps_running mx m")
    case False
    then have "?Q m m' 0" using eq res by simp
    then show ?thesis ..
  next
    case True
    then obtain m1 where m1: "step m = Inr m1"
      using eq res by (cases "step m") auto
    have later: "\<exists>n. ?Q m m' n" if "?Q m1 m' n" for n
    proof
      show "?Q m m' (Suc n)"
        using that m1 True by (auto simp: less_Suc_eq_0_disj)
    qed
    have "(\<exists>n. ?Q m1 m' n) \<or> (m' = m1 \<and> upd \<noteq> None)"
      using eq res True m1
      by (auto split: option.splits if_splits dest!: IH)
    then show ?thesis
    proof
      assume "\<exists>n. ?Q m1 m' n"
      then show ?thesis using later by blast
    next
      assume "m' = m1 \<and> upd \<noteq> None"
      then have "?Q m1 m' 0" by simp
      then show ?thesis by (rule later)
    qed
  qed
qed

end
