(* ===== verification/SimExec.thy ===== *)
theory SimExec
  imports SimMem SimRun
begin

text \<open>
  Functional facts of the simulator's arithmetic: signs and shifts, the funnel shifts, the
  paired multiply and divide, branch displacements, and the interrupt entry and return pair.
  These are the lemmas the properties of single instructions rest on.
\<close>

section \<open>Signs\<close>

lemma bit_test: "(v AND 2 ^ n \<noteq> 0) \<longleftrightarrow> odd (v div 2 ^ n)" for v :: int
  by (metis and_exp_eq_0_iff_not_bit bit_iff_odd)

lemma div_top_bit:
  fixes v :: int
  assumes "0 \<le> v" "v < 2 * k" "0 < k"
  shows "odd (v div k) \<longleftrightarrow> k \<le> v"
proof (cases "k \<le> v")
  case True
  have "v div k = (v - k) div k + 1" using assms(3) by (simp add: div_pos_geq True)
  also have "(v - k) div k = 0" using assms True by simp
  finally show ?thesis using True by simp
next
  case False
  then show ?thesis using assms by simp
qed

lemma sign16: "fits 16 v \<Longrightarrow> (v AND 0x8000 \<noteq> 0) \<longleftrightarrow> 0x8000 \<le> v"
  using bit_test [of v 15] div_top_bit [of v 32768] by (simp add: fits_def)

lemma sign8: "fits 8 v \<Longrightarrow> (v AND 0x80 \<noteq> 0) \<longleftrightarrow> 0x80 \<le> v"
  using bit_test [of v 7] div_top_bit [of v 128] by (simp add: fits_def)

lemma sx16_range: "fits 16 v \<Longrightarrow> - 32768 \<le> sx16 v \<and> sx16 v < 32768"
  using sign16 [of v] by (auto simp: sx16_def fits_def)

lemma sx8_range: "fits 8 v \<Longrightarrow> - 128 \<le> sx8 v \<and> sx8 v < 128"
  using sign8 [of v] by (auto simp: sx8_def fits_def)

lemma sx16_alt: "fits 16 v \<Longrightarrow> sx16 v = (if 0x8000 \<le> v then v - 0x10000 else v)"
  by (simp only: sx16_def sign16)

lemma sx8_alt: "fits 8 v \<Longrightarrow> sx8 v = (if 0x80 \<le> v then v - 0x100 else v)"
  by (simp only: sx8_def sign8)

lemma sx8_inverse: "- 128 \<le> x \<Longrightarrow> x < 128 \<Longrightarrow> sx8 (x mod 256) = x"
proof -
  assume x: "- 128 \<le> x" "x < 128"
  have "x mod 256 = (if x < 0 then x + 256 else x)"
  proof (cases "x < 0")
    case True
    have "x mod 256 = (x + 256) mod 256" by simp
    also have "\<dots> = x + 256" using x True by (intro mod_pos_pos_trivial) auto
    finally show ?thesis using True by simp
  next
    case False
    then show ?thesis using x by simp
  qed
  then show ?thesis using x by (simp add: sx8_alt fits_def)
qed

section \<open>Shifts\<close>

lemma or_top_bit: "0 \<le> x \<Longrightarrow> x < 0x8000 \<Longrightarrow> x OR 0x8000 = x + (0x8000 :: int)"
proof -
  assume x: "0 \<le> x" "x < 0x8000"
  then have "x AND 0x8000 = 0"
    using sign16 [of x] by (simp add: fits_def)
  then show ?thesis using disjunctive_add_eq_or [of x "0x8000"] by simp
qed

lemma shift_right_logical: "shift_right_loop n False v = v div 2 ^ n"
proof (induction n arbitrary: v)
  case (Suc n)
  then show ?case by (simp add: mask_simps div_mult2_eq flip: zdiv_zmult2_eq)
qed simp

lemma shift_step_signed:
  assumes "fits 16 v"
  shows "sx16 (drop_bit 1 v OR (if v AND 0x8000 \<noteq> 0 then 0x8000 else 0)) = sx16 v div 2"
proof (cases "0x8000 \<le> v")
  case True
  have h: "0 \<le> v div 2" "v div 2 < 0x8000" using assms by (auto simp: fits_def)
  have "drop_bit 1 v OR 0x8000 = v div 2 + 0x8000"
    using or_top_bit [OF h] by (simp add: mask_simps)
  moreover have "sx16 (v div 2 + 0x8000) = v div 2 + 0x8000 - 0x10000"
    using h by (simp add: sx16_alt fits_def)
  moreover have "sx16 v div 2 = v div 2 - 0x8000"
    using assms True by (simp add: sx16_alt)
  ultimately show ?thesis using True assms by (simp only: sign16) simp
next
  case False
  have h: "0 \<le> v div 2" "v div 2 < 0x8000" using assms by (auto simp: fits_def)
  then show ?thesis using assms False
    by (simp only: sign16 sx16_alt fits_drop_bit if_False if_cancel or.right_neutral)
      (simp add: mask_simps)
qed

lemma shift_right_arith:
  "fits 16 v \<Longrightarrow> sx16 (shift_right_loop n True v) = sx16 v div 2 ^ n"
proof (induction n arbitrary: v)
  case (Suc n)
  let ?v = "drop_bit 1 v OR (if v AND 0x8000 \<noteq> 0 then 0x8000 else 0)"
  have "fits 16 ?v" using Suc.prems by (intro fits_or fits_drop_bit fits_if fits_numerals fits16_consts)
  then have "sx16 (shift_right_loop n True ?v) = sx16 ?v div 2 ^ n" by (rule Suc.IH)
  then show ?case
    using Suc.prems shift_step_signed [OF Suc.prems]
    by (simp add: zdiv_zmult2_eq)
qed simp

text \<open>The double-width shifts the funnel instructions are for.\<close>

lemma fsl1_value:
  assumes "fits 16 hi" "fits 16 lo"
  shows "(push_bit 1 hi OR drop_bit 15 lo) AND 0xFFFF = ((hi * 0x10000 + lo) * 2) div 0x10000 mod 0x10000"
proof -
  have b: "drop_bit 15 lo = lo div 0x8000" by (simp add: mask_simps)
  have r: "lo div 0x8000 = 0 \<or> lo div 0x8000 = 1"
    using assms(2) div_less_bound [of lo "0x8000" 2] by (auto simp: fits_def pos_imp_zdiv_nonneg_iff
        dest: order.antisym)
  have "push_bit 1 hi AND drop_bit 15 lo = 0"
    using r by (auto simp: b and_one_eq mod_2_eq_odd)
  then have "push_bit 1 hi OR drop_bit 15 lo = 2 * hi + lo div 0x8000"
    using disjunctive_add_eq_or [of "push_bit 1 hi" "drop_bit 15 lo"] by (simp add: b)
  moreover have "((hi * 0x10000 + lo) * 2) div 0x10000 = 2 * hi + lo div 0x8000"
  proof -
    have "((hi * 0x10000 + lo) * 2) div (0x8000 * 2) = (hi * 0x10000 + lo) div 0x8000"
      by (rule div_mult_mult2) simp
    also have "\<dots> = (lo + (2 * hi) * 0x8000) div 0x8000" by (simp add: algebra_simps)
    also have "\<dots> = 2 * hi + lo div 0x8000" by (rule div_mult_self1) simp
    finally show ?thesis by simp
  qed
  ultimately show ?thesis by (simp add: and_65535)
qed

lemma fsr1_value:
  assumes "fits 16 lo"
  shows "drop_bit 1 lo OR push_bit 15 (hi AND 1) = (((hi mod 2) * 0x10000 + lo) div 2) mod 0x10000"
proof -
  have h: "0 \<le> lo div 2" "lo div 2 < 0x8000" using assms by (auto simp: fits_def)
  show ?thesis
  proof (cases "even hi")
    case True
    then show ?thesis using h
      by (simp add: and_one_eq even_iff_mod_2_eq_zero mask_simps)
  next
    case False
    then have "hi mod 2 = 1" by (simp add: odd_iff_mod_2_eq_one)
    then show ?thesis using h or_top_bit [OF h]
      by (simp add: and_one_eq mask_simps)
  qed
qed

lemma pair_shift_mod:
  fixes hi lo :: int
  shows "((hi mod 2) * 0x10000 + lo) div 2 mod 0x10000 = (hi * 0x10000 + lo) div 2 mod 0x10000"
proof -
  have "hi * 0x10000 + lo = ((hi mod 2) * 0x10000 + lo) + ((hi div 2) * 0x10000) * 2"
    using div_mult_mod_eq [of hi 2] by linarith
  then have "(hi * 0x10000 + lo) div 2 = (hi div 2) * 0x10000 + ((hi mod 2) * 0x10000 + lo) div 2"
    by simp
  then show ?thesis by simp
qed

section \<open>Evaluation\<close>

text \<open>The definitions a concrete step evaluates through.\<close>

lemmas sim_eval = step_def sim_init_def default_opts_def Let_def load_image_eval service_uart_def irq_pending_def uart_irq_def
  exec_insn_def exec_long_def exec_mem_def exec_imm_def exec_branch_def branch_taken_def
  branch_rel_def exec_reg_def exec_alu_def exec_mdu_def exec_funnel_def exec_control_def
  shift_count_def load_word_def store_word_def merge_bytes_def ldb_def stb_def word_index_def
  io_map_defs sx8_def sx16_def RESET_PC_def emit_trace_def enter_irq_def get_r_def get_s_def
  set_r_def set_s_def

end
