(* ===== verification/SimProps.thy ===== *)
theory SimProps
  imports SimExec
begin

text \<open>
  The properties of the simulator: its runs end and account for every store, memory behaves
  as a little-endian byte store, an interrupt is transparent to the interrupted program, the
  arithmetic instructions compute what their names say, the UART delivers bytes in order,
  and reserved long encodings are executed instead of refused.
\<close>

section \<open>Runs\<close>

lemma run_loop_of_run:
  "run mx upd ui m = Some (Inr (m', oc)) \<longleftrightarrow>
   run_loop mx upd ui 0 ui m = Some (Inr m') \<and> oc = outcome_of m'"
  by (auto simp: run_def bindE_Inr_iff)

lemma boot_consistent:
  assumes "list_all (fits 8) img" "list_all (fits 8) (opt_uart_in opts)"
  shows "wf_sim (sim_init img opts)" "done_consistent (sim_init img opts)"
  using assms by (simp add: wf_sim_init) (simp add: done_consistent_def sim_init_def Let_def RESULT_W_def)

lemma iter_frame:
  assumes "wf_sim m" "iterE n step m = Inr m'"
  shows "mem_frame m m' \<and> (done_consistent m \<longrightarrow> done_consistent m') \<and> profile_of m' = profile_of m"
  using assms
  by (rule simm.iter_rel [where R = "\<lambda>m m'. mem_frame m m' \<and>
        (done_consistent m \<longrightarrow> done_consistent m') \<and> profile_of m' = profile_of m", rotated 3])
    (auto intro: mem_frame_trans simp: step_mem_frame)

lemma run_loop_state:
  assumes "run_loop mx upd ui k nu m = Some (Inr m')" "wf_sim m" "done_consistent m"
  shows "wf_sim m'" "mem_frame m m'" "done_consistent m'" "profile_of m' = profile_of m"
proof -
  obtain n where n: "iterE n step m = Inr m'"
    using run_loop_reaches [OF assms(1)] by blast
  show "wf_sim m'" using simm.iter_inv [OF assms(2) n] .
  show "mem_frame m m'" "done_consistent m'" "profile_of m' = profile_of m"
    using iter_frame [OF assms(2) n] assms(3) by blast+
qed

text \<open>
  C1: with a positive instruction budget the simulator's run always returns (a result or the
  \<open>Undefined\<close> exception), whatever the image, the options, the UART input and the callback.
\<close>

theorem run_terminates:
  assumes "0 < mx" "list_all (fits 8) img" "list_all (fits 8) (opt_uart_in opts)"
  shows "\<exists>res. run mx upd ui (sim_init img opts) = Some res"
  using run_loop_terminates [OF assms(1) boot_consistent(1) [OF assms(2,3)]]
  by (auto simp: run_def)

theorem run_terminates_witness:
  "\<exists>res. run 3 None 20000 (sim_init [0xFF, 0xA7] default_opts) =
     Some res"
  by (rule run_terminates) (simp_all add: fits_def default_opts_def)

text \<open>
  C2: when a run from a loaded image returns normally, the final state is well-formed, the
  outcome is DONE exactly when the result register was stored to, and a TIMEOUT without
  callback means that the instruction budget is used up.
\<close>

theorem run_outcome:
  assumes "list_all (fits 8) img" "list_all (fits 8) (opt_uart_in opts)"
    and "run mx upd ui (sim_init img opts) = Some (Inr (m', oc))"
  shows "wf_sim m' \<and> (oc = ''DONE'' \<longleftrightarrow> sim_mem_written m' ! nat RESULT_W) \<and>
    (oc = ''TIMEOUT'' \<and> upd = None \<longrightarrow> 0 < mx \<and> mx \<le> sim_insns m')"
proof -
  have loop: "run_loop mx upd ui 0 ui (sim_init img opts) = Some (Inr m')"
    and oc: "oc = outcome_of m'"
    using assms(3) unfolding run_loop_of_run by blast+
  note st = run_loop_state [OF loop boot_consistent [OF assms(1,2)]]
  have "0 < mx \<and> mx \<le> sim_insns m'" if "oc = ''TIMEOUT''" "upd = None"
    using run_loop_reaches [OF loop] that
    by (auto simp: oc outcome_of_def keeps_running_def split: if_splits)
  then show ?thesis
    using st by (simp add: oc outcome_of_def done_consistent_def)
qed

text \<open>A two-byte image that halts at once; the witnesses run it.\<close>

definition halt_image :: "int list" where
  "halt_image = [0xFF, 0xA7]"

lemma halt_image_bytes: "list_all (fits 8) halt_image" "list_all (fits 8) (opt_uart_in default_opts)"
  by (simp_all add: halt_image_def default_opts_def fits_def)

lemma halt_image_run:
  "\<exists>m'. run 3 None 20000 (sim_init halt_image default_opts) = Some (Inr (m', ''HALT''))"
proof -
  obtain m' where m': "step (sim_init halt_image default_opts) = Inr m'"
      "sim_halted m'" "\<not> sim_done m'"
    by (simp add: halt_image_def sim_eval)
  have k: "keeps_running 3 (sim_init halt_image default_opts)" "\<not> keeps_running 3 m'"
    using m'(2) by (simp_all add: keeps_running_def sim_init_def Let_def)
  show ?thesis
    using m' k by (simp add: run_def run_loop.simps [of _ _ _ _ _ "sim_init halt_image default_opts"]
        run_loop.simps [of _ _ _ _ _ m'] outcome_of_def)
qed

theorem run_outcome_witness:
  "\<exists>m'. run 3 None 20000 (sim_init halt_image default_opts) = Some (Inr (m', ''HALT'')) \<and>
     wf_sim m' \<and> \<not> sim_mem_written m' ! nat RESULT_W"
proof -
  obtain m' where m': "run 3 None 20000 (sim_init halt_image default_opts) = Some (Inr (m', ''HALT''))"
    using halt_image_run by blast
  show ?thesis using run_outcome [OF halt_image_bytes m'] m' by auto
qed

text \<open>
  C3: every change a run makes to memory is recorded in \<open>mem_written\<close> (what \<open>--dump-written\<close>
  prints): a word not marked there still holds the loaded image's word. The profile switches
  of the machine never change.
\<close>

theorem run_accounts_for_memory:
  assumes "list_all (fits 8) img" "list_all (fits 8) (opt_uart_in opts)"
    and "run mx upd ui (sim_init img opts) = Some (Inr (m', oc))"
    and "w < 32768" "\<not> sim_mem_written m' ! w"
  shows "sim_mem m' ! w = load_image img 0 (replicate 32768 0) ! w \<and>
    profile_of m' = profile_of (sim_init img opts)"
proof -
  have loop: "run_loop mx upd ui 0 ui (sim_init img opts) = Some (Inr m')"
    using assms(3) unfolding run_loop_of_run by blast
  note st = run_loop_state [OF loop boot_consistent [OF assms(1,2)]]
  have "length (sim_mem (sim_init img opts)) = 32768"
    using boot_consistent(1) [OF assms(1,2)] by (simp add: wf_sim_def words16_def)
  moreover have "sim_mem (sim_init img opts) = load_image img 0 (replicate 32768 0)"
    by (simp add: sim_init_def Let_def)
  ultimately show ?thesis using st(2,4) assms(4,5) unfolding mem_frame_def by metis
qed

theorem run_accounts_for_memory_witness:
  "\<exists>m'. run 3 None 20000 (sim_init halt_image default_opts) = Some (Inr (m', ''HALT'')) \<and>
     sim_mem m' ! nat RESULT_W = load_image halt_image 0 (replicate 32768 0) ! nat RESULT_W"
proof -
  obtain m' where m': "run 3 None 20000 (sim_init halt_image default_opts) = Some (Inr (m', ''HALT''))"
    using halt_image_run by blast
  have "\<not> sim_mem_written m' ! nat RESULT_W"
    using run_loop_state(3) [OF _ boot_consistent [OF halt_image_bytes]] m'
    by (auto simp: run_loop_of_run done_consistent_def outcome_of_def split: if_splits)
  moreover have "nat RESULT_W < 32768" by (simp add: RESULT_W_def)
  ultimately show ?thesis
    using run_accounts_for_memory [OF halt_image_bytes m'] m' by blast
qed

section \<open>Memory\<close>

text \<open>
  C4: byte stores and byte loads behave as a store over the 65536 byte addresses: outside the
  device registers a load returns the low byte last stored at that address (addresses wrap
  at 64 KiB), and a store at one address leaves every other byte as it was, the other byte
  of the same word included.
\<close>

theorem byte_memory:
  assumes "wf_sim m" "plain_addr m a"
  shows "ldb b False (stb a v m) =
    (if b mod 65536 = a mod 65536 then v mod 256 else ldb b False m)"
  using ram.rd_wr_same [OF assms, of b v] ram.rd_wr_other [OF assms(1), of a b v]
  by (auto simp: read_byte_def)

lemma wf_boot_halt: "wf_sim (sim_init halt_image default_opts)"
  by (rule wf_sim_init [OF halt_image_bytes])

theorem byte_memory_witness:
  "ldb 0x11235 False (stb 0x1235 0x1AB (sim_init halt_image default_opts)) = 0xAB"
  using byte_memory [OF wf_boot_halt, of "0x1235" "0x11235" "0x1AB"]
  by (simp add: plain_addr_def word_index_def io_map_defs sim_init_def Let_def default_opts_def)

text \<open>
  A word load at an even plain address is the little-endian combination of the two bytes
  there, and returns what a word store at that address put there.
\<close>

theorem word_memory:
  assumes "wf_sim m" "plain_addr m a" "a mod 2 = 0" "fits 16 v"
  shows "fst (load_word a m) = ldb a False m + 256 * ldb (a + 1) False m \<and>
    fst (load_word a (store_word a v 3 m)) = v"
  using load_word_bytes [OF assms(1-3)] load_store_word [OF assms(1,2,4)]
  by (simp add: read_byte_def)

theorem word_memory_witness:
  "fst (load_word 0x1234 (store_word 0x1234 0xBEEF 3 (sim_init halt_image default_opts))) = 0xBEEF"
  using word_memory [OF wf_boot_halt, of "0x1234" "0xBEEF"]
  by (simp add: plain_addr_def word_index_def io_map_defs sim_init_def Let_def default_opts_def fits_def)

section \<open>Interrupts\<close>

lemma reti_exec:
  "sim_sys_tier m \<Longrightarrow> \<not> sim_nano m \<Longrightarrow>
   exec_insn m 0xE8F8 p = Inr (m\<lparr>sim_ie := 1\<rparr>, drop_bit 1 (get_s m 0) AND 0x7FFF)"
  by (simp add: exec_insn_def exec_reg_def exec_control_def)

text \<open>
  C15: an interrupt is transparent. When one is pending at an instruction boundary, the step
  saves the byte address of the next instruction in S0, clears the enable bit and jumps to
  word 2; if the handler there is a single \<open>RETI S0\<close> (0xE8F8), the next step resumes at the
  interrupted program counter with interrupts enabled again and with the registers, the
  memory and S1..S7 unchanged.
\<close>

theorem irq_transparent:
  assumes wf: "wf_sim m" and "\<not> sim_nano m" and pend: "irq_pending (service_uart m)"
    and "sim_mem m ! 2 = 0xE8F8"
  shows "\<exists>m1 m2. step m = Inr m1 \<and> sim_pc m1 = 2 \<and> sim_ie m1 = 0 \<and> get_s m1 0 = 2 * sim_pc m \<and>
    step m1 = Inr m2 \<and> sim_pc m2 = sim_pc m \<and> sim_ie m2 = 1 \<and> sim_r m2 = sim_r m \<and>
    sim_mem m2 = sim_mem m \<and> drop 1 (sim_s m2) = drop 1 (sim_s m)"
proof -
  define m1 where "m1 = enter_irq (sim_mem m ! nat (sim_pc m AND 0x7FFF)) (service_uart m)"
  have s1: "step m = Inr m1"
    using pend by (simp add: step_def Let_def m1_def frame_simps)
  have pc: "0 \<le> sim_pc m" "sim_pc m < 32768" using wf by (simp_all add: wf_sim_def fits_def)
  have len: "length (sim_s m) = 8" using wf by (simp add: wf_sim_def words16_def)
  have f1: "sim_pc m1 = 2" "sim_ie m1 = 0" "sim_r m1 = sim_r m" "sim_mem m1 = sim_mem m"
    "sim_s m1 = (sim_s m)[0 := push_bit 1 (sim_pc m) AND 0xFFFF]"
    by (simp_all add: m1_def frame_simps)
  have s0: "get_s m1 0 = 2 * sim_pc m"
    using pc len by (simp add: get_s_def f1 and_65535)
  have prof: "profile_of (service_uart m1) = profile_of m"
    by (simp add: m1_def frame_simps)
  have tier: "sim_sys_tier (service_uart m1)" "\<not> sim_nano (service_uart m1)"
    using prof assms(2) pend by (simp_all add: profile_of_def irq_pending_def)
      (metis frame_simps(6) profile_of_def list.inject)+
  have np: "\<not> irq_pending (service_uart m1)" by (simp add: irq_pending_def frame_simps f1)
  let ?m1' = "(service_uart m1)\<lparr>sim_insns := sim_insns m1 + 1\<rparr>"
  have s0': "get_s ?m1' 0 = 2 * sim_pc m" using s0 by (simp add: get_s_def frame_simps)
  have tgt: "drop_bit 1 (2 * sim_pc m) AND 32767 = sim_pc m"
    using pc by (simp add: mask_simps)
  have "step m1 = Inr (emit_trace 0xE8F8 (?m1'\<lparr>sim_ie := 1, sim_pc := sim_pc m\<rparr>))"
    using np tier assms(4) tgt s0' reti_exec [of ?m1' 3]
    by (simp add: step_def Let_def frame_simps f1)
  then show ?thesis using s1 by (simp add: frame_simps f1 s0 len)
qed

text \<open>The witness machine: STI at word 0 has run, the test interrupt is raised, RETI at word 2.\<close>

definition irq_demo :: sim where
  "irq_demo = (sim_init [0xF8, 0xFF, 0, 0, 0xF8, 0xE8] default_opts)
     \<lparr>sim_pc := 5, sim_ie := 1, sim_irq_line := 1\<rparr>"

lemma wf_irq_demo: "wf_sim irq_demo"
proof -
  have "wf_sim (sim_init [0xF8, 0xFF, 0, 0, 0xF8, 0xE8] default_opts)"
    by (rule wf_sim_init) (simp_all add: default_opts_def fits_def)
  then show ?thesis by (simp add: irq_demo_def wf_sim_def fits_def)
qed

theorem irq_transparent_witness:
  "\<exists>m1 m2. step irq_demo = Inr m1 \<and> get_s m1 0 = 10 \<and> step m1 = Inr m2 \<and> sim_pc m2 = 5"
proof -
  have h: "\<not> sim_nano irq_demo" "irq_pending (service_uart irq_demo)" "sim_mem irq_demo ! 2 = 0xE8F8"
    "sim_pc irq_demo = 5"
    by (simp_all add: irq_demo_def sim_eval numeral_2_eq_2)
  show ?thesis using irq_transparent [OF wf_irq_demo h(1-3)] h(4) by auto
qed

section \<open>Arithmetic\<close>

lemma get_set_r [simp]:
  "length (sim_r m) = 8 \<Longrightarrow> 0 \<le> i \<Longrightarrow> i < 8 \<Longrightarrow> 0 \<le> j \<Longrightarrow> j < 8 \<Longrightarrow>
   get_r (set_r i v m) j = (if j = i then v else get_r m j)"
  by (simp add: get_r_def set_r_def nth_list_update eq_nat_nat_iff)

lemma length_set_r [simp]: "length (sim_r (set_r i v m)) = length (sim_r m)"
  by (simp add: set_r_def)

text \<open>
  C17: DIVU divides the 32-bit value held in the register pair by the divisor: when it does not
  raise, quotient and remainder satisfy the division identity, the remainder is below the
  divisor, both fit a register, and no other register changes.
\<close>

theorem divu_divides:
  assumes wf: "wf_sim m"
    and fields: "0 \<le> ddd" "ddd < 8" "0 \<le> aaa" "aaa < 8" "0 \<le> bbb" "bbb < 8"
    and ex: "exec_reg m ddd aaa 0x10 bbb p = Inr (m', p')"
  shows "get_r m' aaa * get_r m bbb + get_r m' ddd = get_r m ddd * 0x10000 + get_r m aaa \<and>
    get_r m' ddd < get_r m bbb \<and> fits 16 (get_r m' aaa) \<and> fits 16 (get_r m' ddd) \<and>
    (\<forall>i \<in> {0..7} - {ddd, aaa}. get_r m' i = get_r m i) \<and> p' = p"
proof -
  have len: "length (sim_r m) = 8" using wf by (simp add: wf_sim_def words16_def)
  have c: "card {ddd, aaa, bbb} = 3" and pre: "get_r m bbb \<noteq> 0" "get_r m ddd < get_r m bbb"
    and m': "m' = set_r ddd ((push_bit 16 (get_r m ddd) OR get_r m aaa) mod get_r m bbb)
        (set_r aaa ((push_bit 16 (get_r m ddd) OR get_r m aaa) div get_r m bbb) m)" "p' = p"
    using ex by (auto simp: exec_reg_def exec_mdu_def Let_def split: if_splits)
  have ne: "ddd \<noteq> aaa" using c by (auto simp: card_insert_if split: if_splits)
  have fits: "fits 16 (get_r m ddd)" "fits 16 (get_r m aaa)" "fits 16 (get_r m bbb)"
    using wf fields by (simp_all add: get_r_fits)
  have "0 < get_r m bbb" using pre fits(3) by (simp add: fits_def)
  moreover have "push_bit 16 (get_r m ddd) OR get_r m aaa = get_r m ddd * 0x10000 + get_r m aaa"
    using pair_value [OF fits(2)] .
  ultimately show ?thesis
    using fits_div_mod [OF fits(2,3,1) pre(2)] fields len ne
    by (simp add: m' pos_mod_bound div_mult_mod_eq)
qed

theorem divu_divides_witness:
  "\<exists>m' p'. exec_reg (set_r 1 0x12 (set_r 2 0x3456 (set_r 3 0x789
       (sim_init halt_image \<lparr>opt_sys_tier = True, opt_full = True, opt_mdu = True, opt_nano = False,
          opt_trace = False, opt_uart = False, opt_uart_in = [], opt_iflush = False\<rparr>)))) 1 2 0x10 3 0
     = Inr (m', p') \<and> get_r m' 2 * 0x789 + get_r m' 1 = 0x123456 \<and> get_r m' 1 < 0x789"
    (is "\<exists>m' p'. exec_reg ?m 1 2 0x10 3 0 = _ \<and> _")
proof -
  have wf: "wf_sim ?m"
    by (intro wf_set_r wf_sim_init halt_image_bytes) (simp_all add: fits_def)
  obtain m' p' where ex: "exec_reg ?m 1 2 0x10 3 0 = Inr (m', p')"
    by (simp add: exec_reg_def exec_mdu_def get_r_def set_r_def sim_init_def Let_def)
  have "get_r ?m 1 = 0x12" "get_r ?m 2 = 0x3456" "get_r ?m 3 = 0x789"
    by (simp_all add: get_r_def set_r_def sim_init_def Let_def)
  then show ?thesis
    using divu_divides [OF wf _ _ _ _ _ _ ex] ex by auto
qed

text \<open>
  MULHU leaves the full 32-bit product in the register pair, the low half in the
  destination and the high half in the other operand register.
\<close>

theorem mulhu_multiplies:
  assumes wf: "wf_sim m"
    and fields: "0 \<le> ddd" "ddd < 8" "0 \<le> aaa" "aaa < 8" "0 \<le> bbb" "bbb < 8"
    and ex: "exec_reg m ddd aaa 0x14 bbb p = Inr (m', p')"
  shows "get_r m' aaa * 0x10000 + get_r m' ddd = get_r m aaa * get_r m bbb \<and>
    fits 16 (get_r m' aaa) \<and> fits 16 (get_r m' ddd)"
proof -
  have len: "length (sim_r m) = 8" using wf by (simp add: wf_sim_def words16_def)
  let ?prod = "get_r m aaa * get_r m bbb"
  have ne: "ddd \<noteq> aaa"
    and m': "m' = set_r aaa (drop_bit 16 ?prod AND 0xFFFF) (set_r ddd (?prod AND 0xFFFF) m)"
    using ex by (auto simp: exec_reg_def exec_mdu_def Let_def split: if_splits)
  have f: "fits 16 (get_r m aaa)" "fits 16 (get_r m bbb)"
    using wf fields by (simp_all add: get_r_fits)
  have "?prod \<le> 0xFFFF * 0xFFFF" using f by (intro mult_mono) (auto simp: fits_def)
  then have b: "0 \<le> ?prod div 0x10000" "?prod div 0x10000 < 0x10000"
    using f div_less_bound [of ?prod "0x10000" "0x10000"]
    by (auto simp: fits_def pos_imp_zdiv_nonneg_iff)
  have "drop_bit 16 ?prod AND 0xFFFF = ?prod div 0x10000" "?prod AND 0xFFFF = ?prod mod 0x10000"
    using b by (simp_all add: mask_simps)
  then have m'': "m' = set_r aaa (?prod div 0x10000) (set_r ddd (?prod mod 0x10000) m)"
    using m' by simp
  have "fits 16 (?prod div 0x10000)" "fits 16 (?prod mod 0x10000)"
    using b by (simp_all add: fits_def)
  then show ?thesis
    using ne fields len by (simp add: m'' div_mult_mod_eq)
qed

theorem mulhu_multiplies_witness:
  "\<exists>m' p'. exec_reg (set_r 2 0xFFFF (set_r 3 0xFFFE
       (sim_init halt_image \<lparr>opt_sys_tier = True, opt_full = True, opt_mdu = True, opt_nano = False,
          opt_trace = False, opt_uart = False, opt_uart_in = [], opt_iflush = False\<rparr>))) 1 2 0x14 3 0
     = Inr (m', p') \<and> get_r m' 2 * 0x10000 + get_r m' 1 = 0xFFFF * 0xFFFE"
    (is "\<exists>m' p'. exec_reg ?m 1 2 0x14 3 0 = _ \<and> _")
proof -
  have wf: "wf_sim ?m"
    by (intro wf_set_r wf_sim_init halt_image_bytes) (simp_all add: fits_def)
  obtain m' p' where ex: "exec_reg ?m 1 2 0x14 3 0 = Inr (m', p')"
    by (simp add: exec_reg_def exec_mdu_def get_r_def set_r_def sim_init_def Let_def)
  have "get_r ?m 2 = 0xFFFF" "get_r ?m 3 = 0xFFFE"
    by (simp_all add: get_r_def set_r_def sim_init_def Let_def)
  then show ?thesis
    using mulhu_multiplies [OF wf _ _ _ _ _ _ ex] ex by auto
qed

text \<open>
  The single-bit loops of the right shifts compute the shift by \<open>n\<close>: SRLI the unsigned
  quotient by \<open>2 ^ n\<close>, SRAI the two's-complement quotient rounded towards minus infinity.
\<close>

theorem right_shifts:
  assumes "fits 16 v"
  shows "shift_right_loop n False v = v div 2 ^ n \<and>
    sx16 (shift_right_loop n True v) = sx16 v div 2 ^ n \<and> fits 16 (shift_right_loop n True v)"
  using assms by (simp add: shift_right_logical shift_right_arith fits_shift_right_loop)

theorem right_shifts_witness:
  "sx16 (shift_right_loop 3 True 0xFF01) = sx16 0xFF01 div 8"
proof -
  have "fits 16 0xFF01" by (simp add: fits_def)
  from right_shifts [OF this, of 3] show ?thesis by simp
qed

text \<open>
  The funnel shifts implement double-width shifts by one. For a register pair (hi, lo),
  FSL1 hi, lo yields the high half of the pair shifted left, and FSR1 lo, hi the low half of
  the pair shifted right.
\<close>

theorem funnel_shifts:
  assumes wf: "wf_sim m" and "\<not> sim_nano m"
    and fields: "0 \<le> ddd" "ddd < 8" "0 \<le> aaa" "aaa < 8"
  shows "exec_reg m ddd aaa 0x11 0 p =
      Inr (set_r ddd (((get_r m ddd * 0x10000 + get_r m aaa) * 2) div 0x10000 mod 0x10000) m, p) \<and>
    exec_reg m ddd aaa 0x11 1 p =
      Inr (set_r ddd (((get_r m aaa * 0x10000 + get_r m ddd) div 2) mod 0x10000) m, p)"
proof -
  have f: "fits 16 (get_r m ddd)" "fits 16 (get_r m aaa)"
    using wf fields by (simp_all add: get_r_fits)
  have "((get_r m aaa mod 2) * 0x10000 + get_r m ddd) div 2 mod 0x10000 =
      ((get_r m aaa * 0x10000 + get_r m ddd) div 2) mod 0x10000"
    by (rule pair_shift_mod)
  note fsr = fsr1_value [OF f(1), of "get_r m aaa", unfolded this]
  have "exec_reg m ddd aaa 0x11 0 p = Inr (set_r ddd
      ((push_bit 1 (get_r m ddd) OR drop_bit 15 (get_r m aaa)) AND 0xFFFF) m, p)"
    "exec_reg m ddd aaa 0x11 1 p = Inr (set_r ddd
      (drop_bit 1 (get_r m ddd) OR push_bit 15 (get_r m aaa AND 1)) m, p)"
    using assms(2) by (simp_all add: exec_reg_def exec_funnel_def Let_def)
  then show ?thesis by (simp only: fsl1_value [OF f] fsr simp_thms)
qed

theorem funnel_shifts_witness:
  "exec_reg (set_r 1 0x8001 (set_r 2 0xC000 (sim_init halt_image default_opts))) 1 2 0x11 0 0 =
     Inr (set_r 1 3 (set_r 1 0x8001 (set_r 2 0xC000 (sim_init halt_image default_opts))), 0)"
    (is "exec_reg ?m 1 2 0x11 0 0 = _")
proof -
  have wf: "wf_sim ?m"
    by (intro wf_set_r wf_boot_halt) (simp_all add: fits_def)
  have r: "get_r ?m 1 = 0x8001" "get_r ?m 2 = 0xC000" and n: "\<not> sim_nano ?m"
    by (simp_all add: get_r_def set_r_def sim_init_def default_opts_def Let_def)
  show ?thesis
    using funnel_shifts [OF wf n, of 1 2 0, THEN conjunct1] by (simp only: r) simp
qed

section \<open>UART\<close>

text \<open>
  Polling receive: before each step the UART is serviced, and a load of the data register
  takes the byte that is ready. \<open>receive n\<close> is \<open>n\<close> such polls, \<open>transmit\<close> a sequence of stores
  to the data register.
\<close>

fun receive :: "nat \<Rightarrow> sim \<Rightarrow> int list \<times> sim" where
  "receive 0 m = ([], m)"
| "receive (Suc n) m =
     (case load_word 0xFFF0 (service_uart m) of
        (b, m1) \<Rightarrow> (case receive n m1 of (bs, m2) \<Rightarrow> (b # bs, m2)))"

definition transmit :: "int list \<Rightarrow> sim \<Rightarrow> sim" where
  "transmit vs m = foldl (\<lambda>m v. store_word 0xFFF0 v 3 m) m vs"

lemma uart_data_index: "word_index 0xFFF0 = UART_DATA_W"
  by (simp add: word_index_def UART_DATA_W_def)

lemma load_uart_data:
  "sim_uart m \<Longrightarrow> load_word 0xFFF0 m =
     (sim_uart_rx_data m, m\<lparr>sim_uart_rx_ready := False, sim_uart_rx_overflow := False\<rparr>)"
  by (simp only: load_word_def uart_data_index Let_def io_map_distinct if_False simp_thms if_True)

lemma store_uart_data:
  "sim_uart m \<Longrightarrow> sim_uart_out (store_word 0xFFF0 v 3 m) = sim_uart_out m @ [v AND 0xFF] \<and>
     sim_uart (store_word 0xFFF0 v 3 m)"
  by (simp add: store_word_def uart_data_index Let_def)

text \<open>
  The UART delivers its input in order and without loss, one byte per poll, and appends
  the low byte of every word stored to its data register to the output, in order.
\<close>

theorem uart_fifo:
  assumes "sim_uart m" "\<not> sim_uart_rx_ready m" "n \<le> length (sim_uart_in m)"
  shows "fst (receive n m) = take n (sim_uart_in m) \<and>
    sim_uart_in (snd (receive n m)) = drop n (sim_uart_in m) \<and>
    sim_uart_out (transmit vs m) = sim_uart_out m @ map (\<lambda>v. v AND 0xFF) vs"
proof -
  have "fst (receive n m) = take n (sim_uart_in m) \<and>
      sim_uart_in (snd (receive n m)) = drop n (sim_uart_in m)"
    using assms
  proof (induction n arbitrary: m)
    case (Suc n)
    obtain b rest where uin: "sim_uart_in m = b # rest"
      using Suc.prems(3) by (cases "sim_uart_in m") auto
    let ?s = "m\<lparr>sim_uart_rx_data := b, sim_uart_in := rest, sim_uart_rx_ready := True\<rparr>"
    let ?m1 = "?s\<lparr>sim_uart_rx_ready := False, sim_uart_rx_overflow := False\<rparr>"
    have "service_uart m = ?s" using Suc.prems uin by (simp add: service_uart_def)
    moreover have "load_word 0xFFF0 ?s = (b, ?m1)"
      using load_uart_data [of ?s] Suc.prems(1) by simp
    moreover have "fst (receive n ?m1) = take n rest \<and> sim_uart_in (snd (receive n ?m1)) = drop n rest"
      using Suc.IH [of ?m1] Suc.prems uin by simp
    ultimately show ?case using uin by (simp add: case_prod_beta)
  qed simp
  moreover have "sim_uart_out (transmit vs m) = sim_uart_out m @ map (\<lambda>v. v AND 0xFF) vs"
    using assms(1) unfolding transmit_def
    by (induction vs arbitrary: m) (simp_all add: store_uart_data)
  ultimately show ?thesis by blast
qed

theorem uart_fifo_witness:
  "fst (receive 2 (sim_init [] (default_opts\<lparr>opt_uart := True, opt_uart_in := [72, 105, 33]\<rparr>))) = [72, 105]"
  using uart_fifo [of "sim_init [] (default_opts\<lparr>opt_uart := True, opt_uart_in := [72, 105, 33]\<rparr>)" 2 "[]"]
  by (simp add: sim_init_def default_opts_def Let_def)

section \<open>Reserved encodings\<close>

text \<open>
  C18: a halfword whose major opcode is 00 and which is not JALL is a reserved long encoding,
  but the simulator does not raise on it: it executes exactly the register-format instruction
  that has the same low fourteen bits.
\<close>

theorem reserved_long_is_executed:
  assumes "0 \<le> ir" "ir < 0x4000" "ir AND 0xC7FF \<noteq> 0x0034"
  shows "exec_insn m ir p = exec_insn m (ir OR 0xC000) p"
proof -
  have hi: "drop_bit 14 ir = 0" using assms(1,2) by (simp add: drop_bit_eq_div)
  have field: "drop_bit n (ir OR 0xC000) AND k = drop_bit n ir AND k"
    if "drop_bit n 0xC000 AND k = (0::int)" for n k
    using that by (simp add: drop_bit_or and.commute [of _ k] bit.conj_disj_distrib)
  have low: "(ir OR 0xC000) AND k = ir AND k" if "0xC000 AND k = (0::int)" for k
    using field [of 0 k] that by simp
  have "(ir OR 0xC000) AND 0xC7FF = (ir AND 0xC7FF) OR 0xC000"
    by (simp add: and.commute [of _ "0xC7FF"] bit.conj_disj_distrib)
  then have top: "drop_bit 14 ((ir OR 0xC000) AND 0xC7FF) = 3"
    by (simp add: drop_bit_or drop_bit_and hi)
  have "(ir OR 0xC000) AND 0xC7FF \<noteq> 0x0034"
  proof
    assume "(ir OR 0xC000) AND 0xC7FF = 0x0034"
    then show False using top by (simp only:) simp
  qed
  moreover have "drop_bit 14 (ir OR 0xC000) = 3" by (simp add: drop_bit_or hi)
  moreover have "drop_bit 11 (ir OR 0xC000) AND 7 = drop_bit 11 ir AND 7"
    "drop_bit 8 (ir OR 0xC000) AND 7 = drop_bit 8 ir AND 7"
    "drop_bit 3 (ir OR 0xC000) AND 0x1F = drop_bit 3 ir AND 0x1F"
    "(ir OR 0xC000) AND 7 = ir AND 7"
    by (rule field, simp)+ (rule low, simp)
  ultimately show ?thesis
    using assms(3) by (simp add: exec_insn_def Let_def hi del: drop_bit_or)
qed

theorem reserved_long_is_executed_witness:
  "exec_insn (sim_init halt_image default_opts) 0 1 = exec_insn (sim_init halt_image default_opts) 0xC000 1"
  using reserved_long_is_executed [of 0] by simp

end
