(* ===== verification/AsmExpr.thy ===== *)
theory AsmExpr
  imports PyText
begin

text \<open>
  Expressions of the reference assembler: \<open>parse_string\<close> and \<open>eval_expr\<close> of
  \<open>tools/riscc_asm.py\<close>, with the part of Python's own expression and string-literal syntax
  they reach through \<open>ast.parse\<close> and \<open>ast.literal_eval\<close>. The fragment modelled has integer
  literals, names, parentheses, the unary operators and the left-associative arithmetic and
  bit operators; a text that leaves it (calls, attributes, comparisons, \<open>**\<close>, conditionals,
  prefixed or triple-quoted strings, \<open>\u\<close> escapes, ...) gives the value \<open>Unmodelled\<close>, never
  an answer of the model's own. Error messages are the source's.
\<close>

section \<open>Errors\<close>

text \<open>
  The exceptions the assembler's code can leave with: \<open>AsmError\<close> with its message, the
  \<open>ValueError\<close> of Python's shifts and of \<open>bytes(n)\<close> on a negative number, and the value
  \<open>Unmodelled\<close>, which stands for what Python does with an expression or a string literal
  outside the fragment.
\<close>

datatype asm_error = AsmError string | PyValueError | Unmodelled

type_synonym 'a asm = "(asm_error, 'a) result"

type_synonym labels = "string \<Rightarrow> int option"

section \<open>String literals\<close>

text \<open>A literal Python refuses; \<open>parse_string\<close> puts the token into its message.\<close>

abbreviation bad_literal :: asm_error where "bad_literal \<equiv> AsmError []"

definition dquote :: char where "dquote = CHR 0x22"
definition squote :: char where "squote = CHR 0x27"
definition backslash :: char where "backslash = CHR 0x5C"

definition is_quote :: "char \<Rightarrow> bool" where
  "is_quote c \<longleftrightarrow> c = dquote \<or> c = squote"

definition hex_val :: "char \<Rightarrow> nat option" where
  "hex_val c = (if is_digit c then Some (ccode c - 48)
     else if 97 \<le> ccode c \<and> ccode c \<le> 102 then Some (ccode c - 87)
     else if 65 \<le> ccode c \<and> ccode c \<le> 70 then Some (ccode c - 55) else None)"

definition oct_val :: "char \<Rightarrow> nat option" where
  "oct_val c = (if 48 \<le> ccode c \<and> ccode c \<le> 55 then Some (ccode c - 48) else None)"

text \<open>The one-character escapes of Python's string literals.\<close>

definition simple_escape :: "char \<Rightarrow> char option" where
  "simple_escape c =
     (if c = backslash \<or> is_quote c then Some c
      else if c = CHR ''a'' then Some (cchr 7) else if c = CHR ''b'' then Some (cchr 8)
      else if c = CHR ''f'' then Some (cchr 12) else if c = CHR ''n'' then Some (cchr 10)
      else if c = CHR ''r'' then Some (cchr 13) else if c = CHR ''t'' then Some (cchr 9)
      else if c = CHR ''v'' then Some (cchr 11) else None)"

text \<open>
  What a backslash and the text after it stand for: the characters produced and the text
  left. A backslash-newline is dropped, an unknown escape keeps its backslash, an octal
  escape takes up to three digits; \<open>\N\<close>, \<open>\u\<close>, \<open>\U\<close> and octal values above 255 leave the
  fragment.
\<close>

definition hex_escape :: "string \<Rightarrow> (string \<times> string) asm" where
  "hex_escape es =
     (case es of
        h1 # h2 # hs \<Rightarrow>
          (case (hex_val h1, hex_val h2) of
             (Some a, Some b) \<Rightarrow> Inr ([cchr (16 * a + b)], hs)
           | _ \<Rightarrow> Inl bad_literal)
      | _ \<Rightarrow> Inl bad_literal)"

definition oct_digits :: "string \<Rightarrow> nat list" where
  "oct_digits es = map (\<lambda>c. the (oct_val c)) (takeWhile (\<lambda>c. oct_val c \<noteq> None) (take 3 es))"

definition oct_escape :: "string \<Rightarrow> (string \<times> string) asm" where
  "oct_escape es =
     (let ds = oct_digits es; v = foldl (\<lambda>v d. 8 * v + d) 0 ds in
      if v > 255 then Inl Unmodelled else Inr ([cchr v], drop (length ds) es))"

definition escape_seq :: "string \<Rightarrow> (string \<times> string) asm" where
  "escape_seq es =
     (case es of
        [] \<Rightarrow> Inl bad_literal
      | e # rest \<Rightarrow>
          if e = CHR 0x0A then Inr ([], rest)
          else if e \<in> {CHR ''N'', CHR ''u'', CHR ''U''} then Inl Unmodelled
          else if e = CHR ''x'' then hex_escape rest
          else if oct_val e \<noteq> None then oct_escape es
          else (case simple_escape e of
                  Some d \<Rightarrow> Inr ([d], rest)
                | None \<Rightarrow> Inr ([backslash, e], rest)))"

lemma escape_seq_shorter: "escape_seq es = Inr (v, r) \<Longrightarrow> length r < length es"
proof (cases es)
  case (Cons e rest)
  moreover have "oct_val e \<noteq> None \<Longrightarrow> 0 < length (oct_digits (e # rest))"
    by (simp add: oct_digits_def)
  moreover assume "escape_seq es = Inr (v, r)"
  ultimately show ?thesis
    by (auto simp: escape_seq_def hex_escape_def oct_escape_def Let_def
        split: if_splits list.splits option.splits)
qed (simp add: escape_seq_def)

text \<open>
  The body of a literal after its opening quote \<open>q\<close>: the value up to the matching quote and
  the text after it.
\<close>

function lit_body :: "char \<Rightarrow> string \<Rightarrow> (string \<times> string) asm" where
  "lit_body q cs =
     (case cs of
        [] \<Rightarrow> Inl bad_literal
      | c # rest \<Rightarrow>
          if c = q then Inr ([], rest)
          else if c = CHR 0x0A then Inl bad_literal
          else if c = backslash then
            bindE (escape_seq rest) (\<lambda>(v, r).
              bindE (lit_body q r) (\<lambda>(v', r'). Inr (v @ v', r')))
          else bindE (lit_body q rest) (\<lambda>(v', r'). Inr (c # v', r')))"
  by pat_completeness auto
termination by (relation "measure (\<lambda>(q, cs). length cs)") (auto dest: escape_seq_shorter)

declare lit_body.simps [simp del]

lemma lit_body_shorter: "lit_body q cs = Inr (v, r) \<Longrightarrow> length r < length cs"
proof (induction q cs arbitrary: v r rule: lit_body.induct)
  case (1 q cs)
  show ?case
  proof (cases cs)
    case Nil
    then show ?thesis using "1.prems" by (simp add: lit_body.simps)
  next
    case (Cons c rest)
    have esc: "length r < length rest"
      if "escape_seq rest = Inr (x, y)" "lit_body q y = Inr (w, r)" "c \<noteq> q" "c \<noteq> CHR 0x0A"
        "c = backslash" for x y w
      using "1.IH"(1) [OF Cons that(3,4,5,1) _ that(2)] escape_seq_shorter [OF that(1)] by simp
    show ?thesis
      using "1.prems" Cons
      by (subst (asm) lit_body.simps)
        (auto simp: bindE_Inr_iff split: if_splits dest: esc "1.IH"(2) [OF Cons])
  qed
qed

text \<open>
  One or more adjacent plain literals, blanks between them, concatenated as Python does; a
  triple-quoted literal or anything else after a literal leaves the fragment.
\<close>

definition py_blank :: "char \<Rightarrow> bool" where
  "py_blank c \<longleftrightarrow> c = CHR '' '' \<or> c = CHR 0x09 \<or> c = CHR 0x0C"

function lit_seq :: "string \<Rightarrow> string asm" where
  "lit_seq cs =
     (case cs of
        [] \<Rightarrow> Inl Unmodelled
      | q # rest \<Rightarrow>
          if \<not> is_quote q \<or> take 2 rest = [q, q] then Inl Unmodelled
          else bindE (lit_body q rest) (\<lambda>(v, r).
                 if dropWhile py_blank r = [] then Inr v
                 else bindE (lit_seq (dropWhile py_blank r)) (\<lambda>v'. Inr (v @ v'))))"
  by pat_completeness auto
termination
  by (relation "measure length")
    (auto dest!: lit_body_shorter intro: le_less_trans [OF length_dropWhile_le])

declare lit_seq.simps [simp del]

definition is_ident :: "string \<Rightarrow> bool" where
  "is_ident s \<longleftrightarrow> (case s of [] \<Rightarrow> False | c # cs \<Rightarrow> ident_start c \<and> list_all ident_char cs)"

text \<open>
  \<open>ast.literal_eval\<close> on a token that should be a string: the empty text and a lone name are
  refused, a token that starts with a quote is a sequence of literals.
\<close>

definition parse_string :: "string \<Rightarrow> string asm" where
  "parse_string token =
     (if token = [] \<or> (is_ident token \<and> token \<notin> {''True'', ''False'', ''None''})
      then Inl (AsmError (''invalid string literal: '' @ token))
      else (case lit_seq token of
              Inr v \<Rightarrow> Inr v
            | Inl (AsmError _) \<Rightarrow> Inl (AsmError (''invalid string literal: '' @ token))
            | Inl e \<Rightarrow> Inl e))"

section \<open>Tokens\<close>

datatype binop = Add | Sub | LShift | RShift | BitOr | BitAnd | BitXor | Mult | Div | FloorDiv | Mod

datatype unop = UAdd | USub | Invert

datatype tok = TNum int | TName string | TPlus | TMinus | TTilde | TBin binop | TLpar | TRpar

definition number_of :: "nat \<Rightarrow> nat list \<Rightarrow> int" where
  "number_of b ds = foldl (\<lambda>v d. int b * v + int d) 0 ds"

definition digits_of :: "nat \<Rightarrow> string \<Rightarrow> nat list option" where
  "digits_of b s =
     (if s \<noteq> [] \<and> list_all (\<lambda>c. case hex_val c of None \<Rightarrow> False | Some d \<Rightarrow> d < b) s
      then Some (map (\<lambda>c. the (hex_val c)) s) else None)"

text \<open>
  Integer literals: decimal without a leading zero (or all zeros), and the prefixed bases. A
  decimal with a leading zero is a syntax error; floats, underscores and the rest leave the
  fragment.
\<close>

definition num_lit :: "string \<Rightarrow> int asm" where
  "num_lit w =
     (let base = (case w of
            c # x # ds \<Rightarrow>
              if c = CHR ''0'' \<and> (x = CHR ''x'' \<or> x = CHR ''X'') then Some (16, ds)
              else if c = CHR ''0'' \<and> (x = CHR ''b'' \<or> x = CHR ''B'') then Some (2, ds)
              else if c = CHR ''0'' \<and> (x = CHR ''o'' \<or> x = CHR ''O'') then Some (8, ds)
              else None
          | _ \<Rightarrow> None)
      in case base of
           Some (b, ds) \<Rightarrow>
             (case digits_of b ds of Some ns \<Rightarrow> Inr (number_of b ns) | None \<Rightarrow> Inl Unmodelled)
         | None \<Rightarrow>
             (case digits_of 10 w of
                None \<Rightarrow> Inl Unmodelled
              | Some ns \<Rightarrow>
                  if hd w = CHR ''0'' \<and> \<not> list_all (\<lambda>c. c = CHR ''0'') w then Inl (AsmError [])
                  else Inr (number_of 10 ns)))"

definition py_keywords :: "string list" where
  "py_keywords =
     [''False'', ''None'', ''True'', ''and'', ''as'', ''assert'', ''async'', ''await'', ''break'',
      ''class'', ''continue'', ''def'', ''del'', ''elif'', ''else'', ''except'', ''finally'',
      ''for'', ''from'', ''global'', ''if'', ''import'', ''in'', ''is'', ''lambda'', ''nonlocal'',
      ''not'', ''or'', ''pass'', ''raise'', ''return'', ''try'', ''while'', ''with'', ''yield'']"

text \<open>A name; \<open>True\<close> and \<open>False\<close> are the constants one and zero, other keywords are not names.\<close>

definition name_tok :: "string \<Rightarrow> tok asm" where
  "name_tok w =
     (if w = ''True'' then Inr (TNum 1) else if w = ''False'' then Inr (TNum 0)
      else if w \<in> set py_keywords then Inl Unmodelled else Inr (TName w))"

text \<open>An operator at the head of the text, with the text after it; the longest match wins.\<close>

definition op_tok :: "string \<Rightarrow> (tok \<times> string) asm" where
  "op_tok cs =
     (let c = hd cs; one = (\<lambda>t. Inr (t, tl cs)) in
      if c = CHR ''+'' then one TPlus
      else if c = CHR ''-'' then one TMinus
      else if c = CHR ''~'' then one TTilde
      else if c = CHR ''('' then one TLpar
      else if c = CHR '')'' then one TRpar
      else if take 2 cs = ''<<'' then Inr (TBin LShift, drop 2 cs)
      else if take 2 cs = ''>>'' then Inr (TBin RShift, drop 2 cs)
      else if c = CHR ''|'' then one (TBin BitOr)
      else if c = CHR ''&'' then one (TBin BitAnd)
      else if c = CHR ''^'' then one (TBin BitXor)
      else if take 2 cs = ''**'' then Inl Unmodelled
      else if c = CHR ''*'' then one (TBin Mult)
      else if take 2 cs = ''//'' then Inr (TBin FloorDiv, drop 2 cs)
      else if c = CHR ''/'' then one (TBin Div)
      else if c = CHR ''%'' then one (TBin Mod)
      else Inl Unmodelled)"

definition word_char :: "char \<Rightarrow> bool" where
  "word_char c \<longleftrightarrow> ident_char c \<or> c = CHR ''.''"

lemma op_tok_shorter: "op_tok (c # rest) = Inr (t, r) \<Longrightarrow> length r < length (c # rest)"
  by (auto simp: op_tok_def Let_def split: if_splits)

function lex :: "string \<Rightarrow> tok list asm" where
  "lex cs =
     (case cs of
        [] \<Rightarrow> Inr []
      | c # rest \<Rightarrow>
          if py_blank c then lex rest
          else if is_digit c then
            bindE (num_lit (c # takeWhile word_char rest)) (\<lambda>n.
              bindE (lex (dropWhile word_char rest)) (\<lambda>ts. Inr (TNum n # ts)))
          else if ident_start c then
            bindE (name_tok (c # takeWhile ident_char rest)) (\<lambda>t.
              bindE (lex (dropWhile ident_char rest)) (\<lambda>ts. Inr (t # ts)))
          else bindE (op_tok cs) (\<lambda>(t, r). bindE (lex r) (\<lambda>ts. Inr (t # ts))))"
  by pat_completeness auto

termination
  by (relation "measure length")
    (auto dest!: op_tok_shorter intro: le_less_trans [OF length_dropWhile_le])

declare lex.simps [simp del]

section \<open>Parsing\<close>

text \<open>The nodes of Python's \<open>ast\<close> that the fragment produces.\<close>

datatype expr = Constant int | Name string | UnaryOp unop expr | BinOp expr binop expr

text \<open>Python's binding strength of the binary operators; the unary ones bind tighter.\<close>

fun prec :: "binop \<Rightarrow> nat" where
  "prec BitOr = 1" | "prec BitXor = 2" | "prec BitAnd = 3" | "prec LShift = 4" | "prec RShift = 4"
| "prec Add = 5" | "prec Sub = 5" | "prec Mult = 6" | "prec Div = 6" | "prec FloorDiv = 6"
| "prec Mod = 6"

datatype pending = PUn unop | PBin binop | PPar

text \<open>
  Operator-precedence parsing: finished operands and pending operators on two stacks. An
  operator is applied when the next one binds no tighter.
\<close>

definition apply_pending :: "pending \<Rightarrow> expr list \<Rightarrow> expr list" where
  "apply_pending p out =
     (case (p, out) of
        (PUn u, e # es) \<Rightarrow> UnaryOp u e # es
      | (PBin b, r # l # es) \<Rightarrow> BinOp l b r # es
      | _ \<Rightarrow> out)"

fun reduce :: "(pending \<Rightarrow> bool) \<Rightarrow> expr list \<Rightarrow> pending list \<Rightarrow> expr list \<times> pending list" where
  "reduce P out [] = (out, [])"
| "reduce P out (p # ops) = (if P p then reduce P (apply_pending p out) ops else (out, p # ops))"

definition binds_before :: "binop \<Rightarrow> pending \<Rightarrow> bool" where
  "binds_before b p = (case p of PUn _ \<Rightarrow> True | PBin b' \<Rightarrow> prec b \<le> prec b' | PPar \<Rightarrow> False)"

definition no_paren :: "pending \<Rightarrow> bool" where
  "no_paren p \<longleftrightarrow> p \<noteq> PPar"

definition bin_of :: "tok \<Rightarrow> binop option" where
  "bin_of t = (case t of TPlus \<Rightarrow> Some Add | TMinus \<Rightarrow> Some Sub | TBin b \<Rightarrow> Some b | _ \<Rightarrow> None)"

definition un_of :: "tok \<Rightarrow> unop option" where
  "un_of t = (case t of TPlus \<Rightarrow> Some UAdd | TMinus \<Rightarrow> Some USub | TTilde \<Rightarrow> Some Invert | _ \<Rightarrow> None)"

text \<open>
  The first argument says whether an operand is expected. An empty pair of parentheses (a
  tuple) and an opening one after an operand (a call) leave the fragment.
\<close>

fun parse :: "bool \<Rightarrow> expr list \<Rightarrow> pending list \<Rightarrow> tok list \<Rightarrow> expr asm" where
  "parse True out ops [] = Inl (AsmError [])"
| "parse True out ops (t # ts) =
     (case t of
        TNum n \<Rightarrow> parse False (Constant n # out) ops ts
      | TName x \<Rightarrow> parse False (Name x # out) ops ts
      | TLpar \<Rightarrow> parse True out (PPar # ops) ts
      | TRpar \<Rightarrow> if take 1 ops = [PPar] then Inl Unmodelled else Inl (AsmError [])
      | _ \<Rightarrow> (case un_of t of
                Some u \<Rightarrow> parse True out (PUn u # ops) ts
              | None \<Rightarrow> Inl (AsmError [])))"
| "parse False out ops [] =
     (case reduce no_paren out ops of
        ([e], []) \<Rightarrow> Inr e
      | _ \<Rightarrow> Inl (AsmError []))"
| "parse False out ops (t # ts) =
     (case bin_of t of
        Some b \<Rightarrow>
          (case reduce (binds_before b) out ops of
             (out', ops') \<Rightarrow> parse True out' (PBin b # ops') ts)
      | None \<Rightarrow>
          if t = TRpar then
            (case reduce no_paren out ops of
               (out', PPar # ops') \<Rightarrow> parse False out' ops' ts
             | _ \<Rightarrow> Inl (AsmError []))
          else if t = TLpar then Inl Unmodelled
          else Inl (AsmError []))"

definition ast_parse :: "string \<Rightarrow> expr asm" where
  "ast_parse token = bindE (lex token) (parse True [] [])"

section \<open>Evaluation\<close>

text \<open>The operators \<open>visit\<close> supports; a shift by a negative count is a \<open>ValueError\<close>.\<close>

definition apply_bin :: "string \<Rightarrow> binop \<Rightarrow> int \<Rightarrow> int \<Rightarrow> int asm" where
  "apply_bin text b x y =
     (case b of
        Add \<Rightarrow> Inr (x + y) | Sub \<Rightarrow> Inr (x - y)
      | LShift \<Rightarrow> if y < 0 then Inl PyValueError else Inr (push_bit (nat y) x)
      | RShift \<Rightarrow> if y < 0 then Inl PyValueError else Inr (drop_bit (nat y) x)
      | BitOr \<Rightarrow> Inr (x OR y) | BitAnd \<Rightarrow> Inr (x AND y)
      | _ \<Rightarrow> Inl (AsmError (''unsupported expression: '' @ text)))"

definition supported :: "binop \<Rightarrow> bool" where
  "supported b \<longleftrightarrow> b \<in> {Add, Sub, LShift, RShift, BitOr, BitAnd}"

fun visit :: "string \<Rightarrow> labels \<Rightarrow> expr \<Rightarrow> int asm" where
  "visit text labels (Constant n) = Inr n"
| "visit text labels (UnaryOp u e) =
     (case u of
        USub \<Rightarrow> bindE (visit text labels e) (\<lambda>x. Inr (- x))
      | UAdd \<Rightarrow> visit text labels e
      | Invert \<Rightarrow> Inl (AsmError (''unsupported expression: '' @ text)))"
| "visit text labels (BinOp l b r) =
     (if supported b then
        bindE (visit text labels l) (\<lambda>x. bindE (visit text labels r) (\<lambda>y. apply_bin text b x y))
      else Inl (AsmError (''unsupported expression: '' @ text)))"
| "visit text labels (Name x) =
     (case labels (py_upper x) of
        None \<Rightarrow> Inl (AsmError (''unknown symbol: '' @ x))
      | Some v \<Rightarrow> Inr v)"

definition char_literal :: "string \<Rightarrow> bool" where
  "char_literal token \<longleftrightarrow>
     (startswith token [squote] \<and> endswith token [squote]) \<or>
     (startswith token [dquote] \<and> endswith token [dquote])"

definition eval_expr :: "string \<Rightarrow> labels \<Rightarrow> int asm" where
  "eval_expr text labels =
     (let token = py_strip text in
      if char_literal token then
        bindE (parse_string token) (\<lambda>value.
          if length value \<noteq> 1
          then Inl (AsmError (''character literal must be length 1: '' @ text))
          else Inr (int (ccode (hd value))))
      else
        (case ast_parse token of
           Inl (AsmError _) \<Rightarrow> Inl (AsmError (''invalid expression: '' @ text))
         | Inl e \<Rightarrow> Inl e
         | Inr node \<Rightarrow> visit text labels node))"

end
