(* ===== verification/AsmEncode.thy ===== *)
theory AsmEncode
  imports AsmExpr
begin

text \<open>
  The instruction encoder of \<open>tools/riscc_asm.py\<close>: the opcode tables, the operand readers,
  the field packers and \<open>encode_insn\<close>, one definition per group of mnemonics, composed by
  \<open>encode_insn\<close> in the order of the source's tests.
\<close>

section \<open>Tables\<close>

type_synonym table = "(string \<times> int) list"

definition REGS :: table where
  "REGS = [(''R0'', 0), (''R1'', 1), (''R2'', 2), (''R3'', 3), (''R4'', 4), (''R5'', 5),
     (''R6'', 6), (''R7'', 7)]"

definition SREGS :: table where
  "SREGS = [(''S0'', 0), (''S1'', 1), (''S2'', 2), (''S3'', 3), (''S4'', 4), (''S5'', 5),
     (''S6'', 6), (''S7'', 7)]"

definition I_OP :: table where
  "I_OP = [(''LDI'', 0), (''LDI8'', 0), (''LUI'', 1), (''LUI8'', 1), (''ADDI'', 2), (''ADDI8'', 2),
     (''CMPI'', 3), (''CMPI8'', 3), (''ANDI'', 4), (''ANDI8'', 4), (''ORI'', 5), (''ORI8'', 5),
     (''XORI'', 6), (''XORI8'', 6)]"

definition BR_CC :: table where
  "BR_CC = [(''BEQZ'', 0), (''BNEZ'', 1), (''BLTZ'', 2), (''BGEZ'', 3), (''JMP8'', 4)]"

definition R_FUNC :: table where
  "R_FUNC = [(''ADD'', 0x00), (''SUB'', 0x01), (''SLT'', 0x02), (''SLTU'', 0x03), (''AND'', 0x04),
     (''OR'', 0x05), (''XOR'', 0x06), (''MUL'', 0x07), (''DIVU'', 0x10), (''MULHU'', 0x14),
     (''LDX'', 0x08), (''LDB'', 0x0A), (''STB'', 0x0B), (''SRLI'', 0x0C), (''SRAI'', 0x0D),
     (''LDBS'', 0x0E), (''SLLI'', 0x0F), (''FSL1'', 0x11), (''FSR1'', 0x11), (''SYS'', 0x1F)]"

definition SYS_SUB :: table where
  "SYS_SUB = [(''CONTROL'', 0), (''JALR'', 1), (''MFS'', 2), (''MTS'', 3)]"

definition CONTROL_CCC :: table where
  "CONTROL_CCC = [(''RET'', 0), (''RETI'', 5), (''IFLUSH'', 3), (''CLI'', 2), (''STI'', 7)]"

definition MNEMONIC_ALIASES :: "(string \<times> string) list" where
  "MNEMONIC_ALIASES =
     [(''MOV'', ''OR''), (''SHL1'', ''ADD''), (''JALL'', ''JAL16''), (''JMPL'', ''JMP16'')]"

text \<open>\<open>table[key]\<close> for a key of the table.\<close>

definition at :: "table \<Rightarrow> string \<Rightarrow> int" where
  "at t k = the (map_of t k)"

definition has_key :: "(string \<times> 'a) list \<Rightarrow> string \<Rightarrow> bool" where
  "has_key t k \<longleftrightarrow> k \<in> fst ` set t"

lemmas asm_tables = REGS_def SREGS_def I_OP_def BR_CC_def R_FUNC_def SYS_SUB_def CONTROL_CCC_def
  MNEMONIC_ALIASES_def

section \<open>Operands\<close>

definition reg :: "string \<Rightarrow> int asm" where
  "reg token =
     (case map_of REGS (py_upper (py_strip token)) of
        None \<Rightarrow> Inl (AsmError (''expected register r0..r7, got: '' @ token))
      | Some i \<Rightarrow> Inr i)"

definition sreg :: "string \<Rightarrow> int asm" where
  "sreg token =
     (case map_of SREGS (py_upper (py_strip token)) of
        None \<Rightarrow> Inl (AsmError (''expected system register S0..S7, got: '' @ token))
      | Some i \<Rightarrow> Inr i)"

definition enc_u8 :: "int \<Rightarrow> string \<Rightarrow> int asm" where
  "enc_u8 value what =
     (if \<not> (0 \<le> value \<and> value \<le> 0xFF)
      then Inl (AsmError (what @ '' out of u8 range: '' @ fmt_d value)) else Inr value)"

definition enc_i8 :: "int \<Rightarrow> string \<Rightarrow> int asm" where
  "enc_i8 value what =
     (if \<not> (-128 \<le> value \<and> value \<le> 127)
      then Inl (AsmError (what @ '' out of i8 range: '' @ fmt_d value)) else Inr (value AND 0xFF))"

definition encode_word :: "int \<Rightarrow> int list" where
  "encode_word w = [w AND 0xFF, drop_bit 8 w AND 0xFF]"

text \<open>
  The regular expression of \<open>parse_mem\<close>: an identifier, whitespace and the rest of the line
  (\<open>.\<close> matches no newline).
\<close>

definition match_ident :: "string \<Rightarrow> (string \<times> string) option" where
  "match_ident s =
     (case s of
        [] \<Rightarrow> None
      | c # cs \<Rightarrow> if ident_start c then Some (c # takeWhile ident_char cs, dropWhile ident_char cs)
                  else None)"

definition one_line :: "string \<Rightarrow> bool" where
  "one_line s \<longleftrightarrow> CHR 0x0A \<notin> set s"

definition parse_mem :: "string \<Rightarrow> string list asm" where
  "parse_mem token =
     (let text = py_strip token; bad = Inl (AsmError (''invalid memory operand: '' @ token)) in
      if \<not> startswith text ''['' \<or> \<not> endswith text '']'' then bad
      else (case match_ident (py_strip (take (length text - 2) (drop 1 text))) of
          None \<Rightarrow> bad
        | Some (base, tail) \<Rightarrow>
            if \<not> one_line (lstrip tail) then bad
            else
              let rest = py_strip tail in
              if rest = [] then Inr [base]
              else if startswith rest ''+'' then Inr [base, py_strip (drop 1 rest)]
              else if startswith rest ''-'' then Inr [base, rest]
              else bad))"

text \<open>\<open>'{:#x}'.format(n)\<close>.\<close>

definition fmt_hx :: "int \<Rightarrow> string" where
  "fmt_hx n = (if n < 0 then ''-0x'' @ py_lower (hex_str (nat (- n)))
               else ''0x'' @ py_lower (hex_str (nat n)))"

definition code_addr :: "int \<Rightarrow> string \<Rightarrow> int asm" where
  "code_addr value what =
     (if value AND 1 \<noteq> 0
      then Inl (AsmError (what @ '' must be 2-byte-aligned: '' @ fmt_hx value))
      else if \<not> (0 \<le> value \<and> value \<le> 0xFFFF)
      then Inl (AsmError (what @ '' exceeds the 16-bit byte address range: '' @ fmt_hx value))
      else Inr value)"

definition insn_size :: "string \<Rightarrow> string list \<Rightarrow> int" where
  "insn_size op0 operands =
     (let op = py_upper op0; alias = (case map_of MNEMONIC_ALIASES op of None \<Rightarrow> op | Some a \<Rightarrow> a) in
      if op \<in> {''LDI16'', ''JMP16'', ''JAL16'', ''JALL'', ''JMPL''} then 4
      else if alias = ''OR'' \<and> op = ''MOV'' then 2
      else if alias = ''ADD'' \<and> op = ''SHL1'' then 2
      else 2)"

section \<open>Instruction formats\<close>

definition enc_mem_i :: "bool \<Rightarrow> int \<Rightarrow> int \<Rightarrow> int \<Rightarrow> int" where
  "enc_mem_i store rd ra imm8 =
     push_bit 14 1 OR push_bit 11 rd OR push_bit 8 ra OR (imm8 AND 0xFE) OR of_bool store"

definition enc_i :: "int \<Rightarrow> int \<Rightarrow> int \<Rightarrow> int" where
  "enc_i rd op imm8 = push_bit 14 2 OR push_bit 11 rd OR push_bit 8 op OR imm8"

definition enc_r :: "int \<Rightarrow> int \<Rightarrow> int \<Rightarrow> int \<Rightarrow> int" where
  "enc_r rd ra func rb =
     push_bit 14 3 OR push_bit 11 rd OR push_bit 8 ra OR push_bit 3 func OR rb"

definition enc_branch :: "int \<Rightarrow> int \<Rightarrow> int" where
  "enc_branch cc rel8 =
     (let r = rel8 AND 0xFF; encoded = (push_bit 1 r AND 0xFE) OR drop_bit 7 r
      in enc_i cc 7 encoded)"

definition enc_long :: "int \<Rightarrow> int \<Rightarrow> int list" where
  "enc_long rd imm16 =
     (let head = push_bit 11 rd OR 0x0034 in encode_word head @ encode_word imm16)"

section \<open>Mnemonic groups\<close>

definition n_ops :: "string \<Rightarrow> string list \<Rightarrow> nat \<Rightarrow> string \<Rightarrow> unit asm" where
  "n_ops op operands n usage =
     (if length operands \<noteq> n
      then Inl (AsmError (op @ '' requires '' @ fmt_d (int n) @ '' operand(s): '' @ usage))
      else Inr ())"

abbreviation (input) opnd :: "string list \<Rightarrow> nat \<Rightarrow> string" where
  "opnd operands i \<equiv> operands ! i"

definition enc_jump :: "string \<Rightarrow> string list \<Rightarrow> labels \<Rightarrow> int list asm" where
  "enc_jump op operands labels =
     bindE
       (if op = ''JAL16'' then
          bindE (n_ops op operands 2 ''JALL Sd, target'') (\<lambda>_.
          bindE (sreg (opnd operands 0)) (\<lambda>sd.
          bindE (eval_expr (opnd operands 1) labels) (\<lambda>target. Inr (sd, target))))
        else
          bindE (n_ops op operands 1 (op @ '' target'')) (\<lambda>_.
          bindE (eval_expr (opnd operands 0) labels) (\<lambda>target. Inr (0, target))))
       (\<lambda>(sd, target). bindE (code_addr target (op @ '' target'')) (\<lambda>a. Inr (enc_long sd a)))"

definition enc_ret :: "string \<Rightarrow> string list \<Rightarrow> int list asm" where
  "enc_ret op operands =
     bindE (n_ops op operands 1 (op @ '' Sa'')) (\<lambda>_.
     bindE (sreg (opnd operands 0)) (\<lambda>sa.
       Inr (encode_word (enc_r (at CONTROL_CCC op) sa (at R_FUNC ''SYS'') (at SYS_SUB ''CONTROL'')))))"

definition enc_ldi16 :: "string \<Rightarrow> string list \<Rightarrow> labels \<Rightarrow> int list asm" where
  "enc_ldi16 op operands labels =
     bindE (n_ops op operands 2 ''LDI16 rd, imm16'') (\<lambda>_.
     bindE (reg (opnd operands 0)) (\<lambda>rd.
     bindE (eval_expr (opnd operands 1) labels) (\<lambda>v.
       let imm = v AND 0xFFFF in
       Inr (encode_word (enc_i rd (at I_OP ''LUI'') (drop_bit 8 imm AND 0xFF)) @
            encode_word (enc_i rd (at I_OP ''ORI'') (imm AND 0xFF))))))"

definition enc_nop :: "string \<Rightarrow> string list \<Rightarrow> int list asm" where
  "enc_nop op operands =
     bindE (n_ops op operands 0 ''NOP'') (\<lambda>_. Inr (encode_word (enc_r 0 0 (at R_FUNC ''OR'') 0)))"

definition enc_ld_st :: "string \<Rightarrow> string list \<Rightarrow> labels \<Rightarrow> int list asm" where
  "enc_ld_st op operands labels =
     bindE (n_ops op operands 2 (op @ '' rd, [ra+simm8]'')) (\<lambda>_.
     bindE (reg (opnd operands 0)) (\<lambda>rd.
     bindE (parse_mem (opnd operands 1)) (\<lambda>mem.
       if \<not> (1 \<le> length mem \<and> length mem \<le> 2)
       then Inl (AsmError (op @ '' expects [ra] or [ra+simm8]''))
       else
         bindE (reg (mem ! 0)) (\<lambda>ra.
         bindE (if length mem = 1 then Inr 0 else eval_expr (mem ! 1) labels) (\<lambda>disp.
           if disp AND 1 \<noteq> 0 then Inl (AsmError (op @ '' simm must be even''))
           else bindE (enc_i8 disp (op @ '' simm8'')) (\<lambda>imm8.
             Inr (encode_word (enc_mem_i (op = ''ST'') rd ra imm8))))))))"

definition enc_imm :: "string \<Rightarrow> string list \<Rightarrow> labels \<Rightarrow> int list asm" where
  "enc_imm op operands labels =
     bindE (n_ops op operands 2 (op @ '' rd, imm8'')) (\<lambda>_.
     bindE (reg (opnd operands 0)) (\<lambda>rd.
     bindE (eval_expr (opnd operands 1) labels) (\<lambda>value.
     bindE (if op \<in> {''ADDI'', ''ADDI8'', ''CMPI'', ''CMPI8''} then enc_i8 value (op @ '' simm8'')
            else enc_u8 (value AND 0xFF) (op @ '' imm8'')) (\<lambda>imm.
       Inr (encode_word (enc_i rd (at I_OP op) imm))))))"

definition enc_br :: "string \<Rightarrow> string list \<Rightarrow> labels \<Rightarrow> int \<Rightarrow> int list asm" where
  "enc_br op operands labels pc =
     bindE (n_ops op operands 1 (op @ '' target'')) (\<lambda>_.
     bindE (eval_expr (opnd operands 0) labels) (\<lambda>target.
       if target AND 1 \<noteq> 0
       then Inl (AsmError (op @ '' target must be 2-byte-aligned: '' @ fmt_hx target))
       else
         let rel = drop_bit 1 target - (drop_bit 1 pc + 1) in
         bindE (enc_i8 rel (op @ '' rel8'')) (\<lambda>r. Inr (encode_word (enc_branch (at BR_CC op) r)))))"

definition enc_mov :: "string \<Rightarrow> string list \<Rightarrow> int list asm" where
  "enc_mov op operands =
     (if op = ''MOV'' then
        bindE (n_ops op operands 2 ''MOV rd, ra'') (\<lambda>_.
        bindE (reg (opnd operands 0)) (\<lambda>rd.
        bindE (reg (opnd operands 1)) (\<lambda>ra.
          Inr (encode_word (enc_r rd ra (at R_FUNC ''OR'') ra)))))
      else
        bindE (n_ops op operands 2 ''SHL1 rd, ra'') (\<lambda>_.
        bindE (reg (opnd operands 0)) (\<lambda>rd.
        bindE (reg (opnd operands 1)) (\<lambda>ra.
          Inr (encode_word (enc_r rd ra (at R_FUNC ''ADD'') ra))))))"

definition enc_fun1 :: "string \<Rightarrow> string list \<Rightarrow> int list asm" where
  "enc_fun1 op operands =
     bindE (n_ops op operands 2 (op @ '' rd, ra'')) (\<lambda>_.
     bindE (reg (opnd operands 0)) (\<lambda>rd.
     bindE (reg (opnd operands 1)) (\<lambda>ra.
       Inr (encode_word (enc_r rd ra (at R_FUNC op) (of_bool (op = ''FSR1'')))))))"

definition enc_alu3 :: "string \<Rightarrow> string list \<Rightarrow> int list asm" where
  "enc_alu3 op operands =
     bindE (n_ops op operands 3 (op @ '' rd, ra, rb'')) (\<lambda>_.
     bindE (reg (opnd operands 0)) (\<lambda>rd.
     bindE (reg (opnd operands 1)) (\<lambda>ra.
     bindE (reg (opnd operands 2)) (\<lambda>rb.
       Inr (encode_word (enc_r rd ra (at R_FUNC op) rb))))))"

definition enc_shift :: "string \<Rightarrow> string list \<Rightarrow> labels \<Rightarrow> int list asm" where
  "enc_shift op operands labels =
     bindE (n_ops op operands 3 (op @ '' rd, ra, imm'')) (\<lambda>_.
     bindE (eval_expr (opnd operands 2) labels) (\<lambda>amount.
       if \<not> (1 \<le> amount \<and> amount \<le> 8)
       then Inl (AsmError (op @ '' amount must be 1..8, got '' @ fmt_d amount))
       else
         bindE (reg (opnd operands 0)) (\<lambda>rd.
         bindE (reg (opnd operands 1)) (\<lambda>ra.
           Inr (encode_word (enc_r rd ra (at R_FUNC op) (amount - 1)))))))"

definition enc_ldx :: "string \<Rightarrow> string list \<Rightarrow> int list asm" where
  "enc_ldx op operands =
     bindE (n_ops op operands 2 ''LDX rd, [ra+rb]'') (\<lambda>_.
     bindE (reg (opnd operands 0)) (\<lambda>rd.
     bindE (parse_mem (opnd operands 1)) (\<lambda>mem.
       if length mem \<noteq> 2 then Inl (AsmError ''LDX requires [ra+rb]'')
       else
         bindE (reg (mem ! 0)) (\<lambda>ra.
         bindE (reg (mem ! 1)) (\<lambda>rb.
           Inr (encode_word (enc_r rd ra (at R_FUNC op) rb)))))))"

text \<open>\<open>LDB\<close>, \<open>LDBS\<close> and, with the same body, \<open>STB\<close>.\<close>

definition enc_byte :: "string \<Rightarrow> string list \<Rightarrow> int list asm" where
  "enc_byte op operands =
     bindE (n_ops op operands 2 (op @ '' rd, [ra]'')) (\<lambda>_.
     bindE (reg (opnd operands 0)) (\<lambda>rd.
     bindE (parse_mem (opnd operands 1)) (\<lambda>mem.
       if length mem \<noteq> 1 then Inl (AsmError (op @ '' requires [ra]''))
       else
         bindE (reg (mem ! 0)) (\<lambda>ra.
           Inr (encode_word (enc_r rd ra (at R_FUNC op) 0))))))"

definition enc_jalr :: "string \<Rightarrow> string list \<Rightarrow> int list asm" where
  "enc_jalr op operands =
     (if op = ''JMP'' then
        bindE (n_ops op operands 1 ''JMP ra'') (\<lambda>_.
        bindE (reg (opnd operands 0)) (\<lambda>ra.
          Inr (encode_word (enc_r 0 ra (at R_FUNC ''SYS'') (at SYS_SUB ''JALR'')))))
      else
        bindE (n_ops op operands 2 ''JALR Sd, ra'') (\<lambda>_.
        bindE (case map_of REGS (py_upper (py_strip (opnd operands 0))) of
                 Some d \<Rightarrow> Inr d | None \<Rightarrow> sreg (opnd operands 0)) (\<lambda>d.
        bindE (reg (opnd operands 1)) (\<lambda>ra.
          Inr (encode_word (enc_r d ra (at R_FUNC ''SYS'') (at SYS_SUB ''JALR'')))))))"

definition enc_control :: "string \<Rightarrow> string list \<Rightarrow> int list asm" where
  "enc_control op operands =
     bindE (n_ops op operands 0 op) (\<lambda>_.
       Inr (encode_word (enc_r (at CONTROL_CCC op) 0 (at R_FUNC ''SYS'') (at SYS_SUB ''CONTROL''))))"

definition enc_sbank :: "string \<Rightarrow> string list \<Rightarrow> int list asm" where
  "enc_sbank op operands =
     (if op = ''MFS'' then
        bindE (n_ops op operands 2 ''MFS rd, Sn'') (\<lambda>_.
        bindE (reg (opnd operands 0)) (\<lambda>rd.
        bindE (sreg (opnd operands 1)) (\<lambda>sn.
          Inr (encode_word (enc_r rd sn (at R_FUNC ''SYS'') (at SYS_SUB ''MFS''))))))
      else if op = ''MTS'' then
        bindE (n_ops op operands 2 ''MTS Sn, ra'') (\<lambda>_.
        bindE (sreg (opnd operands 0)) (\<lambda>sn.
        bindE (reg (opnd operands 1)) (\<lambda>ra.
          Inr (encode_word (enc_r sn ra (at R_FUNC ''SYS'') (at SYS_SUB ''MTS''))))))
      else if op = ''MFEPC'' then
        bindE (n_ops op operands 1 ''MFEPC rd'') (\<lambda>_.
        bindE (reg (opnd operands 0)) (\<lambda>rd.
          Inr (encode_word (enc_r rd 0 (at R_FUNC ''SYS'') (at SYS_SUB ''MFS'')))))
      else
        bindE (n_ops op operands 1 ''MTEPC ra'') (\<lambda>_.
        bindE (reg (opnd operands 0)) (\<lambda>ra.
          Inr (encode_word (enc_r 0 ra (at R_FUNC ''SYS'') (at SYS_SUB ''MTS''))))))"

definition enc_halt :: "string \<Rightarrow> string list \<Rightarrow> int list asm" where
  "enc_halt op operands =
     bindE (n_ops op operands 0 ''HALT'') (\<lambda>_.
     bindE (enc_i8 (-1) ''HALT rel8'') (\<lambda>r. Inr (encode_word (enc_branch (at BR_CC ''JMP8'') r))))"

section \<open>The encoder\<close>

definition encode_insn :: "string \<Rightarrow> string list \<Rightarrow> labels \<Rightarrow> int \<Rightarrow> bool \<Rightarrow> int list asm" where
  "encode_insn op0 operands labels pc iflush =
     (let op1 = py_upper op0;
          op = (if op1 \<in> {''JALL'', ''JMPL''} then the (map_of MNEMONIC_ALIASES op1) else op1) in
      if op \<in> {''JAL16'', ''JMP16''} then enc_jump op operands labels
      else if op \<in> {''RET'', ''RETI''} then enc_ret op operands
      else if op = ''LDI16'' then enc_ldi16 op operands labels
      else if op = ''NOP'' then enc_nop op operands
      else if op \<in> {''LD'', ''ST''} then enc_ld_st op operands labels
      else if has_key I_OP op then enc_imm op operands labels
      else if has_key BR_CC op then enc_br op operands labels pc
      else if op \<in> {''MOV'', ''SHL1''} then enc_mov op operands
      else if op \<in> {''FSL1'', ''FSR1''} then enc_fun1 op operands
      else if op \<in> {''ADD'', ''SUB'', ''AND'', ''OR'', ''XOR'', ''SLT'', ''SLTU'', ''MUL'', ''DIVU'', ''MULHU''}
      then enc_alu3 op operands
      else if op \<in> {''SLLI'', ''SRLI'', ''SRAI''} then enc_shift op operands labels
      else if op = ''LDX'' then enc_ldx op operands
      else if op \<in> {''LDB'', ''LDBS''} then enc_byte op operands
      else if op = ''STB'' then enc_byte op operands
      else if op \<in> {''JALR'', ''JMP''} then enc_jalr op operands
      else if op = ''IFLUSH'' \<and> \<not> iflush
      then Inl (AsmError ''IFLUSH requires the iflush extension'')
      else if op \<in> {''CLI'', ''STI'', ''IFLUSH''} then enc_control op operands
      else if op \<in> {''MFS'', ''MTS'', ''MFEPC'', ''MTEPC''} then enc_sbank op operands
      else if op = ''HALT'' then enc_halt op operands
      else Inl (AsmError (''unknown instruction: '' @ op)))"

end
