(* ===== verification/AsmSource.thy ===== *)
theory AsmSource
  imports AsmEncode
begin

text \<open>
  The source side of \<open>tools/riscc_asm.py\<close>: comment stripping, operand splitting,
  conditional assembly, and the pass that turns lines into items with section offsets and
  collects the labels. The items' sections are a datatype in the order of
  \<open>SECTION_ORDER\<close>.
\<close>

section \<open>Lines\<close>

text \<open>
  The loop of \<open>strip_comment\<close>: the open quote (if any) and the escape flag; the characters
  kept.
\<close>

fun strip_loop :: "char option \<Rightarrow> bool \<Rightarrow> string \<Rightarrow> string" where
  "strip_loop quote escape [] = []"
| "strip_loop (Some q) escape (ch # cs) =
     ch # (if escape then strip_loop (Some q) False cs
           else if ch = backslash then strip_loop (Some q) True cs
           else if ch = q then strip_loop None False cs
           else strip_loop (Some q) False cs)"
| "strip_loop None escape (ch # cs) =
     (if is_quote ch then ch # strip_loop (Some ch) escape cs
      else if ch = CHR '';'' \<or> ch = CHR ''#'' then []
      else ch # strip_loop None escape cs)"

definition strip_comment :: "string \<Rightarrow> string" where
  "strip_comment line = py_strip (strip_loop None False line)"

definition add_part :: "string \<Rightarrow> string list \<Rightarrow> string list" where
  "add_part cur parts = (if py_strip cur \<noteq> [] then parts @ [py_strip cur] else parts)"

text \<open>The loop of \<open>split_operands\<close> over the bracket depth, the current part and the parts.\<close>

fun split_loop :: "int \<Rightarrow> string \<Rightarrow> string list \<Rightarrow> string \<Rightarrow> string list" where
  "split_loop depth cur parts [] = add_part cur parts"
| "split_loop depth cur parts (ch # cs) =
     (if ch = CHR ''['' then split_loop (depth + 1) (cur @ [ch]) parts cs
      else if ch = CHR '']'' then split_loop (depth - 1) (cur @ [ch]) parts cs
      else if ch = CHR '','' \<and> depth = 0 then split_loop depth [] (add_part cur parts) cs
      else split_loop depth (cur @ [ch]) parts cs)"

definition split_operands :: "string \<Rightarrow> string list" where
  "split_operands text = split_loop 0 [] [] text"

section \<open>Sections\<close>

datatype sect = VECTORS | TEXT | RODATA | DATA | BSS

definition SECTION_ORDER :: "sect list" where
  "SECTION_ORDER = [VECTORS, TEXT, RODATA, DATA, BSS]"

definition SECTION_ALIGN :: "sect \<Rightarrow> int" where
  "SECTION_ALIGN s = 2"

fun sect_name :: "sect \<Rightarrow> string" where
  "sect_name VECTORS = ''.VECTORS''" | "sect_name TEXT = ''.TEXT''"
| "sect_name RODATA = ''.RODATA''" | "sect_name DATA = ''.DATA''" | "sect_name BSS = ''.BSS''"

definition parse_section_name :: "string \<Rightarrow> sect asm" where
  "parse_section_name text =
     (let name0 = py_upper (py_strip text);
          name = (if \<not> startswith name0 ''.'' then ''.'' @ name0 else name0) in
      case find (\<lambda>s. sect_name s = name) SECTION_ORDER of
        None \<Rightarrow> Inl (AsmError (''unknown section: '' @ text))
      | Some s \<Rightarrow> Inr s)"

text \<open>The order of the sections in the image.\<close>

fun sect_rank :: "sect \<Rightarrow> nat" where
  "sect_rank VECTORS = 0" | "sect_rank TEXT = 1" | "sect_rank RODATA = 2" | "sect_rank DATA = 3"
| "sect_rank BSS = 4"

lemma sect_rank_inject [simp]: "sect_rank s = sect_rank t \<longleftrightarrow> s = t"
  by (cases s; cases t) simp_all

instantiation sect :: linorder
begin

definition less_eq_sect :: "sect \<Rightarrow> sect \<Rightarrow> bool" where
  "less_eq_sect s t \<longleftrightarrow> sect_rank s \<le> sect_rank t"

definition less_sect :: "sect \<Rightarrow> sect \<Rightarrow> bool" where
  "less_sect s t \<longleftrightarrow> sect_rank s < sect_rank t"

instance by standard (auto simp: less_eq_sect_def less_sect_def)

end

section \<open>Conditional assembly\<close>

definition define_name :: "string \<Rightarrow> string asm" where
  "define_name text =
     (let name = py_upper (takeWhile (\<lambda>c. c \<noteq> CHR ''='') (py_strip text)) in
      if (case name of
            [] \<Rightarrow> False
          | c # cs \<Rightarrow>
              (is_upper c \<or> c = CHR ''_'') \<and>
              (list_all (\<lambda>d. is_upper d \<or> is_digit d \<or> d = CHR ''_'') cs \<or>
               (cs \<noteq> [] \<and> last cs = CHR 0x0A \<and>
                list_all (\<lambda>d. is_upper d \<or> is_digit d \<or> d = CHR ''_'') (butlast cs))))
      then Inr name else Inl (AsmError (''invalid define name: '' @ text)))"

text \<open>Stack entries are \<open>(parent_active, condition_true, seen_else)\<close>.\<close>

type_synonym pp_stack = "(bool \<times> bool \<times> bool) list"

definition line_msg :: "nat \<Rightarrow> string \<Rightarrow> 'a asm" where
  "line_msg lineno msg = Inl (AsmError (''line '' @ fmt_d (int lineno) @ '': '' @ msg))"

text \<open>The first word of a directive line, lower-cased, and the argument.\<close>

definition pp_directive :: "string \<Rightarrow> string \<times> string" where
  "pp_directive raw =
     (let parts = split1 (strip_comment raw);
          directive = (if parts \<noteq> [] \<and> startswith (hd parts) ''.'' then py_lower (hd parts) else []);
          arg = (if length parts > 1 then py_strip (parts ! 1) else [])
      in (directive, arg))"

fun pp_loop :: "(string \<Rightarrow> bool) \<Rightarrow> nat \<Rightarrow> pp_stack \<Rightarrow> bool \<Rightarrow> string list \<Rightarrow> string list asm" where
  "pp_loop defines lineno stack active [] =
     (if stack \<noteq> [] then Inl (AsmError ''unterminated .ifdef/.ifndef'') else Inr [])"
| "pp_loop defines lineno stack active (raw # lns) =
     (case pp_directive raw of (directive, arg) \<Rightarrow>
      if directive = ''.ifdef'' \<or> directive = ''.ifndef'' then
        if arg = [] then line_msg lineno (directive @ '' requires a symbol'')
        else
          bindE (define_name arg) (\<lambda>name.
            let cond = (if directive = ''.ifndef'' then \<not> defines name else defines name) in
            bindE (pp_loop defines (Suc lineno) ((active, cond, False) # stack) (active \<and> cond) lns)
              (\<lambda>out. Inr (''\<newline>'' # out)))
      else if directive = ''.else'' then
        (case stack of
           [] \<Rightarrow> line_msg lineno ''.else without .ifdef/.ifndef''
         | (parent, cond, seen_else) # rest \<Rightarrow>
             if seen_else then line_msg lineno ''duplicate .else''
             else
               bindE (pp_loop defines (Suc lineno) ((parent, cond, True) # rest) (parent \<and> \<not> cond) lns)
                 (\<lambda>out. Inr (''\<newline>'' # out)))
      else if directive = ''.endif'' then
        (case stack of
           [] \<Rightarrow> line_msg lineno ''.endif without .ifdef/.ifndef''
         | (parent, cond, seen_else) # rest \<Rightarrow>
             bindE (pp_loop defines (Suc lineno) rest parent lns)
               (\<lambda>out. Inr (''\<newline>'' # out)))
      else
        bindE (pp_loop defines (Suc lineno) stack active lns)
          (\<lambda>out. Inr ((if active then raw else ''\<newline>'') # out)))"

definition preprocess_source :: "string list \<Rightarrow> (string \<Rightarrow> bool) \<Rightarrow> string list asm" where
  "preprocess_source lns defines = pp_loop defines 1 [] True lns"

section \<open>Items\<close>

datatype kind = INSN | BYTE | WORD | ASCII | SPACE

record item =
  it_section :: sect
  it_offset :: int
  it_size :: int
  it_kind :: kind
  it_op :: string
  it_operands :: "string list"
  it_lineno :: nat
  it_raw :: string

type_synonym label_defs = "(string \<times> (sect \<times> int)) list"

text \<open>The state of the loop: items and labels so far, the section offsets, the section.\<close>

record src_state =
  ss_items :: "item list"
  ss_labels :: label_defs
  ss_offsets :: "sect \<Rightarrow> int"
  ss_section :: sect

definition src_init :: src_state where
  "src_init = \<lparr>ss_items = [], ss_labels = [], ss_offsets = (\<lambda>_. 0), ss_section = TEXT\<rparr>"

text \<open>
  The label regular expression: an identifier, optional whitespace, a colon, optional
  whitespace and the rest of the line. The rest is stripped.
\<close>

definition match_label :: "string \<Rightarrow> (string \<times> string) option" where
  "match_label rest =
     (case match_ident rest of
        None \<Rightarrow> None
      | Some (name, tail) \<Rightarrow>
          (case lstrip tail of
             [] \<Rightarrow> None
           | c # cs \<Rightarrow>
               if c = CHR '':'' \<and> one_line (lstrip cs) then Some (name, py_strip cs) else None))"

lemma match_label_shorter: "match_label rest = Some (name, r) \<Longrightarrow> length r < length rest"
proof -
  have le: "length (py_strip xs) \<le> length xs" for xs
    by (metis length_dropWhile_le length_rev lstrip_def py_strip_def rstrip_def le_trans)
  have "length cs < length tail" if "lstrip tail = c # cs" for tail c cs
    using that length_dropWhile_le [of py_space tail] unfolding lstrip_def by simp
  then show "match_label rest = Some (name, r) \<Longrightarrow> length r < length rest"
    unfolding match_label_def match_ident_def
    by (auto split: list.splits if_splits option.splits)
      (meson le less_SucI less_le_trans le_less_trans length_dropWhile_le)
qed

text \<open>The label loop at the start of a line: the labels in order, and what follows them.\<close>

function label_loop ::
  "nat \<Rightarrow> sect \<times> int \<Rightarrow> label_defs \<Rightarrow> string \<Rightarrow> (label_defs \<times> string) asm" where
  "label_loop lineno here labels rest =
     (case match_label rest of
        None \<Rightarrow> Inr (labels, rest)
      | Some (name0, rest') \<Rightarrow>
          let name = py_upper name0 in
          if has_key labels name then line_msg lineno (''duplicate label '' @ name)
          else if rest' = [] then Inr (labels @ [(name, here)], [])
          else label_loop lineno here (labels @ [(name, here)]) rest')"
  by pat_completeness auto
termination
  by (relation "measure (\<lambda>(_, _, _, rest). length rest)") (auto dest: match_label_shorter)

declare label_loop.simps [simp del]

text \<open>Append an item at the current offset and advance it.\<close>

definition add_item ::
  "kind \<Rightarrow> string \<Rightarrow> string list \<Rightarrow> int \<Rightarrow> nat \<Rightarrow> string \<Rightarrow> src_state \<Rightarrow> src_state" where
  "add_item k op operands sz lineno raw st =
     (let s = ss_section st; off = ss_offsets st s in
      st\<lparr>ss_items := ss_items st @
           [\<lparr>it_section = s, it_offset = off, it_size = sz, it_kind = k, it_op = op,
             it_operands = operands, it_lineno = lineno, it_raw = rstrip raw\<rparr>],
         ss_offsets := (ss_offsets st)(s := off + sz)\<rparr>)"

definition no_labels :: labels where "no_labels = (\<lambda>_. None)"

definition directive_line :: "nat \<Rightarrow> string \<Rightarrow> string \<Rightarrow> src_state \<Rightarrow> src_state asm" where
  "directive_line lineno raw rest st =
     (let parts = split1 rest;
          directive = py_lower (hd parts);
          arg_text = (if length parts > 1 then parts ! 1 else []) in
      if directive \<in> {''.vectors'', ''.text'', ''.rodata'', ''.data'', ''.bss''} then
        bindE (parse_section_name directive) (\<lambda>s. Inr (st\<lparr>ss_section := s\<rparr>))
      else if directive = ''.byte'' then
        (let ops = split_operands arg_text in
         Inr (add_item BYTE directive ops (int (length ops)) lineno raw st))
      else if directive = ''.word'' then
        (let ops = split_operands arg_text in
         Inr (add_item WORD directive ops (2 * int (length ops)) lineno raw st))
      else if directive = ''.ascii'' \<or> directive = ''.asciz'' then
        bindE (parse_string (py_strip arg_text)) (\<lambda>value.
          let sz = int (length value) + (if directive = ''.asciz'' then 1 else 0) in
          Inr (add_item ASCII directive [value] sz lineno raw st))
      else if directive = ''.space'' then
        bindE (eval_expr arg_text no_labels) (\<lambda>sz.
          if sz < 0 then line_msg lineno ''negative .space''
          else Inr (add_item SPACE directive [arg_text] sz lineno raw st))
      else if directive = ''.align'' then
        bindE (if arg_text \<noteq> [] then eval_expr arg_text no_labels else Inr 2) (\<lambda>align.
          let cur = ss_offsets st (ss_section st);
              sz = ((cur + align - 1) AND (- align)) - cur in
          Inr (add_item SPACE directive [] sz lineno raw st))
      else line_msg lineno (''unsupported directive '' @ directive))"

definition insn_line :: "nat \<Rightarrow> string \<Rightarrow> string \<Rightarrow> src_state \<Rightarrow> src_state" where
  "insn_line lineno raw rest st =
     (let parts = split1 rest;
          op = py_upper (hd parts);
          operands = (if length parts > 1 then split_operands (parts ! 1) else []) in
      add_item INSN op operands (insn_size op operands) lineno raw st)"

definition source_line :: "nat \<Rightarrow> string \<Rightarrow> src_state \<Rightarrow> src_state asm" where
  "source_line lineno raw st =
     (let line = strip_comment raw in
      if line = [] then Inr st
      else
        bindE (label_loop lineno (ss_section st, ss_offsets st (ss_section st)) (ss_labels st) line)
          (\<lambda>(labels, rest).
            let st1 = st\<lparr>ss_labels := labels\<rparr> in
            if rest = [] then Inr st1
            else if startswith rest ''.'' then directive_line lineno raw rest st1
            else Inr (insn_line lineno raw rest st1)))"

fun source_loop :: "nat \<Rightarrow> string list \<Rightarrow> src_state \<Rightarrow> src_state asm" where
  "source_loop lineno [] st = Inr st"
| "source_loop lineno (raw # lns) st = bindE (source_line lineno raw st) (source_loop (Suc lineno) lns)"

definition parse_source :: "string list \<Rightarrow> (item list \<times> label_defs) asm" where
  "parse_source lns =
     bindE (source_loop 1 lns src_init) (\<lambda>st. Inr (ss_items st, ss_labels st))"

end
