(* ===== verification/AsmImage.thy ===== *)
theory AsmImage
  imports AsmSource
begin

text \<open>
  The second half of \<open>tools/riscc_asm.py\<close>: section layout, the label map, the bytes of an
  item, \<open>assemble\<close> and the option checks of \<open>main\<close>.
\<close>

section \<open>Layout\<close>

text \<open>The loop that finds each section's size, over a map from sections to integers.\<close>

definition section_sizes :: "item list \<Rightarrow> sect \<Rightarrow> int" where
  "section_sizes items =
     foldl (\<lambda>sizes it. sizes(it_section it := max (sizes (it_section it)) (it_offset it + it_size it)))
       (\<lambda>_. 0) items"

definition align_up :: "int \<Rightarrow> int \<Rightarrow> int" where
  "align_up cursor align = (cursor + align - 1) AND (- align)"

fun layout_loop :: "(sect \<Rightarrow> int) \<Rightarrow> int \<Rightarrow> (sect \<Rightarrow> int) \<Rightarrow> sect list \<Rightarrow> (sect \<Rightarrow> int)" where
  "layout_loop sizes cursor bases [] = bases"
| "layout_loop sizes cursor bases (s # ss) =
     (let base = align_up cursor (SECTION_ALIGN s)
      in layout_loop sizes (base + sizes s) (bases(s := base)) ss)"

definition layout_sections :: "item list \<Rightarrow> sect \<Rightarrow> int" where
  "layout_sections items = layout_loop (section_sizes items) 0 (\<lambda>_. 0) SECTION_ORDER"

definition final_label_map :: "label_defs \<Rightarrow> (sect \<Rightarrow> int) \<Rightarrow> labels" where
  "final_label_map defs bases =
     map_of (map (\<lambda>(name, (s, off)). (name, bases s + off)) defs)"

section \<open>Items\<close>

text \<open>\<open>bytes(n)\<close>.\<close>

definition zero_bytes :: "int \<Rightarrow> int list asm" where
  "zero_bytes n = (if n < 0 then Inl PyValueError else Inr (replicate (nat n) 0))"

definition latin1 :: "string \<Rightarrow> int list" where
  "latin1 s = map (\<lambda>c. int (ccode c)) s"

definition at_line :: "nat \<Rightarrow> 'a asm \<Rightarrow> 'a asm" where
  "at_line lineno res =
     (case res of Inl (AsmError msg) \<Rightarrow> line_msg lineno msg | _ \<Rightarrow> res)"

definition emit_item :: "item \<Rightarrow> labels \<Rightarrow> (sect \<Rightarrow> int) \<Rightarrow> bool \<Rightarrow> int list asm" where
  "emit_item it labels bases iflush =
     (let pc = bases (it_section it) + it_offset it in
      case it_kind it of
        INSN \<Rightarrow>
          if pc AND 1 \<noteq> 0 then line_msg (it_lineno it) ''instruction address not 2-byte-aligned''
          else at_line (it_lineno it) (encode_insn (it_op it) (it_operands it) labels pc iflush)
      | BYTE \<Rightarrow> mapE (\<lambda>e. bindE (eval_expr e labels) (\<lambda>v. Inr (v AND 0xFF))) (it_operands it)
      | WORD \<Rightarrow>
          bindE (mapE (\<lambda>e. bindE (eval_expr e labels) (\<lambda>v. Inr (encode_word (v AND 0xFFFF)))) (it_operands it))
            (\<lambda>ws. Inr (concat ws))
      | ASCII \<Rightarrow> Inr (latin1 (it_operands it ! 0) @ (if it_op it = ''.asciz'' then [0] else []))
      | SPACE \<Rightarrow> zero_bytes (it_size it))"

section \<open>Assembly\<close>

text \<open>
  The emission loop over the section blobs. The slice assignment is at a nonnegative offset:
  an offset below zero can only follow an item of negative size, which raises first.
\<close>

fun emit_loop ::
  "labels \<Rightarrow> (sect \<Rightarrow> int) \<Rightarrow> bool \<Rightarrow> item list \<Rightarrow> (sect \<Rightarrow> int list) \<Rightarrow> (sect \<Rightarrow> int list) asm" where
  "emit_loop labels bases iflush [] blobs = Inr blobs"
| "emit_loop labels bases iflush (it # items) blobs =
     bindE (emit_item it labels bases iflush) (\<lambda>data.
       if int (length data) \<noteq> it_size it
       then line_msg (it_lineno it) (''internal size mismatch for '' @ it_op it @ '': expected '' @
              fmt_d (it_size it) @ '', got '' @ fmt_d (int (length data)))
       else emit_loop labels bases iflush items
              (blobs(it_section it := blit (nat (it_offset it)) data (blobs (it_section it)))))"

fun image_loop :: "(sect \<Rightarrow> int list) \<Rightarrow> int list \<Rightarrow> int \<Rightarrow> sect list \<Rightarrow> int list" where
  "image_loop blobs img cursor [] = img"
| "image_loop blobs img cursor (s # ss) =
     (let base = align_up cursor (SECTION_ALIGN s);
          padded = (if int (length img) < base
                    then img @ replicate (nat (base - int (length img))) 0 else img)
      in image_loop blobs (padded @ blobs s) (base + int (length (blobs s))) ss)"

definition build_image :: "item list \<Rightarrow> label_defs \<Rightarrow> bool \<Rightarrow> int list asm" where
  "build_image items label_defs iflush =
     (let bases = layout_sections items;
          labels = final_label_map label_defs bases;
          sizes = section_sizes items in
      bindE (emit_loop labels bases iflush items (\<lambda>s. replicate (nat (sizes s)) 0))
        (\<lambda>blobs. Inr (image_loop blobs [] 0 SECTION_ORDER)))"

definition assemble :: "string list \<Rightarrow> (string \<Rightarrow> bool) \<Rightarrow> bool \<Rightarrow> int list asm" where
  "assemble lns defines iflush =
     (if iflush \<and> \<not> (defines ''RISCC_SYS'' \<or> defines ''RISCC_FULL'')
      then Inl (AsmError ''--iflush requires the sys or full profile'')
      else
        bindE (preprocess_source lns defines) (\<lambda>filtered.
        bindE (parse_source filtered) (\<lambda>(items, label_defs).
          build_image items label_defs iflush)))"

section \<open>Options\<close>

datatype profile = Min | Sys | Full | Nano

fun profile_symbol :: "profile \<Rightarrow> string" where
  "profile_symbol Min = ''RISCC_MIN''" | "profile_symbol Sys = ''RISCC_SYS''"
| "profile_symbol Full = ''RISCC_FULL''" | "profile_symbol Nano = ''RISCC_NANO''"

text \<open>The set of symbols \<open>main\<close> defines, as a list.\<close>

definition cli_defines :: "string list \<Rightarrow> profile \<Rightarrow> bool \<Rightarrow> bool \<Rightarrow> string list asm" where
  "cli_defines given prof mdu iflush =
     bindE (mapE define_name given) (\<lambda>names.
       if mdu \<and> prof \<noteq> Full then Inl (AsmError ''--mdu requires --profile full'')
       else if iflush \<and> prof \<notin> {Sys, Full}
       then Inl (AsmError ''--iflush requires --profile sys or full'')
       else
         Inr (names @ [profile_symbol prof] @ (if prof = Full then [''RISCC_SYS''] else []) @
              (if mdu then [''RISCC_MDU'', ''RISCC_MULHU'', ''RISCC_DIVU''] else []) @
              (if iflush then [''RISCC_IFLUSH''] else [])))"

definition asm_main :: "string list \<Rightarrow> string list \<Rightarrow> profile \<Rightarrow> bool \<Rightarrow> bool \<Rightarrow> int list asm" where
  "asm_main lns given prof mdu iflush =
     bindE (cli_defines given prof mdu iflush) (\<lambda>defs. assemble lns (\<lambda>n. n \<in> set defs) iflush)"

end
