(* ===== verification/AsmFields.thy ===== *)
theory AsmFields
  imports AsmEncode SimStep
begin

text \<open>
  Field packing and unpacking: the halfwords the assembler's format functions build are
  taken apart again by the simulator's decoder, so each encoded format executes as the
  instruction group it names. The lemmas in \<open>fields\<close> rewrite a decoded field of an encoded
  halfword to the value put there.
\<close>

named_theorems fields \<open>decoded fields of encoded halfwords\<close>

section \<open>Packing\<close>

lemma pack_or:
  fixes hi lo :: int
  assumes "0 \<le> lo" "lo < 2 ^ n"
  shows "push_bit n hi OR lo = hi * 2 ^ n + lo"
proof -
  have "take_bit n lo = lo" using assms by (simp add: take_bit_int_eq_self_iff)
  then have "push_bit n hi AND lo = 0"
    by (intro bit_eqI) (metis bit_and_iff bit_push_bit_iff bit_take_bit_iff bit_0_eq bot_apply bot_bool_def not_le)
  then show ?thesis
    using plus_and_or [of "push_bit n hi" lo] by (simp add: push_bit_eq_mult)
qed

lemma unpack_div: "0 \<le> lo \<Longrightarrow> lo < m \<Longrightarrow> (hi * m + lo) div m = hi" for hi lo m :: int
  by simp

lemma unpack_mod: "0 \<le> lo \<Longrightarrow> lo < m \<Longrightarrow> (hi * m + lo) mod m = lo" for hi lo m :: int
  by simp

text \<open>The four-field halfword \<open>op . d . a . low8\<close> that every compact format refines.\<close>

definition pack4 :: "int \<Rightarrow> int \<Rightarrow> int \<Rightarrow> int \<Rightarrow> int" where
  "pack4 opc d a low = ((opc * 8 + d) * 8 + a) * 256 + low"

lemma pack4_or:
  assumes "0 \<le> d" "d < 8" "0 \<le> a" "a < 8" "0 \<le> low" "low < 256"
  shows "push_bit 14 opc OR (push_bit 11 d OR (push_bit 8 a OR low)) = pack4 opc d a low"
proof -
  have a: "push_bit 8 a OR low = a * 256 + low" using pack_or [of low 8 a] assms by simp
  have d: "push_bit 11 d OR (a * 256 + low) = d * 2048 + (a * 256 + low)"
    using pack_or [of "a * 256 + low" 11 d] assms by simp
  have "push_bit 14 opc OR (d * 2048 + (a * 256 + low)) = opc * 16384 + (d * 2048 + (a * 256 + low))"
    using pack_or [of "d * 2048 + (a * 256 + low)" 14 opc] assms by simp
  then show ?thesis by (simp add: a d pack4_def)
qed

lemma pack4_fields:
  assumes "0 \<le> d" "d < 8" "0 \<le> a" "a < 8" "0 \<le> low" "low < 256"
  shows "drop_bit 14 (pack4 opc d a low) = opc" "drop_bit 11 (pack4 opc d a low) AND 7 = d"
    "drop_bit 8 (pack4 opc d a low) AND 7 = a" "pack4 opc d a low AND 0xFF = low"
proof -
  define q where "q = opc * 8 + d"
  define r where "r = q * 8 + a"
  have p: "pack4 opc d a low = r * 256 + low" by (simp add: pack4_def r_def q_def)
  have d8: "drop_bit 8 (pack4 opc d a low) = r" using assms by (simp add: mask_simps p)
  have d11: "drop_bit 11 (pack4 opc d a low) = q"
  proof -
    have "drop_bit 11 (pack4 opc d a low) = drop_bit 3 (drop_bit 8 (pack4 opc d a low))" by simp
    also have "\<dots> = q" using assms unfolding d8 by (simp add: mask_simps r_def)
    finally show ?thesis .
  qed
  have "drop_bit 14 (pack4 opc d a low) = drop_bit 3 (drop_bit 11 (pack4 opc d a low))" by simp
  also have "\<dots> = opc" using assms unfolding d11 by (simp add: mask_simps q_def)
  finally show "drop_bit 14 (pack4 opc d a low) = opc" .
  have "q mod 8 = d" unfolding q_def using assms(1,2) by (rule unpack_mod)
  then show "drop_bit 11 (pack4 opc d a low) AND 7 = d" unfolding d11 by (simp only: and_7)
  have "r mod 8 = a" unfolding r_def using assms(3,4) by (rule unpack_mod)
  then show "drop_bit 8 (pack4 opc d a low) AND 7 = a" unfolding d8 by (simp only: and_7)
  show "pack4 opc d a low AND 0xFF = low" unfolding p and_255 using assms(5,6) by (rule unpack_mod)
qed

lemma pack4_low:
  assumes "0 \<le> low" "low < 256"
  shows "pack4 opc d a low AND 7 = low AND 7" "drop_bit 3 (pack4 opc d a low) AND 0x1F = drop_bit 3 low"
    "pack4 opc d a low AND 1 = low AND 1"
proof -
  have "pack4 opc d a low = 32 * ((opc * 8 + d) * 8 + a) * 8 + low" by (simp add: pack4_def)
  then obtain x where x: "pack4 opc d a low = 32 * x * 8 + low" by blast
  show "pack4 opc d a low AND 7 = low AND 7"
    unfolding x and_7 by (rule mod_mult_self3)
  have "(32 * x * 8 + low) div 8 = 32 * x + low div 8" by simp
  moreover have "0 \<le> low div 8" "low div 8 < 32" using assms by auto
  ultimately show "drop_bit 3 (pack4 opc d a low) AND 0x1F = drop_bit 3 low"
    unfolding x by (simp add: mask_simps)
  show "pack4 opc d a low AND 1 = low AND 1"
    unfolding x by (simp add: and_one_eq mod_2_eq_odd)
qed

lemma even_byte_le: "imm < 256 \<Longrightarrow> imm mod 2 = 0 \<Longrightarrow> imm + of_bool st < 256" for imm :: int
  by (cases "imm = 255"; cases st) simp_all

lemma pack4_not_long: "0 \<le> d \<Longrightarrow> d < 8 \<Longrightarrow> 0 \<le> a \<Longrightarrow> a < 8 \<Longrightarrow> 0 \<le> low \<Longrightarrow> low < 256 \<Longrightarrow>
   opc \<in> {1, 2, 3} \<Longrightarrow> pack4 opc d a low AND 0xC7FF \<noteq> 0x0034"
proof
  assume b: "0 \<le> d" "d < 8" "0 \<le> a" "a < 8" "0 \<le> low" "low < 256" "opc \<in> {1, 2, 3}"
    and "pack4 opc d a low AND 0xC7FF = 0x0034"
  then have "drop_bit 14 (pack4 opc d a low AND 0xC7FF) = 0" by simp
  then have "opc AND 3 = 0" using pack4_fields(1) [OF b(1-6)] by (simp add: drop_bit_and)
  then show False using b(7) by auto
qed

lemma pack4_fits:
  assumes "0 \<le> d" "d < 8" "0 \<le> a" "a < 8" "0 \<le> low" "low < 256" "0 \<le> opc" "opc < 4"
  shows "fits 16 (pack4 opc d a low)"
  using assms by (simp add: fits_def pack4_def)

section \<open>The formats\<close>

abbreviation r3 :: "int \<Rightarrow> bool" where
  "r3 i \<equiv> 0 \<le> i \<and> i < 8"

lemma enc_r_pack:
  assumes "r3 d" "r3 a" "0 \<le> f" "f < 32" "r3 b"
  shows "enc_r d a f b = pack4 3 d a (f * 8 + b)"
proof -
  have "push_bit 3 f OR b = f * 8 + b" using pack_or [of b 3 f] assms by simp
  then have "enc_r d a f b = push_bit 14 3 OR (push_bit 11 d OR (push_bit 8 a OR (f * 8 + b)))"
    by (simp only: enc_r_def or.assoc)
  also have "\<dots> = pack4 3 d a (f * 8 + b)" using assms by (intro pack4_or) auto
  finally show ?thesis .
qed

lemma enc_i_pack:
  assumes "r3 d" "r3 op" "0 \<le> imm" "imm < 256"
  shows "enc_i d op imm = pack4 2 d op imm"
  using assms unfolding enc_i_def or.assoc by (intro pack4_or) auto

lemma enc_mem_i_pack:
  assumes "r3 d" "r3 a" "0 \<le> imm" "imm < 256" "imm mod 2 = 0"
  shows "enc_mem_i st d a imm = pack4 1 d a (imm + of_bool st)"
proof -
  have "imm AND 0xFE = imm" using assms by (simp add: mask_simps)
  moreover have "imm OR of_bool st = imm + of_bool st"
  proof (cases st)
    case True
    then show ?thesis using assms(5) or_one_eq [of imm] by (simp add: even_iff_mod_2_eq_zero)
  qed simp
  moreover have "imm + of_bool st < 256" using assms(4,5) by (rule even_byte_le)
  ultimately show ?thesis
    using assms unfolding enc_mem_i_def or.assoc by (subst pack4_or) auto
qed

lemma exec_enc_r:
  assumes "r3 d" "r3 a" "0 \<le> f" "f < 32" "r3 b"
  shows "exec_insn m (enc_r d a f b) p = exec_reg m d a f b p"
proof -
  let ?w = "pack4 3 d a (f * 8 + b)"
  have low: "0 \<le> f * 8 + b" "f * 8 + b < 256" using assms by auto
  have "?w AND 7 = b" "drop_bit 3 ?w AND 0x1F = f"
    unfolding pack4_low [OF low] using assms by (simp_all add: mask_simps)
  then show ?thesis
    using assms low pack4_not_long [of d a "f * 8 + b" 3]
    by (simp add: enc_r_pack exec_insn_def Let_def pack4_fields)
qed

lemma exec_enc_i:
  assumes "r3 d" "r3 op" "0 \<le> imm" "imm < 256"
  shows "exec_insn m (enc_i d op imm) p = exec_imm m d op imm p"
  using assms pack4_not_long [of d op imm 2]
  by (simp add: enc_i_pack exec_insn_def Let_def pack4_fields)

lemma exec_enc_mem_i:
  assumes "r3 d" "r3 a" "0 \<le> imm" "imm < 256" "imm mod 2 = 0"
  shows "exec_insn m (enc_mem_i st d a imm) p =
    (let addr = (get_r m a + sx8 imm) AND 0xFFFF in
     if st then Inr (store_word addr (get_r m d) 3 m, p)
     else (case load_word addr m of (v, m1) \<Rightarrow> Inr (set_r d v m1, p)))"
proof -
  let ?low = "imm + of_bool st"
  have low: "0 \<le> ?low" "?low < 256" using assms even_byte_le [of imm st] by auto
  have even: "even imm" using assms(5) by (simp add: even_iff_mod_2_eq_zero)
  have e: "?low AND 0xFE = imm" "?low AND 1 = of_bool st"
    using assms low even by (cases st; simp add: mask_simps and_one_eq mod_2_eq_odd)+
  show ?thesis
    using assms low pack4_not_long [of d a ?low 1] e
    by (simp add: enc_mem_i_pack exec_insn_def exec_mem_def Let_def pack4_fields pack4_low)
qed

end
