(* ===== verification/AsmEncodeFacts.thy ===== *)
theory AsmEncodeFacts
  imports AsmFields
begin

text \<open>
  What every successful encoding satisfies: the byte counts \<open>insn_size\<close> announces, byte
  ranges, and register operands in range. The contract a client of the encoder needs is the
  locale \<open>sized_encoder\<close>, interpreted on \<open>encode_insn\<close> here and used by the image builder.
\<close>

section \<open>Words\<close>

lemma encode_word_bytes: "length (encode_word w) = 2" "list_all (fits 8) (encode_word w)"
  by (simp_all add: encode_word_def fits_def mask_simps)

definition halfword :: "int list \<Rightarrow> int" where
  "halfword bs = bs ! 0 OR push_bit 8 (bs ! 1)"

lemma halfword_encode_word: "halfword (encode_word w @ bs) = w mod 65536"
proof -
  have "w mod 256 OR push_bit 8 (w div 256 mod 256) = w div 256 mod 256 * 256 + w mod 256"
    using pack_or [of "w mod 256" 8 "w div 256 mod 256"] by (simp add: or.commute)
  also have "\<dots> = w mod 65536"
    using zmod_zmult2_eq [of 256 w 256] by simp
  finally show ?thesis by (simp add: halfword_def encode_word_def mask_simps)
qed

lemma halfword_fits: "fits 16 w \<Longrightarrow> halfword (encode_word w @ bs) = w"
  unfolding halfword_encode_word by (simp add: fits_def)

lemma halfword_single: "fits 16 w \<Longrightarrow> halfword (encode_word w) = w"
  using halfword_fits [of w "[]"] by simp

section \<open>Operands in range\<close>

lemma map_of_range: "map_of t k = Some v \<Longrightarrow> list_all (\<lambda>(_, v). P v) t \<Longrightarrow> P v"
  by (auto simp: list_all_iff dest!: map_of_SomeD)

lemma regs_range: "list_all (\<lambda>(_, v). r3 v) REGS" "list_all (\<lambda>(_, v). r3 v) SREGS"
  by (simp_all add: REGS_def SREGS_def)

lemma reg_range: "reg tok = Inr i \<Longrightarrow> r3 i"
  by (auto simp: reg_def split: option.splits dest: map_of_range [OF _ regs_range(1)])

lemma sreg_range: "sreg tok = Inr i \<Longrightarrow> r3 i"
  by (auto simp: sreg_def split: option.splits dest: map_of_range [OF _ regs_range(2)])

section \<open>Sizes\<close>

lemmas enc_groups = enc_jump_def enc_ret_def enc_ldi16_def enc_nop_def enc_ld_st_def enc_imm_def
  enc_br_def enc_mov_def enc_fun1_def enc_alu3_def enc_shift_def enc_ldx_def enc_byte_def
  enc_jalr_def enc_control_def enc_sbank_def enc_halt_def

text \<open>Every group yields whole encoded halfwords: one, or two for the long forms.\<close>

definition words :: "nat \<Rightarrow> int list asm \<Rightarrow> bool" where
  "words n res \<longleftrightarrow> (\<forall>bs. res = Inr bs \<longrightarrow> length bs = 2 * n \<and> list_all (fits 8) bs)"

lemma words_Inl [simp]: "words n (Inl e)"
  by (simp add: words_def)

lemma words_if: "words n a \<Longrightarrow> words n b \<Longrightarrow> words n (if c then a else b)"
  by simp

lemma words_prod: "(\<And>x y. words n (f x y)) \<Longrightarrow> words n (case z of (x, y) \<Rightarrow> f x y)"
  by (cases z) simp

lemma words_bind: "(\<And>x. words n (f x)) \<Longrightarrow> words n (bindE m f)"
  by (auto simp: words_def bindE_Inr_iff)

lemma words_word [simp]: "words (Suc 0) (Inr (encode_word w))"
  by (simp add: words_def encode_word_bytes)

lemma words_two [simp]: "words 2 (Inr (encode_word v @ encode_word w))"
  by (simp add: words_def encode_word_bytes)

lemma words_groups:
  "words 2 (enc_jump op os labels)" "words (Suc 0) (enc_ret op os)" "words 2 (enc_ldi16 op os labels)"
  "words (Suc 0) (enc_nop op os)" "words (Suc 0) (enc_ld_st op os labels)"
  "words (Suc 0) (enc_imm op os labels)" "words (Suc 0) (enc_br op os labels pc)"
  "words (Suc 0) (enc_mov op os)" "words (Suc 0) (enc_fun1 op os)" "words (Suc 0) (enc_alu3 op os)"
  "words (Suc 0) (enc_shift op os labels)" "words (Suc 0) (enc_ldx op os)"
  "words (Suc 0) (enc_byte op os)" "words (Suc 0) (enc_jalr op os)" "words (Suc 0) (enc_control op os)"
  "words (Suc 0) (enc_sbank op os)" "words (Suc 0) (enc_halt op os)"
  unfolding enc_groups enc_long_def Let_def
  by (intro words_bind words_if words_prod words_Inl words_word words_two)+

lemma encode_insn_words:
  "words (nat (insn_size op os div 2)) (encode_insn op os labels pc iflush)"
  unfolding encode_insn_def Let_def insn_size_def
  by (auto simp: words_groups MNEMONIC_ALIASES_def has_key_def I_OP_def BR_CC_def)

section \<open>The contract of an encoder\<close>

text \<open>
  An encoder of things \<open>i\<close> in an environment: on the things it accepts, a successful encoding
  is a list of bytes of the announced size. Encoding a list concatenates, so its size adds up.
\<close>

locale sized_encoder =
  fixes enc :: "'i \<Rightarrow> 'env \<Rightarrow> int list asm" and esize :: "'i \<Rightarrow> int" and ok :: "'i \<Rightarrow> bool"
  assumes enc_len: "ok i \<Longrightarrow> enc i env = Inr bs \<Longrightarrow> int (length bs) = esize i"
    and enc_fits: "ok i \<Longrightarrow> enc i env = Inr bs \<Longrightarrow> list_all (fits 8) bs"
begin

lemma all_len:
  "list_all ok is \<Longrightarrow> mapE (\<lambda>i. enc i env) is = Inr bss \<Longrightarrow>
   int (length (concat bss)) = sum_list (map esize is)"
  by (induction "is" arbitrary: bss) (auto simp: bindE_Inr_iff enc_len)

lemma all_fits:
  "list_all ok is \<Longrightarrow> mapE (\<lambda>i. enc i env) is = Inr bss \<Longrightarrow> list_all (fits 8) (concat bss)"
  by (induction "is" arbitrary: bss) (auto simp: bindE_Inr_iff dest: enc_fits)

lemma size_nonneg: "ok i \<Longrightarrow> enc i env = Inr bs \<Longrightarrow> 0 \<le> esize i"
  using enc_len by fastforce

end

text \<open>The instruction encoder, with the mnemonic and the operands as the thing encoded.\<close>

lemma insn_size_even: "insn_size op os \<in> {2, 4}"
  by (simp add: insn_size_def Let_def)

definition enc_insn_in :: "string \<times> string list \<Rightarrow> labels \<times> int \<times> bool \<Rightarrow> int list asm" where
  "enc_insn_in i env =
     (case (i, env) of ((op, os), (labels, pc, iflush)) \<Rightarrow> encode_insn op os labels pc iflush)"

interpretation insn_enc: sized_encoder enc_insn_in "\<lambda>(op, os). insn_size op os" "\<lambda>_. True"
proof (unfold_locales, goal_cases)
  case (1 i env bs)
  obtain op os where [simp]: "i = (op, os)" by (cases i)
  show ?case
    using 1 encode_insn_words [of op os] insn_size_even [of op os]
    by (auto simp: enc_insn_in_def words_def split: prod.splits)
next
  case (2 i env bs)
  then show ?case
    using encode_insn_words by (auto simp: enc_insn_in_def words_def split: prod.splits)
qed

text \<open>An operand of \<open>.word\<close>.\<close>

definition word_operand :: "string \<Rightarrow> labels \<Rightarrow> int list asm" where
  "word_operand e labels = bindE (eval_expr e labels) (\<lambda>v. Inr (encode_word (v AND 0xFFFF)))"

interpretation word_enc: sized_encoder word_operand "\<lambda>_. 2" "\<lambda>_. True"
  by unfold_locales (auto simp: word_operand_def bindE_Inr_iff encode_word_bytes)

end
