(* ===== verification/AsmLayout.thy ===== *)
theory AsmLayout
  imports AsmImage AsmEncodeFacts
begin

text \<open>
  Facts about the item list and the image: the invariant of \<open>parse_source\<close> (the items of a
  section are contiguous from offset zero and have the sizes their kinds ask for), the
  emission loop as concatenation, and the place of each section in the image.
\<close>

section \<open>Items have the size they announce\<close>

definition item_ok :: "item \<Rightarrow> bool" where
  "item_ok it =
     (case it_kind it of
        INSN \<Rightarrow> it_size it = insn_size (it_op it) (it_operands it)
      | BYTE \<Rightarrow> it_size it = int (length (it_operands it))
      | WORD \<Rightarrow> it_size it = 2 * int (length (it_operands it))
      | ASCII \<Rightarrow> it_size it = int (length (it_operands it ! 0)) + (if it_op it = ''.asciz'' then 1 else 0)
      | SPACE \<Rightarrow> True)"

definition emit_in :: "item \<Rightarrow> labels \<times> (sect \<Rightarrow> int) \<times> bool \<Rightarrow> int list asm" where
  "emit_in it env = (case env of (labels, bases, iflush) \<Rightarrow> emit_item it labels bases iflush)"

lemma at_line_Inr [simp]: "at_line n res = Inr x \<longleftrightarrow> res = Inr x"
  by (auto simp: at_line_def line_msg_def split: sum.splits asm_error.splits)

lemma mapE_all: "mapE f xs = Inr ys \<Longrightarrow> (\<And>x y. f x = Inr y \<Longrightarrow> P y) \<Longrightarrow> list_all P ys"
  by (induction xs arbitrary: ys) (auto simp: bindE_Inr_iff)

lemma latin1_fits: "list_all (fits 8) (latin1 s)"
  using ccode_lt by (auto simp: latin1_def fits_def list_all_iff)

interpretation item_enc: sized_encoder emit_in it_size item_ok
proof (unfold_locales, goal_cases)
  case (1 it env bs)
  obtain labels bases iflush where [simp]: "env = (labels, bases, iflush)" by (cases env)
  show ?case
  proof (cases "it_kind it")
    case INSN
    then have "enc_insn_in (it_op it, it_operands it)
        (labels, bases (it_section it) + it_offset it, iflush) = Inr bs"
      using 1(2) by (simp add: emit_in_def emit_item_def enc_insn_in_def line_msg_def Let_def split: if_splits)
    then show ?thesis using insn_enc.enc_len INSN 1(1) by (simp add: item_ok_def)
  next
    case WORD
    then obtain ws where "mapE (\<lambda>e. word_operand e labels) (it_operands it) = Inr ws" "bs = concat ws"
      using 1(2) by (auto simp: emit_in_def emit_item_def word_operand_def bindE_Inr_iff Let_def)
    then show ?thesis
      using word_enc.all_len [of "it_operands it" labels ws] WORD 1(1)
      by (simp add: item_ok_def sum_list_triv list_all_iff)
  qed (use 1 in \<open>auto simp: emit_in_def emit_item_def item_ok_def latin1_def zero_bytes_def Let_def
      split: if_splits dest: mapE_length\<close>)
next
  case (2 it env bs)
  obtain labels bases iflush where [simp]: "env = (labels, bases, iflush)" by (cases env)
  show ?case
  proof (cases "it_kind it")
    case INSN
    then have "enc_insn_in (it_op it, it_operands it)
        (labels, bases (it_section it) + it_offset it, iflush) = Inr bs"
      using 2(2) by (simp add: emit_in_def emit_item_def enc_insn_in_def line_msg_def Let_def split: if_splits)
    then show ?thesis using insn_enc.enc_fits by simp
  next
    case BYTE
    then have "mapE (\<lambda>e. bindE (eval_expr e labels) (\<lambda>v. Inr (v AND 0xFF))) (it_operands it) = Inr bs"
      using 2(2) by (simp add: emit_in_def emit_item_def Let_def)
    then show ?thesis
      by (rule mapE_all) (auto simp: bindE_Inr_iff fits_def mask_simps)
  next
    case WORD
    then obtain ws where "mapE (\<lambda>e. word_operand e labels) (it_operands it) = Inr ws" "bs = concat ws"
      using 2(2) by (auto simp: emit_in_def emit_item_def word_operand_def bindE_Inr_iff Let_def)
    then show ?thesis
      using word_enc.all_fits [of "it_operands it" labels ws] by (simp add: list_all_iff)
  next
    case ASCII
    then show ?thesis
      using 2(2) latin1_fits [of "it_operands it ! 0"]
      by (auto simp: emit_in_def emit_item_def Let_def fits_def)
  next
    case SPACE
    then show ?thesis
      using 2(2) by (auto simp: emit_in_def emit_item_def zero_bytes_def list_all_iff fits_def split: if_splits)
  qed
qed

section \<open>The items of a source file\<close>

definition sect_items :: "sect \<Rightarrow> item list \<Rightarrow> item list" where
  "sect_items s items = filter (\<lambda>it. it_section it = s) items"

text \<open>Items placed one after the other from offset \<open>a\<close> up to \<open>b\<close>.\<close>

fun contig :: "int \<Rightarrow> item list \<Rightarrow> int \<Rightarrow> bool" where
  "contig a [] b \<longleftrightarrow> a = b"
| "contig a (it # items) b \<longleftrightarrow> it_offset it = a \<and> contig (a + it_size it) items b"

lemma contig_snoc: "contig a (xs @ [x]) b \<longleftrightarrow> contig a xs (it_offset x) \<and> b = it_offset x + it_size x"
  by (induction xs arbitrary: a) auto

lemma contig_end: "contig a xs b \<Longrightarrow> b = a + sum_list (map it_size xs)"
  by (induction xs arbitrary: a) fastforce+

lemma contig_offset: "contig a (xs @ it # ys) b \<Longrightarrow> it_offset it = a + sum_list (map it_size xs)"
  by (induction xs arbitrary: a) fastforce+

text \<open>A label's place: the end of some initial part of its section's items.\<close>

definition label_at :: "item list \<Rightarrow> sect \<times> int \<Rightarrow> bool" where
  "label_at items here =
     (case here of (s, off) \<Rightarrow> \<exists>k \<le> length (sect_items s items).
        off = sum_list (map it_size (take k (sect_items s items))))"

definition src_inv :: "src_state \<Rightarrow> bool" where
  "src_inv st \<longleftrightarrow>
     list_all item_ok (ss_items st) \<and>
     (\<forall>s. contig 0 (sect_items s (ss_items st)) (ss_offsets st s)) \<and>
     list_all (label_at (ss_items st)) (map snd (ss_labels st)) \<and>
     distinct (map fst (ss_labels st))"

lemma src_init_inv: "src_inv src_init"
  by (simp add: src_inv_def src_init_def sect_items_def)

lemma label_at_mono: "label_at items here \<Longrightarrow> label_at (items @ [it]) here"
proof -
  assume "label_at items here"
  then obtain s off k where h: "here = (s, off)" "k \<le> length (sect_items s items)"
      "off = sum_list (map it_size (take k (sect_items s items)))"
    by (auto simp: label_at_def split: prod.splits)
  have "take k (sect_items s (items @ [it])) = take k (sect_items s items)"
    using h(2) by (simp add: sect_items_def)
  moreover have "k \<le> length (sect_items s (items @ [it]))" using h(2) by (simp add: sect_items_def)
  ultimately show ?thesis using h by (auto simp: label_at_def)
qed

lemma label_at_here:
  assumes "src_inv st"
  shows "label_at (ss_items st) (s, ss_offsets st s)"
proof -
  have "ss_offsets st s = sum_list (map it_size (sect_items s (ss_items st)))"
    using assms contig_end by (fastforce simp: src_inv_def)
  then show ?thesis
    by (auto simp: label_at_def intro!: exI [of _ "length (sect_items s (ss_items st))"])
qed

lemma add_item_inv:
  assumes "src_inv st"
    and "item_ok \<lparr>it_section = ss_section st, it_offset = ss_offsets st (ss_section st), it_size = sz,
       it_kind = k, it_op = op, it_operands = os, it_lineno = n, it_raw = rstrip raw\<rparr>" (is "item_ok ?it")
  shows "src_inv (add_item k op os sz n raw st)"
proof -
  have "list_all (label_at (ss_items st @ [?it])) (map snd (ss_labels st))"
    using assms(1) label_at_mono by (fastforce simp: src_inv_def list_all_iff)
  then show ?thesis
    using assms by (auto simp: src_inv_def add_item_def Let_def sect_items_def contig_snoc)
qed

lemma label_loop_inv:
  assumes "label_loop n here labels rest = Inr (labels', rest')"
    and "list_all P (map snd labels)" "distinct (map fst labels)" "P here"
  shows "list_all P (map snd labels') \<and> distinct (map fst labels')"
  using assms
proof (induction n here labels rest rule: label_loop.induct)
  case (1 n here labels rest)
  show ?case
  proof (cases "match_label rest")
    case None
    then show ?thesis using "1.prems" by (simp add: label_loop.simps)
  next
    case (Some nr)
    obtain name0 rest1 where m: "match_label rest = Some (name0, rest1)"
      using Some by (cases nr) auto
    have new: "\<not> has_key labels (py_upper name0)"
      using "1.prems"(1) m by (auto simp: label_loop.simps Let_def line_msg_def split: if_splits)
    then have d: "distinct (map fst (labels @ [(py_upper name0, here)]))"
      "list_all P (map snd (labels @ [(py_upper name0, here)]))"
      using "1.prems"(2-4) by (auto simp: has_key_def)
    show ?thesis
    proof (cases "rest1 = []")
      case True
      then show ?thesis using "1.prems"(1) m new d by (auto simp: label_loop.simps [of _ _ _ rest] Let_def)
    next
      case False
      then have "label_loop n here (labels @ [(py_upper name0, here)]) rest1 = Inr (labels', rest')"
        using "1.prems"(1) m new by (simp add: label_loop.simps [of _ _ _ rest] Let_def)
      then show ?thesis using "1.IH" [OF m refl refl new False] d "1.prems"(4) by blast
    qed
  qed
qed

lemma set_section_inv: "src_inv (st\<lparr>ss_section := s\<rparr>) = src_inv st"
  by (simp add: src_inv_def)

lemma directive_line_inv:
  assumes "directive_line n raw rest st = Inr st'" "src_inv st"
  shows "src_inv st'"
  using assms
  by (auto simp: directive_line_def Let_def bindE_Inr_iff line_msg_def item_ok_def set_section_inv
      intro!: add_item_inv split: if_splits)

lemma source_line_inv:
  assumes "source_line n raw st = Inr st'" "src_inv st"
  shows "src_inv st'"
proof (cases "strip_comment raw = []")
  case True
  then show ?thesis using assms by (simp add: source_line_def Let_def)
next
  case False
  then obtain labels rest where l: "label_loop n (ss_section st, ss_offsets st (ss_section st))
        (ss_labels st) (strip_comment raw) = Inr (labels, rest)"
    and st': "(if rest = [] then Inr (st\<lparr>ss_labels := labels\<rparr>)
        else if startswith rest ''.'' then directive_line n raw rest (st\<lparr>ss_labels := labels\<rparr>)
        else Inr (insn_line n raw rest (st\<lparr>ss_labels := labels\<rparr>))) = Inr st'"
    using assms(1) by (auto simp: source_line_def Let_def bindE_Inr_iff)
  have "list_all (label_at (ss_items st)) (map snd labels) \<and> distinct (map fst labels)"
    using label_loop_inv [OF l, of "label_at (ss_items st)"] assms(2) label_at_here [OF assms(2)]
    by (simp add: src_inv_def)
  then have "src_inv (st\<lparr>ss_labels := labels\<rparr>)" using assms(2) by (simp add: src_inv_def)
  then show ?thesis
    using st' directive_line_inv
    by (auto simp: insn_line_def Let_def item_ok_def intro!: add_item_inv split: if_splits)
qed

lemma source_loop_inv: "source_loop n lns st = Inr st' \<Longrightarrow> src_inv st \<Longrightarrow> src_inv st'"
  by (induction lns arbitrary: n st) (auto simp: bindE_Inr_iff dest: source_line_inv)

lemma parse_source_inv:
  assumes "parse_source lns = Inr (items, defs)"
  shows "list_all item_ok items" "\<exists>e. contig 0 (sect_items s items) e"
    "list_all (label_at items) (map snd defs)" "distinct (map fst defs)"
proof -
  obtain st where "source_loop 1 lns src_init = Inr st" "items = ss_items st" "defs = ss_labels st"
    using assms by (auto simp: parse_source_def bindE_Inr_iff)
  then have "src_inv st" "items = ss_items st" "defs = ss_labels st"
    using source_loop_inv src_init_inv by blast+
  then show "list_all item_ok items" "\<exists>e. contig 0 (sect_items s items) e"
    "list_all (label_at items) (map snd defs)" "distinct (map fst defs)"
    by (auto simp: src_inv_def)
qed

section \<open>Section sizes\<close>

lemma section_sizes_snoc: "section_sizes (items @ [it]) = (section_sizes items)
    (it_section it := max (section_sizes items (it_section it)) (it_offset it + it_size it))"
  by (simp add: section_sizes_def)

lemma section_sizes_contig:
  assumes "contig 0 (sect_items s items) e" "\<forall>it \<in> set items. 0 \<le> it_size it"
  shows "section_sizes items s = e"
  using assms
proof (induction items arbitrary: e rule: rev_induct)
  case Nil
  then show ?case by (simp add: section_sizes_def sect_items_def)
next
  case (snoc it items)
  show ?case
  proof (cases "it_section it = s")
    case True
    then have "contig 0 (sect_items s items) (it_offset it)" "e = it_offset it + it_size it"
      using snoc.prems(1) by (simp_all add: sect_items_def contig_snoc)
    then show ?thesis
      using snoc.IH [of "it_offset it"] snoc.prems(2) True by (simp add: section_sizes_snoc)
  next
    case False
    then show ?thesis
      using snoc.IH [of e] snoc.prems by (simp add: section_sizes_snoc sect_items_def)
  qed
qed

section \<open>Emission\<close>

definition item_bytes :: "labels \<Rightarrow> (sect \<Rightarrow> int) \<Rightarrow> bool \<Rightarrow> item \<Rightarrow> int list" where
  "item_bytes labels bases iflush it =
     (case emit_item it labels bases iflush of Inl _ \<Rightarrow> [] | Inr data \<Rightarrow> data)"

lemma emit_loop_items:
  assumes "emit_loop labels bases iflush items blobs = Inr blobs'" "it \<in> set items"
  shows "emit_item it labels bases iflush = Inr (item_bytes labels bases iflush it) \<and>
    int (length (item_bytes labels bases iflush it)) = it_size it"
  using assms
  by (induction items arbitrary: blobs)
    (auto simp: bindE_Inr_iff item_bytes_def line_msg_def split: if_splits)

lemma emit_loop_blobs:
  assumes "emit_loop labels bases iflush items blobs = Inr blobs'"
  shows "blobs' s = foldl (\<lambda>b it. blit (nat (it_offset it)) (item_bytes labels bases iflush it) b)
    (blobs s) (sect_items s items)"
  using assms
  by (induction items arbitrary: blobs)
    (auto simp: bindE_Inr_iff item_bytes_def line_msg_def sect_items_def split: if_splits)

lemma emit_loop_ok:
  assumes "\<forall>it \<in> set items. \<exists>data. emit_item it labels bases iflush = Inr data \<and> int (length data) = it_size it"
  shows "\<exists>blobs'. emit_loop labels bases iflush items blobs = Inr blobs'"
  using assms by (induction items arbitrary: blobs) auto

text \<open>Contiguous pieces patched into a blob one after the other replace a slice of it.\<close>

lemma fold_blit:
  assumes "contig a items e" "0 \<le> a" "e \<le> int (length b)"
    and "\<forall>it \<in> set items. int (length (f it)) = it_size it"
  shows "foldl (\<lambda>b it. blit (nat (it_offset it)) (f it) b) b items =
    take (nat a) b @ concat (map f items) @ drop (nat e) b"
  using assms
proof (induction items arbitrary: a b)
  case Nil
  then show ?case by simp
next
  case (Cons it items)
  let ?n = "nat (a + it_size it)"
  have sz: "int (length (f it)) = it_size it" "0 \<le> it_size it" "it_offset it = a"
    and c: "contig (a + it_size it) items e"
    using Cons.prems by auto
  have "0 \<le> sum_list (map it_size items)"
    using Cons.prems(4) by (intro sum_list_nonneg) auto
  then have le: "a + it_size it \<le> e" using contig_end [OF c] by simp
  have len: "nat a + length (f it) \<le> length b" using sz le Cons.prems(2,3) by linarith
  let ?b = "blit (nat a) (f it) b"
  have "foldl (\<lambda>b it. blit (nat (it_offset it)) (f it) b) ?b items =
      take ?n ?b @ concat (map f items) @ drop (nat e) ?b"
    using Cons.IH [OF c, of ?b] Cons.prems sz len by (simp add: length_blit)
  moreover have "take ?n ?b = take (nat a) b @ f it"
    using sz len Cons.prems(2) by (simp add: blit_def nat_add_distrib)
  moreover have "drop (nat e) ?b = drop (nat e) b"
    using sz len le Cons.prems(2) by (simp add: blit_def)
  ultimately show ?case using sz by simp
qed

section \<open>The image\<close>

lemma align_up_2: "align_up c 2 = c + c mod 2"
proof -
  have "(c + 1) AND (- 2) = 2 * ((c + 1) div 2)"
    by (simp add: and_int_rec [of _ "- 2"])
  moreover have "2 * ((c + 1) div 2) = c + c mod 2" by presburger
  moreover have "c + 2 - 1 = c + 1" by simp
  ultimately show ?thesis unfolding align_up_def by metis
qed

text \<open>What the image is: the sections' bytes in order, each padded to an even start.\<close>

fun image_spec :: "(sect \<Rightarrow> int list) \<Rightarrow> int list \<Rightarrow> sect list \<Rightarrow> int list" where
  "image_spec bytes img [] = img"
| "image_spec bytes img (s # ss) =
     image_spec bytes ((if even (length img) then img else img @ [0]) @ bytes s) ss"

lemma image_loop_spec:
  "image_loop blobs img (int (length img)) ss = image_spec blobs img ss"
proof (induction ss arbitrary: img)
  case (Cons s ss)
  let ?pad = "if even (length img) then img else img @ [0]"
  have base: "align_up (int (length img)) 2 = int (length ?pad)"
    by (simp add: align_up_2 mod_2_eq_odd)
  show ?case
    using Cons.IH [of "?pad @ blobs s"] base
    by (cases "even (length img)") (simp_all add: SECTION_ALIGN_def Let_def ac_simps)
qed simp

text \<open>Section bases and contents in the image, for any order of distinct sections.\<close>

lemma layout_other: "s \<notin> set ss \<Longrightarrow> layout_loop sizes c bases ss s = bases s"
  by (induction ss arbitrary: c bases) (auto simp: Let_def)

lemma image_spec_prefix: "\<exists>tail. image_spec bytes img ss = img @ tail"
  by (induction ss arbitrary: img) (auto, (metis append.assoc)+)

lemma image_spec_section:
  assumes "distinct ss" "s \<in> set ss" "\<And>s. sizes s = int (length (bytes s))"
  shows "\<exists>pre post. image_spec bytes img ss = pre @ bytes s @ post \<and>
    layout_loop sizes (int (length img)) bases ss s = int (length pre) \<and>
    length img \<le> length pre \<and> even (length pre)"
  using assms(1,2)
proof (induction ss arbitrary: img bases)
  case (Cons t ss)
  let ?pad = "if even (length img) then img else img @ [0]"
  have base: "align_up (int (length img)) 2 = int (length ?pad)"
    by (simp add: align_up_2 mod_2_eq_odd)
  have next': "align_up (int (length img)) 2 + sizes t = int (length (?pad @ bytes t))"
    using base assms(3) by simp
  show ?case
  proof (cases "s = t")
    case True
    obtain tail where "image_spec bytes (?pad @ bytes t) ss = (?pad @ bytes t) @ tail"
      using image_spec_prefix by blast
    moreover have "layout_loop sizes (int (length img)) bases (t # ss) s = int (length ?pad)"
      using Cons.prems True by (simp add: SECTION_ALIGN_def base layout_other Let_def)
    ultimately show ?thesis
      using True by (intro exI [of _ ?pad] exI [of _ tail]) simp
  next
    case False
    then have "s \<in> set ss" "distinct ss" using Cons.prems by auto
    then obtain pre post where
      "image_spec bytes (?pad @ bytes t) ss = pre @ bytes s @ post"
      "layout_loop sizes (int (length (?pad @ bytes t))) (bases(t := int (length ?pad))) ss s = int (length pre)"
      "length (?pad @ bytes t) \<le> length pre" "even (length pre)"
      using Cons.IH [of "?pad @ bytes t"] by blast
    moreover have "layout_loop sizes (int (length img)) bases (t # ss) s =
        layout_loop sizes (int (length (?pad @ bytes t))) (bases(t := int (length ?pad))) ss s"
      using next' base by (simp only: layout_loop.simps SECTION_ALIGN_def Let_def)
    moreover have "length img \<le> length (?pad @ bytes t)" by simp
    ultimately have "image_spec bytes img (t # ss) = pre @ bytes s @ post \<and>
        layout_loop sizes (int (length img)) bases (t # ss) s = int (length pre) \<and>
        length img \<le> length pre \<and> even (length pre)"
      by (metis image_spec.simps(2) le_trans)
    then show ?thesis by blast
  qed
qed simp

end
