(* ===== verification/AsmProps.thy ===== *)
theory AsmProps
  imports AsmLayout SimMachine
begin

text \<open>
  Properties of the assembler's encoder and image builder: announced sizes, when assembly
  succeeds, where each item's bytes end up, the order of the sections, and where labels point.
\<close>

section \<open>Images\<close>

lemma build_image_blobs:
  assumes inv: "list_all item_ok items" "\<And>s. \<exists>e. contig 0 (sect_items s items) e"
    and b: "build_image items defs iflush = Inr img"
    and bases: "bases = layout_sections items" and labels: "labels = final_label_map defs bases"
  shows "\<forall>it \<in> set items. emit_item it labels bases iflush = Inr (item_bytes labels bases iflush it) \<and>
      int (length (item_bytes labels bases iflush it)) = it_size it"
    and "img = image_spec (\<lambda>s. concat (map (item_bytes labels bases iflush) (sect_items s items)))
      [] SECTION_ORDER"
    and "section_sizes items s =
      int (length (concat (map (item_bytes labels bases iflush) (sect_items s items))))"
proof -
  let ?f = "item_bytes labels bases iflush"
  obtain blobs where e: "emit_loop labels bases iflush items
      (\<lambda>s. replicate (nat (section_sizes items s)) 0) = Inr blobs"
    and img: "img = image_loop blobs [] 0 SECTION_ORDER"
    using b unfolding build_image_def bases labels by (auto simp: Let_def bindE_Inr_iff)
  show emits: "\<forall>it \<in> set items. emit_item it labels bases iflush = Inr (?f it) \<and>
      int (length (?f it)) = it_size it"
    using emit_loop_items [OF e] by blast
  have nonneg: "\<forall>it \<in> set items. 0 \<le> it_size it"
    using emits by (metis of_nat_0_le_iff)
  have sz: "section_sizes items s = sum_list (map it_size (sect_items s items))" for s
    using inv(2) [of s] section_sizes_contig [OF _ nonneg] contig_end by fastforce
  have len: "int (length (concat (map ?f (sect_items s items)))) = sum_list (map it_size (sect_items s items))" for s
    using emits by (induction items) (auto simp: sect_items_def)
  show "section_sizes items s = int (length (concat (map ?f (sect_items s items))))"
    by (simp only: sz len)
  have "blobs s = concat (map ?f (sect_items s items))" for s
  proof -
    obtain e' where c: "contig 0 (sect_items s items) e'" using inv(2) by blast
    then have e': "e' = section_sizes items s" using section_sizes_contig [OF _ nonneg] by metis
    have "0 \<le> section_sizes items s" by (simp only: sz len [symmetric])
    moreover have "set (sect_items s items) \<subseteq> set items" by (auto simp: sect_items_def)
    ultimately show ?thesis
      using emit_loop_blobs [OF e, of s] fold_blit [OF c, of "replicate (nat (section_sizes items s)) 0" ?f]
        emits by (auto simp: e')
  qed
  then have "blobs = (\<lambda>s. concat (map ?f (sect_items s items)))" by blast
  then show "img = image_spec (\<lambda>s. concat (map ?f (sect_items s items))) [] SECTION_ORDER"
    using image_loop_spec [of blobs "[]"] by (simp add: img)
qed

lemma section_order: "distinct SECTION_ORDER" "s \<in> set SECTION_ORDER"
  by (simp_all add: SECTION_ORDER_def) (cases s; simp)

lemma assembleE:
  assumes "assemble lns defines iflush = Inr img"
  obtains filtered items defs where "preprocess_source lns defines = Inr filtered"
    and "parse_source filtered = Inr (items, defs)" and "build_image items defs iflush = Inr img"
  using assms by (auto simp: assemble_def bindE_Inr_iff split: if_splits)

lemma built_items:
  assumes "parse_source filtered = Inr (items, defs)" "build_image items defs iflush = Inr img"
    and "it \<in> set items"
  shows "\<exists>data. emit_item it (final_label_map defs (layout_sections items)) (layout_sections items) iflush
        = Inr data \<and> int (length data) = it_size it \<and>
      0 \<le> layout_sections items (it_section it) + it_offset it \<and>
      take (length data) (drop (nat (layout_sections items (it_section it) + it_offset it)) img) = data"
proof -
  define bases where "bases = layout_sections items"
  define labels where "labels = final_label_map defs bases"
  define f where "f = item_bytes labels bases iflush"
  define s where "s = it_section it"
  note inv = parse_source_inv [OF assms(1)]
  note img = build_image_blobs [OF inv(1,2) assms(2) bases_def labels_def, folded f_def]
  obtain pre post where im: "img = pre @ concat (map f (sect_items s items)) @ post"
    and base: "bases s = int (length pre)"
    using image_spec_section [OF section_order, where s = s and sizes = "section_sizes items" and img = "[]"
        and bytes = "\<lambda>s. concat (map f (sect_items s items))" and bases = "\<lambda>_. 0"] img(2,3)
    by (auto simp: bases_def layout_sections_def)
  have "it \<in> set (sect_items s items)" using assms(3) by (simp add: sect_items_def s_def)
  then obtain xs ys where split: "sect_items s items = xs @ it # ys" by (meson split_list)
  obtain e where "contig 0 (xs @ it # ys) e" using inv(2) [of s] split by auto
  then have off: "it_offset it = sum_list (map it_size xs)"
    by (simp add: contig_offset)
  have "\<forall>x \<in> set xs. int (length (f x)) = it_size x"
    using img(1) split by (metis (no_types) filter_is_subset in_set_conv_decomp sect_items_def subsetD UnCI set_append)
  then have "it_offset it = int (length (concat (map f xs)))"
    unfolding off by (induction xs) auto
  then have "nat (bases s + it_offset it) = length (pre @ concat (map f xs))"
    and "0 \<le> bases s + it_offset it"
    by (simp_all add: base nat_add_distrib)
  moreover have "img = (pre @ concat (map f xs)) @ f it @ concat (map f ys) @ post"
    by (simp add: im split)
  ultimately have "take (length (f it)) (drop (nat (bases s + it_offset it)) img) = f it" by simp
  then show ?thesis
    using img(1) assms(3) \<open>0 \<le> bases s + it_offset it\<close>
    by (auto simp: bases_def labels_def s_def)
qed

text \<open>
  C19: an assembled image holds every item's bytes at the item's address. For each item of
  the parsed source, the bytes it emits under the final label map lie in the image at its
  section's base plus its offset, and there are as many of them as the first pass reserved.
\<close>

theorem assembled_items:
  assumes "assemble lns defines iflush = Inr img" "preprocess_source lns defines = Inr filtered"
    and "parse_source filtered = Inr (items, defs)" "it \<in> set items"
  shows "\<exists>data. emit_item it (final_label_map defs (layout_sections items)) (layout_sections items) iflush
        = Inr data \<and> int (length data) = it_size it \<and>
      take (length data) (drop (nat (layout_sections items (it_section it) + it_offset it)) img) = data"
proof -
  have "build_image items defs iflush = Inr img"
    using assms(1-3) by (auto elim!: assembleE)
  from built_items [OF assms(3) this assms(4)] show ?thesis by blast
qed

definition tiny_item :: item where
  "tiny_item = \<lparr>it_section = TEXT, it_offset = 0, it_size = 2, it_kind = INSN, it_op = ''BEQZ'',
     it_operands = [''x''], it_lineno = 1, it_raw = ''x: beqz x''\<rparr>"

lemma tiny_source:
  "assemble [''x: beqz x''] (\<lambda>_. False) False = Inr [255, 135]"
  "preprocess_source [''x: beqz x''] (\<lambda>_. False) = Inr [''x: beqz x'']"
  "parse_source [''x: beqz x''] = Inr ([tiny_item], [(''X'', (TEXT, 0))])"
  by code_simp+

theorem assembled_items_witness:
  "\<exists>data. emit_item tiny_item (final_label_map [(''X'', (TEXT, 0))] (layout_sections [tiny_item]))
     (layout_sections [tiny_item]) False = Inr data \<and> length data = 2"
  using assembled_items [OF tiny_source, of tiny_item] by (auto simp: tiny_item_def)

text \<open>
  C20: the two passes agree, so the only way to fail after parsing is an item that cannot be
  emitted: the image is built exactly when every item of the parsed source emits its bytes
  (the "internal size mismatch" is never raised).
\<close>

theorem passes_agree:
  assumes "parse_source filtered = Inr (items, defs)"
  shows "(\<exists>img. build_image items defs iflush = Inr img) \<longleftrightarrow>
    (\<forall>it \<in> set items. \<exists>data. emit_item it (final_label_map defs (layout_sections items))
       (layout_sections items) iflush = Inr data)"
proof
  assume "\<exists>img. build_image items defs iflush = Inr img"
  then show "\<forall>it \<in> set items. \<exists>data. emit_item it (final_label_map defs (layout_sections items))
       (layout_sections items) iflush = Inr data"
    using built_items [OF assms] by blast
next
  assume all: "\<forall>it \<in> set items. \<exists>data. emit_item it (final_label_map defs (layout_sections items))
       (layout_sections items) iflush = Inr data"
  have "list_all item_ok items" using parse_source_inv [OF assms] by blast
  then have "\<forall>it \<in> set items. \<exists>data. emit_item it (final_label_map defs (layout_sections items))
       (layout_sections items) iflush = Inr data \<and> int (length data) = it_size it"
    using all item_enc.enc_len by (fastforce simp: list_all_iff emit_in_def)
  from emit_loop_ok [OF this, of "\<lambda>s. replicate (nat (section_sizes items s)) 0"]
  show "\<exists>img. build_image items defs iflush = Inr img"
    by (auto simp: build_image_def Let_def)
qed

theorem passes_agree_witness:
  "\<exists>img. build_image [tiny_item] [(''X'', (TEXT, 0))] False = Inr img"
proof -
  have "emit_item tiny_item (final_label_map [(''X'', (TEXT, 0))] (layout_sections [tiny_item]))
    (layout_sections [tiny_item]) False = Inr [255, 135]"
    by code_simp
  then show ?thesis using passes_agree [OF tiny_source(3), of False] by simp
qed

lemma layout_next:
  "layout_sections items VECTORS = 0"
  "layout_sections items TEXT = align_up (layout_sections items VECTORS + section_sizes items VECTORS) 2"
  "layout_sections items RODATA = align_up (layout_sections items TEXT + section_sizes items TEXT) 2"
  "layout_sections items DATA = align_up (layout_sections items RODATA + section_sizes items RODATA) 2"
  "layout_sections items BSS = align_up (layout_sections items DATA + section_sizes items DATA) 2"
  by (simp_all add: layout_sections_def SECTION_ORDER_def Let_def SECTION_ALIGN_def align_up_2)

lemma align_up_bounds: "c \<le> align_up c 2" "even (align_up c 2)"
  by (simp_all add: align_up_2)

lemma section_sizes_nonneg: "0 \<le> section_sizes items s"
proof (induction items rule: rev_induct)
  case Nil
  then show ?case by (simp add: section_sizes_def)
next
  case (snoc it items)
  then show ?case
    by (cases "it_section it = s") (simp_all add: section_sizes_snoc le_max_iff_disj)
qed

text \<open>
  C21: sections do not overlap and keep their order. Every section base is even, and each
  section ends before the next one (in \<open>SECTION_ORDER\<close>) begins.
\<close>

theorem sections_ordered:
  "even (layout_sections items s) \<and>
   (s < t \<longrightarrow> layout_sections items s + section_sizes items s \<le> layout_sections items t)"
proof -
  let ?b = "layout_sections items" and ?z = "section_sizes items"
  note next' = layout_next [of items]
  have le: "?b VECTORS + ?z VECTORS \<le> ?b TEXT" "?b TEXT + ?z TEXT \<le> ?b RODATA"
      "?b RODATA + ?z RODATA \<le> ?b DATA" "?b DATA + ?z DATA \<le> ?b BSS"
    by (simp_all add: next'(2-5) align_up_bounds(1))
  have z: "0 \<le> ?z VECTORS" "0 \<le> ?z TEXT" "0 \<le> ?z RODATA" "0 \<le> ?z DATA" "0 \<le> ?z BSS"
    by (simp_all add: section_sizes_nonneg)
  have "even (?b s)" by (cases s) (simp_all only: next' align_up_bounds(2), simp)
  moreover have "s < t \<longrightarrow> ?b s + ?z s \<le> ?b t"
    using le z by (cases s; cases t) (simp_all add: less_sect_def)
  ultimately show ?thesis ..
qed

theorem sections_ordered_witness:
  "layout_sections [tiny_item] TEXT + section_sizes [tiny_item] TEXT \<le> layout_sections [tiny_item] DATA"
  using sections_ordered [of "[tiny_item]" TEXT DATA] by (simp add: less_sect_def)



text \<open>
  C26: the encoder produces exactly the bytes the first pass reserved: a successful encoding of
  any mnemonic with any operands has \<open>insn_size\<close> bytes, each in range.
\<close>

theorem encoded_size:
  assumes "encode_insn op operands labels pc iflush = Inr bs"
  shows "int (length bs) = insn_size op operands \<and> list_all (fits 8) bs"
  using insn_enc.enc_len [of "(op, operands)" "(labels, pc, iflush)" bs]
    insn_enc.enc_fits [of "(op, operands)" "(labels, pc, iflush)" bs] assms
  by (simp add: enc_insn_in_def)

theorem encoded_size_witness:
  "int (length [190, 145, 239, 149 :: int]) = insn_size ''ldi16'' [''r2'', ''0xBEEF'']"
proof -
  have "encode_insn ''ldi16'' [''r2'', ''0xBEEF''] no_labels 0 False = Inr [190, 145, 239, 149]"
    by code_simp
  from encoded_size [OF this] show ?thesis by (rule conjunct1)
qed

end
