(* ===== verification/AsmSim.thy ===== *)
theory AsmSim
  imports AsmProps SimProps
begin

text \<open>
  The assembler against the simulator: an assembled image loads so that each instruction
  item sits in memory at its address, and the encoded instructions do what their mnemonics
  and operands say when the simulator executes them.
\<close>

section \<open>Loading\<close>

lemma load_image_length [simp]: "length (load_image bs w mem) = length mem"
  by (induction bs w mem rule: load_image.induct) (simp_all add: load_image.simps)

lemma load_image_below: "i < w \<Longrightarrow> load_image bs w mem ! i = mem ! i"
  by (induction bs w mem rule: load_image.induct) (simp_all add: load_image.simps)

lemma load_image_nth:
  assumes "w \<le> i" "i < 32768" "length mem = 32768" "2 * (i - w) + 1 < length bs"
  shows "load_image bs w mem ! i = bs ! (2 * (i - w)) OR push_bit 8 (bs ! (2 * (i - w) + 1))"
  using assms
proof (induction bs w mem rule: load_image.induct)
  case (3 lo hi rest w mem)
  have keep: "load_image bs (Suc w) mem' ! w = mem' ! w" for bs mem'
    by (rule load_image_below) simp
  show ?case
  proof (cases "i = w")
    case True
    then show ?thesis using "3.prems" keep by (simp add: load_image.simps)
  next
    case False
    then obtain d where d: "i - w = Suc d" "i - Suc w = d" using "3.prems"(1) by (cases "i - w") auto
    then show ?thesis
      using "3.IH" "3.prems" False by (simp add: load_image.simps)
  qed
qed simp_all

lemma sim_mem_init: "sim_mem (sim_init img opts) = load_image img 0 (replicate 32768 0)"
  by (simp add: sim_init_def Let_def)

lemma loaded_halfword:
  assumes "take (length data) (drop a img) = data" "length img \<le> 65536" "a = 2 * w" "2 * k + 1 < length data"
  shows "sim_mem (sim_init img opts) ! (w + k) = halfword (drop (2 * k) data)"
proof -
  have len: "a + length data \<le> length img"
    using arg_cong [OF assms(1), of length] assms(4) by simp
  have at: "data ! j = img ! (a + j)" if "j < length data" for j
    using arg_cong [OF assms(1), of "\<lambda>xs. xs ! j"] that len by simp
  have "sim_mem (sim_init img opts) ! (w + k) = img ! (2 * (w + k)) OR push_bit 8 (img ! (2 * (w + k) + 1))"
    using load_image_nth [of 0 "w + k" "replicate 32768 0" img] assms len by (simp add: sim_mem_init)
  moreover have "img ! (2 * (w + k)) = data ! (2 * k)" "img ! (2 * (w + k) + 1) = data ! (2 * k + 1)"
    using at [of "2 * k"] at [of "2 * k + 1"] assms(3,4) by (simp_all add: algebra_simps)
  ultimately show ?thesis using assms(4) by (simp add: halfword_def)
qed

text \<open>
  Assembler and loader fit together. In the simulator started on an assembled image (of
  at most 64 KiB), the memory words at an instruction item's address hold, in order, the
  halfwords the encoder produced for it.
\<close>

theorem assembled_in_memory:
  assumes "assemble lns defines iflush = Inr img" "preprocess_source lns defines = Inr filtered"
    and "parse_source filtered = Inr (items, defs)" "it \<in> set items"
    and "it_kind it = INSN" "length img \<le> 65536"
  shows "\<exists>data. encode_insn (it_op it) (it_operands it) (final_label_map defs (layout_sections items))
        (layout_sections items (it_section it) + it_offset it) iflush = Inr data \<and>
      (\<forall>k. 2 * k + 1 < length data \<longrightarrow>
        sim_mem (sim_init img opts) ! (nat ((layout_sections items (it_section it) + it_offset it) div 2) + k)
          = halfword (drop (2 * k) data))"
proof -
  let ?pc = "layout_sections items (it_section it) + it_offset it"
  have "build_image items defs iflush = Inr img"
    using assms(1-3) by (auto elim!: assembleE)
  then obtain data where emit: "emit_item it (final_label_map defs (layout_sections items))
        (layout_sections items) iflush = Inr data" and pos: "0 \<le> ?pc"
      and bytes: "take (length data) (drop (nat ?pc) img) = data"
    using built_items [OF assms(3) _ assms(4)] by blast
  have even: "?pc AND 1 = 0" and enc: "encode_insn (it_op it) (it_operands it)
      (final_label_map defs (layout_sections items)) ?pc iflush = Inr data"
    using emit assms(5) by (auto simp: emit_item_def Let_def line_msg_def split: if_splits)
  have "?pc = 2 * (?pc div 2)" using even by (simp add: and_one_eq mod_2_eq_odd)
  then have "nat ?pc = 2 * nat (?pc div 2)" using pos by (simp add: nat_mult_distrib)
  then show ?thesis using enc loaded_halfword [OF bytes assms(6)] by blast
qed

theorem assembled_in_memory_witness:
  "\<exists>data. encode_insn ''BEQZ'' [''x''] (final_label_map [(''X'', (TEXT, 0))] (layout_sections [tiny_item]))
      0 False = Inr data \<and> (1 < length data \<longrightarrow>
        sim_mem (sim_init [255, 135] default_opts) ! 0 = halfword data)"
proof -
  have "layout_sections [tiny_item] TEXT = 0"
    by (simp add: layout_next align_up_2 section_sizes_def tiny_item_def)
  then show ?thesis
    using assembled_in_memory [OF tiny_source, of tiny_item default_opts]
    by (fastforce simp: tiny_item_def)
qed

section \<open>Branches\<close>

definition branch_field :: "int \<Rightarrow> int" where
  "branch_field rel8 = (push_bit 1 (rel8 AND 0xFF) AND 0xFE) OR drop_bit 7 (rel8 AND 0xFF)"

lemma branch_field_table:
  "list_all (\<lambda>r. branch_rel (branch_field (r AND 0xFF)) = r \<and> 0 \<le> branch_field (r AND 0xFF) \<and>
     branch_field (r AND 0xFF) < 256) [-128..127]"
  by code_simp

lemma branch_field_inverse:
  assumes "-128 \<le> r" "r \<le> 127"
  shows "branch_rel (branch_field (r AND 0xFF)) = r" "0 \<le> branch_field (r AND 0xFF)"
    "branch_field (r AND 0xFF) < 256"
proof -
  have "r \<in> {-128..127}" using assms by simp
  then show "branch_rel (branch_field (r AND 0xFF)) = r" "0 \<le> branch_field (r AND 0xFF)"
    "branch_field (r AND 0xFF) < 256"
    using branch_field_table [unfolded list_all_iff set_upto] by blast+
qed

lemma exec_enc_branch:
  assumes "0 \<le> cc" "cc < 8" "-128 \<le> rel" "rel \<le> 127"
  shows "exec_insn m (enc_branch cc (rel AND 0xFF)) p =
    exec_branch m cc (branch_field (rel AND 0xFF)) p"
proof -
  have "enc_branch cc (rel AND 0xFF) = enc_i cc 7 (branch_field (rel AND 0xFF))"
    by (simp only: enc_branch_def branch_field_def Let_def)
  then show ?thesis
    using assms branch_field_inverse(2,3) [OF assms(3,4)] by (simp add: exec_enc_i exec_imm_def)
qed

lemma encode_branch:
  assumes "has_key BR_CC (py_upper op)"
  shows "encode_insn op os labels pc iflush = enc_br (py_upper op) os labels pc"
proof -
  have "py_upper op \<in> {''BEQZ'', ''BNEZ'', ''BLTZ'', ''BGEZ'', ''JMP8''}"
    using assms by (auto simp: has_key_def BR_CC_def)
  then show ?thesis
    unfolding insert_iff empty_iff
    by (elim disjE FalseE) (simp_all add: encode_insn_def Let_def has_key_def BR_CC_def I_OP_def)
qed

definition branch_offset :: "int \<Rightarrow> int \<Rightarrow> int" where
  "branch_offset target pc = target div 2 - (pc div 2 + 1)"

lemma enc_br_value:
  assumes "eval_expr e labels = Inr target"
  shows "enc_br op [e] labels pc =
    (if odd target then Inl (AsmError (op @ '' target must be 2-byte-aligned: '' @ fmt_hx target))
     else if - 128 \<le> branch_offset target pc \<and> branch_offset target pc \<le> 127
     then Inr (encode_word (enc_branch (at BR_CC op) (branch_offset target pc AND 0xFF)))
     else Inl (AsmError ((op @ '' rel8'') @ '' out of i8 range: '' @ fmt_d (branch_offset target pc))))"
  using assms
  by (simp add: enc_br_def n_ops_def enc_i8_def branch_offset_def and_one_eq mod_2_eq_odd mask_simps)

text \<open>
  A branch is encodable exactly when its target is even and lies from 128 halfwords
  before to 127 halfwords after the following instruction.
\<close>

theorem branch_encodable:
  assumes "has_key BR_CC (py_upper op)" "eval_expr e labels = Inr target"
  shows "(\<exists>bs. encode_insn op [e] labels pc iflush = Inr bs) \<longleftrightarrow>
    even target \<and> - 256 \<le> 2 * (target div 2) - (2 * (pc div 2) + 2) \<and>
    2 * (target div 2) - (2 * (pc div 2) + 2) \<le> 254"
  using encode_branch [OF assms(1)] enc_br_value [OF assms(2)]
  by (auto simp: branch_offset_def)

theorem branch_encodable_witness:
  "(\<exists>bs. encode_insn ''bnez'' [''0x100''] no_labels 2 False = Inr bs) \<and>
   \<not> (\<exists>bs. encode_insn ''bnez'' [''0x104''] no_labels 2 False = Inr bs)"
proof -
  have "has_key BR_CC (py_upper ''bnez'')" "eval_expr ''0x100'' no_labels = Inr 256"
    "eval_expr ''0x104'' no_labels = Inr 260"
    by code_simp+
  then show ?thesis using branch_encodable [of "''bnez''"] by simp
qed

text \<open>The condition each branch mnemonic names, on the signed value of \<open>r0\<close>.\<close>

fun branch_cond :: "string \<Rightarrow> int \<Rightarrow> bool" where
  "branch_cond op v =
     (if op = ''BEQZ'' then v = 0 else if op = ''BNEZ'' then v \<noteq> 0
      else if op = ''BLTZ'' then v < 0 else if op = ''BGEZ'' then v \<ge> 0 else True)"

lemma enc_branch_fits:
  assumes "0 \<le> cc" "cc < 8" "-128 \<le> rel" "rel \<le> 127"
  shows "fits 16 (enc_branch cc (rel AND 0xFF))"
proof -
  have "enc_branch cc (rel AND 0xFF) = enc_i cc 7 (branch_field (rel AND 0xFF))"
    by (simp only: enc_branch_def branch_field_def Let_def)
  then show ?thesis
    using assms branch_field_inverse(2,3) [OF assms(3,4)] by (simp add: enc_i_pack pack4_fits)
qed

lemma sx16_zero: "fits 16 v \<Longrightarrow> sx16 v = 0 \<longleftrightarrow> v = 0"
  and sx16_neg: "fits 16 v \<Longrightarrow> sx16 v < 0 \<longleftrightarrow> v AND 0x8000 \<noteq> 0"
  by (auto simp: sx16_def fits_def)

lemma branch_taken_cond:
  assumes "wf_sim m" "has_key BR_CC op" "at BR_CC op < 4"
  shows "branch_taken m (at BR_CC op) = branch_cond op (sx16 (get_r m 0))"
proof -
  have f: "fits 16 (get_r m 0)" using assms(1) by (simp add: get_r_fits)
  show ?thesis
    using assms(2,3) sx16_zero [OF f] sx16_neg [OF f]
    by (auto simp: has_key_def BR_CC_def at_def branch_taken_def numeral_2_eq_2 numeral_3_eq_3 not_less)
qed

lemma branch_target: "((pc div 2 + 1) mod 32768 + branch_offset target pc) mod 32768 = target div 2 mod 32768"
  by (simp add: branch_offset_def mod_add_left_eq)

lemma exec_branch_cond:
  "cc < 4 \<Longrightarrow> exec_branch m cc f p = Inr (m, if branch_taken m cc then (p + branch_rel f) mod 32768 else p)"
  "exec_branch m 4 f p =
     Inr (if branch_rel f = - 1 then m\<lparr>sim_halted := True\<rparr> else m, (p + branch_rel f) mod 32768)"
  by (simp_all add: exec_branch_def Let_def and_32767)

text \<open>
  C23: an encoded branch goes where it says. Executed at its own address, the halfword of
  \<open>BEQZ\<close>, \<open>BNEZ\<close>, \<open>BLTZ\<close>, \<open>BGEZ\<close> or \<open>JMP8\<close> with target expression \<open>e\<close> continues at the word of
  that target if the condition its name states holds of \<open>r0\<close>, and at the next instruction
  otherwise; nothing else changes, except that a \<open>JMP8\<close> to itself halts the simulator.
\<close>

theorem branch_reaches_target:
  assumes "wf_sim m" "has_key BR_CC (py_upper op)" "eval_expr e labels = Inr target"
    and "encode_insn op [e] labels pc iflush = Inr bs"
  shows "exec_insn m (halfword bs) ((pc div 2 + 1) mod 32768) =
    Inr (if py_upper op = ''JMP8'' \<and> target div 2 = pc div 2 then m\<lparr>sim_halted := True\<rparr> else m,
         if branch_cond (py_upper op) (sx16 (get_r m 0)) then target div 2 mod 32768
         else (pc div 2 + 1) mod 32768)"
proof -
  let ?op = "py_upper op" and ?rel = "branch_offset target pc" and ?p = "(pc div 2 + 1) mod 32768"
  have cc: "0 \<le> at BR_CC ?op" "at BR_CC ?op < 8"
    using assms(2) by (auto simp: has_key_def BR_CC_def at_def)
  have rel: "- 128 \<le> ?rel" "?rel \<le> 127"
    and bs: "bs = encode_word (enc_branch (at BR_CC ?op) (?rel AND 0xFF))"
    using assms(4) encode_branch [OF assms(2)] enc_br_value [OF assms(3)] by (auto split: if_splits)
  have ex: "exec_insn m (halfword bs) ?p = exec_branch m (at BR_CC ?op) (branch_field (?rel AND 0xFF)) ?p"
    unfolding bs halfword_single [OF enc_branch_fits [OF cc rel]] by (rule exec_enc_branch [OF cc rel])
  have self: "?rel = - 1 \<longleftrightarrow> target div 2 = pc div 2" by (auto simp: branch_offset_def)
  show ?thesis
  proof (cases "at BR_CC ?op < 4")
    case True
    then have "?op \<noteq> ''JMP8''" by (auto simp: at_def BR_CC_def)
    then show ?thesis
      unfolding ex exec_branch_cond(1) [OF True] branch_field_inverse(1) [OF rel] branch_target
        branch_taken_cond [OF assms(1,2) True]
      by simp
  next
    case False
    then have op: "?op = ''JMP8''" using assms(2) by (auto simp: has_key_def BR_CC_def at_def)
    then have four: "at BR_CC ?op = 4" by (simp add: at_def BR_CC_def)
    show ?thesis
      unfolding ex four exec_branch_cond(2) branch_field_inverse(1) [OF rel] branch_target self
      by (simp add: op)
  qed
qed

theorem branch_reaches_target_witness:
  "\<exists>bs. encode_insn ''bgez'' [''0x100''] no_labels 2 False = Inr bs \<and>
    exec_insn (sim_init halt_image default_opts) (halfword bs) 2 =
      Inr (sim_init halt_image default_opts, 128)"
proof -
  have b: "has_key BR_CC (py_upper ''bgez'')" "eval_expr ''0x100'' no_labels = Inr 256"
    "encode_insn ''bgez'' [''0x100''] no_labels 2 False = Inr [252, 159]"
    by code_simp+
  have "sx16 (get_r (sim_init halt_image default_opts) 0) = 0" "py_upper ''bgez'' = ''BGEZ''"
    by (simp_all add: get_r_def sim_init_def Let_def sx16_def) code_simp
  then show ?thesis
    using branch_reaches_target [OF wf_boot_halt b] b(3) by simp
qed

end
