(* ===== verification/AsmMeaning.thy ===== *)
theory AsmMeaning
  imports AsmSim
begin

text \<open>
  What the assembled mnemonics mean: the halfwords \<open>encode_insn\<close> produces for the constant
  load, the long jump, the word loads and stores and the three-register instructions have,
  executed by the simulator, the effect their operands describe.
\<close>

section \<open>Dispatch\<close>

lemma encode_ldi16: "encode_insn ''LDI16'' os labels pc iflush = enc_ldi16 ''LDI16'' os labels"
  and encode_jall: "encode_insn ''JALL'' os labels pc iflush = enc_jump ''JAL16'' os labels"
  and encode_ld: "encode_insn ''LD'' os labels pc iflush = enc_ld_st ''LD'' os labels"
  and encode_st: "encode_insn ''ST'' os labels pc iflush = enc_ld_st ''ST'' os labels"
  by (simp_all add: encode_insn_def Let_def py_upper_def upper_char_def is_lower_def ccode_def
      MNEMONIC_ALIASES_def)

definition alu_mnemonics :: "string set" where
  "alu_mnemonics = {''ADD'', ''SUB'', ''AND'', ''OR'', ''XOR'', ''SLT'', ''SLTU''}"

lemma encode_alu:
  assumes "op \<in> alu_mnemonics"
  shows "encode_insn op os labels pc iflush = enc_alu3 op os"
  using assms unfolding alu_mnemonics_def insert_iff empty_iff
  by (elim disjE FalseE)
    (simp_all add: encode_insn_def Let_def py_upper_def upper_char_def is_lower_def ccode_def
      has_key_def I_OP_def BR_CC_def)

section \<open>Constants\<close>

lemma set_r_twice [simp]: "set_r i v (set_r i w m) = set_r i v m"
  by (simp add: set_r_def)

lemma table_values: "at I_OP ''LUI'' = 1" "at I_OP ''ORI'' = 5"
  by (simp_all add: at_def I_OP_def)

lemma enc_i_fits: "r3 d \<Longrightarrow> r3 op \<Longrightarrow> 0 \<le> imm \<Longrightarrow> imm < 256 \<Longrightarrow> fits 16 (enc_i d op imm)"
  by (simp add: enc_i_pack pack4_fits)

lemma enc_r_fits:
  assumes "r3 d" "r3 a" "0 \<le> f" "f < 32" "r3 b"
  shows "fits 16 (enc_r d a f b)"
  using assms by (simp add: enc_r_pack pack4_fits)

lemma drop_two: "drop 2 (encode_word a @ bs) = bs"
  by (simp add: encode_word_def)

text \<open>
  \<open>LDI16 rd, e\<close> assembles to two halfwords which, executed one after the other, leave the
  value of \<open>e\<close> modulo 65536 in \<open>rd\<close> and change nothing else.
\<close>

theorem ldi16_loads_constant:
  assumes wf: "wf_sim m" and rd: "reg rtok = Inr rd" and v: "eval_expr e labels = Inr v"
    and enc: "encode_insn ''LDI16'' [rtok, e] labels pc iflush = Inr bs"
  shows "\<exists>m1. exec_insn m (halfword bs) p = Inr (m1, p) \<and>
    exec_insn m1 (halfword (drop 2 bs)) q = Inr (set_r rd (v mod 65536) m, q)"
proof -
  let ?hi = "drop_bit 8 (v AND 0xFFFF) AND 0xFF" and ?lo = "(v AND 0xFFFF) AND 0xFF"
  have r: "r3 rd" using reg_range [OF rd] .
  have b: "0 \<le> ?hi" "?hi < 256" "0 \<le> ?lo" "?lo < 256" by (simp_all only: and_255)
  have bs: "bs = encode_word (enc_i rd 1 ?hi) @ encode_word (enc_i rd 5 ?lo)"
    using enc by (simp only: encode_ldi16 enc_ldi16_def n_ops_def table_values Let_def)
      (simp add: rd v)
  let ?m1 = "set_r rd (push_bit 8 ?hi AND 0xFFFF) m"
  have len: "length (sim_r m) = 8" using wf by (simp add: wf_sim_def words16_def)
  have "exec_insn m (enc_i rd 1 ?hi) p = Inr (?m1, p)"
    using exec_enc_i [OF r _ b(1,2), of 1] by (simp add: exec_imm_def)
  moreover have "halfword bs = enc_i rd 1 ?hi"
    unfolding bs using r b by (intro halfword_fits enc_i_fits) auto
  moreover have "halfword (drop 2 bs) = enc_i rd 5 ?lo"
    unfolding bs drop_two using r b by (intro halfword_single enc_i_fits) auto
  moreover have "exec_insn ?m1 (enc_i rd 5 ?lo) q = Inr (set_r rd (get_r ?m1 rd OR ?lo) ?m1, q)"
    using exec_enc_i [OF r _ b(3,4), of 5] by (simp add: exec_imm_def)
  moreover have "get_r ?m1 rd OR ?lo = v mod 65536"
  proof -
    have "get_r ?m1 rd = push_bit 8 ?hi AND 0xFFFF" using len r by simp
    also have "\<dots> = push_bit 8 ?hi"
      using b by (simp only: and_65535 push_bit_mult) simp
    finally have "get_r ?m1 rd OR ?lo = ?hi * 2 ^ 8 + ?lo" using pack_or [of ?lo 8 ?hi] b by simp
    also have "\<dots> = v mod 65536"
      using zmod_zmult2_eq [of 256 "v mod 65536" 256] by (simp add: mask_simps)
    finally show ?thesis .
  qed
  ultimately show ?thesis by simp
qed

theorem ldi16_loads_constant_witness:
  "\<exists>m1. exec_insn (sim_init halt_image default_opts) (halfword [190, 145, 239, 149]) 1 = Inr (m1, 1) \<and>
    exec_insn m1 (halfword (drop 2 [190, 145, 239, 149])) 2 =
      Inr (set_r 2 0xBEEF (sim_init halt_image default_opts), 2)"
proof -
  have c: "reg ''r2'' = Inr 2" "eval_expr ''0xBEEF'' no_labels = Inr 48879"
    "encode_insn ''LDI16'' [''r2'', ''0xBEEF''] no_labels 0 False = Inr [190, 145, 239, 149]"
    by code_simp+
  have "48879 mod 65536 = (0xBEEF :: int)" by simp
  from ldi16_loads_constant [OF wf_boot_halt c, of 1 2, unfolded this] show ?thesis .
qed

section \<open>Long jumps\<close>

lemma enc_long_halfwords:
  assumes "r3 d" "fits 16 t"
  shows "halfword (enc_long d t) = d * 2048 + 0x34" "halfword (drop 2 (enc_long d t)) = t"
proof -
  have "push_bit 11 d OR 0x34 = d * 2048 + 0x34" using pack_or [of "0x34" 11 d] by simp
  moreover have "fits 16 (d * 2048 + 0x34)" using assms(1) by (simp add: fits_def)
  ultimately show "halfword (enc_long d t) = d * 2048 + 0x34"
    by (simp add: enc_long_def halfword_fits)
  show "halfword (drop 2 (enc_long d t)) = t"
    unfolding enc_long_def Let_def drop_two using assms(2) by (rule halfword_single)
qed

lemma long_head:
  assumes "r3 d"
  shows "(d * 2048 + 0x34) AND 0xC7FF = 0x34" "drop_bit 11 (d * 2048 + 0x34) AND 7 = d"
proof -
  have "d \<in> {0..7}" using assms by simp
  then have "d \<in> set [0..7]" by simp
  moreover have "list_all (\<lambda>d. (d * 2048 + 0x34) AND 0xC7FF = 0x34 \<and>
      drop_bit 11 (d * 2048 + 0x34) AND 7 = d) [0..7::int]"
    by code_simp
  ultimately show "(d * 2048 + 0x34) AND 0xC7FF = 0x34" "drop_bit 11 (d * 2048 + 0x34) AND 7 = d"
    unfolding list_all_iff by blast+
qed

text \<open>
  \<open>JALL Sd, e\<close> jumps and links. Executed where its second halfword follows in memory, it
  continues at the word of the target address and, unless \<open>Sd\<close> is S0, leaves the byte address
  of the instruction after both halfwords in \<open>Sd\<close>.
\<close>

theorem jall_links_and_jumps:
  assumes "sim_long_jall m" and sd: "sreg stok = Inr d" and t: "eval_expr e labels = Inr target"
    and enc: "encode_insn ''JALL'' [stok, e] labels pc iflush = Inr bs"
    and mem: "sim_mem m ! nat (p mod 32768) = halfword (drop 2 bs)"
  shows "exec_insn m (halfword bs) p =
    Inr (if d \<noteq> 0 then set_s d ((2 * sim_pc m + 4) mod 65536) m else m, target div 2)"
proof -
  have "code_addr target ''JAL16 target'' = Inr target"
    and bs: "bs = enc_long d target"
    using enc by (auto simp: encode_jall enc_jump_def n_ops_def sd t bindE_Inr_iff code_addr_def
        split: if_splits)
  then have tb: "0 \<le> target" "target \<le> 65535"
    by (auto simp: code_addr_def split: if_splits)
  have r: "r3 d" using sreg_range [OF sd] .
  have f: "fits 16 target" using tb by (simp add: fits_def)
  have "target div 2 mod 32768 = target div 2" using tb by simp
  moreover have "sim_pc m * 2 + 4 = 2 * sim_pc m + 4" by simp
  ultimately show ?thesis
    using assms(1) mem long_head [OF r]
    unfolding bs enc_long_halfwords [OF r f]
    by (simp add: exec_insn_def Let_def exec_long_def mask_simps ac_simps)
qed

text \<open>The witness jumps to 0x1234 and links in S3, from a machine whose word 1 holds the target.\<close>

definition jall_demo :: sim where
  "jall_demo = sim_init [0x34, 0x18, 0x34, 0x12] default_opts"

theorem jall_links_and_jumps_witness:
  "exec_insn jall_demo (halfword [0x34, 0x18, 0x34, 0x12]) 1 = Inr (set_s 3 4 jall_demo, 0x91A)"
proof -
  have c: "sreg ''S3'' = Inr 3" "eval_expr ''0x1234'' no_labels = Inr 0x1234"
    "encode_insn ''JALL'' [''S3'', ''0x1234''] no_labels 0 False = Inr [0x34, 0x18, 0x34, 0x12]"
    by code_simp+
  have m: "sim_long_jall jall_demo" "sim_pc jall_demo = 0"
    "sim_mem jall_demo ! nat (1 mod 32768) = halfword (drop 2 [0x34, 0x18, 0x34, 0x12])"
    by (simp_all add: jall_demo_def sim_init_def default_opts_def Let_def RESET_PC_def load_image_eval
        halfword_def numeral_2_eq_2)
  show ?thesis using jall_links_and_jumps [OF m(1) c m(3)] by (simp add: m(2))
qed

section \<open>Three-register instructions\<close>

text \<open>What the two-operand mnemonics compute, as arithmetic on the signed or unsigned values.\<close>

fun alu_meaning :: "string \<Rightarrow> int \<Rightarrow> int \<Rightarrow> int" where
  "alu_meaning op a b =
     (if op = ''ADD'' then (a + b) mod 65536
      else if op = ''SUB'' then (a - b) mod 65536
      else if op = ''SLT'' then of_bool (sx16 a < sx16 b)
      else if op = ''SLTU'' then of_bool (a < b)
      else if op = ''AND'' then a AND b else if op = ''OR'' then a OR b else a XOR b)"

lemma alu_codes:
  "at R_FUNC ''ADD'' = 0" "at R_FUNC ''SUB'' = 1" "at R_FUNC ''SLT'' = 2" "at R_FUNC ''SLTU'' = 3"
  "at R_FUNC ''AND'' = 4" "at R_FUNC ''OR'' = 5" "at R_FUNC ''XOR'' = 6"
  by (simp_all add: at_def R_FUNC_def)

lemma exec_alu_meaning:
  assumes "op \<in> alu_mnemonics" "\<not> sim_nano m"
  shows "exec_alu m d a (at R_FUNC op) b p = Inr (set_r d (alu_meaning op (get_r m a) (get_r m b)) m, p)"
  using assms unfolding alu_mnemonics_def insert_iff empty_iff
  by (elim disjE FalseE) (simp_all add: alu_codes exec_alu_def Let_def and_65535)

text \<open>
  C24: outside Nano, an assembled \<open>ADD\<close>, \<open>SUB\<close>, \<open>AND\<close>, \<open>OR\<close>, \<open>XOR\<close>, \<open>SLT\<close> or \<open>SLTU\<close> writes the
  value its name denotes, of the two source registers, to the destination register, and
  changes nothing else.
\<close>

theorem alu_mnemonics_compute:
  assumes "op \<in> alu_mnemonics" "\<not> sim_nano m"
    and regs: "reg dtok = Inr d" "reg atok = Inr a" "reg btok = Inr b"
    and enc: "encode_insn op [dtok, atok, btok] labels pc iflush = Inr bs"
  shows "exec_insn m (halfword bs) p =
    Inr (set_r d (alu_meaning op (get_r m a) (get_r m b)) m, p)"
proof -
  let ?f = "at R_FUNC op"
  have r: "r3 d" "r3 a" "r3 b" using reg_range regs by blast+
  have f: "0 \<le> ?f" "?f < 32" "?f < 8"
    using assms(1) unfolding alu_mnemonics_def insert_iff empty_iff
    by (elim disjE FalseE; simp add: alu_codes)+
  have bs: "bs = encode_word (enc_r d a ?f b)"
    using enc unfolding encode_alu [OF assms(1)] enc_alu3_def n_ops_def by (simp add: regs numeral_2_eq_2)
  have "exec_insn m (halfword bs) p = exec_reg m d a ?f b p"
    unfolding bs halfword_single [OF enc_r_fits [OF r(1,2) f(1,2) r(3)]]
    by (rule exec_enc_r [OF r(1,2) f(1,2) r(3)])
  also have "\<dots> = exec_alu m d a ?f b p" using f(3) by (simp add: exec_reg_def)
  finally show ?thesis by (simp only: exec_alu_meaning [OF assms(1,2)])
qed

theorem alu_mnemonics_compute_witness:
  "exec_insn (sim_init halt_image default_opts) (halfword [10, 201]) 1 =
    Inr (set_r 1 0 (sim_init halt_image default_opts), 1)"
proof -
  have c: "reg ''r1'' = Inr 1" "reg ''R1'' = Inr 1" "reg ''r2 '' = Inr 2"
    "encode_insn ''SUB'' [''r1'', ''R1'', ''r2 ''] no_labels 0 False = Inr [10, 201]"
    by code_simp+
  have m: "''SUB'' \<in> alu_mnemonics" "\<not> sim_nano (sim_init halt_image default_opts)"
    "get_r (sim_init halt_image default_opts) 1 = 0" "get_r (sim_init halt_image default_opts) 2 = 0"
    by (simp_all add: alu_mnemonics_def sim_init_def default_opts_def Let_def get_r_def)
  show ?thesis using alu_mnemonics_compute [OF m(1,2) c, of 1] by (simp only: m(3,4)) simp
qed

section \<open>Word loads and stores\<close>

lemma sx8_table: "list_all (\<lambda>d. sx8 (d AND 0xFF) = d) [-128..127]"
  by code_simp

lemma sx8_of_byte: "-128 \<le> d \<Longrightarrow> d \<le> 127 \<Longrightarrow> sx8 (d AND 0xFF) = d"
proof -
  assume "-128 \<le> d" "d \<le> 127"
  then have "d \<in> {-128..127}" by simp
  then show ?thesis using sx8_table [unfolded list_all_iff set_upto] by blast
qed

lemma even_byte: "even d \<Longrightarrow> (d AND 0xFF) mod 2 = 0" for d :: int
  by (simp add: and_255 even_iff_mod_2_eq_zero) presburger

text \<open>
  C25: \<open>LD rd, [ra+e]\<close> and \<open>ST rd, [ra+e]\<close> access the word at the base register plus the signed
  value of the displacement expression (modulo 65536), which must be even and between -128
  and 127.
\<close>

theorem ld_st_access_displaced:
  assumes regs: "reg dtok = Inr d" "parse_mem mtok = Inr [atok, e]" "reg atok = Inr a"
    and disp: "eval_expr e labels = Inr disp"
    and op: "op \<in> {''LD'', ''ST''}" and enc: "encode_insn op [dtok, mtok] labels pc iflush = Inr bs"
  shows "even disp \<and> - 128 \<le> disp \<and> disp \<le> 127 \<and>
    exec_insn m (halfword bs) p =
      (if op = ''ST'' then Inr (store_word ((get_r m a + disp) mod 65536) (get_r m d) 3 m, p)
       else (case load_word ((get_r m a + disp) mod 65536) m of (v, m1) \<Rightarrow> Inr (set_r d v m1, p)))"
proof -
  have r: "r3 d" "r3 a" using reg_range regs by blast+
  have "enc_ld_st op [dtok, mtok] labels = Inr bs"
    using op enc encode_ld encode_st by auto
  then have dv: "even disp" "- 128 \<le> disp" "disp \<le> 127"
    and bs: "bs = encode_word (enc_mem_i (op = ''ST'') d a (disp AND 0xFF))"
    by (auto simp: enc_ld_st_def n_ops_def regs disp enc_i8_def and_one_eq mod_2_eq_odd bindE_Inr_iff
        split: if_splits)
  let ?imm = "disp AND 0xFF"
  have imm: "0 \<le> ?imm" "?imm < 256" "?imm mod 2 = 0" using even_byte [OF dv(1)] by (simp_all add: and_255)
  have "fits 16 (enc_mem_i (op = ''ST'') d a ?imm)"
    unfolding enc_mem_i_pack [OF r imm]
    using r imm even_byte_le [of ?imm "op = ''ST''"] by (intro pack4_fits) auto
  then have "exec_insn m (halfword bs) p = exec_insn m (enc_mem_i (op = ''ST'') d a ?imm) p"
    unfolding bs by (simp only: halfword_single)
  then show ?thesis
    unfolding exec_enc_mem_i [OF r imm] sx8_of_byte [OF dv(2,3)] Let_def and_65535
    using dv by simp
qed

theorem ld_st_access_displaced_witness:
  "exec_insn (sim_init halt_image default_opts) (halfword [252, 74]) 1 =
    (case load_word 0xFFFC (sim_init halt_image default_opts) of (v, m1) \<Rightarrow> Inr (set_r 1 v m1, 1))"
proof -
  have c: "reg ''r1'' = Inr 1" "parse_mem ''[r2 - 4]'' = Inr [''r2'', ''- 4'']" "reg ''r2'' = Inr 2"
    "eval_expr ''- 4'' no_labels = Inr (- 4)"
    "encode_insn ''LD'' [''r1'', ''[r2 - 4]''] no_labels 0 False = Inr [252, 74]"
    by code_simp+
  have "get_r (sim_init halt_image default_opts) 2 = 0" "(0 + - 4) mod 65536 = (0xFFFC :: int)"
    by (simp_all add: sim_init_def Let_def get_r_def)
  with ld_st_access_displaced [OF c(1-4) _ c(5), of "sim_init halt_image default_opts" 1]
  show ?thesis by simp
qed

end
