(* ===== verification/AsmText.thy ===== *)
theory AsmText
  imports AsmImage
begin

text \<open>
  The text level of the assembler: comment stripping, operand lists, conditional assembly
  against a structured semantics, and expressions against a printer.
\<close>

section \<open>Comments\<close>

text \<open>
  Scanning a text from a quote state: \<open>None\<close> if a comment character occurs outside quotes,
  otherwise the quote that is open at the end.
\<close>

fun scan :: "char option \<Rightarrow> bool \<Rightarrow> string \<Rightarrow> (char option \<times> bool) option" where
  "scan quote escape [] = Some (quote, escape)"
| "scan (Some q) escape (ch # cs) =
     (if escape then scan (Some q) False cs
      else if ch = backslash then scan (Some q) True cs
      else if ch = q then scan None False cs
      else scan (Some q) False cs)"
| "scan None escape (ch # cs) =
     (if is_quote ch then scan (Some ch) escape cs
      else if ch = CHR '';'' \<or> ch = CHR ''#'' then None
      else scan None escape cs)"

lemma strip_loop_scan:
  "scan q esc xs = Some (q', esc') \<Longrightarrow> strip_loop q esc (xs @ ys) = xs @ strip_loop q' esc' ys"
  by (induction q esc xs rule: scan.induct) (auto split: if_splits)

text \<open>
  A comment is cut where it starts and nowhere else: if \<open>t\<close> has no comment
  character outside its quotes and leaves no quote open, then stripping \<open>t\<close> followed by
  \<open>;\<close> or \<open>#\<close> and anything at all gives the trimmed \<open>t\<close>, as does stripping \<open>t\<close> alone.
\<close>

theorem comment_is_cut:
  assumes "scan None False t = Some (None, False)" "c \<in> {CHR '';'', CHR ''#''}"
  shows "strip_comment (t @ c # rest) = py_strip t \<and> strip_comment t = py_strip t"
proof -
  have "\<not> is_quote c" using assms(2) by (auto simp: is_quote_def dquote_def squote_def)
  then have "strip_loop None False (c # rest) = []" using assms(2) by auto
  then show ?thesis
    using strip_loop_scan [OF assms(1), of "c # rest"] strip_loop_scan [OF assms(1), of "[]"]
    by (simp add: strip_comment_def)
qed

theorem comment_is_cut_witness:
  "strip_comment '' .byte '#', 1 # one'' = ''.byte '#', 1''"
proof -
  have "scan None False '' .byte '#', 1 '' = Some (None, False)" "py_strip '' .byte '#', 1 '' = ''.byte '#', 1''"
    by code_simp+
  then show ?thesis using comment_is_cut [of "'' .byte '#', 1 ''" "CHR ''#''" "'' one''"] by simp
qed

section \<open>Operand lists\<close>

text \<open>The bracket depth after a text, or \<open>None\<close> if a comma occurs at depth zero.\<close>

fun depth_after :: "int \<Rightarrow> string \<Rightarrow> int option" where
  "depth_after d [] = Some d"
| "depth_after d (ch # cs) =
     (if ch = CHR ''['' then depth_after (d + 1) cs
      else if ch = CHR '']'' then depth_after (d - 1) cs
      else if ch = CHR '','' \<and> d = 0 then None
      else depth_after d cs)"

definition operand_text :: "string \<Rightarrow> bool" where
  "operand_text s \<longleftrightarrow> s \<noteq> [] \<and> trimmed s \<and> depth_after 0 s = Some 0"

lemma split_loop_append:
  "depth_after d s = Some d' \<Longrightarrow> split_loop d cur parts (s @ rest) = split_loop d' (cur @ s) parts rest"
  by (induction d s arbitrary: cur rule: depth_after.induct) (auto split: if_splits)

lemma strip_blank_cons: "trimmed s \<Longrightarrow> py_strip ('' '' @ s) = s"
  using py_strip_trimmed_id [of s] by (simp add: py_strip_def lstrip_def py_space_def ccode_def)

lemma split_join_from:
  assumes "list_all operand_text (p # ps)" "pre \<in> {[], '' ''}"
  shows "split_loop 0 pre parts (py_join '', '' (p # ps)) = parts @ p # ps"
  using assms
proof (induction ps arbitrary: p pre parts)
  case Nil
  then have p: "operand_text p" by simp
  have "split_loop 0 pre parts (p @ []) = add_part (pre @ p) parts"
    using split_loop_append [of 0 p 0 pre parts "[]"] p by (simp add: operand_text_def)
  moreover have "py_strip (pre @ p) = p"
    using Nil.prems(2) p strip_blank_cons py_strip_trimmed_id by (auto simp: operand_text_def)
  ultimately show ?case using p by (simp add: add_part_def operand_text_def)
next
  case (Cons q ps)
  have p: "operand_text p" using Cons.prems by simp
  have strip: "py_strip (pre @ p) = p"
    using Cons.prems(2) p strip_blank_cons py_strip_trimmed_id by (auto simp: operand_text_def)
  have "split_loop 0 pre parts (p @ '', '' @ py_join '', '' (q # ps)) =
      split_loop 0 (pre @ p) parts ('', '' @ py_join '', '' (q # ps))"
    using split_loop_append p by (simp add: operand_text_def)
  also have "\<dots> = split_loop 0 '' '' (parts @ [p]) (py_join '', '' (q # ps))"
    using strip p by (simp add: add_part_def operand_text_def)
  also have "\<dots> = (parts @ [p]) @ q # ps" using Cons by auto
  finally show ?case by simp
qed

text \<open>
  Splitting undoes joining: operands that are trimmed, non-empty, bracket-balanced and
  without a comma outside brackets are recovered, in order, from their comma-separated list.
\<close>

theorem split_join_operands:
  assumes "list_all operand_text ops"
  shows "split_operands (py_join '', '' ops) = ops"
proof (cases ops)
  case Nil
  then show ?thesis by (simp add: split_operands_def add_part_def py_strip_def lstrip_def rstrip_def)
next
  case (Cons p ps)
  then show ?thesis using split_join_from [of p ps "[]" "[]"] assms by (simp add: split_operands_def)
qed

theorem split_join_operands_witness:
  "split_operands (py_join '', '' [''r1'', ''[r2+4]'', ''[a,b]'']) = [''r1'', ''[r2+4]'', ''[a,b]'']"
proof -
  have "list_all operand_text [''r1'', ''[r2+4]'', ''[a,b]'']"
    by (simp add: operand_text_def trimmed_def py_space_def ccode_def)
  then show ?thesis by (rule split_join_operands)
qed

text \<open>
  The splitter does not look at quotes, so a character literal that is itself a comma is torn
  apart although the expression evaluator accepts it.
\<close>

lemma comma_literal_is_split:
  "split_operands [squote, CHR '','', squote] = [[squote], [squote]] \<and>
   eval_expr [squote, CHR '','', squote] no_labels = Inr 44"
  by code_simp

section \<open>Conditional assembly\<close>

text \<open>
  Structured source: plain lines and conditional blocks, each with the raw lines of its
  directives.
\<close>

datatype tree =
    Plain string
  | IfThen string "tree list" string
  | IfElse string "tree list" string "tree list" string

fun tree_lines :: "tree \<Rightarrow> string list" where
  "tree_lines (Plain raw) = [raw]"
| "tree_lines (IfThen l ts e) = l # concat (map tree_lines ts) @ [e]"
| "tree_lines (IfElse l ts m ts' e) =
     l # concat (map tree_lines ts) @ m # concat (map tree_lines ts') @ [e]"

definition if_line :: "string \<Rightarrow> bool" where
  "if_line l \<longleftrightarrow> fst (pp_directive l) \<in> {''.ifdef'', ''.ifndef''} \<and>
     snd (pp_directive l) \<noteq> [] \<and> (\<exists>n. define_name (snd (pp_directive l)) = Inr n)"

fun tree_ok :: "tree \<Rightarrow> bool" where
  "tree_ok (Plain raw) \<longleftrightarrow> fst (pp_directive raw) \<notin> {''.ifdef'', ''.ifndef'', ''.else'', ''.endif''}"
| "tree_ok (IfThen l ts e) \<longleftrightarrow> if_line l \<and> list_all tree_ok ts \<and> fst (pp_directive e) = ''.endif''"
| "tree_ok (IfElse l ts m ts' e) \<longleftrightarrow> if_line l \<and> list_all tree_ok ts \<and>
     fst (pp_directive m) = ''.else'' \<and> list_all tree_ok ts' \<and> fst (pp_directive e) = ''.endif''"

text \<open>The condition of an opening line: the name is defined, or is not for \<open>.ifndef\<close>.\<close>

definition if_cond :: "(string \<Rightarrow> bool) \<Rightarrow> string \<Rightarrow> bool" where
  "if_cond defines l =
     (let d = (case define_name (snd (pp_directive l)) of Inr n \<Rightarrow> defines n | Inl _ \<Rightarrow> False)
      in if fst (pp_directive l) = ''.ifndef'' then \<not> d else d)"

text \<open>What a structured source means: the lines of the branches taken, blank lines elsewhere.\<close>

fun tree_sem :: "(string \<Rightarrow> bool) \<Rightarrow> bool \<Rightarrow> tree \<Rightarrow> string list" where
  "tree_sem defines active (Plain raw) = [if active then raw else ''\<newline>'']"
| "tree_sem defines active (IfThen l ts e) =
     ''\<newline>'' # concat (map (tree_sem defines (active \<and> if_cond defines l)) ts) @ [''\<newline>'']"
| "tree_sem defines active (IfElse l ts m ts' e) =
     ''\<newline>'' # concat (map (tree_sem defines (active \<and> if_cond defines l)) ts) @
     ''\<newline>'' # concat (map (tree_sem defines (active \<and> \<not> if_cond defines l)) ts') @ [''\<newline>'']"

lemma bindE_bindE [simp]: "bindE (bindE m f) g = bindE m (\<lambda>x. bindE (f x) g)"
  by (cases m) simp_all

declare pp_loop.simps [simp del]

lemma pp_if_line:
  assumes "if_line l"
  shows "pp_loop defines n stack active (l # lns) =
    bindE (pp_loop defines (Suc n) ((active, if_cond defines l, False) # stack)
             (active \<and> if_cond defines l) lns) (\<lambda>out. Inr (''\<newline>'' # out))"
proof -
  obtain d a where da: "pp_directive l = (d, a)" by (cases "pp_directive l")
  then obtain nm where nm: "a \<noteq> []" "define_name a = Inr nm" "d = ''.ifdef'' \<or> d = ''.ifndef''"
    using assms by (auto simp: if_line_def)
  from nm(3) show ?thesis
    by (elim disjE) (simp_all add: pp_loop.simps(2) da nm(1,2) if_cond_def Let_def)
qed

lemma pp_else_line:
  assumes "fst (pp_directive m) = ''.else''"
  shows "pp_loop defines n ((parent, cond, False) # stack) active (m # lns) =
    bindE (pp_loop defines (Suc n) ((parent, cond, True) # stack) (parent \<and> \<not> cond) lns)
      (\<lambda>out. Inr (''\<newline>'' # out))"
  using assms by (cases "pp_directive m") (simp add: pp_loop.simps(2))

lemma pp_endif_line:
  assumes "fst (pp_directive e) = ''.endif''"
  shows "pp_loop defines n ((parent, cond, seen) # stack) active (e # lns) =
    bindE (pp_loop defines (Suc n) stack parent lns) (\<lambda>out. Inr (''\<newline>'' # out))"
  using assms by (cases "pp_directive e") (simp add: pp_loop.simps(2))

lemma pp_trees:
  assumes "\<And>t n stack active rest. t \<in> set ts \<Longrightarrow> tree_ok t \<Longrightarrow>
      pp_loop defines n stack active (tree_lines t @ rest) =
      bindE (pp_loop defines (n + length (tree_lines t)) stack active rest)
        (\<lambda>out. Inr (tree_sem defines active t @ out))"
    and "list_all tree_ok ts"
  shows "pp_loop defines n stack active (concat (map tree_lines ts) @ rest) =
    bindE (pp_loop defines (n + length (concat (map tree_lines ts))) stack active rest)
      (\<lambda>out. Inr (concat (map (tree_sem defines active) ts) @ out))"
  using assms
proof (induction ts arbitrary: n)
  case Nil
  then show ?case by (cases "pp_loop defines n stack active rest") simp_all
next
  case (Cons t ts)
  have "pp_loop defines n stack active (concat (map tree_lines (t # ts)) @ rest) =
      bindE (pp_loop defines (n + length (tree_lines t)) stack active (concat (map tree_lines ts) @ rest))
        (\<lambda>out. Inr (tree_sem defines active t @ out))"
    using Cons.prems(1) [of t] Cons.prems(2) by simp
  also have "pp_loop defines (n + length (tree_lines t)) stack active (concat (map tree_lines ts) @ rest) =
      bindE (pp_loop defines (n + length (tree_lines t) + length (concat (map tree_lines ts))) stack active rest)
        (\<lambda>out. Inr (concat (map (tree_sem defines active) ts) @ out))"
    using Cons.IH Cons.prems by simp
  finally show ?case by (simp add: add.assoc)
qed

lemma pp_tree:
  "tree_ok t \<Longrightarrow> pp_loop defines n stack active (tree_lines t @ rest) =
    bindE (pp_loop defines (n + length (tree_lines t)) stack active rest)
      (\<lambda>out. Inr (tree_sem defines active t @ out))"
proof (induction t arbitrary: n stack active rest)
  case (Plain raw)
  then show ?case by (cases "pp_directive raw") (simp add: pp_loop.simps(2))
next
  case (IfThen l ts e)
  note ts = pp_trees [of ts "defines", OF IfThen.IH]
  show ?case
    using IfThen.prems by (simp add: pp_if_line ts pp_endif_line)
next
  case (IfElse l ts m ts' e)
  note ts = pp_trees [of ts "defines", OF IfElse.IH(1)] and ts' = pp_trees [of ts' "defines", OF IfElse.IH(2)]
  show ?case
    using IfElse.prems by (simp add: pp_if_line ts ts' pp_else_line pp_endif_line add.assoc)
qed

text \<open>
  C11: conditional assembly is structured: on lines that nest as plain lines and
  \<open>.ifdef\<close>/\<open>.ifndef\<close> blocks with at most one \<open>.else\<close> each, preprocessing succeeds and keeps exactly
  the lines of the branches taken, a blank line for each other line (so line numbers stay).
\<close>

theorem preprocess_structured:
  assumes "list_all tree_ok ts"
  shows "preprocess_source (concat (map tree_lines ts)) defines =
      Inr (concat (map (tree_sem defines True) ts)) \<and>
    length (concat (map (tree_sem defines True) ts)) = length (concat (map tree_lines ts))"
proof -
  have len: "length (tree_sem defines active t) = length (tree_lines t)" for active t
    by (induction t arbitrary: active) (simp_all add: length_concat o_def cong: map_cong)
  show ?thesis
    using pp_trees [OF pp_tree assms, of "defines" 1 "[]" True "[]"]
    by (simp add: preprocess_source_def pp_loop.simps(1) length_concat o_def len)
qed

theorem preprocess_structured_witness:
  "preprocess_source [''.ifdef RISCC_MDU'', ''mulhu r1, r2, r3'', '' .ELSE ; soft'', ''jmp r1'', ''.endif'']
     (\<lambda>n. n = ''RISCC_SYS'') = Inr [''\<newline>'', ''\<newline>'', ''\<newline>'', ''jmp r1'', ''\<newline>'']"
proof -
  define t where "t = IfElse ''.ifdef RISCC_MDU'' [Plain ''mulhu r1, r2, r3''] '' .ELSE ; soft''
      [Plain ''jmp r1''] ''.endif''"
  have d: "pp_directive ''.ifdef RISCC_MDU'' = (''.ifdef'', ''RISCC_MDU'')"
    "define_name ''RISCC_MDU'' = Inr ''RISCC_MDU''"
    "pp_directive '' .ELSE ; soft'' = (''.else'', [])" "pp_directive ''.endif'' = (''.endif'', [])"
    "fst (pp_directive ''mulhu r1, r2, r3'') = []" "fst (pp_directive ''jmp r1'') = []"
    by code_simp+
  have "list_all tree_ok [t]" by (simp add: t_def if_line_def d)
  from preprocess_structured [OF this, of "\<lambda>n. n = ''RISCC_SYS''"]
  show ?thesis by (simp add: t_def if_cond_def d)
qed

end
