(* ===== verification/AsmParse.thy ===== *)
theory AsmParse
  imports AsmExpr
begin

text \<open>
  The expression parser against a printer: an expression printed with only the parentheses
  that Python's precedence and left associativity ask for is read back as itself.
\<close>

section \<open>Printing to tokens\<close>

fun bin_tok :: "binop \<Rightarrow> tok" where
  "bin_tok Add = TPlus" | "bin_tok Sub = TMinus" | "bin_tok b = TBin b"

fun un_tok :: "unop \<Rightarrow> tok" where
  "un_tok UAdd = TPlus" | "un_tok USub = TMinus" | "un_tok Invert = TTilde"

text \<open>The tokens of an expression where operators weaker than level \<open>p\<close> need parentheses.\<close>

fun toks :: "nat \<Rightarrow> expr \<Rightarrow> tok list" where
  "toks p (Constant n) = [TNum n]"
| "toks p (Name x) = [TName x]"
| "toks p (UnaryOp u e) = un_tok u # toks 7 e"
| "toks p (BinOp l b r) =
     (let body = toks (prec b) l @ bin_tok b # toks (Suc (prec b)) r
      in if p \<le> prec b then body else TLpar # body @ [TRpar])"

section \<open>Parsing what was printed\<close>

lemma bin_of_tok [simp]: "bin_of (bin_tok b) = Some b"
  by (cases b) (simp_all add: bin_of_def)

lemma parse_unary: "parse True out ops (un_tok u # ts) = parse True out (PUn u # ops) ts"
  by (cases u) (simp_all add: un_of_def)

lemma prec_le: "prec b \<le> 6"
  by (cases b) simp_all

text \<open>The pending operators allow an operand of level \<open>p\<close>; a test closes level \<open>p\<close>.\<close>

definition ctx_ok :: "nat \<Rightarrow> pending list \<Rightarrow> bool" where
  "ctx_ok p ops = (case ops of [] \<Rightarrow> True | q # _ \<Rightarrow>
     (case q of PPar \<Rightarrow> True | PBin b \<Rightarrow> prec b < p | PUn _ \<Rightarrow> 7 \<le> p))"

definition closes :: "nat \<Rightarrow> (pending \<Rightarrow> bool) \<Rightarrow> bool" where
  "closes p P \<longleftrightarrow> (\<forall>b. p \<le> prec b \<longrightarrow> P (PBin b)) \<and> (\<forall>u. P (PUn u))"

lemma closes_mono: "closes p P \<Longrightarrow> p \<le> q \<Longrightarrow> closes q P"
  by (auto simp: closes_def)

lemma closes_unary: "closes p P \<Longrightarrow> closes 7 P"
  by (auto simp: closes_def dest: le_trans [OF _ prec_le])

lemma closes_before: "closes (prec b) (binds_before b)" "closes p no_paren"
  by (simp_all add: closes_def binds_before_def no_paren_def)

lemma reduce_blocked: "ctx_ok (prec b) ops \<Longrightarrow> reduce (binds_before b) out ops = (out, ops)"
  using prec_le [of b] by (cases ops) (auto simp: ctx_ok_def binds_before_def split: pending.splits)

definition reads :: "nat \<Rightarrow> expr \<Rightarrow> tok list \<Rightarrow> bool" where
  "reads p e xs \<longleftrightarrow> (\<forall>out ops. ctx_ok p ops \<longrightarrow>
     (\<exists>out' ops'. (\<forall>ts. parse True out ops (xs @ ts) = parse False out' ops' ts) \<and>
       (\<forall>P. closes p P \<longrightarrow> reduce P out' ops' = reduce P (e # out) ops)))"

lemma readsE:
  assumes "reads p e xs" "ctx_ok p ops"
  obtains out' ops' where "\<And>ts. parse True out ops (xs @ ts) = parse False out' ops' ts"
    and "\<And>P. closes p P \<Longrightarrow> reduce P out' ops' = reduce P (e # out) ops"
  using assms unfolding reads_def by metis

lemma reads_atom: "reads p (Constant n) [TNum n]" "reads p (Name x) [TName x]"
  by (auto simp: reads_def)

lemma reads_unary:
  assumes "reads 7 e xs"
  shows "reads p (UnaryOp u e) (un_tok u # xs)"
  unfolding reads_def
proof (intro allI impI)
  fix out ops
  obtain out' ops' where o: "\<And>ts. parse True out (PUn u # ops) (xs @ ts) = parse False out' ops' ts"
      "\<And>P. closes 7 P \<Longrightarrow> reduce P out' ops' = reduce P (e # out) (PUn u # ops)"
    using readsE [OF assms, of "PUn u # ops" out] by (auto simp: ctx_ok_def)
  have "reduce P out' ops' = reduce P (UnaryOp u e # out) ops" if "closes p P" for P
    using o(2) [OF closes_unary [OF that]] that by (simp add: closes_def apply_pending_def)
  then show "\<exists>out' ops'. (\<forall>ts. parse True out ops ((un_tok u # xs) @ ts) = parse False out' ops' ts) \<and>
      (\<forall>P. closes p P \<longrightarrow> reduce P out' ops' = reduce P (UnaryOp u e # out) ops)"
    using o(1) parse_unary by (metis append_Cons)
qed

lemma reads_binary:
  assumes l: "reads (prec b) l xs" and r: "reads (Suc (prec b)) r ys" and p: "p \<le> prec b"
  shows "reads p (BinOp l b r) (xs @ bin_tok b # ys)"
  unfolding reads_def
proof (intro allI impI)
  fix out ops assume ctx: "ctx_ok p ops"
  have ctxl: "ctx_ok (prec b) ops"
    using ctx p by (auto simp: ctx_ok_def split: list.splits pending.splits)
  obtain out1 ops1 where o1: "\<And>ts. parse True out ops (xs @ ts) = parse False out1 ops1 ts"
      "\<And>P. closes (prec b) P \<Longrightarrow> reduce P out1 ops1 = reduce P (l # out) ops"
    using readsE [OF l ctxl] by metis
  have red: "reduce (binds_before b) out1 ops1 = (l # out, ops)"
    using o1(2) [OF closes_before(1)] reduce_blocked [OF ctxl] by simp
  have step: "parse False out1 ops1 (bin_tok b # ts) = parse True (l # out) (PBin b # ops) ts" for ts
    by (simp add: red)
  obtain out2 ops2 where o2: "\<And>ts. parse True (l # out) (PBin b # ops) (ys @ ts) = parse False out2 ops2 ts"
      "\<And>P. closes (Suc (prec b)) P \<Longrightarrow> reduce P out2 ops2 = reduce P (r # l # out) (PBin b # ops)"
    using readsE [OF r, of "PBin b # ops" "l # out"] by (auto simp: ctx_ok_def)
  have "reduce P out2 ops2 = reduce P (BinOp l b r # out) ops" if "closes p P" for P
    using o2(2) [OF closes_mono [OF that]] that p by (simp add: closes_def apply_pending_def)
  then show "\<exists>out' ops'. (\<forall>ts. parse True out ops ((xs @ bin_tok b # ys) @ ts) = parse False out' ops' ts) \<and>
      (\<forall>P. closes p P \<longrightarrow> reduce P out' ops' = reduce P (BinOp l b r # out) ops)"
    using o1(1) step o2(1) by (intro exI [of _ out2] exI [of _ ops2]) simp
qed

lemma reads_paren:
  assumes "reads q e xs"
  shows "reads p e (TLpar # xs @ [TRpar])"
  unfolding reads_def
proof (intro allI impI)
  fix out ops
  obtain out' ops' where o: "\<And>ts. parse True out (PPar # ops) (xs @ ts) = parse False out' ops' ts"
      "\<And>P. closes q P \<Longrightarrow> reduce P out' ops' = reduce P (e # out) (PPar # ops)"
    using readsE [OF assms, of "PPar # ops" out] by (auto simp: ctx_ok_def)
  have "reduce no_paren out' ops' = (e # out, PPar # ops)"
    using o(2) [OF closes_before(2)] by (simp add: no_paren_def)
  then have "parse True out ops ((TLpar # xs @ [TRpar]) @ ts) = parse False (e # out) ops ts" for ts
    using o(1) [of "TRpar # ts"] by (simp add: bin_of_def)
  then show "\<exists>out' ops'. (\<forall>ts. parse True out ops ((TLpar # xs @ [TRpar]) @ ts) = parse False out' ops' ts) \<and>
      (\<forall>P. closes p P \<longrightarrow> reduce P out' ops' = reduce P (e # out) ops)"
    by blast
qed

lemma reads_toks: "reads p e (toks p e)"
proof (induction e arbitrary: p)
  case (BinOp l b r)
  have "reads q (BinOp l b r) (toks (prec b) l @ bin_tok b # toks (Suc (prec b)) r)" if "q \<le> prec b" for q
    using reads_binary BinOp that by blast
  then show ?case
    using reads_paren [of "prec b" "BinOp l b r" "toks (prec b) l @ bin_tok b # toks (Suc (prec b)) r" p]
    by (simp add: Let_def)
qed (auto simp: reads_atom reads_unary)

lemma parse_toks: "parse True [] [] (toks p e) = Inr e"
proof -
  obtain out' ops' where o: "\<And>ts. parse True [] [] (toks p e @ ts) = parse False out' ops' ts"
      "\<And>P. closes p P \<Longrightarrow> reduce P out' ops' = reduce P [e] []"
    using readsE [OF reads_toks [of p e], of "[]" "[]"] by (auto simp: ctx_ok_def)
  show ?thesis using o(1) [of "[]"] o(2) [OF closes_before(2)] by simp
qed

section \<open>Printing to text\<close>

fun bin_text :: "binop \<Rightarrow> string" where
  "bin_text Add = ''+''" | "bin_text Sub = ''-''" | "bin_text LShift = ''<<''" | "bin_text RShift = ''>>''"
| "bin_text BitOr = ''|''" | "bin_text BitAnd = ''&''" | "bin_text BitXor = ''^''" | "bin_text Mult = ''*''"
| "bin_text Div = ''/''" | "bin_text FloorDiv = ''//''" | "bin_text Mod = ''%''"

fun tok_text :: "tok \<Rightarrow> string" where
  "tok_text (TNum n) = dec_str (nat n)"
| "tok_text (TName x) = x"
| "tok_text TPlus = ''+''" | "tok_text TMinus = ''-''" | "tok_text TTilde = ''~''"
| "tok_text (TBin b) = bin_text b" | "tok_text TLpar = ''(''" | "tok_text TRpar = '')''"

definition show_expr :: "expr \<Rightarrow> string" where
  "show_expr e = py_join '' '' (map tok_text (toks 0 e))"

text \<open>Constants are not negative (a sign is an operator) and names are not keywords.\<close>

fun expr_ok :: "expr \<Rightarrow> bool" where
  "expr_ok (Constant n) \<longleftrightarrow> 0 \<le> n"
| "expr_ok (Name x) \<longleftrightarrow> is_ident x \<and> x \<notin> set py_keywords"
| "expr_ok (UnaryOp u e) \<longleftrightarrow> expr_ok e"
| "expr_ok (BinOp l b r) \<longleftrightarrow> expr_ok l \<and> expr_ok r"

fun tok_ok :: "tok \<Rightarrow> bool" where
  "tok_ok (TNum n) \<longleftrightarrow> 0 \<le> n"
| "tok_ok (TName x) \<longleftrightarrow> is_ident x \<and> x \<notin> set py_keywords"
| "tok_ok (TBin b) \<longleftrightarrow> b \<noteq> Add \<and> b \<noteq> Sub"
| "tok_ok _ \<longleftrightarrow> True"

lemma toks_ok: "expr_ok e \<Longrightarrow> list_all tok_ok (toks p e)"
proof (induction e arbitrary: p)
  case (UnaryOp u e)
  then show ?case by (cases u) simp_all
next
  case (BinOp l b r)
  then show ?case by (cases b) (simp_all add: Let_def)
qed simp_all

section \<open>Decimal numbers\<close>

lemma zero_char: "cchr 48 = CHR ''0''"
  by code_simp

lemma hex_digit_facts:
  "n < 10 \<Longrightarrow> is_digit (hex_digit n) \<and> hex_val (hex_digit n) = Some n \<and> (hex_digit n = CHR ''0'' \<longleftrightarrow> n = 0)"
proof -
  assume n: "n < 10"
  then have c: "ccode (hex_digit n) = 48 + n" by (simp add: hex_digit_def ccode_cchr)
  then have "hex_digit n = CHR ''0'' \<longleftrightarrow> n = 0"
    using n zero_char by (auto simp: ccode_def hex_digit_def)
  then show ?thesis using n c by (simp add: is_digit_def hex_val_def)
qed

lemma dec_str_nonempty [simp]: "dec_str n \<noteq> []"
  by (subst dec_str.simps) simp

lemma dec_str_digits: "list_all is_digit (dec_str n)"
proof (induction n rule: less_induct)
  case (less n)
  then show ?case by (subst dec_str.simps) (simp add: hex_digit_facts)
qed

lemma digit_value: "is_digit c \<Longrightarrow> \<exists>d < 10. hex_val c = Some d"
  by (auto simp: is_digit_def hex_val_def)

lemma digits_of_dec: "digits_of 10 (dec_str n) = Some (map (\<lambda>c. the (hex_val c)) (dec_str n))"
  using dec_str_digits [of n] digit_value by (fastforce simp: digits_of_def list_all_iff)

lemma number_of_dec: "number_of 10 (map (\<lambda>c. the (hex_val c)) (dec_str n)) = int n"
proof (induction n rule: less_induct)
  case (less n)
  show ?case
  proof (cases "n < 10")
    case True
    then show ?thesis by (subst dec_str.simps) (simp add: number_of_def hex_digit_facts)
  next
    case False
    then have "number_of 10 (map (\<lambda>c. the (hex_val c)) (dec_str (n div 10))) = int (n div 10)"
      using less by simp
    then have "number_of 10 (map (\<lambda>c. the (hex_val c)) (dec_str n)) = 10 * int (n div 10) + int (n mod 10)"
      using False by (subst dec_str.simps) (simp add: number_of_def hex_digit_facts)
    then show ?thesis by (simp add: zdiv_int zmod_int)
  qed
qed

lemma dec_str_lead: "hd (dec_str n) = CHR ''0'' \<Longrightarrow> dec_str n = ''0''"
proof (induction n rule: less_induct)
  case (less n)
  show ?case
  proof (cases "n < 10")
    case True
    then show ?thesis using less.prems by (subst (asm) dec_str.simps, subst dec_str.simps) (simp add: hex_digit_facts)
  next
    case False
    then have e: "dec_str n = dec_str (n div 10) @ [hex_digit (n mod 10)]" by (subst dec_str.simps) simp
    then have "hd (dec_str (n div 10)) = CHR ''0''" using less.prems by simp
    then have "dec_str (n div 10) = ''0''" using less.IH False by simp
    then have "int (n div 10) = 0"
      using number_of_dec [of "n div 10"] by (simp add: number_of_def hex_val_def is_digit_def ccode_def)
    then show ?thesis using False by linarith
  qed
qed

lemma num_lit_dec: "num_lit (dec_str n) = Inr (int n)"
proof -
  have nd: "y \<noteq> CHR ''x'' \<and> y \<noteq> CHR ''X'' \<and> y \<noteq> CHR ''b'' \<and> y \<noteq> CHR ''B'' \<and> y \<noteq> CHR ''o'' \<and> y \<noteq> CHR ''O''"
    if "is_digit y" for y
    using that by (intro conjI notI) (simp_all add: is_digit_def ccode_def)
  have second: "is_digit y" if "dec_str n = c # y # ys" for c y ys
    using dec_str_digits [of n] that by simp
  have "(case dec_str n of c # x # ds \<Rightarrow>
              if c = CHR ''0'' \<and> (x = CHR ''x'' \<or> x = CHR ''X'') then Some (16, ds)
              else if c = CHR ''0'' \<and> (x = CHR ''b'' \<or> x = CHR ''B'') then Some (2, ds)
              else if c = CHR ''0'' \<and> (x = CHR ''o'' \<or> x = CHR ''O'') then Some (8, ds)
              else None
          | _ \<Rightarrow> None) = (None :: (nat \<times> string) option)"
    by (simp add: nd [OF second] split: list.splits)
  then show ?thesis
    using dec_str_lead [of n] by (auto simp: num_lit_def Let_def digits_of_dec number_of_dec)
qed

section \<open>Lexing what was printed\<close>

lemma lex_blank: "lex (CHR '' '' # cs) = lex cs"
  by (subst lex.simps) (simp add: py_blank_def)

definition separated :: "string \<Rightarrow> bool" where
  "separated rest \<longleftrightarrow> rest = [] \<or> hd rest = CHR '' ''"

lemma take_drop_separated:
  assumes "list_all P cs" "separated rest" "\<not> P (CHR '' '')"
  shows "takeWhile P (cs @ rest) = cs" "dropWhile P (cs @ rest) = rest"
  using assms by (cases rest; auto simp: separated_def list_all_iff takeWhile_append dropWhile_append)+

lemma digit_chars:
  "is_digit c \<Longrightarrow> word_char c" "is_digit c \<Longrightarrow> \<not> py_blank c" "ident_start c \<Longrightarrow> \<not> py_blank c"
  "ident_start c \<Longrightarrow> \<not> is_digit c" "\<not> word_char (CHR '' '')" "\<not> ident_char (CHR '' '')"
  by (auto simp: word_char_def char_class_defs py_blank_def ccode_def)

lemma lex_number:
  assumes "separated rest"
  shows "lex (dec_str n @ rest) = bindE (lex rest) (\<lambda>ts. Inr (TNum (int n) # ts))"
proof -
  obtain c cs where c: "dec_str n = c # cs" by (cases "dec_str n") simp_all
  then have d: "is_digit c" "list_all word_char cs"
    using dec_str_digits [of n] by (auto simp: list_all_iff digit_chars)
  have "num_lit (c # cs) = Inr (int n)" using num_lit_dec [of n] c by simp
  then show ?thesis
    using d take_drop_separated [OF d(2) assms digit_chars(5)]
    by (subst lex.simps) (simp add: c digit_chars)
qed

lemma lex_name:
  assumes "separated rest" "is_ident x" "x \<notin> set py_keywords"
  shows "lex (x @ rest) = bindE (lex rest) (\<lambda>ts. Inr (TName x # ts))"
proof -
  obtain c cs where c: "x = c # cs" "ident_start c" "list_all ident_char cs"
    using assms(2) by (auto simp: is_ident_def split: list.splits)
  have "''True'' \<in> set py_keywords" "''False'' \<in> set py_keywords" by (simp_all add: py_keywords_def)
  then have "name_tok (c # cs) = Inr (TName x)"
    using assms(3) c(1) by (auto simp: name_tok_def)
  then show ?thesis
    using c(2) take_drop_separated [OF c(3) assms(1) digit_chars(6)]
    by (subst lex.simps) (simp add: c(1) digit_chars)
qed

lemma op_chars:
  "list_all (\<lambda>c. \<not> py_blank c \<and> \<not> is_digit c \<and> \<not> ident_start c) ''+-~|&^*/%()<>''"
  by code_simp

lemma lex_op:
  assumes "separated rest" "tok_ok t" "\<forall>n. t \<noteq> TNum n" "\<forall>x. t \<noteq> TName x"
  shows "lex (tok_text t @ rest) = bindE (lex rest) (\<lambda>ts. Inr (t # ts))"
proof -
  have "op_tok (tok_text t @ rest) = Inr (t, rest)"
  proof (cases t)
    case (TBin b)
    then show ?thesis
      using assms(1,2) by (cases rest; cases b) (simp_all add: op_tok_def separated_def numeral_2_eq_2)
  qed (use assms(3,4) in \<open>simp_all add: op_tok_def\<close>)
  moreover obtain c cs where c: "tok_text t = c # cs" "c \<in> set ''+-~|&^*/%()<>''"
  proof (cases t)
    case (TBin b)
    then show ?thesis using that by (cases b) simp_all
  qed (use assms(3,4) that in simp_all)
  moreover have "\<not> py_blank c \<and> \<not> is_digit c \<and> \<not> ident_start c"
    using op_chars c(2) unfolding list_all_iff by blast
  ultimately show ?thesis by (subst lex.simps) (simp add: c(1))
qed

lemma lex_tok:
  assumes "separated rest" "tok_ok t"
  shows "lex (tok_text t @ rest) = bindE (lex rest) (\<lambda>ts. Inr (t # ts))"
proof (cases t)
  case (TNum n)
  then show ?thesis using assms lex_number [of rest "nat n"] by simp
next
  case (TName x)
  then show ?thesis using assms lex_name by simp
qed (use assms lex_op [of rest t] in simp_all)

lemma lex_join: "list_all tok_ok ts \<Longrightarrow> lex (py_join '' '' (map tok_text ts)) = Inr ts"
proof (induction ts rule: induct_list012)
  case 1
  then show ?case by (simp add: lex.simps)
next
  case (2 t)
  then show ?case using lex_tok [of "[]" t] by (simp add: separated_def lex.simps [of "[]"])
next
  case (3 t u ts)
  let ?rest = "py_join '' '' (map tok_text (u # ts))"
  have "lex (tok_text t @ '' '' @ ?rest) = bindE (lex ('' '' @ ?rest)) (\<lambda>us. Inr (t # us))"
    using 3 by (intro lex_tok) (simp_all add: separated_def)
  then show ?case using 3 by (simp add: lex_blank)
qed

section \<open>The text of an expression\<close>

lemma tok_text_ends:
  assumes "tok_ok t"
  shows "tok_text t \<noteq> [] \<and> \<not> py_space (hd (tok_text t)) \<and> \<not> py_space (last (tok_text t)) \<and>
    \<not> is_quote (hd (tok_text t))"
proof -
  have w: "\<not> py_space c \<and> \<not> is_quote c" if "word_char c" for c
    using that by (auto simp: word_char_def char_class_defs is_quote_def dquote_def squote_def ccode_def)
  have all: "xs \<noteq> [] \<Longrightarrow> list_all word_char xs \<Longrightarrow> ?thesis" if "tok_text t = xs" for xs
    using that w by (simp add: list_all_iff)
  show ?thesis
  proof (cases t)
    case (TNum n)
    have "list_all word_char (dec_str (nat n))"
      using dec_str_digits [of "nat n"] by (auto simp: list_all_iff digit_chars)
    then show ?thesis using all TNum by simp
  next
    case (TName x)
    then have "x \<noteq> [] \<and> list_all word_char x"
      using assms by (auto simp: is_ident_def word_char_def ident_char_def list_all_iff split: list.splits)
    then show ?thesis using all TName by simp
  next
    case (TBin b)
    then show ?thesis by (cases b) (simp_all add: py_space_def is_quote_def ccode_def dquote_def squote_def)
  qed (simp_all add: py_space_def is_quote_def ccode_def dquote_def squote_def)
qed

lemma join_ends:
  assumes "ts \<noteq> []" "list_all tok_ok ts"
  shows "py_join '' '' (map tok_text ts) \<noteq> [] \<and>
    hd (py_join '' '' (map tok_text ts)) = hd (tok_text (hd ts)) \<and>
    last (py_join '' '' (map tok_text ts)) = last (tok_text (last ts))"
  using assms
proof (induction ts rule: induct_list012)
  case (3 t u ts)
  then show ?case using tok_text_ends [of t] by (simp add: hd_append)
qed (use tok_text_ends in simp_all)

lemma toks_nonempty [simp]: "toks p e \<noteq> []"
  by (cases e) (simp_all add: Let_def)



end
