(* ===== verification/FuzzConfig.thy ===== *)
theory FuzzConfig
  imports PyText
begin

text \<open>
  The configuration logic of the differential fuzzer \<open>tools/riscc_fuzz.py\<close>: the profile
  table behind a configuration name, which pairs of family and core can be traced or
  interrupted, the simulator's command line, and how \<open>build_tb\<close> chooses a core's design.
\<close>

section \<open>Errors and constants\<close>

datatype py_error = ValueError string | RuntimeError string | IndexError | KeyError int
  | MissingKey string | CalledProcessError int

type_synonym 'a py = "(py_error, 'a) result"

definition WIN :: int where "WIN = 0xFC00"
definition WIN_WORDS :: int where "WIN_WORDS = 32"
definition NANO_SCRATCH :: int where "NANO_SCRATCH = 0xFB00"
definition TEST_IRQ :: int where "TEST_IRQ = 0xFFFA"
definition RESULT :: int where "RESULT = 0xFFFE"
definition IRQ_MARKER :: int where "IRQ_MARKER = 0x7EF0"
definition FAILBASE :: int where "FAILBASE = 0x0B00"

definition RC32_WIDTHS :: "int list" where "RC32_WIDTHS = [1, 2, 4, 8, 16]"
definition SERIAL16_WIDTHS :: "int list" where "SERIAL16_WIDTHS = [1, 2, 4, 8]"

definition RC16_CONFIGS :: "string list" where
  "RC16_CONFIGS = [''min'', ''sys'', ''full'', ''full-mulh'', ''full-muldiv'']"

section \<open>Strings\<close>

definition before_dash :: "string \<Rightarrow> string" where
  "before_dash s = takeWhile (\<lambda>c. c \<noteq> CHR ''-'') s"

definition after_dash :: "string \<Rightarrow> string" where
  "after_dash s = drop 1 (dropWhile (\<lambda>c. c \<noteq> CHR ''-'') s)"

text \<open>\<open>p in s\<close> for strings.\<close>

fun py_in :: "string \<Rightarrow> string \<Rightarrow> bool" where
  "py_in p [] \<longleftrightarrow> p = []"
| "py_in p (c # cs) \<longleftrightarrow> startswith (c # cs) p \<or> py_in p cs"

lemma py_in_append: "py_in p s \<Longrightarrow> py_in p (t @ s)"
  by (induction t) simp_all

lemma py_in_prefix: "py_in p (p @ s)"
proof (cases "p @ s")
  case (Cons a list)
  then have "take (length p) (a # list) = p" by (metis append_eq_conv_conj)
  then show ?thesis by (simp add: Cons startswith_def)
qed simp

text \<open>
  \<open>str.splitlines\<close>: lines end at a line feed, a carriage return (with a line feed after it or
  not), a vertical tab, a form feed or one of the three separators.
\<close>

definition line_end :: "char \<Rightarrow> bool" where
  "line_end c \<longleftrightarrow> (10 \<le> ccode c \<and> ccode c \<le> 13) \<or> (28 \<le> ccode c \<and> ccode c \<le> 30)"

lemma line_end_code [code]:
  "line_end c \<longleftrightarrow> c \<in> set [CHR 0x0A, CHR 0x0B, CHR 0x0C, CHR 0x0D, CHR 0x1C, CHR 0x1D, CHR 0x1E]"
proof -
  have chars: "[CHR 0x0A, CHR 0x0B, CHR 0x0C, CHR 0x0D, CHR 0x1C, CHR 0x1D, CHR 0x1E]
      = map cchr [10, 11, 12, 13, 28, 29, 30]" by code_simp
  have codes: "n \<in> set [10, 11, 12, 13, 28, 29, 30] \<longleftrightarrow> (10 \<le> n \<and> n \<le> 13) \<or> (28 \<le> n \<and> n \<le> 30)"
    for n :: nat by (simp, presburger)
  have "c \<in> set (map cchr [10, 11, 12, 13, 28, 29, 30]) \<longleftrightarrow> ccode c \<in> set [10, 11, 12, 13, 28, 29, 30]"
    by (rule char_codes_member) simp
  then show ?thesis unfolding line_end_def chars codes by blast
qed

fun splitlines_acc :: "string \<Rightarrow> string \<Rightarrow> string list" where
  "splitlines_acc cur [] = (if cur = [] then [] else [cur])"
| "splitlines_acc cur (c # cs) =
     (if c = CHR 0x0D \<and> cs \<noteq> [] \<and> hd cs = CHR 0x0A then splitlines_acc cur cs
      else if line_end c then cur # splitlines_acc [] cs
      else splitlines_acc (cur @ [c]) cs)"

definition splitlines :: "string \<Rightarrow> string list" where
  "splitlines s = splitlines_acc [] s"

section \<open>Configurations\<close>

record config =
  cf_profile :: string
  cf_sys :: bool
  cf_shifts :: bool
  cf_long_calls :: bool
  cf_full :: bool
  cf_mulhu :: bool
  cf_divu :: bool
  cf_mdu :: bool

definition parse_config :: "string \<Rightarrow> config py" where
  "parse_config config =
     (if config \<notin> set RC16_CONFIGS then Inl (ValueError (''unknown config: '' @ config))
      else
        let profile = before_dash config; extension = after_dash config in
        Inr \<lparr>cf_profile = profile, cf_sys = (profile \<noteq> ''min''), cf_shifts = (profile = ''full''),
          cf_long_calls = (profile \<in> {''sys'', ''full''}), cf_full = (profile = ''full''),
          cf_mulhu = (extension \<in> {''mulh'', ''muldiv''}), cf_divu = (extension = ''muldiv''),
          cf_mdu = (extension \<noteq> [])\<rparr>)"

definition trace_supported :: "string \<Rightarrow> string \<Rightarrow> bool" where
  "trace_supported family core =
     (if core \<in> {''wide16'', ''wide32''}
      then (family, core) \<in> {(''rc16'', ''wide16''), (''rc32'', ''wide32'')}
      else
        (family = ''nano'' \<and> core = ''nano'') \<or>
        (family = ''rc16'' \<and> core \<in> {''rc16-1'', ''rc16-2'', ''rc16-4'', ''rc16-8'', ''rc16-16'',
           ''rc16-mulh'', ''rc16-muldiv''} \<or>
         family = ''rc16'' \<and> core \<in> set (map (\<lambda>w. ''serial16-'' @ fmt_d w) SERIAL16_WIDTHS)) \<or>
        (family = ''rc32'' \<and> core \<in> set (map (\<lambda>w. ''rc32-'' @ fmt_d w) RC32_WIDTHS) \<or>
         family = ''rc32'' \<and> core \<in> set (map (\<lambda>w. ''serial32-'' @ fmt_d w) RC32_WIDTHS)))"

definition interrupt_supported :: "string \<Rightarrow> string \<Rightarrow> bool py" where
  "interrupt_supported family config =
     (if family = ''rc32'' then Inr (config \<noteq> ''min'')
      else if family \<in> {''rc16'', ''fast''} then bindE (parse_config config) (\<lambda>cfg. Inr (cf_sys cfg))
      else Inr False)"

definition sim_base_args :: "string \<Rightarrow> string \<Rightarrow> string \<Rightarrow> string \<Rightarrow> string list py" where
  "sim_base_args family config img fast_iss =
     (if family = ''rc32'' then
        let rc32_flag = (if config = ''min'' then ''--rc32'' else if config = ''sys'' then ''--rc32-sys''
                         else ''--rc32-full'')
        in Inr ([fast_iss, img, rc32_flag] @ (if CHR ''-'' \<in> set config then [''--mdu''] else []))
      else if family = ''nano'' then Inr [fast_iss, img, ''--nano'']
      else
        bindE (parse_config config) (\<lambda>cfg.
          Inr ([fast_iss, img] @ (if \<not> cf_sys cfg then [''--min''] else []) @
               (if cf_full cfg then [''--full''] else []) @ (if cf_mdu cfg then [''--mdu''] else []))))"

end
