(* ===== verification/Checksum.thy ===== *)
theory Checksum
  imports Prelude
begin

text \<open>
  \<open>zlib.crc32\<close>, which the fuzzer takes of a core's name and the simulator of a chunk of a PNG
  file: the reflected CRC with polynomial 0xEDB88320, one bit at a time, with the initial value
  and the final complement.
\<close>

fun crc_bits :: "nat \<Rightarrow> int \<Rightarrow> int" where
  "crc_bits 0 c = c"
| "crc_bits (Suc n) c =
     crc_bits n (if c AND 1 \<noteq> 0 then drop_bit 1 c XOR 0xEDB88320 else drop_bit 1 c)"

definition crc32 :: "int list \<Rightarrow> int" where
  "crc32 bytes = foldl (\<lambda>c b. crc_bits 8 (c XOR b)) 0xFFFFFFFF bytes XOR 0xFFFFFFFF"

lemma fits_crc_bits: "fits 32 c \<Longrightarrow> fits 32 (crc_bits n c)"
proof (induction n arbitrary: c)
  case (Suc n)
  have "fits 32 (drop_bit 1 c)" using Suc.prems by (auto simp: fits_def drop_bit_div)
  then have "fits 32 (if c AND 1 \<noteq> 0 then drop_bit 1 c XOR 0xEDB88320 else drop_bit 1 c)"
    by (auto intro!: fits_xor simp: fits_def [of 32 3988292384])
  then show ?case using Suc.IH by simp
qed simp

lemma fits_crc32: "list_all (fits 8) bytes \<Longrightarrow> fits 32 (crc32 bytes)"
proof -
  have "fits 32 (foldl (\<lambda>c b. crc_bits 8 (c XOR b)) c bytes)" if "list_all (fits 8) bytes" "fits 32 c" for c
    using that
  proof (induction bytes arbitrary: c)
    case (Cons b bytes)
    then have "fits 32 (crc_bits 8 (c XOR b))"
      by (intro fits_crc_bits fits_xor) (auto intro: fits_mono [of 8])
    then show ?case using Cons by simp
  qed simp
  moreover have "fits 32 0xFFFFFFFF" by (simp add: fits_def)
  ultimately show "list_all (fits 8) bytes \<Longrightarrow> fits 32 (crc32 bytes)"
    unfolding crc32_def by (intro fits_xor) auto
qed

end
