(* ===== verification/FuzzCompare.thy ===== *)
theory FuzzCompare
  imports FuzzConfig AsmExpr Checksum
begin

text \<open>
  The verdicts of the differential fuzzer: \<open>compare_trace\<close> and \<open>compare_final_state\<close> of
  \<open>tools/riscc_fuzz.py\<close>. A \<open>subprocess.run\<close> is the parameter \<open>exec\<close>, from an argument list to
  the exit status and the two output texts; the choice of the interrupt cycle by the seeded
  generator is the parameter \<open>pick\<close>; the path of the C++ simulator is \<open>fast_iss\<close>. The
  functions return the verdict, the message and the two outputs.
\<close>

record proc =
  p_returncode :: int
  p_stdout :: string
  p_stderr :: string

type_synonym exec = "string list \<Rightarrow> proc"

type_synonym verdict = "bool \<times> string \<times> string \<times> string"

section \<open>Outputs\<close>

definition trace_lines :: "string \<Rightarrow> string list" where
  "trace_lines output = filter (\<lambda>line. startswith line ''TRACE '') (splitlines output)"

definition memory_lines :: "string \<Rightarrow> string list" where
  "memory_lines output = filter (\<lambda>line. startswith line ''MEM '') (splitlines output)"

text \<open>The search for \<open>MARKER cycle=(\d+)\<close>: the first place where it matches.\<close>

definition marker_here :: "string \<Rightarrow> int option" where
  "marker_here s =
     (let ds = takeWhile is_digit (drop (length ''MARKER cycle='') s) in
      if startswith s ''MARKER cycle='' \<and> ds \<noteq> []
      then Some (number_of 10 (map (\<lambda>c. ccode c - 48) ds)) else None)"

fun find_marker :: "string \<Rightarrow> int option" where
  "find_marker [] = None"
| "find_marker (c # cs) =
     (case marker_here (c # cs) of Some n \<Rightarrow> Some n | None \<Rightarrow> find_marker cs)"

text \<open>The first index below \<open>limit\<close> at which two lists differ: the comparison loops.\<close>

definition first_diff :: "nat \<Rightarrow> string list \<Rightarrow> string list \<Rightarrow> nat option" where
  "first_diff limit xs ys = find (\<lambda>i. xs ! i \<noteq> ys ! i) [0..<limit]"

text \<open>
  The loop over the common part and the length check, as the message of the mismatch if any.
  The wording differs between traces and memory.
\<close>

definition list_mismatch :: "string \<Rightarrow> string \<Rightarrow> string list \<Rightarrow> string list \<Rightarrow> string option" where
  "list_mismatch what len_what iss rtl =
     (let limit = min (length iss) (length rtl) in
      case first_diff limit iss rtl of
        Some idx \<Rightarrow>
          Some (what @ fmt_d (int idx) @ ''\<newline>  ISS: '' @ iss ! idx @ ''\<newline>  RTL: '' @ rtl ! idx)
      | None \<Rightarrow>
          if length iss \<noteq> length rtl then
            Some (len_what @ fmt_d (int (length iss)) @ '' RTL='' @ fmt_d (int (length rtl)) @
              (if limit < length iss then ''\<newline>  next ISS: '' @ iss ! limit else []) @
              (if limit < length rtl then ''\<newline>  next RTL: '' @ rtl ! limit else []))
          else None)"

text \<open>\<open>stdout.strip().splitlines()[-1] if stdout else "?"\<close>.\<close>

definition last_line :: "string \<Rightarrow> string py" where
  "last_line stdout =
     (if stdout = [] then Inr ''?''
      else (case splitlines (py_strip stdout) of
              [] \<Rightarrow> Inl IndexError
            | ls \<Rightarrow> Inr (last ls)))"

text \<open>The detail of a final-memory mismatch after the external interrupt.\<close>

definition memory_detail :: "string \<Rightarrow> string list \<Rightarrow> string list \<Rightarrow> string" where
  "memory_detail head iss_mem rtl_mem =
     (let limit = min (length iss_mem) (length rtl_mem);
          mismatch = (case first_diff limit iss_mem rtl_mem of Some i \<Rightarrow> i | None \<Rightarrow> limit) in
      head @
      (if mismatch < limit then ''\<newline>  ISS: '' @ iss_mem ! mismatch @ ''\<newline>  RTL: '' @ rtl_mem ! mismatch
       else '' (ISS='' @ fmt_d (int (length iss_mem)) @ '' words RTL='' @
            fmt_d (int (length rtl_mem)) @ '' words)''))"

section \<open>The external interrupt run\<close>

definition irq_seed :: "int \<Rightarrow> string \<Rightarrow> int" where
  "irq_seed seed core = (seed XOR crc32 (map (\<lambda>c. int (ccode c)) core)) XOR 0x1A2B3C4D"

definition stall_args :: "string \<Rightarrow> int \<Rightarrow> string list" where
  "stall_args family seed =
     (if family \<in> {''rc16'', ''rc32'', ''nano''} then [''--mem-stall-seed'', fmt_d seed] else [])"

definition marker_args :: "bool \<Rightarrow> string list" where
  "marker_args irq = (if irq then [''--report-write'', ''0x'' @ fmt_04X IRQ_MARKER] else [])"

definition pass_detail :: "int option \<Rightarrow> string" where
  "pass_detail irq_cycle =
     (case irq_cycle of
        Some c \<Rightarrow> ''PASS external IRQ at cycle '' @ fmt_d c
      | None \<Rightarrow> ''PASS'')"

section \<open>Trace comparison\<close>

definition trace_irq_phase ::
  "exec \<Rightarrow> (int \<Rightarrow> int \<Rightarrow> int \<Rightarrow> int) \<Rightarrow> string \<Rightarrow> string \<Rightarrow> int \<Rightarrow> string \<Rightarrow> string \<Rightarrow> string \<Rightarrow> proc \<Rightarrow> verdict"
where
  "trace_irq_phase exec pick core family seed img tb iss_output rtl_run =
     (case find_marker (p_stdout rtl_run) of
        None \<Rightarrow> (False, ''RTL did not report the IRQ body marker'', iss_output, p_stdout rtl_run)
      | Some marker_cycle \<Rightarrow>
          let low_cycle = max 5 (marker_cycle div 20); high_cycle = marker_cycle - 1 in
          if high_cycle < low_cycle then
            (False, ''IRQ body marker is too early at cycle '' @ fmt_d marker_cycle,
             iss_output, p_stdout rtl_run)
          else
            let irq_cycle = pick (irq_seed seed core) low_cycle high_cycle;
                irq_run = exec ([tb, img, ''--dump-written'', ''--max-cycles'', ''400000'',
                  ''--irq-at'', fmt_d irq_cycle] @ stall_args family seed) in
            if p_returncode irq_run \<noteq> 0 then
              (False, ''external IRQ failed at cycle '' @ fmt_d irq_cycle, iss_output,
               p_stdout irq_run @ p_stderr irq_run)
            else
              let irq_mem = memory_lines (p_stdout irq_run); iss_mem = memory_lines iss_output in
              if irq_mem \<noteq> iss_mem then
                (False, memory_detail (''external IRQ final memory mismatch at cycle '' @ fmt_d irq_cycle)
                   iss_mem irq_mem, iss_output, p_stdout irq_run)
              else (True, pass_detail (Some irq_cycle), iss_output, p_stdout rtl_run))"

definition compare_trace ::
  "exec \<Rightarrow> (int \<Rightarrow> int \<Rightarrow> int \<Rightarrow> int) \<Rightarrow> string \<Rightarrow> string \<Rightarrow> string \<Rightarrow> string \<Rightarrow> int \<Rightarrow> string \<Rightarrow> string \<Rightarrow> verdict py"
where
  "compare_trace exec pick fast_iss core family config seed img tb =
     bindE (sim_base_args family config img fast_iss) (\<lambda>args.
     let iss_run = exec (args @ [''--trace'', ''--dump-written'']) in
     bindE (interrupt_supported family config) (\<lambda>irq.
     let rtl_run = exec ([tb, img, ''--trace'', ''--dump-written'', ''--max-cycles'', ''400000''] @
           marker_args irq @ stall_args family seed);
         iss_output = p_stdout iss_run @ p_stderr iss_run;
         iss_trace = trace_lines iss_output; rtl_trace = trace_lines (p_stdout rtl_run);
         iss_mem = memory_lines iss_output; rtl_mem = memory_lines (p_stdout rtl_run);
         fail = (\<lambda>msg. Inr (False, msg, iss_output, p_stdout rtl_run)) in
     if p_returncode iss_run \<noteq> 0 then fail ''ISS trace failed''
     else if p_returncode rtl_run \<noteq> 0 then fail ''RTL trace failed''
     else (case list_mismatch ''trace mismatch at step '' ''trace length mismatch ISS='' iss_trace rtl_trace of
        Some msg \<Rightarrow> fail msg
      | None \<Rightarrow>
          (case list_mismatch ''final memory mismatch at written word ''
              ''written-memory length mismatch ISS='' iss_mem rtl_mem of
             Some msg \<Rightarrow> fail msg
           | None \<Rightarrow>
               bindE (last_line (p_stdout rtl_run)) (\<lambda>last.
               if \<not> py_in ''PASS'' last then fail (''RTL self-check failed: '' @ last)
               else if irq then
                 Inr (trace_irq_phase exec pick core family seed img tb iss_output rtl_run)
               else Inr (True, pass_detail None, iss_output, p_stdout rtl_run))))))"

section \<open>Final-state comparison\<close>

definition state_irq_phase ::
  "exec \<Rightarrow> (int \<Rightarrow> int \<Rightarrow> int \<Rightarrow> int) \<Rightarrow> string \<Rightarrow> int \<Rightarrow> string \<Rightarrow> string \<Rightarrow> string \<Rightarrow> proc \<Rightarrow> verdict"
where
  "state_irq_phase exec pick core seed img tb iss_output rtl_run =
     (case find_marker (p_stdout rtl_run) of
        None \<Rightarrow> (False, ''RTL did not report the IRQ body marker'', iss_output, p_stdout rtl_run)
      | Some marker_cycle \<Rightarrow>
          let low_cycle = max 5 (marker_cycle div 20) in
          if marker_cycle - 1 < low_cycle then
            (False, ''IRQ body marker is too early at cycle '' @ fmt_d marker_cycle,
             iss_output, p_stdout rtl_run)
          else
            let irq_cycle = pick (irq_seed seed core) low_cycle (marker_cycle - 1);
                irq_run = exec [tb, img, ''--dump-written'', ''--max-cycles'', ''400000'',
                  ''--irq-at'', fmt_d irq_cycle, ''--mem-stall-seed'', fmt_d seed] in
            if p_returncode irq_run \<noteq> 0 then
              (False, ''external IRQ failed at cycle '' @ fmt_d irq_cycle, iss_output,
               p_stdout irq_run @ p_stderr irq_run)
            else if memory_lines (p_stdout irq_run) \<noteq> memory_lines iss_output then
              (False, ''external IRQ final memory mismatch at cycle '' @ fmt_d irq_cycle,
               iss_output, p_stdout irq_run)
            else (True, pass_detail (Some irq_cycle), iss_output, p_stdout rtl_run))"

definition compare_final_state ::
  "exec \<Rightarrow> (int \<Rightarrow> int \<Rightarrow> int \<Rightarrow> int) \<Rightarrow> string \<Rightarrow> string \<Rightarrow> string \<Rightarrow> string \<Rightarrow> int \<Rightarrow> string \<Rightarrow> string \<Rightarrow> verdict py"
where
  "compare_final_state exec pick fast_iss core family config seed img tb =
     bindE (sim_base_args family config img fast_iss) (\<lambda>args.
     let iss_run = exec (args @ [''--dump-written'']) in
     bindE (interrupt_supported family config) (\<lambda>irq.
     let rtl_run = exec ([tb, img, ''--dump-written'', ''--max-cycles'', ''400000'',
           ''--mem-stall-seed'', fmt_d seed] @ marker_args irq);
         iss_output = p_stdout iss_run @ p_stderr iss_run;
         iss_mem = memory_lines iss_output; rtl_mem = memory_lines (p_stdout rtl_run);
         fail = (\<lambda>msg. Inr (False, msg, iss_output, p_stdout rtl_run)) in
     if p_returncode iss_run \<noteq> 0 then fail ''ISS final-state run failed''
     else if p_returncode rtl_run \<noteq> 0 then fail ''RTL final-state run failed''
     else if iss_mem \<noteq> rtl_mem then fail (memory_detail ''final memory mismatch'' iss_mem rtl_mem)
     else
       bindE (last_line (p_stdout rtl_run)) (\<lambda>last.
       if \<not> py_in ''PASS'' last then fail (''RTL self-check failed: '' @ last)
       else if irq then Inr (state_irq_phase exec pick core seed img tb iss_output rtl_run)
       else Inr (True, pass_detail None, iss_output, p_stdout rtl_run))))"

section \<open>Facts\<close>

lemma first_diff_None: "first_diff n xs ys = None \<longleftrightarrow> (\<forall>i < n. xs ! i = ys ! i)"
  by (auto simp: first_diff_def find_None_iff)

lemma first_diff_Some: "first_diff n xs ys = Some i \<Longrightarrow> xs ! i \<noteq> ys ! i"
  by (auto simp: first_diff_def find_Some_iff)

lemma list_mismatch_None: "list_mismatch what len_what xs ys = None \<longleftrightarrow> xs = ys"
proof (cases "first_diff (min (length xs) (length ys)) xs ys")
  case None
  then have "length xs = length ys \<longleftrightarrow> xs = ys"
    by (auto simp: first_diff_None intro: nth_equalityI)
  then show ?thesis unfolding list_mismatch_def Let_def None by simp
next
  case (Some i)
  then have "xs \<noteq> ys" by (auto dest: first_diff_Some)
  then show ?thesis unfolding list_mismatch_def Let_def Some by simp
qed

section \<open>What a passing verdict means\<close>

text \<open>The marker's cycle leaves room for an interrupt and the interrupted run agrees.\<close>

definition irq_agrees :: "exec \<Rightarrow> (int \<Rightarrow> int \<Rightarrow> int \<Rightarrow> int) \<Rightarrow> string \<Rightarrow> int \<Rightarrow> string list \<Rightarrow> string list \<Rightarrow>
    string \<Rightarrow> string \<Rightarrow> bool" where
  "irq_agrees exec pick core seed args_before args_after iss_output rtl_stdout \<longleftrightarrow>
     (\<exists>c. find_marker rtl_stdout = Some c \<and> max 5 (c div 20) \<le> c - 1 \<and>
       (let run = exec (args_before @ [fmt_d (pick (irq_seed seed core) (max 5 (c div 20)) (c - 1))] @ args_after)
        in p_returncode run = 0 \<and> memory_lines (p_stdout run) = memory_lines iss_output))"

abbreviation irq_args :: "string \<Rightarrow> string \<Rightarrow> string list" where
  "irq_args img tb \<equiv> [tb, img, ''--dump-written'', ''--max-cycles'', ''400000'', ''--irq-at'']"

lemma trace_irq_phase_passes:
  "fst (trace_irq_phase exec pick core family seed img tb out rtl) \<longleftrightarrow>
   irq_agrees exec pick core seed (irq_args img tb) (stall_args family seed) out (p_stdout rtl)"
proof (cases "find_marker (p_stdout rtl)")
  case (Some c)
  define lo where "lo = max 5 (c div 20)"
  show ?thesis
    unfolding trace_irq_phase_def irq_agrees_def Let_def Some option.case lo_def [symmetric]
    by (simp add: lo_def [symmetric] not_less [symmetric])
qed (simp add: trace_irq_phase_def irq_agrees_def)

lemma state_irq_phase_passes:
  "fst (state_irq_phase exec pick core seed img tb out rtl) \<longleftrightarrow>
   irq_agrees exec pick core seed (irq_args img tb) [''--mem-stall-seed'', fmt_d seed] out (p_stdout rtl)"
proof (cases "find_marker (p_stdout rtl)")
  case (Some c)
  define lo where "lo = max 5 (c div 20)"
  show ?thesis
    unfolding state_irq_phase_def irq_agrees_def Let_def Some option.case lo_def [symmetric]
    by (simp add: lo_def [symmetric] not_less [symmetric])
qed (simp add: state_irq_phase_def irq_agrees_def)

end
