(* ===== verification/FuzzProps.thy ===== *)
theory FuzzProps
  imports FuzzCompare
begin

text \<open>
  Properties of the fuzzer's verdicts: a comparison passes exactly when everything it is
  meant to compare agrees.
\<close>

lemma pass_bind:
  "(\<exists>d out r. bindE m f = Inr (True, d, out, r)) \<longleftrightarrow> (\<exists>x. m = Inr x \<and> (\<exists>d out r. f x = Inr (True, d, out, r)))"
  by (cases m) simp_all

lemma pass_fst: "(\<exists>d out r. Inr v = (Inr (True, d, out, r) :: verdict py)) \<longleftrightarrow> fst v"
  by (cases v) auto

lemma pass_simps:
  "(\<exists>d out r. (Inr (False, msg, a, b) :: verdict py) = Inr (True, d, out, r)) \<longleftrightarrow> False"
  "(\<exists>d out r. (Inr (True, msg, a, b) :: verdict py) = Inr (True, d, out, r)) \<longleftrightarrow> True"
  by simp_all

lemma pass_if:
  "(\<exists>d out r. (if c then (a :: verdict py) else b) = Inr (True, d, out, r)) \<longleftrightarrow>
   (if c then \<exists>d out r. a = Inr (True, d, out, r) else \<exists>d out r. b = Inr (True, d, out, r))"
  by simp

lemma pass_option:
  "(\<exists>d out r. (case x of None \<Rightarrow> (a :: verdict py) | Some y \<Rightarrow> g y) = Inr (True, d, out, r)) \<longleftrightarrow>
   (case x of None \<Rightarrow> \<exists>d out r. a = Inr (True, d, out, r) | Some y \<Rightarrow> \<exists>d out r. g y = Inr (True, d, out, r))"
  by (cases x) simp_all

lemmas pass_rules = pass_bind pass_if pass_option pass_simps pass_fst

lemma if_fail: "(if P then False else Q) \<longleftrightarrow> \<not> P \<and> Q"
  by simp

text \<open>The end of both comparisons: the self-check line, then the interrupt phase if there is one.\<close>

lemma pass_tail:
  "(\<exists>l. L l \<and> Q l \<and> (if irq then A else True)) \<longleftrightarrow> (\<exists>l. L l \<and> Q l) \<and> (irq \<longrightarrow> A)"
  by auto

definition self_check_passed :: "string \<Rightarrow> bool" where
  "self_check_passed stdout \<longleftrightarrow> (\<exists>l. last_line stdout = Inr l \<and> py_in ''PASS'' l)"

text \<open>
  C27: the trace comparison passes exactly when both runs exit with status zero, their
  retirement traces are equal line by line, the memory words they report are equal, the RTL's
  last line says PASS and, for a configuration with interrupts, the run with an interrupt
  before the marker ends with the simulator's memory.
\<close>

theorem trace_verdict:
  "(\<exists>d out r. compare_trace exec pick fast_iss core family config seed img tb = Inr (True, d, out, r)) \<longleftrightarrow>
   (\<exists>args irq. sim_base_args family config img fast_iss = Inr args \<and>
      interrupt_supported family config = Inr irq \<and>
      (let iss = exec (args @ [''--trace'', ''--dump-written'']);
           rtl = exec ([tb, img, ''--trace'', ''--dump-written'', ''--max-cycles'', ''400000''] @
                   marker_args irq @ stall_args family seed);
           out = p_stdout iss @ p_stderr iss in
       p_returncode iss = 0 \<and> p_returncode rtl = 0 \<and>
       trace_lines out = trace_lines (p_stdout rtl) \<and>
       memory_lines out = memory_lines (p_stdout rtl) \<and>
       self_check_passed (p_stdout rtl) \<and>
       (irq \<longrightarrow> irq_agrees exec pick core seed (irq_args img tb) (stall_args family seed) out (p_stdout rtl))))"
proof -
  have none: "(case list_mismatch a b xs ys of None \<Rightarrow> P | Some y \<Rightarrow> False) \<longleftrightarrow> xs = ys \<and> P" for a b xs ys P
    by (cases "list_mismatch a b xs ys")
      (metis list_mismatch_None option.case(1), metis list_mismatch_None option.case(2) option.distinct(1))
  show ?thesis
    unfolding compare_trace_def Let_def pass_rules none self_check_passed_def trace_irq_phase_passes
      pass_tail if_fail not_not
    by (simp only: ex_simps conj_assoc)
qed

text \<open>A pair of runs that agree, for a Min configuration.\<close>

definition agreeing_runs :: exec where
  "agreeing_runs args = \<lparr>p_returncode = 0, p_stdout = ''TRACE step=0\<newline>MEM 0x7FFF 0x600D\<newline>PASS'', p_stderr = []\<rparr>"

theorem trace_verdict_witness:
  "\<exists>d out r. compare_trace agreeing_runs (\<lambda>_ lo _. lo) ''sim'' ''rc16-1'' ''rc16'' ''min'' 7 ''i'' ''tb'' =
     Inr (True, d, out, r)"
proof -
  have cfg: "interrupt_supported ''rc16'' ''min'' = Inr False"
    "sim_base_args ''rc16'' ''min'' ''i'' ''sim'' = Inr [''sim'', ''i'', ''--min'']"
    "last_line ''TRACE step=0\<newline>MEM 0x7FFF 0x600D\<newline>PASS'' = Inr ''PASS''" "py_in ''PASS'' ''PASS''"
    by code_simp+
  then have "self_check_passed ''TRACE step=0\<newline>MEM 0x7FFF 0x600D\<newline>PASS''"
    unfolding self_check_passed_def by blast
  then show ?thesis
    unfolding trace_verdict cfg agreeing_runs_def Let_def by (simp, blast)
qed

text \<open>
  The final-state comparison, used for the cores without a retirement trace, passes
  exactly when both runs exit with status zero and report the same memory words, the RTL's
  last line says PASS and, with interrupts, the interrupted run ends with the same memory.
\<close>

theorem final_state_verdict:
  "(\<exists>d out r. compare_final_state exec pick fast_iss core family config seed img tb = Inr (True, d, out, r)) \<longleftrightarrow>
   (\<exists>args irq. sim_base_args family config img fast_iss = Inr args \<and>
      interrupt_supported family config = Inr irq \<and>
      (let iss = exec (args @ [''--dump-written'']);
           rtl = exec ([tb, img, ''--dump-written'', ''--max-cycles'', ''400000'',
                   ''--mem-stall-seed'', fmt_d seed] @ marker_args irq);
           out = p_stdout iss @ p_stderr iss in
       p_returncode iss = 0 \<and> p_returncode rtl = 0 \<and>
       memory_lines out = memory_lines (p_stdout rtl) \<and>
       self_check_passed (p_stdout rtl) \<and>
       (irq \<longrightarrow> irq_agrees exec pick core seed (irq_args img tb) [''--mem-stall-seed'', fmt_d seed] out
          (p_stdout rtl))))"
  unfolding compare_final_state_def Let_def pass_rules self_check_passed_def state_irq_phase_passes
    pass_tail if_fail not_not
  by (simp only: ex_simps conj_assoc)

theorem final_state_verdict_witness:
  "\<exists>d out r. compare_final_state agreeing_runs (\<lambda>_ lo _. lo) ''sim'' ''fast-dsp'' ''rc16'' ''min'' 7 ''i'' ''tb'' =
     Inr (True, d, out, r)"
proof -
  have cfg: "interrupt_supported ''rc16'' ''min'' = Inr False"
    "sim_base_args ''rc16'' ''min'' ''i'' ''sim'' = Inr [''sim'', ''i'', ''--min'']"
    "last_line ''TRACE step=0\<newline>MEM 0x7FFF 0x600D\<newline>PASS'' = Inr ''PASS''" "py_in ''PASS'' ''PASS''"
    by code_simp+
  then have "self_check_passed ''TRACE step=0\<newline>MEM 0x7FFF 0x600D\<newline>PASS''"
    unfolding self_check_passed_def by blast
  then show ?thesis
    unfolding final_state_verdict cfg agreeing_runs_def Let_def by (simp, blast)
qed

end
