(* ===== verification/FuzzRng.thy ===== *)
theory FuzzRng
  imports FuzzConfig
begin

text \<open>
  What the program generators of \<open>tools/riscc_fuzz.py\<close> share: the random source, the state a
  generator carries, and the monad its methods run in.

  Python's \<open>random.Random(seed)\<close> is a deterministic sequence of draws per seed. The sequence is a
  parameter (\<open>rg_draws\<close>, the n-th number drawn); the methods the source calls are translated to
  their values in terms of the next draws, as the standard library defines them: \<open>randint\<close>,
  \<open>randrange\<close> and \<open>choice\<close> take one number below a bound, \<open>sample\<close> takes elements from a pool,
  \<open>random\<close> is a fraction with denominator 2^53. A statement that holds for every sequence holds
  for every seed.
\<close>

section \<open>Generator state\<close>

record rng =
  rg_draws :: "nat \<Rightarrow> int"
  rg_pos :: nat

text \<open>The mutable attributes of a generator object: \<open>self.rng\<close> and \<open>self.label\<close>.\<close>

record gst =
  gs_rng :: rng
  gs_label :: int

text \<open>
  A method of a generator: \<open>None\<close> when it does not return (the retry loop of \<open>simple_op\<close>), an
  error when it raises, otherwise its value and the new state.
\<close>

type_synonym 'a gen = "gst \<Rightarrow> (py_error, 'a \<times> gst) result option"

definition retG :: "'a \<Rightarrow> 'a gen" where
  "retG x = (\<lambda>s. Some (Inr (x, s)))"

definition bindG :: "'a gen \<Rightarrow> ('a \<Rightarrow> 'b gen) \<Rightarrow> 'b gen" where
  "bindG m f = (\<lambda>s. case m s of
       None \<Rightarrow> None
     | Some (Inl e) \<Rightarrow> Some (Inl e)
     | Some (Inr (x, s')) \<Rightarrow> f x s')"

definition raiseG :: "py_error \<Rightarrow> 'a gen" where
  "raiseG e = (\<lambda>s. Some (Inl e))"

definition liftG :: "'a py \<Rightarrow> 'a gen" where
  "liftG m = (case m of Inl e \<Rightarrow> raiseG e | Inr x \<Rightarrow> retG x)"

definition mapG :: "('a \<Rightarrow> 'b) \<Rightarrow> 'a gen \<Rightarrow> 'b gen" where
  "mapG f m = bindG m (\<lambda>x. retG (f x))"

text \<open>\<open>for _ in range(n): lines += m()\<close> and \<open>for x in xs: lines += m(x)\<close>.\<close>

fun repeatG :: "nat \<Rightarrow> 'a list gen \<Rightarrow> 'a list gen" where
  "repeatG 0 m = retG []"
| "repeatG (Suc n) m = bindG m (\<lambda>x. mapG ((@) x) (repeatG n m))"

fun concatG :: "('a \<Rightarrow> 'b list gen) \<Rightarrow> 'a list \<Rightarrow> 'b list gen" where
  "concatG f [] = retG []"
| "concatG f (x # xs) = bindG (f x) (\<lambda>ys. mapG ((@) ys) (concatG f xs))"

section \<open>Draws\<close>

definition draw :: "int gen" where
  "draw = (\<lambda>s. let r = gs_rng s in
     Some (Inr (rg_draws r (rg_pos r), s\<lparr>gs_rng := r\<lparr>rg_pos := Suc (rg_pos r)\<rparr>\<rparr>)))"

text \<open>\<open>randrange(n)\<close>: an integer below \<open>n\<close>; an empty range raises.\<close>

definition randrange :: "int \<Rightarrow> int gen" where
  "randrange n =
     (if n \<le> 0 then raiseG (ValueError ''empty range for randrange()'')
      else bindG draw (\<lambda>d. retG (d mod n)))"

definition randint :: "int \<Rightarrow> int \<Rightarrow> int gen" where
  "randint a b = bindG (randrange (b - a + 1)) (\<lambda>d. retG (a + d))"

definition getrandbits :: "nat \<Rightarrow> int gen" where
  "getrandbits k = bindG draw (\<lambda>d. retG (d mod 2 ^ k))"

definition choice :: "'a list \<Rightarrow> 'a gen" where
  "choice xs =
     (if xs = [] then raiseG IndexError
      else bindG (randrange (int (length xs))) (\<lambda>i. retG (xs ! nat i)))"

text \<open>\<open>sample(pool, k)\<close>: each element taken is replaced by the last of the pool.\<close>

fun sample :: "nat \<Rightarrow> 'a list \<Rightarrow> 'a list gen" where
  "sample 0 pool = retG []"
| "sample (Suc k) pool =
     (if pool = [] then raiseG (ValueError ''Sample larger than population or is negative'')
      else bindG (randrange (int (length pool))) (\<lambda>j.
        mapG ((#) (pool ! nat j)) (sample k (butlast (pool[nat j := last pool])))))"

text \<open>
  \<open>random()\<close> is the returned integer divided by 2^53. The source compares it with decimal
  fractions \<open>p/100\<close>, that is with the nearest floating-point number; \<open>prob p\<close> is the least
  numerator that is not below it, so \<open>random() < p/100\<close> is \<open>k < prob p\<close>. A float of [1/2, 1) is
  a multiple of 2^-53, one of [1/4, 1/2) of 2^-54.
\<close>

definition random :: "int gen" where
  "random = getrandbits 53"

definition prob :: "int \<Rightarrow> int" where
  "prob p = (if 50 \<le> p then (p * 2 ^ 54 + 100) div 200
             else - (- ((p * 2 ^ 55 + 100) div 200) div 2))"

section \<open>Attribute updates and formatting\<close>

text \<open>\<open>self.rng = random.Random(self.seed); self.label = 0\<close>.\<close>

definition reset_gen :: "(int \<Rightarrow> nat \<Rightarrow> int) \<Rightarrow> int \<Rightarrow> gst" where
  "reset_gen random_of seed = \<lparr>gs_rng = \<lparr>rg_draws = random_of seed, rg_pos = 0\<rparr>, gs_label = 0\<rparr>"

text \<open>\<open>'%-5s' % op\<close>, \<open>'%0wX' % n\<close> (a sign counts toward the width) and \<open>'%x' % n\<close>.\<close>

definition fmt_5s :: "string \<Rightarrow> string" where
  "fmt_5s s = s @ replicate (5 - length s) CHR '' ''"

definition fmt_0X :: "nat \<Rightarrow> int \<Rightarrow> string" where
  "fmt_0X w n =
     (if n < 0 then let h = hex_str (nat (- n)) in CHR ''-'' # replicate (w - 1 - length h) (CHR ''0'') @ h
      else let h = hex_str (nat n) in replicate (w - length h) (CHR ''0'') @ h)"

definition fmt_x :: "int \<Rightarrow> string" where
  "fmt_x n = (if n < 0 then CHR ''-'' # py_lower (hex_str (nat (- n))) else py_lower (hex_str (nat n)))"

text \<open>\<open>any((exclude + ',') in l or l.rstrip().endswith(exclude) for l in lines)\<close>, and no test
  without an excluded name.\<close>

definition mentions :: "string \<Rightarrow> string list \<Rightarrow> bool" where
  "mentions x ls \<longleftrightarrow> list_ex (\<lambda>l. py_in (x @ '','') l \<or> endswith (rstrip l) x) ls"

definition excluded :: "string option \<Rightarrow> string list \<Rightarrow> bool" where
  "excluded ex ls = (case ex of None \<Rightarrow> False | Some x \<Rightarrow> mentions x ls)"

text \<open>
  The loop of every \<open>simple_op\<close>, \<open>while True\<close>: try again, in the state the attempt left, until
  no line names the excluded register.
\<close>

partial_function (option) retry ::
  "string list gen \<Rightarrow> string option \<Rightarrow> gst \<Rightarrow> (py_error, string list \<times> gst) result option" where
  "retry attempt ex s =
     (case attempt s of
        None \<Rightarrow> None
      | Some (Inl e) \<Rightarrow> Some (Inl e)
      | Some (Inr (ls, s')) \<Rightarrow> if excluded ex ls then retry attempt ex s' else Some (Inr (ls, s')))"

declare retry.simps [code]

section \<open>Python indexing\<close>

text \<open>\<open>xs[i]\<close> with negative indices from the end.\<close>

definition py_nth :: "'a list \<Rightarrow> int \<Rightarrow> 'a py" where
  "py_nth xs i =
     (if 0 \<le> i \<and> i < int (length xs) then Inr (xs ! nat i)
      else if i < 0 \<and> - int (length xs) \<le> i then Inr (xs ! nat (int (length xs) + i))
      else Inl IndexError)"

text \<open>The state predicted by the simulator, which the self-checking program tests.\<close>

record expect =
  ex_r :: "int list"
  ex_mem :: "int list"
  ex_probes :: "int list"

record expect_s = expect +
  ex_s :: "int list"

record expect16 = expect_s +
  ex_r7 :: int

section \<open>Reasoning about generators\<close>

text \<open>
  Partial correctness: whatever \<open>m\<close> returns from a state that satisfies \<open>P\<close> satisfies \<open>Q\<close>.
\<close>

definition triple :: "(gst \<Rightarrow> bool) \<Rightarrow> 'a gen \<Rightarrow> ('a \<Rightarrow> gst \<Rightarrow> bool) \<Rightarrow> bool" where
  "triple P m Q \<longleftrightarrow> (\<forall>s x s'. P s \<longrightarrow> m s = Some (Inr (x, s')) \<longrightarrow> Q x s')"

named_theorems gen_rules \<open>rules for the values generators return\<close>

lemma triple_ret: "(\<And>s. P s \<Longrightarrow> Q x s) \<Longrightarrow> triple P (retG x) Q"
  by (simp add: triple_def retG_def)

lemma triple_bind:
  assumes "triple P m R" and "\<And>x. triple (R x) (f x) Q"
  shows "triple P (bindG m f) Q"
  using assms unfolding triple_def bindG_def
  by (fastforce split: option.splits sum.splits prod.splits)

lemma triple_weaken:
  "triple P m Q \<Longrightarrow> (\<And>s. P' s \<Longrightarrow> P s) \<Longrightarrow> (\<And>x s. Q x s \<Longrightarrow> Q' x s) \<Longrightarrow> triple P' m Q'"
  unfolding triple_def by blast

lemma triple_pre: "(\<And>s. P s \<Longrightarrow> P' s) \<Longrightarrow> triple P' m Q \<Longrightarrow> triple P m Q"
  unfolding triple_def by blast

lemma triple_map: "triple P m (\<lambda>x. Q (f x)) \<Longrightarrow> triple P (mapG f m) Q"
  unfolding mapG_def by (rule triple_bind) (auto intro: triple_ret)

lemma triple_raise: "triple P (raiseG e) Q"
  by (simp add: triple_def raiseG_def)

lemma triple_lift: "(\<And>x s. m = Inr x \<Longrightarrow> P s \<Longrightarrow> Q x s) \<Longrightarrow> triple P (liftG m) Q"
  by (cases m) (auto simp: liftG_def intro: triple_ret triple_raise)

lemma triple_conj: "triple P m Q \<Longrightarrow> triple P m R \<Longrightarrow> triple P m (\<lambda>x s. Q x s \<and> R x s)"
  unfolding triple_def by blast

text \<open>The loop keeps what each attempt keeps, and ends with lines that are not excluded.\<close>

lemma triple_retry:
  assumes "triple I m (\<lambda>ls s. I s \<and> Q ls)"
  shows "triple I (retry m ex) (\<lambda>ls s. I s \<and> Q ls \<and> \<not> excluded ex ls)"
proof -
  define S where "S = (\<lambda>m' ex' s (r :: (py_error, string list \<times> gst) result). m' = m \<longrightarrow> ex' = ex \<longrightarrow> (\<forall>x s'. I s \<longrightarrow> r = Inr (x, s') \<longrightarrow>
    I s' \<and> Q x \<and> \<not> excluded ex x))"
  have "S m ex s r" if "retry m ex s = Some r" for s r
  proof (rule retry.raw_induct [OF _ that])
    fix rec m' ex' s r
    assume IH: "\<And>m ex s r. rec m ex s = Some r \<Longrightarrow> S m ex s r"
      and step: "(case m' s of None \<Rightarrow> None | Some (Inl e) \<Rightarrow> Some (Inl e)
        | Some (Inr (ls, s')) \<Rightarrow> if excluded ex' ls then rec m' ex' s' else Some (Inr (ls, s'))) = Some r"
    show "S m' ex' s r"
      unfolding S_def
    proof (intro impI allI)
      fix x s'
      assume eq: "m' = m" "ex' = ex" and s: "I s" "r = Inr (x, s')"
      then obtain ls t where t: "m s = Some (Inr (ls, t))"
        using step by (auto split: option.splits sum.splits)
      then have "I t" "Q ls" using assms s(1) by (auto simp: triple_def)
      then show "I s' \<and> Q x \<and> \<not> excluded ex x"
        using step t s eq IH [of m ex t r] by (auto simp: S_def split: if_splits)
    qed
  qed
  then have "I s \<Longrightarrow> retry m ex s = Some (Inr (x, s')) \<Longrightarrow> I s' \<and> Q x \<and> \<not> excluded ex x" for s x s'
    unfolding S_def by blast
  then show ?thesis unfolding triple_def by blast
qed

text \<open>The results alone.\<close>

definition yields :: "'a gen \<Rightarrow> ('a \<Rightarrow> bool) \<Rightarrow> bool" where
  "yields m Q \<longleftrightarrow> (\<forall>s x s'. m s = Some (Inr (x, s')) \<longrightarrow> Q x)"

lemma yields_triple: "yields m Q \<longleftrightarrow> triple (\<lambda>_. True) m (\<lambda>x _. Q x)"
  by (simp add: yields_def triple_def)

lemma yields_ret [gen_rules]: "Q x \<Longrightarrow> yields (retG x) Q"
  by (simp add: yields_triple triple_ret)

lemma yields_bind: "yields m R \<Longrightarrow> (\<And>x. R x \<Longrightarrow> yields (f x) Q) \<Longrightarrow> yields (bindG m f) Q"
  unfolding yields_def bindG_def by (fastforce split: option.splits sum.splits prod.splits)

lemma yields_map: "yields m (\<lambda>x. Q (f x)) \<Longrightarrow> yields (mapG f m) Q"
  unfolding mapG_def by (erule yields_bind) (rule yields_ret)

lemma yields_mono: "yields m R \<Longrightarrow> (\<And>x. R x \<Longrightarrow> Q x) \<Longrightarrow> yields m Q"
  unfolding yields_def by blast

lemma yields_retry: "yields m Q \<Longrightarrow> yields (retry m ex) (\<lambda>ls. Q ls \<and> \<not> excluded ex ls)"
  using triple_retry [of "\<lambda>_. True" m Q ex] by (simp add: yields_triple)

lemma yields_raise [gen_rules]: "yields (raiseG e) Q"
  by (simp add: yields_triple triple_raise)

lemma yields_any: "yields m (\<lambda>_. True)"
  by (simp add: yields_def)

lemma yields_randrange: "yields (randrange n) (\<lambda>x. 0 \<le> x \<and> x < n)"
  unfolding randrange_def
  by (auto intro!: yields_raise yields_bind [OF yields_any] yields_ret)

lemma yields_randint: "yields (randint a b) (\<lambda>x. a \<le> x \<and> x \<le> b)"
  unfolding randint_def by (rule yields_bind [OF yields_randrange]) (auto intro: yields_ret)

lemma yields_choice: "yields (choice xs) (\<lambda>x. x \<in> set xs)"
  unfolding choice_def
  by (auto intro!: yields_raise yields_bind [OF yields_randrange] yields_ret)

lemma yields_if [gen_rules]: "(c \<Longrightarrow> yields m Q) \<Longrightarrow> (\<not> c \<Longrightarrow> yields n Q) \<Longrightarrow> yields (if c then m else n) Q"
  by simp

lemma yields_sample:
  "yields (sample k pool) (\<lambda>xs. length xs = k \<and> set xs \<subseteq> set pool \<and> (distinct pool \<longrightarrow> distinct xs))"
proof (induction k arbitrary: pool)
  case (Suc k)
  let ?rest = "\<lambda>j. butlast (pool[nat j := last pool])"
  have rest: "set (?rest j) \<subseteq> set pool \<and> (distinct pool \<longrightarrow> distinct (?rest j) \<and> pool ! nat j \<notin> set (?rest j))"
    if j: "0 \<le> j" "j < int (length pool)" for j
  proof -
    obtain xs x where p: "pool = xs @ [x]" using j by (cases pool rule: rev_cases) auto
    show ?thesis
    proof (cases "nat j = length xs")
      case True
      then show ?thesis by (auto simp: p list_update_append)
    next
      case False
      then have "nat j < length xs" using j p by auto
      then have r: "?rest j = xs[nat j := x]" "pool ! nat j = xs ! nat j" "xs ! nat j \<in> set xs"
        by (simp_all add: p list_update_append nth_append)
      have "set (xs[nat j := x]) \<subseteq> insert x (set xs)" by (rule set_update_subset_insert)
      moreover have "distinct (xs[nat j := x]) \<and> xs ! nat j \<notin> set (xs[nat j := x])" if "distinct pool"
        using that \<open>nat j < length xs\<close> r(3) by (auto simp: p distinct_list_update set_update_distinct)
      ultimately show ?thesis using r p by auto
    qed
  qed
  have step: "yields (mapG ((#) (pool ! nat j)) (sample k (?rest j)))
      (\<lambda>xs. length xs = Suc k \<and> set xs \<subseteq> set pool \<and> (distinct pool \<longrightarrow> distinct xs))"
    if j: "0 \<le> j \<and> j < int (length pool)" for j
  proof (rule yields_map, rule yields_mono [OF Suc.IH])
    fix xs
    assume xs: "length xs = k \<and> set xs \<subseteq> set (?rest j) \<and> (distinct (?rest j) \<longrightarrow> distinct xs)"
    have "pool ! nat j \<in> set pool" using j by (intro nth_mem) linarith
    then show "length (pool ! nat j # xs) = Suc k \<and> set (pool ! nat j # xs) \<subseteq> set pool \<and>
        (distinct pool \<longrightarrow> distinct (pool ! nat j # xs))"
      using xs rest [of j] j by auto
  qed
  show ?case
    unfolding sample.simps by (rule yields_if [OF yields_raise yields_bind [OF yields_randrange step]])
qed (simp add: yields_ret)

text \<open>Lines produced piece by piece satisfy what holds of each piece.\<close>

lemma yields_repeat:
  assumes "yields m (list_all P)"
  shows "yields (repeatG n m) (list_all P)"
  by (induction n) (auto intro!: yields_ret yields_bind [OF assms] yields_map elim: yields_mono)

lemma yields_concat:
  assumes "\<And>x. x \<in> set xs \<Longrightarrow> yields (f x) (list_all P)"
  shows "yields (concatG f xs) (list_all P)"
  using assms
proof (induction xs)
  case (Cons x xs)
  have "yields (f x) (list_all P)" "yields (concatG f xs) (list_all P)" using Cons by simp_all
  then show ?case by (auto intro!: yields_map elim!: yields_bind elim: yields_mono)
qed (simp add: yields_ret)

lemma triple_pure: "(B \<Longrightarrow> triple P m Q) \<Longrightarrow> triple (\<lambda>s. P s \<and> B) m Q"
  unfolding triple_def by blast

end
