(* ===== verification/FuzzGen.thy ===== *)
theory FuzzGen
  imports FuzzRng
begin

text \<open>
  The class \<open>Gen\<close> of \<open>tools/riscc_fuzz.py\<close>: seeded RISC-C programs for the Min, Sys and Full
  profiles. The profile flags copied into the object are the \<open>config\<close> argument \<open>cfg\<close>; the
  mutable attributes are the generator state. Each method is a definition of the same name.
\<close>

section \<open>Single instructions\<close>

definition new_label :: "string \<Rightarrow> string gen" where
  "new_label stem = (\<lambda>s. let n = gs_label s + 1 in
     Some (Inr (stem @ ''_'' @ fmt_d n, s\<lparr>gs_label := n\<rparr>)))"

definition gen_reg :: "string gen" where
  "gen_reg = mapG (\<lambda>n. ''r'' @ fmt_d n) (randint 1 6)"

definition three_regs :: "string \<Rightarrow> string list gen" where
  "three_regs pre =
     bindG gen_reg (\<lambda>a. bindG gen_reg (\<lambda>b. bindG gen_reg (\<lambda>c.
       retG [pre @ a @ '', '' @ b @ '', '' @ c])))"

definition op_alu :: "string list gen" where
  "op_alu =
     bindG (choice [''ADD'', ''SUB'', ''SLT'', ''SLTU'', ''AND'', ''OR'', ''XOR'']) (\<lambda>op.
       three_regs (''    '' @ fmt_5s op @ '' ''))"

definition op_imm :: "string list gen" where
  "op_imm =
     bindG (choice [''LDI'', ''LUI'', ''ADDI'', ''CMPI'', ''ANDI'', ''ORI'', ''XORI'']) (\<lambda>op.
     bindG (if op \<in> {''ADDI'', ''CMPI''}
            then bindG random (\<lambda>k. if k < prob 50 then randint (-128) (-1) else randint 0 127)
            else randint 0 255) (\<lambda>v.
     bindG gen_reg (\<lambda>r.
       retG [''    '' @ fmt_5s op @ '' '' @ r @ '', '' @ fmt_d v])))"

definition op_shift :: "config \<Rightarrow> string list gen" where
  "op_shift cfg =
     bindG (if cf_shifts cfg
            then bindG (choice [''SRLI'', ''SRAI'', ''SLLI'']) (\<lambda>op.
                 bindG (randint 1 8) (\<lambda>n. retG (op, n)))
            else bindG (choice [''SRLI'', ''SRAI'']) (\<lambda>op. retG (op, 1))) (\<lambda>(op, n).
     bindG gen_reg (\<lambda>a. bindG gen_reg (\<lambda>b.
       retG [''    '' @ fmt_5s op @ '' '' @ a @ '', '' @ b @ '', '' @ fmt_d n])))"

definition op_mul :: "string list gen" where
  "op_mul = three_regs ''    MUL   ''"

definition ldi16_line :: "string \<Rightarrow> int \<Rightarrow> string" where
  "ldi16_line r v = ''    LDI16 '' @ r @ '', 0x'' @ fmt_0X 4 v"

definition rname :: "int \<Rightarrow> string" where
  "rname n = ''r'' @ fmt_d n"

text \<open>
  \<open>op_mdu\<close>: a \<open>DIVU\<close> whose three distinct registers hold a remainder, a quotient and a divisor
  larger than the remainder, or a \<open>MULHU\<close>.
\<close>

definition op_divu :: "string list gen" where
  "op_divu =
     bindG (sample 3 [1, 2, 3, 4, 5, 6]) (\<lambda>rs.
     bindG (randint 1 0xffff) (\<lambda>divisor.
     bindG (randrange divisor) (\<lambda>remainder.
     bindG (randint 0 0xffff) (\<lambda>quotient.
       let rr = rname (rs ! 0); rq = rname (rs ! 1); rb = rname (rs ! 2) in
       retG [ldi16_line rr remainder, ldi16_line rq quotient, ldi16_line rb divisor,
             ''    DIVU  '' @ rr @ '', '' @ rq @ '', '' @ rb]))))"

definition op_mulhu :: "string list gen" where
  "op_mulhu =
     bindG (sample 2 [1, 2, 3, 4, 5, 6]) (\<lambda>rs.
     bindG (randint 1 6) (\<lambda>source.
     bindG (randint 0 0xffff) (\<lambda>high_value.
     bindG (randint 0 0xffff) (\<lambda>source_value.
       let low = rs ! 0; high = rs ! 1 in
       retG ([ldi16_line (rname high) high_value] @
             (if source \<noteq> high then [ldi16_line (rname source) source_value] else []) @
             [''    MULHU '' @ rname low @ '', '' @ rname high @ '', '' @ rname source])))))"

definition op_mdu :: "config \<Rightarrow> string list gen" where
  "op_mdu cfg =
     (if cf_divu cfg
      then bindG random (\<lambda>k. if k < prob 50 then op_divu else op_mulhu)
      else op_mulhu)"

definition op_mem :: "string list gen" where
  "op_mem =
     bindG (randrange WIN_WORDS) (\<lambda>w.
     bindG random (\<lambda>k.
       let off = w * 2; base = ''    LDI16 r7, 0x'' @ fmt_0X 4 WIN in
       if k < prob 35 then
         bindG gen_reg (\<lambda>r. retG [base, ''    ST   '' @ r @ '', [r7+'' @ fmt_d off @ '']''])
       else if k < prob 70 then
         bindG gen_reg (\<lambda>r. retG [base, ''    LD   '' @ r @ '', [r7+'' @ fmt_d off @ '']''])
       else if k < prob 85 then
         bindG (randrange (WIN_WORDS * 2)) (\<lambda>boff.
         bindG (choice [''LDB'', ''LDBS'']) (\<lambda>op.
         bindG gen_reg (\<lambda>r.
           retG [base, ''    LDI   r0, '' @ fmt_d boff, ''    ADD   r0, r7, r0'',
                 ''    '' @ fmt_5s op @ '' '' @ r @ '', [r0]''])))
       else
         bindG (randrange (WIN_WORDS * 2)) (\<lambda>boff.
         bindG gen_reg (\<lambda>r.
           retG [base, ''    LDI   r0, '' @ fmt_d boff, ''    ADD   r0, r7, r0'',
                 ''    STB   '' @ r @ '', [r0]'']))))"

definition op_sreg :: "string list gen" where
  "op_sreg =
     bindG (randint 4 6) (\<lambda>s.
     bindG random (\<lambda>k.
       if k < prob 50
       then bindG gen_reg (\<lambda>r. retG [''    MTS   S'' @ fmt_d s @ '', '' @ r])
       else bindG gen_reg (\<lambda>r. retG [''    MFS   '' @ r @ '', S'' @ fmt_d s])))"

section \<open>The retry loop\<close>

definition simple_attempt :: "config \<Rightarrow> string list gen" where
  "simple_attempt cfg =
     bindG random (\<lambda>k.
       if k < prob 35 then op_alu
       else if k < prob 65 then op_imm
       else if k < prob 80 then op_shift cfg
       else if k < prob 90 \<and> cf_full cfg then
         (if cf_mulhu cfg
          then bindG random (\<lambda>j. if j < prob 50 then op_mdu cfg else op_mul)
          else op_mul)
       else op_sreg)"

definition simple_op :: "config \<Rightarrow> string option \<Rightarrow> string list gen" where
  "simple_op cfg ex = retry (simple_attempt cfg) ex"

section \<open>Blocks\<close>

definition op_branch_block :: "config \<Rightarrow> string list gen" where
  "op_branch_block cfg =
     bindG (new_label ''fwd'') (\<lambda>lab.
     bindG (choice [''BEQZ'', ''BNEZ'', ''BLTZ'', ''BGEZ'']) (\<lambda>cc.
     bindG gen_reg (\<lambda>r.
     bindG (randint 0 127) (\<lambda>v.
     bindG (randint 1 4) (\<lambda>n.
     bindG (repeatG (nat n) (simple_op cfg None)) (\<lambda>body.
       retG ([''    CMPI  '' @ r @ '', '' @ fmt_d v, ''    '' @ fmt_5s cc @ '' '' @ lab] @
             body @ [lab @ '':''])))))))"

definition op_loop :: "config \<Rightarrow> string list gen" where
  "op_loop cfg =
     bindG (new_label ''loop'') (\<lambda>lab.
     bindG gen_reg (\<lambda>cnt.
     bindG (randint 1 3) (\<lambda>n.
     bindG (repeatG (nat n) (simple_op cfg (Some cnt))) (\<lambda>body.
     bindG (randint 1 5) (\<lambda>times.
       retG ([''    LDI   '' @ cnt @ '', '' @ fmt_d times, lab @ '':''] @ body @
             [''    ADDI  '' @ cnt @ '', -1'', ''    MOV   r0, '' @ cnt, ''    BNEZ  '' @ lab]))))))"

type_synonym subs = "(string \<times> string list) list"

definition op_call :: "config \<Rightarrow> subs \<Rightarrow> (string list \<times> subs) gen" where
  "op_call cfg subs =
     bindG (new_label ''sub'') (\<lambda>lab.
     bindG (randint 1 3) (\<lambda>n.
     bindG (repeatG (nat n) (simple_op cfg None)) (\<lambda>body.
       let subs' = subs @ [(lab @ '':'', body @ [''    RET S7''])];
           by_register = bindG gen_reg (\<lambda>r.
             retG ([''    LDI16 '' @ r @ '', '' @ lab, ''    JALR S7, '' @ r], subs')) in
       if cf_long_calls cfg
       then bindG random (\<lambda>k.
              if k < prob 50 then retG ([''    JALL S7, '' @ lab], subs') else by_register)
       else by_register)))"

definition op_ie_window :: "config \<Rightarrow> string list gen" where
  "op_ie_window cfg =
     bindG (simple_op cfg None) (\<lambda>ls. retG ([''    CLI''] @ ls @ [''    STI'']))"

section \<open>The deterministic block\<close>

definition cover_base :: "(string \<Rightarrow> string) \<Rightarrow> string list" where
  "cover_base lab =
     [''    LDI16 r7, 0x'' @ fmt_0X 4 WIN, ''    LDI16 r1, 0x80A5'', ''    ST    r1, [r7+0]'',
      ''    LD    r2, [r7+0]'', ''    LDI   r3, 0'', ''    LDX   r2, [r7+r3]'', ''    LDB   r2, [r7]'',
      ''    LDBS  r2, [r7]'', ''    STB   r1, [r7]'', ''    LDI   r1, 0x12'', ''    LUI   r2, 0x34'',
      ''    ADDI  r1, -1'', ''    CMPI  r1, 0x11'', ''    ANDI  r2, 0x7F'', ''    ORI   r2, 0x40'',
      ''    XORI  r2, 0x55'', ''    ADD   r3, r1, r2'', ''    SUB   r3, r3, r1'',
      ''    SLT   r4, r1, r2'', ''    SLTU  r4, r1, r2'', ''    AND   r4, r1, r2'',
      ''    OR    r4, r1, r2'', ''    XOR   r4, r1, r2'', ''    SRLI  r4, r2, 1'',
      ''    SRAI  r4, r2, 1'', ''    FSL1  r4, r1'', ''    FSR1  r4, r1'', ''    LDI   r0, 0'',
      ''    BEQZ  '' @ lab ''beq'', lab ''beq'' @ '':'', ''    BNEZ  '' @ lab ''bne'', lab ''bne'' @ '':'',
      ''    ADDI  r0, -1'', ''    BLTZ  '' @ lab ''blt'', lab ''blt'' @ '':'',
      ''    BGEZ  '' @ lab ''bge'', lab ''bge'' @ '':'', ''    JMP8  '' @ lab ''after_jmp'',
      ''    LDI   r6, 0x5A'', lab ''after_jmp'' @ '':'', ''    MTS   S5, r1'', ''    MFS   r2, S5'',
      ''    LDI16 r3, '' @ lab ''reg_sub'', ''    JALR  S4, r3'', ''    JMP8  '' @ lab ''reg_done'',
      lab ''reg_sub'' @ '':'', ''    RET   S4'', lab ''reg_done'' @ '':'']"

definition cover_full :: "string list" where
  "cover_full = [''    SLLI  r4, r2, 4'', ''    SRLI  r4, r2, 4'', ''    SRAI  r4, r2, 4'',
     ''    MUL   r4, r1, r2'']"

definition cover_mulhu :: "string list" where
  "cover_mulhu = [''    LDI16 r3, 0x1234'', ''    LDI16 r4, 0x4321'', ''    MULHU r5, r3, r4'']"

definition cover_divu :: "string list" where
  "cover_divu = [''    LDI   r3, 1'', ''    LDI16 r4, 0x2345'', ''    LDI16 r5, 0x0123'',
     ''    DIVU  r3, r4, r5'']"

definition cover_sys :: "string \<Rightarrow> string \<Rightarrow> string \<Rightarrow> string list" where
  "cover_sys long_sub long_done after_reti =
     [''    JALL  S6, '' @ long_sub, ''    JMPL  '' @ long_done, long_sub @ '':'', ''    RET   S6'',
      long_done @ '':'', ''    CLI'', ''    LDI16 r3, '' @ after_reti, ''    MTS   S0, r3'',
      ''    RETI  S0'', after_reti @ '':'', ''    STI'']"

text \<open>The names drawn before the block, one \<open>new_label\<close> each, as a lookup by stem.\<close>

fun cover_labels :: "string list \<Rightarrow> (string \<Rightarrow> string) gen" where
  "cover_labels [] = retG (\<lambda>_. [])"
| "cover_labels (x # xs) =
     bindG (new_label (''cover_'' @ x)) (\<lambda>l. mapG (\<lambda>f. f(x := l)) (cover_labels xs))"

definition supported_isa_ops :: "config \<Rightarrow> string list gen" where
  "supported_isa_ops cfg =
     bindG (cover_labels [''beq'', ''bne'', ''blt'', ''bge'', ''after_jmp'', ''reg_sub'', ''reg_done'']) (\<lambda>lab.
       let ls = cover_base lab @ (if cf_full cfg then cover_full else []) @
                (if cf_mulhu cfg then cover_mulhu else []) @ (if cf_divu cfg then cover_divu else []) in
       if cf_sys cfg
       then bindG (cover_labels [''long_sub'', ''long_done'', ''after_reti'']) (\<lambda>lab'.
              retG (ls @ cover_sys (lab' ''long_sub'') (lab' ''long_done'') (lab' ''after_reti'')))
       else retG ls)"

section \<open>Programs\<close>

definition window_word :: "int \<Rightarrow> string list gen" where
  "window_word w =
     bindG (randint 0 0xFFFF) (\<lambda>v.
       retG [''    LDI16 r1, 0x'' @ fmt_0X 4 v, ''    ST   r1, [r7+'' @ fmt_d (w * 2) @ '']''])"

definition body_step :: "config \<Rightarrow> subs \<Rightarrow> (string list \<times> subs) gen" where
  "body_step cfg subs =
     bindG random (\<lambda>k.
       if k < prob 45 then mapG (\<lambda>ls. (ls, subs)) (simple_op cfg None)
       else if k < prob 60 then mapG (\<lambda>ls. (ls, subs)) op_mem
       else if k < prob 72 then mapG (\<lambda>ls. (ls, subs)) (op_branch_block cfg)
       else if k < prob 82 then mapG (\<lambda>ls. (ls, subs)) (op_loop cfg)
       else if k < prob 90 then op_call cfg subs
       else if cf_sys cfg then mapG (\<lambda>ls. (ls, subs)) (op_ie_window cfg)
       else mapG (\<lambda>ls. (ls, subs)) (simple_op cfg None))"

fun body_steps :: "(subs \<Rightarrow> (string list \<times> subs) gen) \<Rightarrow> nat \<Rightarrow> subs \<Rightarrow> (string list \<times> subs) gen" where
  "body_steps f 0 subs = retG ([], subs)"
| "body_steps f (Suc n) subs =
     bindG (f subs) (\<lambda>(ls, subs'). mapG (\<lambda>(ls', subs''). (ls @ ls', subs'')) (body_steps f n subs'))"

definition gen_body :: "config \<Rightarrow> (string list \<times> subs) gen" where
  "gen_body cfg =
     bindG (concatG window_word (map int [0..<nat WIN_WORDS])) (\<lambda>window.
     bindG (supported_isa_ops cfg) (\<lambda>cover.
     bindG (randint 25 45) (\<lambda>n.
     bindG (body_steps (body_step cfg) (nat n) []) (\<lambda>(ls, subs).
       retG ([''    LDI16 r7, 0x'' @ fmt_0X 4 WIN] @ window @ cover @ ls, subs)))))"

definition check_reg :: "string \<Rightarrow> int \<Rightarrow> int \<Rightarrow> string list" where
  "check_reg r want code =
     (let scratch = (if r \<noteq> ''r7'' then ''r7'' else ''r6'') in
      [''    LDI16 '' @ scratch @ '', 0x'' @ fmt_0X 4 want,
       ''    SUB   r0, '' @ r @ '', '' @ scratch,
       ''    BEQZ  ok_'' @ fmt_x code,
       ''    LDI16 r7, 0x'' @ fmt_0X 4 code,
       ''    LDI16 r6, 0x'' @ fmt_0X 4 RESULT,
       ''    ST   r7, [r6+0]'',
       ''    HALT'',
       ''ok_'' @ fmt_x code @ '':''])"

text \<open>The sections of \<open>emit\<close> before the body, with the subroutines in front of \<open>start\<close>.\<close>

definition emit_head :: "config \<Rightarrow> int \<Rightarrow> string \<Rightarrow> string list" where
  "emit_head cfg seed config =
     [''; generated by riscc_fuzz.py seed='' @ fmt_d seed @ '' config='' @ config, ''.vectors''] @
     (if cf_sys cfg then
        (if cf_long_calls cfg
         then [''    JMPL reset_tramp'', ''    JMPL irq_h'', ''    JMPL brk_h'']
         else [''    JMP8 reset_tramp'', ''    LDI   r0, 0'', ''    JMP8 irq_h''])
      else []) @
     [''.text'', ''reset_tramp:'', ''    LDI16 r0, start'', ''    JMP   r0'', ''fail:'',
      ''    LDI16 r7, 0x0BAD'', ''    LDI16 r6, 0x'' @ fmt_0X 4 RESULT, ''    ST   r7, [r6+0]'', ''    HALT''] @
     (if cf_sys cfg then
        [''irq_h:'', ''    MTS   S2, r1'', ''    LDI16 r1, 0x'' @ fmt_0X 4 TEST_IRQ, ''    LD   r1, [r1+0]'',
         ''    MFS   r1, S2'', ''    RETI S0'',
         ''brk_h:'', ''    MTS   S2, r1'', ''    MFS   r1, S3'', ''    ADDI  r1, 1'', ''    MTS   S3, r1'',
         ''    MFS   r1, S2'', ''    RETI S0'']
      else [])"

definition emit_start :: "config \<Rightarrow> subs \<Rightarrow> string list" where
  "emit_start cfg subs =
     concat (map (\<lambda>(lab, code_lines). lab # code_lines) subs) @ [''start:''] @
     (if cf_sys cfg then [''    STI''] else [])"

definition emit_marker :: "config \<Rightarrow> string list" where
  "emit_marker cfg =
     (if cf_sys cfg
      then [''    LDI16 r7, 0x'' @ fmt_0X 4 IRQ_MARKER, ''    ST    r7, [r7+0]''] else [])"

definition probe_tail :: "string list" where
  "probe_tail =
     [''    MTS   S4, r7'', ''    LDI16 r7, 0x600D'', ''    LDI16 r0, 0x'' @ fmt_0X 4 RESULT,
      ''    ST   r7, [r0+0]'', ''    HALT'']"

text \<open>
  One check per expected value, numbered from \<open>FAILBASE\<close> upward: the registers 1 to 6, the saved
  \<open>r7\<close>, the three special registers, the probed words.
\<close>

definition numbered :: "int \<Rightarrow> (int \<Rightarrow> string list py) list \<Rightarrow> string list py" where
  "numbered code fs =
     bindE (mapE (\<lambda>(i, f). f (code + 1 + int i)) (zip [0..<length fs] fs)) (\<lambda>ls. Inr (concat ls))"

definition tail_checks :: "expect16 \<Rightarrow> (int \<Rightarrow> string list py) list" where
  "tail_checks e =
     map (\<lambda>k code. bindE (py_nth (ex_r e) k) (\<lambda>v. Inr (check_reg (''r'' @ fmt_d k) v code)))
       [1, 2, 3, 4, 5, 6] @
     [\<lambda>code. Inr ([''    MFS   r6, S4''] @ check_reg ''r6'' (ex_r7 e) code)] @
     map (\<lambda>k code. bindE (py_nth (ex_s e) k) (\<lambda>v.
            Inr ([''    MFS   r6, S'' @ fmt_d k] @ check_reg ''r6'' v code)))
       [1, 5, 6] @
     map (\<lambda>w code. bindE (py_nth (ex_mem e) w) (\<lambda>v.
            Inr ([''    LDI16 r7, 0x'' @ fmt_0X 4 (WIN + 2 * w), ''    LD   r6, [r7+0]''] @
                 check_reg ''r6'' v code)))
       (ex_probes e)"

definition check_tail :: "expect16 \<Rightarrow> string list py" where
  "check_tail e =
     bindE (numbered FAILBASE (tail_checks e)) (\<lambda>checks.
       Inr ([''    MTS   S4, r7''] @ checks @
            [''    LDI16 r7, 0x600D'', ''    LDI16 r6, 0x'' @ fmt_0X 4 RESULT, ''    ST   r7, [r6+0]'',
             ''    HALT'']))"

definition emit_tail :: "expect16 option \<Rightarrow> string list py" where
  "emit_tail expect = (case expect of None \<Rightarrow> Inr probe_tail | Some e \<Rightarrow> check_tail e)"

text \<open>
  \<open>emit\<close>: the generator is reseeded, so the probe and the self-checking program of one seed have
  the same body. The result is the list of lines, each ended by a line feed in the file.
\<close>

definition emit_lines :: "config \<Rightarrow> int \<Rightarrow> string \<Rightarrow> expect16 option \<Rightarrow> string list gen" where
  "emit_lines cfg seed config expect =
     bindG (gen_body cfg) (\<lambda>(body, subs).
     bindG (liftG (emit_tail expect)) (\<lambda>tail.
       retG (emit_head cfg seed config @ emit_start cfg subs @ body @ emit_marker cfg @ tail)))"

definition emit ::
  "(int \<Rightarrow> nat \<Rightarrow> int) \<Rightarrow> config \<Rightarrow> int \<Rightarrow> string \<Rightarrow> expect16 option \<Rightarrow> (py_error, string \<times> gst) result option" where
  "emit random_of cfg seed config expect =
     mapG (\<lambda>ls. py_join ''\<newline>'' ls @ ''\<newline>'') (emit_lines cfg seed config expect) (reset_gen random_of seed)"

end
