(* ===== verification/FuzzRC32.thy ===== *)
theory FuzzRC32
  imports FuzzGen
begin

text \<open>
  The class \<open>RC32Gen\<close> of \<open>tools/riscc_fuzz.py\<close>: programs for the 32-bit family, in the syntax of
  the LLVM assembler. A full-width constant is loaded from a literal next to the load, which is
  jumped over. The methods carry the suffix \<open>rc32\<close>.
\<close>

definition RC32_WIN :: int where "RC32_WIN = 0xFC00"
definition RC32_WIN_WORDS :: int where "RC32_WIN_WORDS = 16"

section \<open>Labels and literals\<close>

definition new_label_rc32 :: "string \<Rightarrow> string gen" where
  "new_label_rc32 stem = mapG (\<lambda>l. CHR ''.'' # l) (new_label stem)"

definition literal_rc32 :: "string \<Rightarrow> string \<Rightarrow> string list gen" where
  "literal_rc32 r value =
     bindG (new_label_rc32 ''literal'') (\<lambda>literal.
     bindG (new_label_rc32 ''after_literal'') (\<lambda>after.
       retG [''    ldpc  '' @ r @ '', '' @ literal, ''    jmp8  '' @ after, ''    .balign 4'',
             literal @ '':'', ''    .long '' @ value, after @ '':'']))"

definition literal_value :: "string \<Rightarrow> int \<Rightarrow> string list gen" where
  "literal_value r value = literal_rc32 r (''0x'' @ fmt_0X 8 (value AND 0xffffffff))"

section \<open>Single instructions\<close>

definition op_alu_rc32 :: "config \<Rightarrow> string list gen" where
  "op_alu_rc32 cfg =
     bindG (choice ([''add'', ''sub'', ''slt'', ''sltu'', ''and'', ''or'', ''xor''] @
                    (if cf_full cfg then [''mul''] else []))) (\<lambda>op.
       three_regs (''    '' @ fmt_5s op @ '' ''))"

definition op_imm_rc32 :: "string list gen" where
  "op_imm_rc32 =
     bindG (choice [''ldi'', ''addi'', ''cmpi'', ''andi'', ''ori'', ''xori'']) (\<lambda>op.
     bindG (if op \<in> {''addi'', ''cmpi''} then randint (-128) 127 else randint 0 255) (\<lambda>value.
     bindG gen_reg (\<lambda>r. retG [''    '' @ fmt_5s op @ '' '' @ r @ '', '' @ fmt_d value])))"

definition op_shift_rc32 :: "config \<Rightarrow> string list gen" where
  "op_shift_rc32 cfg =
     bindG (choice ([''srli'', ''srai''] @ (if cf_full cfg then [''slli''] else []))) (\<lambda>op.
     bindG (if cf_full cfg then randint 1 8 else retG 1) (\<lambda>amount.
     bindG gen_reg (\<lambda>a. bindG gen_reg (\<lambda>b.
       retG [''    '' @ fmt_5s op @ '' '' @ a @ '', '' @ b @ '', '' @ fmt_d amount]))))"

text \<open>The last four kinds of \<open>op_mem\<close>: an offset in \<open>r0\<close>, then the access through \<open>r0\<close>.\<close>

definition offset_access :: "int gen \<Rightarrow> string gen \<Rightarrow> string list gen" where
  "offset_access offset access =
     bindG offset (\<lambda>off. bindG (literal_value ''r0'' off) (\<lambda>ls. bindG access (\<lambda>a.
       retG (ls @ [''    add   r0, r7, r0'', a]))))"

definition op_mem_rc32 :: "string list gen" where
  "op_mem_rc32 =
     bindG (randrange 6) (\<lambda>kind.
     bindG (randrange RC32_WIN_WORDS) (\<lambda>w.
     let offset = w * 4 in
     bindG (literal_value ''r7'' RC32_WIN) (\<lambda>base.
       mapG (\<lambda>ls. base @ ls)
         (if kind = 0 then
            mapG (\<lambda>r. [''    st    '' @ r @ '', [r7 + '' @ fmt_d offset @ '']'']) gen_reg
          else if kind = 1 then
            mapG (\<lambda>r. [''    ld    '' @ r @ '', [r7 + '' @ fmt_d offset @ '']'']) gen_reg
          else if kind = 2 then
            offset_access (randrange (RC32_WIN_WORDS * 4))
              (bindG (choice [''ldb'', ''ldbs'']) (\<lambda>op. bindG gen_reg (\<lambda>r.
                retG (''    '' @ op @ ''   '' @ r @ '', [r0]''))))
          else if kind = 3 then
            offset_access (randrange (RC32_WIN_WORDS * 4))
              (mapG (\<lambda>r. ''    stb   '' @ r @ '', [r0]'') gen_reg)
          else if kind = 4 then
            offset_access (mapG (\<lambda>h. h * 2) (randrange (RC32_WIN_WORDS * 2)))
              (bindG (choice [''ldh'', ''ldhs'']) (\<lambda>op. bindG gen_reg (\<lambda>r.
                retG (''    '' @ op @ ''   '' @ r @ '', [r0]''))))
          else
            offset_access (mapG (\<lambda>h. h * 2) (randrange (RC32_WIN_WORDS * 2)))
              (mapG (\<lambda>r. ''    sth   '' @ r @ '', [r0]'') gen_reg)))))"

definition op_divu_rc32 :: "string list gen" where
  "op_divu_rc32 =
     bindG (sample 3 [0, 1, 2, 3, 4, 5, 6]) (\<lambda>rs.
     bindG (randint 1 0xffffffff) (\<lambda>divisor.
     bindG (randrange divisor) (\<lambda>rem. bindG (literal_value (rname (rs ! 0)) rem) (\<lambda>l1.
     bindG (getrandbits 32) (\<lambda>quo. bindG (literal_value (rname (rs ! 1)) quo) (\<lambda>l2.
     bindG (literal_value (rname (rs ! 2)) divisor) (\<lambda>l3.
       retG (l1 @ l2 @ l3 @
         [''    divu  '' @ rname (rs ! 0) @ '', '' @ rname (rs ! 1) @ '', '' @ rname (rs ! 2)]))))))))"

definition op_mulhu_rc32 :: "string list gen" where
  "op_mulhu_rc32 =
     bindG (sample 2 [0, 1, 2, 3, 4, 5, 6]) (\<lambda>rs.
     bindG (randrange 7) (\<lambda>source.
     let low = rs ! 0; high = rs ! 1 in
     bindG (getrandbits 32) (\<lambda>hv. bindG (literal_value (rname high) hv) (\<lambda>l1.
     bindG (if source \<noteq> high
            then bindG (getrandbits 32) (\<lambda>sv. literal_value (rname source) sv)
            else retG []) (\<lambda>l2.
       retG (l1 @ l2 @
         [''    mulhu '' @ rname low @ '', '' @ rname high @ '', '' @ rname source]))))))"

definition op_mdu_rc32 :: "config \<Rightarrow> string list gen" where
  "op_mdu_rc32 cfg =
     (if cf_divu cfg
      then bindG random (\<lambda>k. if k < prob 50 then op_divu_rc32 else op_mulhu_rc32)
      else op_mulhu_rc32)"

section \<open>The retry loop and blocks\<close>

definition simple_attempt_rc32 :: "config \<Rightarrow> string list gen" where
  "simple_attempt_rc32 cfg =
     bindG random (\<lambda>chance.
       if chance < prob 40 then
         (if cf_mulhu cfg
          then bindG random (\<lambda>j. if j < prob 50 then op_mdu_rc32 cfg else op_alu_rc32 cfg)
          else op_alu_rc32 cfg)
       else if chance < prob 70 then op_imm_rc32
       else if chance < prob 80 then op_shift_rc32 cfg
       else op_mem_rc32)"

definition simple_op_rc32 :: "config \<Rightarrow> string option \<Rightarrow> string list gen" where
  "simple_op_rc32 cfg ex = retry (simple_attempt_rc32 cfg) ex"

definition op_ie_window_rc32 :: "config \<Rightarrow> string list gen" where
  "op_ie_window_rc32 cfg =
     bindG (simple_op_rc32 cfg None) (\<lambda>ls. retG ([''    cli''] @ ls @ [''    sti'']))"

definition op_branch_block_rc32 :: "config \<Rightarrow> string list gen" where
  "op_branch_block_rc32 cfg =
     bindG (new_label_rc32 ''branch'') (\<lambda>target.
     bindG (choice [''beqz'', ''bnez'', ''bltz'', ''bgez'']) (\<lambda>cc.
     bindG gen_reg (\<lambda>r.
     bindG (randint (-128) 127) (\<lambda>v.
     bindG (randint 1 3) (\<lambda>n.
     bindG (repeatG (nat n) (simple_op_rc32 cfg None)) (\<lambda>body.
       retG ([''    cmpi  '' @ r @ '', '' @ fmt_d v, ''    '' @ fmt_5s cc @ '' '' @ target] @
             body @ [target @ '':''])))))))"

definition op_loop_rc32 :: "config \<Rightarrow> string list gen" where
  "op_loop_rc32 cfg =
     bindG (new_label_rc32 ''loop'') (\<lambda>target.
     bindG gen_reg (\<lambda>count.
     bindG (randint 1 2) (\<lambda>n.
     bindG (repeatG (nat n) (simple_op_rc32 cfg (Some count))) (\<lambda>body.
     bindG (randint 1 5) (\<lambda>times.
       retG ([''    ldi   '' @ count @ '', '' @ fmt_d times, target @ '':''] @ body @
             [''    addi  '' @ count @ '', -1'', ''    or    r0, '' @ count @ '', '' @ count,
              ''    bnez  '' @ target]))))))"

section \<open>The deterministic block\<close>

fun cover_labels_rc32 :: "string list \<Rightarrow> (string \<Rightarrow> string) gen" where
  "cover_labels_rc32 [] = retG (\<lambda>_. [])"
| "cover_labels_rc32 (x # xs) =
     bindG (new_label_rc32 (''cover_'' @ x)) (\<lambda>l. mapG (\<lambda>f. f(x := l)) (cover_labels_rc32 xs))"

definition cover_base_rc32 :: "(string \<Rightarrow> string) \<Rightarrow> string list" where
  "cover_base_rc32 lab =
     [''    ldi   r1, 0x12'', ''    ldi   r2, 0x34'', ''    addi  r1, -1'', ''    cmpi  r1, 0x11'',
      ''    andi  r2, 0xf0'', ''    ori   r2, 3'', ''    xori  r2, 0x55'', ''    add   r3, r1, r2'',
      ''    sub   r3, r3, r1'', ''    slt   r4, r1, r2'', ''    sltu  r4, r1, r2'',
      ''    and   r4, r1, r2'', ''    or    r4, r1, r2'', ''    xor   r4, r1, r2'',
      ''    srli  r4, r2, 1'', ''    srai  r4, r2, 1'', ''    fsl1  r4, r1'', ''    fsr1  r4, r1'',
      ''    ldi   r5, 0'', ''    st    r1, [r7]'', ''    ld    r3, [r7]'', ''    ldx   r3, [r7 + r5]'',
      ''    ldb   r3, [r7]'', ''    ldbs  r3, [r7]'', ''    ldh   r3, [r7]'', ''    ldhs  r3, [r7]'',
      ''    stb   r3, [r7]'', ''    sth   r3, [r7]'', ''    mts   s5, r3'', ''    mfs   r3, s5'',
      ''    or    r0, r5, r5'', ''    beqz  '' @ lab ''beq'', lab ''beq'' @ '':'',
      ''    bnez  '' @ lab ''bne'', lab ''bne'' @ '':'', ''    addi  r0, -1'',
      ''    bltz  '' @ lab ''blt'', lab ''blt'' @ '':'', ''    bgez  '' @ lab ''bge'', lab ''bge'' @ '':'',
      ''    ldpc  r4, '' @ lab ''jump_literal'', ''    jmp   r4'', ''    .balign 4'',
      lab ''jump_literal'' @ '':'', ''    .long '' @ lab ''after_jmp'', lab ''after_jmp'' @ '':'']"

definition cover_sys_rc32 :: "string list gen" where
  "cover_sys_rc32 =
     bindG (cover_labels_rc32 [''long_sub'', ''long_done'', ''after_reti'']) (\<lambda>lab.
     bindG (literal_rc32 ''r3'' (lab ''after_reti'')) (\<lambda>ls.
       retG ([''    jall  s4, '' @ lab ''long_sub'', ''    jmpl  '' @ lab ''long_done'',
              lab ''long_sub'' @ '':'', ''    ret   s4'', lab ''long_done'' @ '':'', ''    cli''] @ ls @
             [''    mts   s0, r3'', ''    reti  s0'', lab ''after_reti'' @ '':'', ''    sti''])))"

definition cover_full_rc32 :: "string list" where
  "cover_full_rc32 =
     concat (map (\<lambda>amount. [''    slli  r4, r2, '' @ fmt_d amount, ''    srli  r4, r2, '' @ fmt_d amount,
                            ''    srai  r4, r2, '' @ fmt_d amount]) [1, 2, 3, 4, 5, 6, 7, 8]) @
     [''    mul   r4, r1, r2'']"

definition cover_mulhu_rc32 :: "string list gen" where
  "cover_mulhu_rc32 =
     bindG (literal_value ''r1'' 0xffffffff) (\<lambda>l1.
     bindG (literal_value ''r1'' 0x80000000) (\<lambda>l2.
       retG (l1 @ [''    mulhu r3, r1, r1''] @ l2 @
             [''    ldi   r3, 2'', ''    mulhu r3, r1, r3'', ''    ldi   r0, 1'',
              ''    mulhu r3, r0, r0'', ''    mulhu r0, r1, r3''])))"

definition cover_divu_rc32 :: "string list gen" where
  "cover_divu_rc32 =
     bindG (literal_value ''r3'' 0x12345678) (\<lambda>l1.
     bindG (literal_value ''r1'' 0x9abcdef0) (\<lambda>l2.
     bindG (literal_value ''r2'' 0x80000001) (\<lambda>l3.
       retG (l1 @ l2 @ l3 @ [''    divu  r3, r1, r2'']))))"

definition supported_isa_ops_rc32 :: "config \<Rightarrow> string list gen" where
  "supported_isa_ops_rc32 cfg =
     bindG (cover_labels_rc32 [''beq'', ''bne'', ''blt'', ''bge'', ''after_jmp'', ''jump_literal'']) (\<lambda>lab.
     bindG (if cf_sys cfg then cover_sys_rc32 else retG []) (\<lambda>sys.
     bindG (if cf_mulhu cfg then cover_mulhu_rc32 else retG []) (\<lambda>mulhu.
     bindG (if cf_divu cfg then cover_divu_rc32 else retG []) (\<lambda>divu.
       retG (cover_base_rc32 lab @ sys @ (if cf_full cfg then cover_full_rc32 else []) @ mulhu @ divu)))))"

section \<open>Programs\<close>

definition window_word_rc32 :: "int \<Rightarrow> string list gen" where
  "window_word_rc32 w =
     bindG (getrandbits 32) (\<lambda>v. bindG (literal_value ''r1'' v) (\<lambda>ls.
       retG (ls @ [''    st    r1, [r7 + '' @ fmt_d (w * 4) @ '']''])))"

definition body_step_rc32 :: "config \<Rightarrow> string list gen" where
  "body_step_rc32 cfg =
     bindG random (\<lambda>chance.
       if chance < prob 55 then simple_op_rc32 cfg None
       else if chance < prob 76 then op_mem_rc32
       else if chance < prob 90 then op_branch_block_rc32 cfg
       else if cf_sys cfg \<and> chance < prob 95 then op_ie_window_rc32 cfg
       else op_loop_rc32 cfg)"

definition body_call_rc32 :: "(string list \<times> string \<times> string list) gen" where
  "body_call_rc32 =
     bindG (new_label_rc32 ''sub'') (\<lambda>sub.
     bindG (new_label_rc32 ''sub_literal'') (\<lambda>literal.
     bindG (new_label_rc32 ''after_sub_literal'') (\<lambda>after.
       retG ([''    ldpc  r4, '' @ literal, ''    jalr  s3, r4'', ''    jmp8  '' @ after,
              ''    .balign 4'', literal @ '':'', ''    .long '' @ sub, after @ '':'',
              ''    ldi   r4, 0''],
             sub, [''    add   r5, r5, r5'', ''    ret   s3'']))))"

definition rc32_body :: "config \<Rightarrow> (string list \<times> string \<times> string list) gen" where
  "rc32_body cfg =
     bindG (literal_value ''r7'' RC32_WIN) (\<lambda>base.
     bindG (concatG window_word_rc32 (map int [0..<nat RC32_WIN_WORDS])) (\<lambda>window.
     bindG (supported_isa_ops_rc32 cfg) (\<lambda>cover.
     bindG (randint 20 32) (\<lambda>n.
     bindG (repeatG (nat n) (body_step_rc32 cfg)) (\<lambda>ls.
     bindG body_call_rc32 (\<lambda>(call, sub, sub_body).
       retG (base @ window @ cover @ ls @ call, sub, sub_body)))))))"

definition store_result :: "int \<Rightarrow> string list gen" where
  "store_result value =
     bindG (literal_value ''r7'' value) (\<lambda>l1. bindG (literal_value ''r6'' RESULT) (\<lambda>l2.
       retG (l1 @ l2 @ [''    sth   r7, [r6]'', ''    halt''])))"

definition check_reg_rc32 :: "string \<Rightarrow> int \<Rightarrow> int \<Rightarrow> string list gen" where
  "check_reg_rc32 r value code =
     bindG (new_label_rc32 ''check_ok'') (\<lambda>ok.
     bindG (literal_value ''r7'' value) (\<lambda>ls.
     bindG (store_result code) (\<lambda>res.
       retG (ls @ [''    sub   r0, '' @ r @ '', r7'', ''    beqz  '' @ ok] @ res @ [ok @ '':'']))))"

definition emit_head_rc32 :: "config \<Rightarrow> int \<Rightarrow> string \<Rightarrow> string list gen" where
  "emit_head_rc32 cfg seed config =
     bindG (if cf_sys cfg
            then mapG (\<lambda>ls.
              [''    jall  s7, start'', ''    jmpl  .irq_handler'', ''.irq_handler:'',
               ''    mts   s1, r0'', ''    mts   s2, r1''] @ ls @
              [''    ldh   r0, [r1]'', ''    mfs   r1, s2'', ''    mfs   r0, s1'', ''    reti  s0''])
              (literal_value ''r1'' TEST_IRQ)
            else retG []) (\<lambda>vectors.
       retG ([''; generated by riscc_fuzz.py seed='' @ fmt_d seed @ '' family=rc32 config='' @ config,
              ''.text'', ''.globl start''] @ vectors @ [''start:''] @
             (if cf_sys cfg then [''    ldi   r0, 0'', ''    mts   s6, r0'', ''    sti''] else [])))"

fun numbered_gen :: "int \<Rightarrow> (int \<Rightarrow> string list gen) list \<Rightarrow> string list gen" where
  "numbered_gen code [] = retG []"
| "numbered_gen code (f # fs) =
     bindG (f (code + 1)) (\<lambda>ls. mapG ((@) ls) (numbered_gen (code + 1) fs))"

definition tail_checks_rc32 :: "config \<Rightarrow> expect_s \<Rightarrow> (int \<Rightarrow> string list gen) list" where
  "tail_checks_rc32 cfg e =
     map (\<lambda>k code. bindG (liftG (py_nth (ex_r e) k)) (\<lambda>v. check_reg_rc32 (''r'' @ fmt_d k) v code))
       [1, 2, 3, 4, 5] @
     map (\<lambda>k code. bindG (liftG (py_nth (ex_s e) k)) (\<lambda>v.
            mapG (\<lambda>ls. [''    mfs   r6, s'' @ fmt_d k] @ ls) (check_reg_rc32 ''r6'' v code)))
       (if cf_sys cfg then [3, 4, 5, 6] else [3, 4, 5]) @
     map (\<lambda>w code. bindG (literal_value ''r7'' (RC32_WIN + w * 4)) (\<lambda>base.
            bindG (liftG (py_nth (ex_mem e) w)) (\<lambda>v.
            mapG (\<lambda>ls. base @ [''    ld    r6, [r7 + 0]''] @ ls) (check_reg_rc32 ''r6'' v code))))
       (ex_probes e)"

definition emit_tail_rc32 :: "config \<Rightarrow> expect_s option \<Rightarrow> string list gen" where
  "emit_tail_rc32 cfg expect =
     bindG (case expect of None \<Rightarrow> retG [] | Some e \<Rightarrow> numbered_gen FAILBASE (tail_checks_rc32 cfg e)) (\<lambda>checks.
     bindG (store_result 0x600D) (\<lambda>pass.
       retG ([''    mts   s4, r6'', ''    mts   s5, r7''] @ checks @ pass)))"

definition emit_lines_rc32 :: "config \<Rightarrow> int \<Rightarrow> string \<Rightarrow> expect_s option \<Rightarrow> string list gen" where
  "emit_lines_rc32 cfg seed config expect =
     bindG (emit_head_rc32 cfg seed config) (\<lambda>head.
     bindG (rc32_body cfg) (\<lambda>(body, sub, sub_body).
     bindG (if cf_sys cfg
            then mapG (\<lambda>ls. ls @ [''    sth   r7, [r7]'']) (literal_value ''r7'' IRQ_MARKER)
            else retG []) (\<lambda>marker.
     bindG (emit_tail_rc32 cfg expect) (\<lambda>tail.
       retG (head @ body @ marker @ tail @ [sub @ '':''] @ sub_body)))))"

definition emit_rc32 ::
  "(int \<Rightarrow> nat \<Rightarrow> int) \<Rightarrow> config \<Rightarrow> int \<Rightarrow> string \<Rightarrow> expect_s option \<Rightarrow> (py_error, string \<times> gst) result option" where
  "emit_rc32 random_of cfg seed config expect =
     mapG (\<lambda>ls. py_join ''\<newline>'' ls @ ''\<newline>'') (emit_lines_rc32 cfg seed config expect) (reset_gen random_of seed)"

end
