(* ===== verification/FuzzLines.thy ===== *)
theory FuzzLines
  imports FuzzGen AsmText AsmParse
begin

text \<open>
  How the assembler reads the lines the generators write: an indented mnemonic, blanks and a
  comma-separated operand list is exactly one instruction item, and the operand texts the
  generators use are read back as the registers and numbers they were printed from.
\<close>

section \<open>Instruction lines\<close>

definition plain_char :: "char \<Rightarrow> bool" where
  "plain_char c \<longleftrightarrow> ident_char c \<or> c \<in> {CHR ''-'', CHR ''+'', CHR ''['', CHR '']''}"

text \<open>The generators write register names in lower case, so no operand starts with \<open>R\<close>.\<close>

definition plain_operand :: "string \<Rightarrow> bool" where
  "plain_operand s \<longleftrightarrow> s \<noteq> [] \<and> hd s \<noteq> CHR ''R'' \<and> list_all plain_char s \<and> depth_after 0 s = Some 0"

definition mnemonic :: "string \<Rightarrow> bool" where
  "mnemonic op \<longleftrightarrow> op \<noteq> [] \<and> is_upper (hd op) \<and> list_all (\<lambda>c. is_upper c \<or> is_digit c) op"

text \<open>The text of an instruction, with \<open>k\<close> blanks before the operands.\<close>

definition insn_text :: "string \<Rightarrow> nat \<Rightarrow> string list \<Rightarrow> string" where
  "insn_text op k ops = ''    '' @ op @ replicate k CHR '' '' @ py_join '', '' ops"

definition insn_shape :: "string \<Rightarrow> string \<times> string list \<Rightarrow> bool" where
  "insn_shape l i = (case i of (op, ops) \<Rightarrow> mnemonic op \<and> list_all plain_operand ops \<and>
     (\<exists>k. l = insn_text op k ops \<and> (k = 0 \<longleftrightarrow> ops = [])))"

lemma char_codes:
  "ccode CHR ''-'' = 45" "ccode CHR ''+'' = 43" "ccode CHR ''['' = 91" "ccode CHR '']'' = 93"
  "ccode CHR '';'' = 59" "ccode CHR ''#'' = 35" "ccode CHR '':'' = 58" "ccode CHR '','' = 44"
  "ccode CHR '' '' = 32" "ccode CHR ''.'' = 46" "ccode CHR ''_'' = 95" "ccode dquote = 34"
  "ccode squote = 39" "ccode CHR 0x0A = 10" "ccode CHR 0x22 = 34" "ccode CHR 0x27 = 39"
  by (simp_all add: ccode_def dquote_def squote_def)

lemma plain_char_facts:
  assumes "plain_char c"
  shows "\<not> py_space c" "\<not> is_quote c" "c \<noteq> CHR '';''" "c \<noteq> CHR ''#''" "c \<noteq> CHR '':''" "c \<noteq> CHR '',''"
    "c \<noteq> CHR '' ''" "c \<noteq> CHR ''.''" "c \<noteq> CHR 0x0A"
  using assms
  by (auto simp: plain_char_def char_class_defs is_quote_def char_codes dquote_def squote_def)

lemma mnemonic_chars:
  "is_upper c \<or> is_digit c \<Longrightarrow> plain_char c \<and> ident_char c \<and> upper_char c = c"
  by (auto simp: plain_char_def ident_char_def ident_start_def upper_char_def is_upper_def is_lower_def
      is_digit_def)

lemma plain_operand_text: "plain_operand s \<Longrightarrow> operand_text s"
  unfolding plain_operand_def operand_text_def trimmed_def
  by (metis hd_in_set last_in_set list_all_iff plain_char_facts(1))

text \<open>Characters a line may consist of: no quote and no comment starts among them.\<close>

definition line_char :: "char \<Rightarrow> bool" where
  "line_char c \<longleftrightarrow> \<not> is_quote c \<and> c \<noteq> CHR '';'' \<and> c \<noteq> CHR ''#''"

lemma strip_loop_line: "list_all line_char s \<Longrightarrow> strip_loop None False s = s"
  by (induction s) (auto simp: line_char_def)

lemma line_char_plain: "plain_char c \<Longrightarrow> line_char c"
  using plain_char_facts by (simp add: line_char_def)

lemma line_char_blank: "line_char CHR '' ''" "line_char CHR '',''" "line_char CHR '':''"
  by (simp_all add: line_char_def is_quote_def dquote_def squote_def)

lemma join_chars:
  "list_all (list_all P) ops \<Longrightarrow> P CHR '','' \<Longrightarrow> P CHR '' '' \<Longrightarrow> list_all P (py_join '', '' ops)"
  by (induction "'', '' :: string" ops rule: py_join.induct) auto

lemma py_join_cons: "ops \<noteq> [] \<Longrightarrow> py_join sep (x # ops) = x @ sep @ py_join sep ops"
  by (cases ops) auto

lemma join_ends_plain:
  "ops \<noteq> [] \<Longrightarrow> list_all plain_operand ops \<Longrightarrow>
   py_join '', '' ops \<noteq> [] \<and> plain_char (hd (py_join '', '' ops)) \<and> plain_char (last (py_join '', '' ops))"
proof (induction "'', '' :: string" ops rule: py_join.induct)
  case (2 x)
  then show ?case by (auto simp: plain_operand_def list_all_iff)
next
  case (3 x y ys)
  then show ?case by (auto simp: plain_operand_def list_all_iff hd_append)
qed simp

lemma lstrip_Nil [simp]: "lstrip [] = []"
  by (simp add: lstrip_def)

lemma lstrip_blanks: "lstrip (replicate n CHR '' '' @ s) = lstrip s"
  by (induction n) (auto simp: lstrip_def py_space_def char_codes)

lemma strip_indented:
  assumes "s \<noteq> []" "\<not> py_space (hd s)" "\<not> py_space (last s)"
  shows "py_strip (replicate n CHR '' '' @ s) = s"
  using assms by (simp add: py_strip_def lstrip_blanks lstrip_id rstrip_id)

lemma insn_text_body:
  assumes "mnemonic op" "list_all plain_operand ops" "k = 0 \<longleftrightarrow> ops = []"
  defines "b \<equiv> op @ replicate k CHR '' '' @ py_join '', '' ops"
  shows "b \<noteq> [] \<and> \<not> py_space (hd b) \<and> \<not> py_space (last b) \<and> list_all line_char b"
proof -
  have op: "op \<noteq> []" "list_all plain_char op"
    using assms(1) mnemonic_chars by (auto simp: mnemonic_def list_all_iff)
  have ops: "list_all (list_all plain_char) ops"
    using assms(2) by (auto simp: plain_operand_def list_all_iff)
  have hd: "plain_char (hd b)" using op by (auto simp: b_def list_all_iff)
  have last: "plain_char (last b)"
    using op join_ends_plain [OF _ assms(2)] assms(3) by (cases ops) (auto simp: b_def list_all_iff)
  have "list_all line_char (py_join '', '' ops)"
    by (rule join_chars) (use ops in \<open>auto simp: list_all_iff intro: line_char_plain line_char_blank\<close>)
  moreover have "list_all line_char (replicate k CHR '' '')" by (simp add: list_all_iff line_char_blank)
  ultimately have "list_all line_char b"
    using op line_char_plain by (auto simp: b_def list_all_iff)
  then show ?thesis using hd last op plain_char_facts(1) by (simp add: b_def)
qed

lemma strip_insn_text:
  assumes "mnemonic op" "list_all plain_operand ops" "k = 0 \<longleftrightarrow> ops = []"
  shows "strip_comment (insn_text op k ops) = op @ replicate k CHR '' '' @ py_join '', '' ops"
proof -
  let ?b = "op @ replicate k CHR '' '' @ py_join '', '' ops"
  note b = insn_text_body [OF assms]
  have "insn_text op k ops = replicate 4 CHR '' '' @ ?b" by (simp add: insn_text_def numeral_eq_Suc)
  moreover have "list_all line_char (replicate 4 CHR '' '' @ ?b)"
    using b by (simp add: line_char_blank list_all_iff)
  ultimately show ?thesis
    unfolding strip_comment_def
    using strip_loop_line [of "insn_text op k ops"] strip_indented [of ?b 4] b by simp
qed

lemma take_while_mnemonic:
  assumes "mnemonic op" "k = 0 \<longrightarrow> rest = []" "\<not> P CHR '' ''"
    and "\<And>c. is_upper c \<or> is_digit c \<Longrightarrow> P c"
  shows "takeWhile P (op @ replicate k CHR '' '' @ rest) = op"
    and "dropWhile P (op @ replicate k CHR '' '' @ rest) = replicate k CHR '' '' @ rest"
proof -
  have "\<forall>c \<in> set op. P c" using assms(1,4) by (auto simp: mnemonic_def list_all_iff)
  moreover have "takeWhile P (replicate k CHR '' '' @ rest) = []"
    "dropWhile P (replicate k CHR '' '' @ rest) = replicate k CHR '' '' @ rest"
    using assms(2,3) by (cases k; simp)+
  ultimately show "takeWhile P (op @ replicate k CHR '' '' @ rest) = op"
    "dropWhile P (op @ replicate k CHR '' '' @ rest) = replicate k CHR '' '' @ rest"
    by (simp_all add: takeWhile_append2 dropWhile_append2)
qed

text \<open>One line, one instruction item with the mnemonic and the operands that were printed.\<close>

lemma source_insn_line:
  assumes "insn_shape l (op, ops)"
  shows "source_line n l st = Inr (add_item INSN op ops (insn_size op ops) n l st)"
proof -
  from assms obtain k where l: "l = insn_text op k ops" "k = 0 \<longleftrightarrow> ops = []"
    and op: "mnemonic op" and ops: "list_all plain_operand ops"
    by (auto simp: insn_shape_def)
  define j where "j = py_join '', '' ops"
  define b where "b = op @ replicate k CHR '' '' @ j"
  have strip: "strip_comment l = b" using strip_insn_text [OF op ops l(2)] by (simp add: l b_def j_def)
  have b: "b \<noteq> []" "\<not> py_space (hd b)" using insn_text_body [OF op ops l(2)] by (simp_all add: b_def j_def)
  obtain c cs where c: "op = c # cs" "is_upper c" using op by (cases op) (auto simp: mnemonic_def)
  have k0: "k = 0 \<longrightarrow> j = []" using l(2) by (simp add: j_def)
  have j: "j \<noteq> [] \<Longrightarrow> plain_char (hd j) \<and> lstrip j = j"
    using join_ends_plain [OF _ ops] lstrip_id [of j] plain_char_facts(1) by (cases ops) (auto simp: j_def)
  have "match_ident b = Some (op, replicate k CHR '' '' @ j)"
  proof -
    have "ident_start c" using c(2) by (simp add: ident_start_def)
    moreover have "takeWhile ident_char b = op" "dropWhile ident_char b = replicate k CHR '' '' @ j"
      unfolding b_def by (rule take_while_mnemonic [OF op k0]; use mnemonic_chars in
          \<open>auto simp: ident_char_def ident_start_def is_upper_def is_lower_def is_digit_def char_codes\<close>)+
    moreover have "b = c # cs @ replicate k CHR '' '' @ j" by (simp add: b_def c(1))
    moreover have "ident_char c" using c(2) by (simp add: ident_char_def ident_start_def)
    ultimately show ?thesis by (simp add: match_ident_def c(1))
  qed
  moreover have "lstrip (replicate k CHR '' '' @ j) = j"
    using j by (cases "j = []") (simp_all add: lstrip_blanks lstrip_blanks [of k "[]", simplified])
  moreover have "j \<noteq> [] \<Longrightarrow> hd j \<noteq> CHR '':''" using j plain_char_facts(5) by blast
  ultimately have label: "match_label b = None"
    by (cases j) (auto simp: match_label_def)
  have split: "split1 b = (if ops = [] then [op] else [op, j])"
  proof -
    have lb: "lstrip b = b" by (rule lstrip_id) (use b in simp)
    have tw: "takeWhile (\<lambda>c. \<not> py_space c) b = op"
      "dropWhile (\<lambda>c. \<not> py_space c) b = replicate k CHR '' '' @ j"
      unfolding b_def by (rule take_while_mnemonic [OF op k0]; use mnemonic_chars plain_char_facts(1) in
          \<open>auto simp: py_space_def char_codes\<close>)+
    have "lstrip (replicate k CHR '' '' @ j) = j"
      using j by (cases "j = []") (simp_all add: lstrip_blanks lstrip_blanks [of k "[]", simplified])
    moreover have "j = [] \<longleftrightarrow> ops = []"
      using join_ends_plain [OF _ ops] by (auto simp: j_def)
    ultimately show ?thesis using b by (simp add: split1_def Let_def lb tw)
  qed
  have up: "py_upper op = op"
    using op mnemonic_chars by (auto simp: py_upper_def mnemonic_def list_all_iff intro: map_idI)
  have sp: "split_operands j = ops"
    unfolding j_def by (rule split_join_operands)
      (use ops plain_operand_text in \<open>auto simp: list_all_iff\<close>)
  have dot: "\<not> startswith b ''.''"
    using c by (auto simp: b_def startswith_def is_upper_def char_codes)
  have "insn_line n l b st = add_item INSN op ops (insn_size op ops) n l st"
    using up sp by (simp add: insn_line_def split Let_def)
  then show ?thesis
    using b(1) dot by (simp add: source_line_def strip label_loop.simps [of _ _ _ b] label Let_def)
qed

section \<open>Operands\<close>

lemma reg_operands:
  "list_all (\<lambda>n. plain_operand (rname n) \<and> reg (rname n) = Inr n \<and>
     plain_operand (''S'' @ fmt_d n) \<and> sreg (''S'' @ fmt_d n) = Inr n) [0, 1, 2, 3, 4, 5, 6, 7]"
  by code_simp

lemma reg_operand:
  assumes "0 \<le> n" "n \<le> 7"
  shows "plain_operand (rname n)" "reg (rname n) = Inr n" "plain_operand (''S'' @ fmt_d n)"
    "sreg (''S'' @ fmt_d n) = Inr n"
proof -
  have "n \<in> {0, 1, 2, 3, 4, 5, 6, 7}" using assms by auto
  then have "plain_operand (rname n) \<and> reg (rname n) = Inr n \<and>
     plain_operand (''S'' @ fmt_d n) \<and> sreg (''S'' @ fmt_d n) = Inr n"
    using reg_operands by (elim insertE) simp_all
  then show "plain_operand (rname n)" "reg (rname n) = Inr n" "plain_operand (''S'' @ fmt_d n)"
    "sreg (''S'' @ fmt_d n) = Inr n" by simp_all
qed

text \<open>A number is read back from its decimal and from its hexadecimal text.\<close>

lemma eval_token:
  assumes "trimmed t" "t \<noteq> []" "\<not> is_quote (hd t)" "lex t = Inr ts" "parse True [] [] ts = Inr e"
  shows "eval_expr t labels = visit t labels e"
proof -
  have "\<not> char_literal t" using assms(2,3) by (cases t) (auto simp: char_literal_def startswith_def is_quote_def)
  then show ?thesis
    using assms(4,5) by (simp add: eval_expr_def py_strip_trimmed_id [OF assms(1)] ast_parse_def)
qed

lemma plain_trimmed: "s \<noteq> [] \<Longrightarrow> list_all plain_char s \<Longrightarrow> trimmed s \<and> \<not> is_quote (hd s)"
  unfolding trimmed_def by (metis hd_in_set last_in_set list_all_iff plain_char_facts(1,2))

lemma no_bracket_depth:
  "list_all (\<lambda>c. ident_char c \<or> c = CHR ''-'' \<or> c = CHR ''+'') s \<Longrightarrow> depth_after d s = Some d"
proof (induction s)
  case (Cons c s)
  then have "plain_char c" "c \<noteq> CHR ''['' \<and> c \<noteq> CHR '']''"
    by (auto simp: plain_char_def char_class_defs char_codes)
  then show ?case using Cons plain_char_facts(6) by auto
qed simp

lemma plain_operandI:
  assumes "s \<noteq> []" "hd s \<noteq> CHR ''R''" "list_all (\<lambda>c. ident_char c \<or> c = CHR ''-'' \<or> c = CHR ''+'') s"
  shows "plain_operand s"
  using assms no_bracket_depth [OF assms(3)] by (auto simp: plain_operand_def list_all_iff plain_char_def)

lemma plain_mem:
  assumes "list_all (\<lambda>c. ident_char c \<or> c = CHR ''-'' \<or> c = CHR ''+'') s"
  shows "plain_operand (''['' @ s @ '']'')"
proof -
  have "depth_after d (s @ '']'') = Some (d - 1)" if "d \<noteq> 0" for d
    using assms that
  proof (induction s)
    case (Cons c s)
    then have "plain_char c" "c \<noteq> CHR ''['' \<and> c \<noteq> CHR '']''"
      by (auto simp: plain_char_def char_class_defs char_codes)
    then show ?case using Cons plain_char_facts(6) by auto
  qed simp
  then show ?thesis using assms by (auto simp: plain_operand_def list_all_iff plain_char_def)
qed

lemma dec_ident: "list_all ident_char (dec_str n)"
  using dec_str_digits [of n] by (auto simp: list_all_iff ident_char_def)

lemma dec_hd: "hd (dec_str n) \<noteq> CHR ''R''"
  using dec_str_digits [of n] by (cases "dec_str n") (auto simp: is_digit_def ccode_def)

lemma eval_dec: "eval_expr (fmt_d v) labels = Inr v" "plain_operand (fmt_d v)"
proof -
  show pl: "plain_operand (fmt_d v)"
    using dec_ident dec_hd by (auto intro!: plain_operandI simp: fmt_d_def list_all_iff)
  then have t: "trimmed (fmt_d v)" "\<not> is_quote (hd (fmt_d v))" "fmt_d v \<noteq> []"
    using plain_trimmed by (auto simp: plain_operand_def)
  have num: "lex (dec_str n) = Inr [TNum (int n)]" for n
    using lex_number [of "[]" n] by (simp add: separated_def lex.simps [of "[]"])
  show "eval_expr (fmt_d v) labels = Inr v"
  proof (cases "v < 0")
    case True
    have "lex (CHR ''-'' # dec_str (nat (- v))) = Inr [TMinus, TNum (- v)]"
      using num [of "nat (- v)"] True
      by (subst lex.simps) (simp add: op_tok_def py_blank_def char_class_defs char_codes)
    moreover have "parse True [] [] [TMinus, TNum (- v)] = Inr (UnaryOp USub (Constant (- v)))"
      by code_simp
    ultimately show ?thesis using eval_token [OF t(1,3,2)] True by (simp add: fmt_d_def)
  next
    case False
    have "parse True [] [] [TNum v] = Inr (Constant v)" by code_simp
    then show ?thesis
      using eval_token [OF t(1,3,2), of "[TNum v]"] num [of "nat v"] False by (simp add: fmt_d_def)
  qed
qed

lemma hex_digit_val:
  assumes "n < 16"
  shows "hex_val (hex_digit n) = Some n \<and> word_char (hex_digit n) \<and> ident_char (hex_digit n)"
proof -
  have "ccode (hex_digit n) = (if n < 10 then 48 + n else 55 + n)"
    using assms by (simp add: hex_digit_def ccode_cchr)
  then show ?thesis
    using assms by (auto simp: hex_val_def word_char_def char_class_defs)
qed

lemma number_of_snoc: "number_of b (ds @ [d]) = int b * number_of b ds + int d"
  by (simp add: number_of_def)

lemma hex_str_digits:
  "\<exists>ns. hex_str n = map hex_digit ns \<and> ns \<noteq> [] \<and> list_all (\<lambda>d. d < 16) ns \<and> number_of 16 ns = int n"
proof (induction n rule: less_induct)
  case (less n)
  show ?case
  proof (cases "n < 16")
    case True
    then have "hex_str n = map hex_digit [n]" by (subst hex_str.simps) simp
    then show ?thesis using True by (intro exI [of _ "[n]"]) (simp add: number_of_def)
  next
    case False
    then obtain ns where ns: "hex_str (n div 16) = map hex_digit ns" "ns \<noteq> []" "list_all (\<lambda>d. d < 16) ns"
      "number_of 16 ns = int (n div 16)" using less [of "n div 16"] by auto
    then have "hex_str n = map hex_digit (ns @ [n mod 16])" using False by (subst hex_str.simps) simp
    moreover have "number_of 16 (ns @ [n mod 16]) = int n"
      using ns(4) by (simp add: number_of_snoc zdiv_int zmod_int)
    ultimately show ?thesis using ns by (intro exI [of _ "ns @ [n mod 16]"]) simp
  qed
qed

lemma number_of_zeros: "number_of b (replicate k 0 @ ns) = number_of b ns"
  by (induction k) (simp_all add: number_of_def)

lemma fmt_0X_digits:
  assumes "0 \<le> v"
  shows "\<exists>ns. fmt_0X w v = map hex_digit ns \<and> ns \<noteq> [] \<and> list_all (\<lambda>d. d < 16) ns \<and> number_of 16 ns = v"
proof -
  obtain ns where ns: "hex_str (nat v) = map hex_digit ns" "ns \<noteq> []" "list_all (\<lambda>d. d < 16) ns"
    "number_of 16 ns = v" using hex_str_digits [of "nat v"] assms by auto
  have "hex_digit 0 = CHR ''0''" by code_simp
  then have "fmt_0X w v = map hex_digit (replicate (w - length ns) 0 @ ns)"
    using assms ns(1) by (simp add: fmt_0X_def Let_def)
  then show ?thesis using ns number_of_zeros
    by (intro exI [of _ "replicate (w - length ns) 0 @ ns"])
      (auto simp: list_all_iff set_replicate_conv_if split: if_splits)
qed

lemma eval_hex:
  assumes "0 \<le> v"
  shows "eval_expr (''0x'' @ fmt_0X w v) labels = Inr v" "plain_operand (''0x'' @ fmt_0X w v)"
proof -
  obtain ns where ns: "fmt_0X w v = map hex_digit ns" "ns \<noteq> []" "list_all (\<lambda>d. d < 16) ns"
    "number_of 16 ns = v" using fmt_0X_digits [OF assms] by blast
  have chars: "list_all (\<lambda>c. word_char c \<and> ident_char c) (''0x'' @ map hex_digit ns)"
    using ns(3) hex_digit_val
    by (auto simp: list_all_iff word_char_def ident_char_def ident_start_def is_digit_def is_lower_def ccode_def)
  then show pl: "plain_operand (''0x'' @ fmt_0X w v)"
    unfolding ns(1) by (intro plain_operandI) (auto simp: list_all_iff)
  have "digits_of 16 (map hex_digit ns) = Some ns"
    using ns(2,3) hex_digit_val by (auto simp: digits_of_def list_all_iff intro!: map_idI)
  then have num: "num_lit (''0x'' @ map hex_digit ns) = Inr v" by (simp add: num_lit_def ns(4))
  have tw: "takeWhile word_char (''x'' @ map hex_digit ns) = ''x'' @ map hex_digit ns"
    "dropWhile word_char (''x'' @ map hex_digit ns) = []"
    using chars by (auto simp: list_all_iff takeWhile_eq_all_conv)
  have "lex (''0x'' @ map hex_digit ns) = Inr [TNum v]"
    using num tw by (subst lex.simps)
      (simp add: py_blank_def is_digit_def ccode_def lex.simps [of "[]"])
  moreover have "parse True [] [] [TNum v] = Inr (Constant v)" by code_simp
  ultimately show "eval_expr (''0x'' @ fmt_0X w v) labels = Inr v"
    using eval_token [of "''0x'' @ fmt_0X w v"] plain_trimmed [of "''0x'' @ fmt_0X w v"] pl
    by (simp add: ns(1) plain_operand_def)
qed

text \<open>A generated operand that reads as a register is that register's name.\<close>

lemma plain_reg:
  assumes "plain_operand x" "reg x = Inr n"
  shows "x = rname n"
proof -
  have "py_strip x = x"
    using plain_trimmed [of x] assms(1) py_strip_trimmed_id by (auto simp: plain_operand_def)
  then have "map_of REGS (py_upper x) = Some n" using assms(2) by (simp add: reg_def split: option.splits)
  then have "(py_upper x, n) \<in> set REGS" by (rule map_of_SomeD)
  then have "py_upper x = CHR ''R'' # dec_str (nat n) \<and> rname n = CHR ''r'' # dec_str (nat n) \<and>
      length (dec_str (nat n)) = 1"
    unfolding REGS_def list.set insert_iff empty_iff prod.inject
    by (elim disjE conjE FalseE; simp add: rname_def fmt_d_def; code_simp)
  moreover obtain a t where x: "x = a # t" "a \<noteq> CHR ''R''"
    using assms(1) by (cases x) (auto simp: plain_operand_def)
  ultimately have u: "upper_char a = CHR ''R''" "map upper_char t = dec_str (nat n)" "rname n = CHR ''r'' # dec_str (nat n)"
    by (auto simp: py_upper_def)
  have "is_lower a" using u(1) x(2) by (auto simp: upper_char_def split: if_splits)
  have "ccode (upper_char a) = ccode a - 32"
    using \<open>is_lower a\<close> ccode_cchr [of "ccode a - 32"] by (auto simp: upper_char_def is_lower_def)
  moreover have "ccode CHR ''R'' = 82" "ccode CHR ''r'' = 114" by (simp_all add: ccode_def)
  ultimately have "ccode a = ccode CHR ''r''" using u(1) \<open>is_lower a\<close> by (simp add: is_lower_def)
  then have "a = CHR ''r''" by (simp only: ccode_def of_char_eq_iff)
  moreover have "upper_char c = d \<Longrightarrow> is_digit d \<Longrightarrow> c = d" for c d
    by (auto simp: upper_char_def is_lower_def is_digit_def ccode_cchr split: if_splits)
  then have "upper_char c = c" if "c \<in> set t" for c
    using u(2) dec_str_digits [of "nat n"] that by (metis (no_types) in_set_conv_nth length_map list_all_iff nth_map)
  then have "t = dec_str (nat n)" using u(2) by (simp add: map_idI)
  ultimately show ?thesis using x u(3) by simp
qed

end
