(* ===== verification/FuzzAccept.thy ===== *)
theory FuzzAccept
  imports FuzzLines AsmEncodeFacts
begin

text \<open>
  The generated instructions are accepted by the assembler: one lemma per family of mnemonics,
  for the operands the generators use, whatever the labels and the address.
\<close>

section \<open>Dispatch\<close>

text \<open>The branches, whose range is limited, and the long jumps, whose second halfword is an address.\<close>

definition branch_ops :: "string set" where
  "branch_ops = {''BEQZ'', ''BNEZ'', ''BLTZ'', ''BGEZ'', ''JMP8''}"

definition jump_ops :: "string set" where
  "jump_ops = {''JALL'', ''JMPL'', ''JAL16'', ''JMP16'', ''BEQZ'', ''BNEZ'', ''BLTZ'', ''BGEZ'', ''JMP8''}"

definition accept :: "string \<times> string list \<Rightarrow> bool" where
  "accept i = (case i of (op, ops) \<Rightarrow>
     op \<notin> jump_ops \<and> (\<forall>labels pc iflush. \<exists>bs. encode_insn op ops labels pc iflush = Inr bs))"

lemmas dispatch = encode_insn_def Let_def py_upper_def upper_char_def is_lower_def ccode_def
  MNEMONIC_ALIASES_def has_key_def I_OP_def BR_CC_def

definition alu3_ops :: "string list" where
  "alu3_ops = [''ADD'', ''SUB'', ''AND'', ''OR'', ''XOR'', ''SLT'', ''SLTU'', ''MUL'', ''DIVU'', ''MULHU'']"

lemma encode_alu3: "op \<in> set alu3_ops \<Longrightarrow> encode_insn op os labels pc iflush = enc_alu3 op os"
  unfolding alu3_ops_def list.set insert_iff empty_iff
  by (elim disjE FalseE) (simp_all add: dispatch)

definition imm_ops :: "string list" where
  "imm_ops = [''LDI'', ''LUI'', ''ADDI'', ''CMPI'', ''ANDI'', ''ORI'', ''XORI'']"

lemma encode_imm: "op \<in> set imm_ops \<Longrightarrow> encode_insn op os labels pc iflush = enc_imm op os labels"
  unfolding imm_ops_def list.set insert_iff empty_iff
  by (elim disjE FalseE) (simp_all add: dispatch)

definition shift_ops :: "string list" where
  "shift_ops = [''SRLI'', ''SRAI'', ''SLLI'']"

lemma encode_shift: "op \<in> set shift_ops \<Longrightarrow> encode_insn op os labels pc iflush = enc_shift op os labels"
  unfolding shift_ops_def list.set insert_iff empty_iff
  by (elim disjE FalseE) (simp_all add: dispatch)

lemma encode_one:
  "encode_insn ''LDI16'' os labels pc iflush = enc_ldi16 ''LDI16'' os labels"
  "encode_insn ''MTS'' os labels pc iflush = enc_sbank ''MTS'' os"
  "encode_insn ''MFS'' os labels pc iflush = enc_sbank ''MFS'' os"
  "encode_insn ''LD'' os labels pc iflush = enc_ld_st ''LD'' os labels"
  "encode_insn ''ST'' os labels pc iflush = enc_ld_st ''ST'' os labels"
  "encode_insn ''LDB'' os labels pc iflush = enc_byte ''LDB'' os"
  "encode_insn ''LDBS'' os labels pc iflush = enc_byte ''LDBS'' os"
  "encode_insn ''STB'' os labels pc iflush = enc_byte ''STB'' os"
  "encode_insn ''CLI'' os labels pc iflush = enc_control ''CLI'' os"
  "encode_insn ''STI'' os labels pc iflush = enc_control ''STI'' os"
  "encode_insn ''MOV'' os labels pc iflush = enc_mov ''MOV'' os"
  "encode_insn ''JALR'' os labels pc iflush = enc_jalr ''JALR'' os"
  "encode_insn ''RET'' os labels pc iflush = enc_ret ''RET'' os"
  by (simp_all add: dispatch)

section \<open>Operands that are registers\<close>

definition is_reg :: "string \<Rightarrow> bool" where
  "is_reg r \<longleftrightarrow> (\<exists>n. 0 \<le> n \<and> n \<le> 7 \<and> r = rname n)"

definition is_sreg :: "string \<Rightarrow> bool" where
  "is_sreg r \<longleftrightarrow> (\<exists>n. 0 \<le> n \<and> n \<le> 7 \<and> r = ''S'' @ fmt_d n)"

lemma is_regD: "is_reg r \<Longrightarrow> plain_operand r" "is_reg r \<Longrightarrow> \<exists>n. reg r = Inr n"
  unfolding is_reg_def using reg_operand by auto

lemma is_sregD: "is_sreg r \<Longrightarrow> plain_operand r" "is_sreg r \<Longrightarrow> \<exists>n. sreg r = Inr n"
  unfolding is_sreg_def using reg_operand by auto

lemma rname_reg [simp]: "0 \<le> n \<Longrightarrow> n \<le> 7 \<Longrightarrow> is_reg (rname n)"
  by (auto simp: is_reg_def)

lemma sname_sreg [simp]: "0 \<le> n \<Longrightarrow> n \<le> 7 \<Longrightarrow> is_sreg (''S'' @ fmt_d n)"
  unfolding is_sreg_def by (intro exI [of _ n]) simp

lemma reg_names [simp]: "is_reg ''r0''" "is_reg ''r1''" "is_reg ''r2''" "is_reg ''r3''" "is_reg ''r6''"
  "is_reg ''r7''" "is_sreg ''S7''" "is_sreg ''S4''"
proof -
  have e: "rname 0 = ''r0''" "rname 1 = ''r1''" "rname 2 = ''r2''" "rname 3 = ''r3''" "rname 6 = ''r6''"
    "rname 7 = ''r7''" "''S'' @ fmt_d 7 = ''S7''" "''S'' @ fmt_d 4 = ''S4''" by code_simp+
  show "is_reg ''r0''" "is_reg ''r1''" "is_reg ''r2''" "is_reg ''r3''" "is_reg ''r6''" "is_reg ''r7''"
    "is_sreg ''S7''" "is_sreg ''S4''"
    using rname_reg [of 0] rname_reg [of 1] rname_reg [of 2] rname_reg [of 3] rname_reg [of 6]
      rname_reg [of 7] sname_sreg [of 7] sname_sreg [of 4] by (simp_all only: e)
qed

section \<open>Memory operands\<close>

lemma match_ident_reg:
  assumes "0 \<le> n" "n \<le> 7" "rest = [] \<or> \<not> ident_char (hd rest)"
  shows "match_ident (rname n @ rest) = Some (rname n, rest)"
proof -
  have n: "n \<in> {0, 1, 2, 3, 4, 5, 6, 7}" using assms by auto
  have "list_all (\<lambda>n. list_all ident_char (rname n) \<and> ident_start (hd (rname n)) \<and> rname n \<noteq> [])
      [0, 1, 2, 3, 4, 5, 6, 7]" by code_simp
  then have "list_all ident_char (rname n) \<and> ident_start (hd (rname n)) \<and> rname n \<noteq> []"
    using n by (elim insertE) simp_all
  then obtain c cs where c: "rname n = c # cs" "ident_start c" "\<forall>x \<in> set cs. ident_char x"
    by (cases "rname n") (auto simp: list_all_iff)
  have "takeWhile ident_char (cs @ rest) = cs" "dropWhile ident_char (cs @ rest) = rest"
    using c(3) assms(3) by (cases rest; simp add: takeWhile_append2 dropWhile_append2)+
  then show ?thesis using c by (simp add: match_ident_def)
qed

lemma parse_mem_bracket:
  assumes "s \<noteq> []" "list_all plain_char s"
  shows "parse_mem (''['' @ s @ '']'') = (case match_ident s of
      None \<Rightarrow> Inl (AsmError (''invalid memory operand: '' @ ''['' @ s @ '']''))
    | Some (base, tail) \<Rightarrow>
        if tail = [] then Inr [base]
        else if startswith tail ''+'' then Inr [base, drop 1 tail]
        else if startswith tail ''-'' then Inr [base, tail]
        else Inl (AsmError (''invalid memory operand: '' @ ''['' @ s @ '']'')))"
proof -
  have pc: "plain_char (CHR ''['') \<and> plain_char (CHR '']'')" by (simp add: plain_char_def)
  have "trimmed (''['' @ s @ '']'')"
    using plain_char_facts(1) pc by (simp add: trimmed_def)
  then have t: "py_strip (''['' @ s @ '']'') = ''['' @ s @ '']''" by (rule py_strip_trimmed_id)
  have s: "py_strip s = s" using plain_trimmed [OF assms] py_strip_trimmed_id by blast
  have tail: "py_strip u = u \<and> lstrip u = u \<and> one_line u \<and> py_strip (drop (Suc 0) u) = drop (Suc 0) u"
    if "match_ident s = Some (b, u)" for b u
  proof -
    have "\<exists>v. s = v @ u"
    proof (cases s)
      case (Cons c cs)
      then have "c # takeWhile ident_char cs = b" "dropWhile ident_char cs = u"
        using that by (auto simp: match_ident_def split: if_splits)
      then have "s = b @ u" using Cons by auto
      then show ?thesis by blast
    qed (use that in \<open>simp add: match_ident_def\<close>)
    then have u: "list_all plain_char u" using assms(2) by auto
    have d: "list_all plain_char (drop (Suc 0) u)" using u by (auto simp: list_all_iff dest: in_set_dropD)
    have "CHR 0x0A \<notin> set u" using u plain_char_facts(9) by (auto simp: list_all_iff)
    moreover have "lstrip u = u"
      using u plain_char_facts(1) by (cases u) (simp_all add: lstrip_def)
    moreover have "trimmed x" if "list_all plain_char x" for x
      using plain_trimmed [of x] that by (cases x) (auto simp: trimmed_def)
    ultimately show ?thesis using u d py_strip_trimmed_id by (simp add: one_line_def)
  qed
  show ?thesis
    unfolding parse_mem_def t Let_def
    by (simp add: startswith_def endswith_def s split: option.splits) (auto simp: tail startswith_def)
qed

lemma parse_mem_reg:
  assumes "0 \<le> n" "n \<le> 7"
  shows "parse_mem (''['' @ rname n @ '']'') = Inr [rname n]"
  using parse_mem_bracket [of "rname n"] match_ident_reg [OF assms, of "[]"] reg_operand(1) [OF assms]
  by (simp add: plain_operand_def)

lemma parse_mem_disp:
  assumes "0 \<le> n" "n \<le> 7"
  shows "parse_mem (''['' @ rname n @ ''+'' @ fmt_d v @ '']'') = Inr [rname n, fmt_d v]"
proof -
  have "list_all plain_char (rname n @ ''+'' @ fmt_d v)"
    using reg_operand(1) [OF assms] eval_dec(2) [of v] by (simp add: plain_operand_def plain_char_def)
  then show ?thesis
    using parse_mem_bracket [of "rname n @ ''+'' @ fmt_d v"] match_ident_reg [OF assms, of "''+'' @ fmt_d v"]
    by (simp add: startswith_def ident_char_def ident_start_def char_class_defs char_codes)
qed

section \<open>Acceptance\<close>

named_theorems accepts \<open>instructions the assembler accepts in every context\<close>

lemma not_jump:
  "op \<in> set alu3_ops \<Longrightarrow> op \<notin> jump_ops" "op \<in> set imm_ops \<Longrightarrow> op \<notin> jump_ops"
  "op \<in> set shift_ops \<Longrightarrow> op \<notin> jump_ops"
  by (auto simp: alu3_ops_def imm_ops_def shift_ops_def jump_ops_def)

lemma not_jump_names [simp]: "''LDI16'' \<notin> jump_ops" "''MTS'' \<notin> jump_ops" "''MFS'' \<notin> jump_ops"
  "''LD'' \<notin> jump_ops" "''ST'' \<notin> jump_ops" "''LDB'' \<notin> jump_ops" "''LDBS'' \<notin> jump_ops" "''STB'' \<notin> jump_ops"
  "''CLI'' \<notin> jump_ops" "''STI'' \<notin> jump_ops" "''MOV'' \<notin> jump_ops" "''SHL1'' \<notin> jump_ops"
  by (simp_all add: jump_ops_def)

lemma acceptI: "op \<notin> jump_ops \<Longrightarrow> (\<And>labels pc iflush. \<exists>bs. encode_insn op ops labels pc iflush = Inr bs) \<Longrightarrow> accept (op, ops)"
  by (simp add: accept_def)

lemma accept_alu3 [accepts]:
  assumes "op \<in> set alu3_ops" "is_reg a" "is_reg b" "is_reg c"
  shows "accept (op, [a, b, c])"
  using is_regD(2) [OF assms(2)] is_regD(2) [OF assms(3)] is_regD(2) [OF assms(4)]
  by (intro acceptI not_jump(1) assms(1)) (auto simp: encode_alu3 [OF assms(1)] enc_alu3_def n_ops_def)

lemma accept_imm [accepts]:
  assumes "op \<in> set imm_ops" "is_reg r" "-128 \<le> v" "op \<in> {''ADDI'', ''CMPI''} \<longrightarrow> v \<le> 127"
  shows "accept (op, [r, fmt_d v])"
proof -
  have "0 \<le> v AND 0xFF \<and> v AND 0xFF \<le> 255" by (simp add: and_255)
  moreover have "op \<notin> {''ADDI8'', ''CMPI8''}" using assms(1) by (auto simp: imm_ops_def)
  ultimately show ?thesis
    using is_regD(2) [OF assms(2)] assms(3,4)
    by (intro acceptI not_jump(2) assms(1))
      (auto simp: encode_imm [OF assms(1)] enc_imm_def n_ops_def eval_dec enc_i8_def enc_u8_def)
qed

lemma accept_shift [accepts]:
  assumes "op \<in> set shift_ops" "is_reg a" "is_reg b" "1 \<le> n" "n \<le> 8"
  shows "accept (op, [a, b, fmt_d n])"
  using is_regD(2) [OF assms(2)] is_regD(2) [OF assms(3)] assms(4,5)
  by (intro acceptI not_jump(3) assms(1)) (auto simp: encode_shift [OF assms(1)] enc_shift_def n_ops_def eval_dec numeral_2_eq_2)

lemma accept_ldi16 [accepts]:
  assumes "is_reg r" "0 \<le> v"
  shows "accept (''LDI16'', [r, ''0x'' @ fmt_0X w v])"
  using is_regD(2) [OF assms(1)]
  by (intro acceptI)
    (auto simp: encode_one enc_ldi16_def n_ops_def eval_hex(1) [OF assms(2), simplified] Let_def)

lemma accept_sbank [accepts]:
  assumes "is_reg r" "is_sreg s"
  shows "accept (''MTS'', [s, r])" "accept (''MFS'', [r, s])"
  using is_regD(2) [OF assms(1)] is_sregD(2) [OF assms(2)]
  by (auto intro!: acceptI simp: encode_one enc_sbank_def n_ops_def)

lemma accept_word [accepts]:
  assumes "op \<in> {''LD'', ''ST''}" "is_reg r" "0 \<le> n" "n \<le> 7" "v mod 2 = 0" "-128 \<le> v" "v \<le> 127"
  shows "accept (op, [r, ''['' @ rname n @ ''+'' @ fmt_d v @ '']''])"
proof -
  have "v AND 1 = 0" using assms(5) by (simp add: and_one_eq)
  then show ?thesis
    using assms(1,6,7) is_regD(2) [OF assms(2)] reg_operand(2) [OF assms(3,4)] parse_mem_disp [OF assms(3,4)]
    by (auto intro!: acceptI simp: encode_one enc_ld_st_def n_ops_def eval_dec enc_i8_def)
qed

lemma accept_byte [accepts]:
  assumes "op \<in> {''LDB'', ''LDBS'', ''STB''}" "is_reg r" "0 \<le> n" "n \<le> 7"
  shows "accept (op, [r, ''['' @ rname n @ '']''])"
  using assms(1) is_regD(2) [OF assms(2)] reg_operand(2) [OF assms(3,4)] parse_mem_reg [OF assms(3,4)]
  by (auto intro!: acceptI simp: encode_one enc_byte_def n_ops_def)

lemma accept_control [accepts]: "accept (''CLI'', [])" "accept (''STI'', [])"
  by (auto intro!: acceptI simp: encode_one enc_control_def n_ops_def)

lemma accept_mov [accepts]: "is_reg a \<Longrightarrow> is_reg b \<Longrightarrow> accept (''MOV'', [a, b])"
  using is_regD(2) [of a] is_regD(2) [of b]
  by (auto intro!: acceptI simp: encode_one enc_mov_def n_ops_def)

end
