(* ===== verification/FuzzNano.thy ===== *)
theory FuzzNano
  imports FuzzGen
begin

text \<open>
  The class \<open>NanoGen\<close> of \<open>tools/riscc_fuzz.py\<close>: programs for the Nano profile, which has no special
  registers, links through \<open>r7\<close> and saves its registers to memory before they are checked. The
  methods carry the suffix \<open>nano\<close>; \<open>new_label\<close> and \<open>reg\<close> are those of \<open>Gen\<close>, word for word.
\<close>

section \<open>Single instructions\<close>

definition op_alu_nano :: "string list gen" where
  "op_alu_nano =
     bindG (choice [''ADD'', ''SUB'', ''SLTU'', ''AND'', ''OR'', ''XOR'']) (\<lambda>op.
       three_regs (''    '' @ fmt_5s op @ '' ''))"

definition op_imm_nano :: "string list gen" where
  "op_imm_nano =
     bindG (choice [''LDI'', ''LUI'', ''ADDI'', ''ANDI'', ''ORI'', ''XORI'']) (\<lambda>op.
     bindG (if op = ''ADDI''
            then bindG random (\<lambda>k. if k < prob 50 then randint (-128) (-1) else randint 0 127)
            else randint 0 255) (\<lambda>v.
     bindG gen_reg (\<lambda>r.
       retG [''    '' @ fmt_5s op @ '' '' @ r @ '', '' @ fmt_d v])))"

definition op_shift_nano :: "string list gen" where
  "op_shift_nano =
     bindG random (\<lambda>k.
       if k < prob 75 then
         bindG (choice [''SRLI'', ''SRAI'']) (\<lambda>op. bindG gen_reg (\<lambda>a. bindG gen_reg (\<lambda>b.
           retG [''    '' @ fmt_5s op @ '' '' @ a @ '', '' @ b @ '', 1''])))
       else bindG gen_reg (\<lambda>a. bindG gen_reg (\<lambda>b. retG [''    SHL1  '' @ a @ '', '' @ b])))"

definition op_mem_nano :: "string list gen" where
  "op_mem_nano =
     bindG (randrange WIN_WORDS) (\<lambda>w.
     bindG random (\<lambda>k.
       let off = w * 2; base = ''    LDI16 r7, 0x'' @ fmt_0X 4 WIN in
       if k < prob 35 then
         bindG gen_reg (\<lambda>r. retG [base, ''    ST   '' @ r @ '', [r7+'' @ fmt_d off @ '']''])
       else if k < prob 70 then
         bindG gen_reg (\<lambda>r. retG [base, ''    LD   '' @ r @ '', [r7+'' @ fmt_d off @ '']''])
       else
         bindG (randrange (WIN_WORDS * 2)) (\<lambda>boff.
         bindG gen_reg (\<lambda>r.
           retG [base, ''    LDI   r0, '' @ fmt_d boff, ''    ADD   r0, r7, r0'',
                 (if k < prob 85 then ''    LDB   '' else ''    STB   '') @ r @ '', [r0]'']))))"

section \<open>The retry loop\<close>

definition simple_attempt_nano :: "string option \<Rightarrow> string list gen" where
  "simple_attempt_nano ex =
     bindG random (\<lambda>k.
       if k < prob 40 then op_alu_nano
       else if k < prob 70 then op_imm_nano
       else if k < prob 85 then op_shift_nano
       else if ex = Some ''r7'' then op_alu_nano
       else op_mem_nano)"

definition simple_op_nano :: "string option \<Rightarrow> string list gen" where
  "simple_op_nano ex = retry (simple_attempt_nano ex) ex"

section \<open>Blocks\<close>

definition op_branch_block_nano :: "string list gen" where
  "op_branch_block_nano =
     bindG (new_label ''fwd'') (\<lambda>lab.
     bindG (choice [''BEQZ'', ''BNEZ'', ''BLTZ'', ''BGEZ'']) (\<lambda>cc.
     bindG (randint 0 127) (\<lambda>v.
     bindG gen_reg (\<lambda>r.
     bindG (randint 1 4) (\<lambda>n.
     bindG (repeatG (nat n) (simple_op_nano None)) (\<lambda>body.
       retG ([''    LDI   r0, '' @ fmt_d v, ''    SUB   r0, '' @ r @ '', r0'',
              ''    '' @ fmt_5s cc @ '' '' @ lab] @ body @ [lab @ '':''])))))))"

definition op_loop_nano :: "string list gen" where
  "op_loop_nano =
     bindG (new_label ''loop'') (\<lambda>lab.
     bindG gen_reg (\<lambda>cnt.
     bindG (randint 1 3) (\<lambda>n.
     bindG (repeatG (nat n) (simple_op_nano (Some cnt))) (\<lambda>body.
     bindG (randint 1 5) (\<lambda>times.
       retG ([''    LDI   '' @ cnt @ '', '' @ fmt_d times, lab @ '':''] @ body @
             [''    ADDI  '' @ cnt @ '', -1'', ''    MOV   r0, '' @ cnt, ''    BNEZ  '' @ lab]))))))"

definition op_call_nano :: "subs \<Rightarrow> (string list \<times> subs) gen" where
  "op_call_nano subs =
     bindG (new_label ''nsub'') (\<lambda>lab.
     bindG (randint 1 3) (\<lambda>n.
     bindG (repeatG (nat n) (simple_op_nano (Some ''r7''))) (\<lambda>body.
       retG ([''    LDI16 r1, '' @ lab, ''    JALR  r7, r1''],
             subs @ [(lab @ '':'', body @ [''    JMP   r7''])]))))"

definition cover_nano :: "(string \<Rightarrow> string) \<Rightarrow> string list" where
  "cover_nano lab =
     [''    LDI16 r7, 0x'' @ fmt_0X 4 WIN, ''    LDI16 r1, 0x80A5'', ''    ST    r1, [r7+0]'',
      ''    LD    r2, [r7+0]'', ''    LDI   r3, 0'', ''    LDX   r2, [r7+r3]'', ''    LDB   r2, [r7]'',
      ''    STB   r1, [r7]'', ''    LDI   r1, 0x12'', ''    LUI   r2, 0x34'', ''    ADDI  r1, -1'',
      ''    ANDI  r2, 0x7F'', ''    ORI   r2, 0x40'', ''    XORI  r2, 0x55'', ''    ADD   r3, r1, r2'',
      ''    SUB   r3, r3, r1'', ''    SLTU  r4, r1, r2'', ''    AND   r4, r1, r2'',
      ''    OR    r4, r1, r2'', ''    XOR   r4, r1, r2'', ''    SRLI  r4, r2, 1'',
      ''    SRAI  r4, r2, 1'', ''    LDI   r0, 0'',
      ''    BEQZ  '' @ lab ''beq'', lab ''beq'' @ '':'', ''    BNEZ  '' @ lab ''bne'', lab ''bne'' @ '':'',
      ''    ADDI  r0, -1'', ''    BLTZ  '' @ lab ''blt'', lab ''blt'' @ '':'',
      ''    BGEZ  '' @ lab ''bge'', lab ''bge'' @ '':'', ''    JMP8  '' @ lab ''after_jmp'',
      ''    LDI   r6, 0x5A'', lab ''after_jmp'' @ '':'', ''    LDI16 r1, '' @ lab ''sub'',
      ''    JALR  r7, r1'', ''    JMP8  '' @ lab ''done'', lab ''sub'' @ '':'', ''    JMP   r7'',
      lab ''done'' @ '':'']"

definition supported_isa_ops_nano :: "string list gen" where
  "supported_isa_ops_nano =
     mapG cover_nano (cover_labels [''beq'', ''bne'', ''blt'', ''bge'', ''after_jmp'', ''sub'', ''done''])"

section \<open>Programs\<close>

definition body_step_nano :: "subs \<Rightarrow> (string list \<times> subs) gen" where
  "body_step_nano subs =
     bindG random (\<lambda>k.
       if k < prob 48 then mapG (\<lambda>ls. (ls, subs)) (simple_op_nano None)
       else if k < prob 66 then mapG (\<lambda>ls. (ls, subs)) op_mem_nano
       else if k < prob 80 then mapG (\<lambda>ls. (ls, subs)) op_branch_block_nano
       else if k < prob 91 then mapG (\<lambda>ls. (ls, subs)) op_loop_nano
       else op_call_nano subs)"

definition nano_body :: "(string list \<times> subs) gen" where
  "nano_body =
     bindG (concatG window_word (map int [0..<nat WIN_WORDS])) (\<lambda>window.
     bindG supported_isa_ops_nano (\<lambda>cover.
     bindG (randint 25 45) (\<lambda>n.
     bindG (body_steps body_step_nano (nat n) []) (\<lambda>(ls, subs).
       retG ([''    LDI16 r7, 0x'' @ fmt_0X 4 WIN] @ window @ cover @ ls, subs)))))"

definition save_regs :: "string list" where
  "save_regs =
     (''    LDI16 r0, 0x'' @ fmt_0X 4 NANO_SCRATCH) #
     map (\<lambda>r. ''    ST   r'' @ fmt_d r @ '', [r0+'' @ fmt_d (r * 2) @ '']'') [1, 2, 3, 4, 5, 6, 7]"

definition check_word :: "string list \<Rightarrow> int \<Rightarrow> int \<Rightarrow> string list" where
  "check_word load_lines want code =
     load_lines @
     [''    LDI16 r3, 0x'' @ fmt_0X 4 want, ''    SUB   r0, r2, r3'', ''    BEQZ  nok_'' @ fmt_x code,
      ''    LDI16 r7, 0x'' @ fmt_0X 4 code, ''    LDI16 r6, 0x'' @ fmt_0X 4 RESULT,
      ''    ST   r7, [r6+0]'', ''    HALT'', ''nok_'' @ fmt_x code @ '':'']"

definition store_pass_nano :: "string list" where
  "store_pass_nano =
     [''    LDI16 r7, 0x600D'', ''    LDI16 r6, 0x'' @ fmt_0X 4 RESULT, ''    ST   r7, [r6+0]'', ''    HALT'']"

definition tail_checks_nano :: "expect \<Rightarrow> (int \<Rightarrow> string list py) list" where
  "tail_checks_nano e =
     map (\<lambda>r code. bindE (py_nth (ex_r e) r) (\<lambda>v.
            Inr (check_word [''    LDI16 r5, 0x'' @ fmt_0X 4 NANO_SCRATCH,
                   ''    LD   r2, [r5+'' @ fmt_d (r * 2) @ '']''] v code)))
       [1, 2, 3, 4, 5, 6, 7] @
     map (\<lambda>w code. bindE (py_nth (ex_mem e) w) (\<lambda>v.
            Inr (check_word [''    LDI16 r5, 0x'' @ fmt_0X 4 (WIN + 2 * w), ''    LD   r2, [r5+0]''] v code)))
       (ex_probes e)"

definition emit_tail_nano :: "expect option \<Rightarrow> string list py" where
  "emit_tail_nano expect =
     (case expect of
        None \<Rightarrow> Inr (save_regs @ store_pass_nano)
      | Some e \<Rightarrow> bindE (numbered FAILBASE (tail_checks_nano e)) (\<lambda>checks.
          Inr (save_regs @ checks @ store_pass_nano)))"

definition emit_head_nano :: "int \<Rightarrow> string \<Rightarrow> subs \<Rightarrow> string list" where
  "emit_head_nano seed config subs =
     [''; generated by riscc_fuzz.py seed='' @ fmt_d seed @ '' family=nano config='' @ config,
      ''.vectors'', ''.text'', ''reset_tramp:'', ''    LDI16 r0, start'', ''    JMP   r0'', ''fail:'',
      ''    LDI16 r7, 0x0BAD'', ''    LDI16 r6, 0x'' @ fmt_0X 4 RESULT, ''    ST   r7, [r6+0]'', ''    HALT''] @
     concat (map (\<lambda>(lab, code_lines). lab # code_lines) subs) @ [''start:'']"

definition emit_lines_nano :: "int \<Rightarrow> string \<Rightarrow> expect option \<Rightarrow> string list gen" where
  "emit_lines_nano seed config expect =
     bindG nano_body (\<lambda>(body, subs).
     bindG (liftG (emit_tail_nano expect)) (\<lambda>tail.
       retG (emit_head_nano seed config subs @ body @ tail)))"

definition emit_nano ::
  "(int \<Rightarrow> nat \<Rightarrow> int) \<Rightarrow> int \<Rightarrow> string \<Rightarrow> expect option \<Rightarrow> (py_error, string \<times> gst) result option" where
  "emit_nano random_of seed config expect =
     mapG (\<lambda>ls. py_join ''\<newline>'' ls @ ''\<newline>'') (emit_lines_nano seed config expect) (reset_gen random_of seed)"

end
