(* ===== verification/FuzzBlocks.thy ===== *)
theory FuzzBlocks
  imports FuzzAccept FuzzNano
begin

text \<open>
  What the single-instruction generators of \<open>Gen\<close> and \<open>NanoGen\<close> return: lines that the assembler
  reads as instructions, accepts and encodes in a bounded number of bytes, and that never name
  the register a loop counts in.
\<close>

section \<open>Accepted lines\<close>

definition block_size :: "(string \<times> string list) list \<Rightarrow> int" where
  "block_size is = sum_list (map (\<lambda>(op, ops). insn_size op ops) is)"

text \<open>Lines that read as accepted instructions of at most \<open>n\<close> bytes in all.\<close>

definition accepted :: "int \<Rightarrow> string list \<Rightarrow> bool" where
  "accepted n ls \<longleftrightarrow> (\<exists>is. list_all2 insn_shape ls is \<and> list_all accept is \<and> block_size is \<le> n)"

lemma accepted_Nil: "0 \<le> n \<Longrightarrow> accepted n []"
  unfolding accepted_def by (intro exI [of _ "[]"]) (simp add: block_size_def)

lemma accepted_Cons:
  "insn_shape l i \<Longrightarrow> accept i \<Longrightarrow> accepted (n - (case i of (op, ops) \<Rightarrow> insn_size op ops)) ls \<Longrightarrow>
   accepted n (l # ls)"
  unfolding accepted_def by (elim exE, rule_tac x = "i # is" in exI) (auto simp: block_size_def)

lemma accepted_mono: "accepted m ls \<Longrightarrow> m \<le> n \<Longrightarrow> accepted n ls"
  unfolding accepted_def by force

lemma accepted_append: "accepted m ls \<Longrightarrow> accepted n ls' \<Longrightarrow> accepted (m + n) (ls @ ls')"
  unfolding accepted_def
  by (elim exE, rule_tac x = "is @ isa" in exI) (auto simp: block_size_def list_all2_appendI)

definition long_ops :: "string set" where
  "long_ops = {''LDI16'', ''JMP16'', ''JAL16'', ''JALL'', ''JMPL''}"

lemma size_two: "op \<notin> long_ops \<Longrightarrow> py_upper op = op \<Longrightarrow>
  insn_size op ops = 2"
  by (simp add: insn_size_def Let_def long_ops_def)

lemma mnemonic_upper: "mnemonic op \<Longrightarrow> py_upper op = op"
  using mnemonic_chars by (auto simp: py_upper_def mnemonic_def list_all_iff intro: map_idI)

lemma size_ldi16: "insn_size ''LDI16'' ops = 4"
  by (simp add: insn_size_def Let_def py_upper_def upper_char_def is_lower_def ccode_def)

lemma insn_shapeI:
  "mnemonic op \<Longrightarrow> list_all plain_operand ops \<Longrightarrow> l = insn_text op k ops \<Longrightarrow> (k = 0 \<longleftrightarrow> ops = []) \<Longrightarrow>
   insn_shape l (op, ops)"
  by (auto simp: insn_shape_def)

lemma insn_size_bounds: "insn_size op ops \<le> 4"
  using insn_size_even [of op ops] by auto

text \<open>One short instruction, one constant load.\<close>

lemma accepted_short:
  assumes "mnemonic op" "op \<notin> long_ops"
    and "list_all plain_operand ops" "ops \<noteq> []" "accept (op, ops)" "0 < k"
  shows "accepted 2 [insn_text op k ops]"
  using assms size_two [OF assms(2) mnemonic_upper [OF assms(1)]]
  by (intro accepted_Cons [of _ "(op, ops)"] insn_shapeI [of op ops _ k] accepted_Nil) auto

lemma mnemonics:
  "list_all mnemonic (alu3_ops @ imm_ops @ shift_ops @ [''LDI16'', ''MTS'', ''MFS'', ''LD'', ''ST'', ''LDB'',
     ''LDBS'', ''STB'', ''CLI'', ''STI'', ''MOV'', ''SHL1'', ''BEQZ'', ''BNEZ'', ''BLTZ'', ''BGEZ'', ''JALR'', ''JALL'',
     ''RET'', ''JMP'', ''HALT''])"
  by code_simp

lemma mnemonic_names [simp]:
  "mnemonic ''LDI16''" "mnemonic ''MTS''" "mnemonic ''MFS''" "mnemonic ''LD''" "mnemonic ''ST''"
  "mnemonic ''LDB''" "mnemonic ''LDBS''" "mnemonic ''STB''" "mnemonic ''CLI''" "mnemonic ''STI''"
  "mnemonic ''MOV''" "mnemonic ''SHL1''" "mnemonic ''BEQZ''" "mnemonic ''BNEZ''" "mnemonic ''BLTZ''"
  "mnemonic ''BGEZ''" "mnemonic ''JALR''" "mnemonic ''JALL''" "mnemonic ''RET''" "mnemonic ''JMP''"
  "mnemonic ''HALT''"
  "op \<in> set alu3_ops \<Longrightarrow> mnemonic op" "op \<in> set imm_ops \<Longrightarrow> mnemonic op" "op \<in> set shift_ops \<Longrightarrow> mnemonic op"
  using mnemonics unfolding list_all_append list_all_iff by simp_all

lemma accepted_ldi16:
  assumes "is_reg r" "0 \<le> v" "accepted (n - 4) ls"
  shows "accepted n (ldi16_line r v # ls)"
proof -
  have "ldi16_line r v = insn_text ''LDI16'' 1 [r, ''0x'' @ fmt_0X 4 v]"
    by (simp add: ldi16_line_def insn_text_def)
  then have "insn_shape (ldi16_line r v) (''LDI16'', [r, ''0x'' @ fmt_0X 4 v])"
    using is_regD(1) [OF assms(1)] eval_hex(2) [OF assms(2)] by (intro insn_shapeI [where k = 1]) simp_all
  then show ?thesis
    by (rule accepted_Cons [OF _ accept_ldi16 [OF assms(1,2)]])
      (use assms(3) in \<open>simp only: size_ldi16 prod.case\<close>)
qed

lemma short_ops:
  "op \<in> set alu3_ops \<Longrightarrow> op \<notin> long_ops"
  "op \<in> set imm_ops \<Longrightarrow> op \<notin> long_ops"
  "op \<in> set shift_ops \<Longrightarrow> op \<notin> long_ops"
  by (auto simp: alu3_ops_def imm_ops_def shift_ops_def long_ops_def)

lemma fmt_5s_text:
  "length op \<le> 5 \<Longrightarrow>
   ''    '' @ fmt_5s op @ '' '' @ py_join '', '' ops = insn_text op (6 - length op) ops"
proof -
  assume "length op \<le> 5"
  then have "6 - length op = (5 - length op) + 1" by simp
  then have "replicate (6 - length op) CHR '' '' = replicate (5 - length op) CHR '' '' @ '' ''"
    by (simp add: replicate_append_same)
  then show ?thesis by (simp add: fmt_5s_def insn_text_def)
qed

section \<open>Single instructions\<close>

lemma yields_reg: "yields gen_reg is_reg"
  unfolding gen_reg_def
proof (rule yields_map, rule yields_mono [OF yields_randint])
  fix n :: int
  assume "1 \<le> n \<and> n \<le> 6"
  then show "is_reg (''r'' @ fmt_d n)" using rname_reg [of n] by (simp add: rname_def)
qed

lemma accepted_alu3:
  assumes "op \<in> set alu3_ops" "is_reg a" "is_reg b" "is_reg c" "0 < k"
  shows "accepted 2 [insn_text op k [a, b, c]]"
  by (rule accepted_short) (use assms in \<open>simp_all add: short_ops accepts is_regD\<close>)

lemma yields_three:
  assumes "\<And>a b c. pre @ a @ '', '' @ b @ '', '' @ c = insn_text op k [a, b, c]" "op \<in> set alu3_ops" "0 < k"
  shows "yields (three_regs pre) (accepted 2)"
  unfolding three_regs_def assms(1)
  by (intro yields_bind [OF yields_reg] yields_ret accepted_alu3 [OF assms(2)] assms(3))

lemma yields_op_mul: "yields op_mul (accepted 2)"
  unfolding op_mul_def
  by (rule yields_three [of _ "''MUL''" 3]) (simp_all add: insn_text_def alu3_ops_def numeral_3_eq_3)

lemma yields_alu_choice:
  assumes "set ops \<subseteq> set alu3_ops"
  shows "yields (bindG (choice ops) (\<lambda>op. three_regs (''    '' @ fmt_5s op @ '' ''))) (accepted 2)"
proof (rule yields_bind [OF yields_choice])
  fix op
  assume "op \<in> set ops"
  then have op: "op \<in> set alu3_ops" using assms by blast
  then have "length op \<le> 5" by (auto simp: alu3_ops_def)
  then show "yields (three_regs (''    '' @ fmt_5s op @ '' '')) (accepted 2)"
    using op fmt_5s_text [of op "[a, b, c]" for a b c]
    by (intro yields_three [of _ op "6 - length op"]) simp_all
qed

lemma yields_op_alu: "yields op_alu (accepted 2)" "yields op_alu_nano (accepted 2)"
  unfolding op_alu_def op_alu_nano_def by (rule yields_alu_choice; simp add: alu3_ops_def)+

lemma accepted_imm:
  assumes "op \<in> set imm_ops" "is_reg r" "-128 \<le> v" "op \<in> {''ADDI'', ''CMPI''} \<longrightarrow> v \<le> 127"
  shows "accepted 2 [''    '' @ fmt_5s op @ '' '' @ r @ '', '' @ fmt_d v]"
proof -
  have "length op \<le> 5" "0 < 6 - length op" using assms(1) by (auto simp: imm_ops_def)
  moreover have "''    '' @ fmt_5s op @ '' '' @ r @ '', '' @ fmt_d v = insn_text op (6 - length op) [r, fmt_d v]"
    using fmt_5s_text [of op "[r, fmt_d v]"] calculation(1) by simp
  ultimately show ?thesis
    using accepted_short [of op "[r, fmt_d v]" "6 - length op"] accept_imm [OF assms]
      short_ops(2) [OF assms(1)] assms(1) is_regD(1) [OF assms(2)] eval_dec(2) by (simp only:) simp
qed

lemma yields_imm_choice:
  assumes "set ops \<subseteq> set imm_ops" "\<And>op. op \<in> {''ADDI'', ''CMPI''} \<Longrightarrow> op \<in> set ops \<Longrightarrow> c op"
  shows "yields (bindG (choice ops) (\<lambda>op.
     bindG (if c op
            then bindG random (\<lambda>k. if k < prob 50 then randint (-128) (-1) else randint 0 127)
            else randint 0 255) (\<lambda>v.
     bindG gen_reg (\<lambda>r. retG [''    '' @ fmt_5s op @ '' '' @ r @ '', '' @ fmt_d v])))) (accepted 2)"
proof (rule yields_bind [OF yields_choice])
  fix op
  assume op: "op \<in> set ops"
  let ?v = "\<lambda>v. -128 \<le> v \<and> (op \<in> {''ADDI'', ''CMPI''} \<longrightarrow> v \<le> 127)"
  have "yields (randint (-128) (-1)) ?v" "yields (randint 0 127) ?v"
    "\<not> c op \<Longrightarrow> yields (randint 0 255) ?v"
    by (rule yields_mono [OF yields_randint]; use assms(2) op in auto)+
  then have v: "yields (if c op
            then bindG random (\<lambda>k. if k < prob 50 then randint (-128) (-1) else randint 0 127)
            else randint 0 255) ?v"
    by (intro yields_if yields_bind [OF yields_any])
  show "yields (bindG (if c op
            then bindG random (\<lambda>k. if k < prob 50 then randint (-128) (-1) else randint 0 127)
            else randint 0 255) (\<lambda>v.
     bindG gen_reg (\<lambda>r. retG [''    '' @ fmt_5s op @ '' '' @ r @ '', '' @ fmt_d v]))) (accepted 2)"
    by (rule yields_bind [OF v], rule yields_bind [OF yields_reg], rule yields_ret)
      (rule accepted_imm; use assms(1) op in blast)
qed

lemma yields_op_imm: "yields op_imm (accepted 2)" "yields op_imm_nano (accepted 2)"
  unfolding op_imm_def op_imm_nano_def by (rule yields_imm_choice; auto simp: imm_ops_def)+

lemma accepted_shift:
  assumes "op \<in> set shift_ops" "is_reg a" "is_reg b" "1 \<le> n" "n \<le> 8"
  shows "accepted 2 [''    '' @ fmt_5s op @ '' '' @ a @ '', '' @ b @ '', '' @ fmt_d n]"
proof -
  have "length op \<le> 5" "0 < 6 - length op" using assms(1) by (auto simp: shift_ops_def)
  moreover have "''    '' @ fmt_5s op @ '' '' @ a @ '', '' @ b @ '', '' @ fmt_d n =
      insn_text op (6 - length op) [a, b, fmt_d n]"
    using fmt_5s_text [of op "[a, b, fmt_d n]"] calculation(1) by simp
  ultimately show ?thesis
    using accepted_short [of op "[a, b, fmt_d n]" "6 - length op"] accept_shift [OF assms]
      short_ops(3) [OF assms(1)] assms(1) is_regD(1) [OF assms(2)] is_regD(1) [OF assms(3)] eval_dec(2)
    by (simp only:) simp
qed

lemma yields_op_shift: "yields (op_shift cfg) (accepted 2)"
proof -
  have "yields (if cfg_sh then bindG (choice [''SRLI'', ''SRAI'', ''SLLI'']) (\<lambda>op.
                 bindG (randint 1 8) (\<lambda>n. retG (op, n)))
            else bindG (choice [''SRLI'', ''SRAI'']) (\<lambda>op. retG (op, 1)))
      (\<lambda>(op, n). op \<in> set shift_ops \<and> 1 \<le> n \<and> n \<le> 8)" for cfg_sh
    by (intro yields_if yields_bind [OF yields_choice] yields_bind [OF yields_randint] yields_ret)
      (auto simp: shift_ops_def)
  then show ?thesis
    unfolding op_shift_def
    by (rule yields_bind, clarify, intro yields_bind [OF yields_reg] yields_ret accepted_shift)
qed

text \<open>Moves to and from the special registers.\<close>

lemma yields_op_sreg: "yields op_sreg (accepted 2)"
proof -
  have t: "''    MTS   S'' @ fmt_d n @ '', '' @ r = insn_text ''MTS'' 3 [''S'' @ fmt_d n, r]"
    "''    MFS   '' @ r @ '', S'' @ fmt_d n = insn_text ''MFS'' 3 [r, ''S'' @ fmt_d n]" for n r
    by (simp_all add: insn_text_def numeral_3_eq_3)
  have "accepted 2 [insn_text ''MTS'' 3 [''S'' @ fmt_d n, r]]" "accepted 2 [insn_text ''MFS'' 3 [r, ''S'' @ fmt_d n]]"
    if "is_reg r" "4 \<le> n" "n \<le> 6" for n r
    using that is_regD(1) [of r] reg_operand(3) [of n] accept_sbank [OF that(1) sname_sreg [of n]]
    by (intro accepted_short; simp add: long_ops_def)+
  then show ?thesis
    unfolding op_sreg_def t
    by (intro yields_bind [OF yields_randint] yields_bind [OF yields_any] yields_if
        yields_bind [OF yields_reg] yields_ret) simp_all
qed

section \<open>Multiply and divide\<close>

lemma accepted_alu_line:
  assumes "op \<in> {''DIVU'', ''MULHU''}" "is_reg a" "is_reg b" "is_reg c"
  shows "accepted 2 [''    '' @ fmt_5s op @ '' '' @ a @ '', '' @ b @ '', '' @ c]"
proof -
  have "op \<in> set alu3_ops" "length op \<le> 5" "0 < 6 - length op" using assms(1) by (auto simp: alu3_ops_def)
  then show ?thesis using accepted_alu3 [of op a b c "6 - length op"] fmt_5s_text [of op "[a, b, c]"] assms by simp
qed

lemma yields_op_divu: "yields op_divu (accepted 14)"
  unfolding op_divu_def
proof (intro yields_bind [OF yields_sample] yields_bind [OF yields_randint] yields_bind [OF yields_randrange])
  fix rs :: "int list" and d r q :: int
  assume rs: "length rs = 3 \<and> set rs \<subseteq> set [1, 2, 3, 4, 5, 6] \<and> (distinct [1, 2, 3, 4, 5, 6 :: int] \<longrightarrow> distinct rs)"
    and d: "1 \<le> d \<and> d \<le> 0xffff" and r: "0 \<le> r \<and> r < d" and q: "0 \<le> q \<and> q \<le> 0xffff"
  have reg: "is_reg (rname (rs ! k))" if "k < 3" for k
  proof -
    have "rs ! k \<in> set rs" using rs that by simp
    then have "rs ! k \<in> {1, 2, 3, 4, 5, 6}" using rs by auto
    then show ?thesis by auto
  qed
  have "accepted 2 [''    '' @ fmt_5s ''DIVU'' @ '' '' @ rname (rs ! 0) @ '', '' @ rname (rs ! 1) @ '', '' @ rname (rs ! 2)]"
    by (rule accepted_alu_line) (simp_all add: reg)
  then show "yields (let rr = rname (rs ! 0); rq = rname (rs ! 1); rb = rname (rs ! 2) in
       retG [ldi16_line rr r, ldi16_line rq q, ldi16_line rb d, ''    DIVU  '' @ rr @ '', '' @ rq @ '', '' @ rb])
      (accepted 14)"
    using d r q by (auto simp: fmt_5s_def Let_def reg intro!: yields_ret accepted_ldi16)
qed

lemma yields_op_mulhu: "yields op_mulhu (accepted 14)"
  unfolding op_mulhu_def
proof (intro yields_bind [OF yields_sample] yields_bind [OF yields_randint])
  fix rs :: "int list" and s h v :: int
  assume rs: "length rs = 2 \<and> set rs \<subseteq> set [1, 2, 3, 4, 5, 6] \<and> (distinct [1, 2, 3, 4, 5, 6 :: int] \<longrightarrow> distinct rs)"
    and s: "1 \<le> s \<and> s \<le> 6" and h: "0 \<le> h \<and> h \<le> 0xffff" and v: "0 \<le> v \<and> v \<le> 0xffff"
  have "rs ! 0 \<in> set rs" "rs ! 1 \<in> set rs" using rs by simp_all
  then have "rs ! 0 \<in> {1, 2, 3, 4, 5, 6}" "rs ! 1 \<in> {1, 2, 3, 4, 5, 6}" using rs unfolding list.set by blast+
  then have reg: "is_reg (rname (rs ! 0))" "is_reg (rname (rs ! 1))" "is_reg (rname s)" using s by auto
  have "accepted 2 [''    '' @ fmt_5s ''MULHU'' @ '' '' @ rname (rs ! 0) @ '', '' @ rname (rs ! 1) @ '', '' @ rname s]"
    by (rule accepted_alu_line) (use reg in simp_all)
  then have "accepted n [''    MULHU '' @ rname (rs ! 0) @ '', '' @ rname (rs ! 1) @ '', '' @ rname s]" if "2 \<le> n" for n
    using that accepted_mono by (fastforce simp: fmt_5s_def)
  then show "yields (let low = rs ! 0; high = rs ! 1 in
       retG ([ldi16_line (rname high) h] @ (if s \<noteq> high then [ldi16_line (rname s) v] else []) @
             [''    MULHU '' @ rname low @ '', '' @ rname high @ '', '' @ rname s])) (accepted 14)"
    using h v reg by (auto simp: Let_def intro!: yields_ret accepted_ldi16)
qed

lemma yields_op_mdu: "yields (op_mdu cfg) (accepted 14)"
  unfolding op_mdu_def
  by (intro yields_if yields_bind [OF yields_any] yields_op_divu yields_op_mulhu)

section \<open>Memory accesses\<close>

lemma padded: "fmt_5s ''LDI'' = ''LDI  ''" "fmt_5s ''STB'' = ''STB  ''" "fmt_5s ''LDB'' = ''LDB  ''"
  by code_simp+

lemma accepted_imm_line:
  assumes "is_reg r" "-128 \<le> v" "accepted (n - 2) ls"
  shows "accepted n ((''    LDI   '' @ r @ '', '' @ fmt_d v) # ls)"
  using accepted_append [OF accepted_imm [of "''LDI''" r v] assms(3)] assms
  by (simp add: imm_ops_def padded)

lemma accepted_add_line:
  assumes "accepted (n - 2) ls"
  shows "accepted n (''    ADD   r0, r7, r0'' # ls)"
proof -
  have "accepted 2 [insn_text ''ADD'' 3 [''r0'', ''r7'', ''r0'']]"
    by (rule accepted_alu3) (simp_all add: alu3_ops_def)
  from accepted_append [OF this assms] show ?thesis by (simp add: insn_text_def numeral_3_eq_3)
qed

lemma accepted_word:
  assumes "op \<in> {''LD'', ''ST''}" "is_reg r" "0 \<le> n" "n \<le> 7" "v mod 2 = 0" "-128 \<le> v" "v \<le> 127" "0 < k"
  shows "accepted 2 [insn_text op k [r, ''['' @ rname n @ ''+'' @ fmt_d v @ '']'']]"
proof (rule accepted_short)
  have "list_all (\<lambda>c. ident_char c \<or> c = CHR ''-'' \<or> c = CHR ''+'') (rname n @ ''+'' @ fmt_d v)"
    using dec_ident by (auto simp: rname_def fmt_d_def list_all_iff ident_char_def ident_start_def
        is_lower_def ccode_def)
  then have "plain_operand (''['' @ (rname n @ ''+'' @ fmt_d v) @ '']'')" by (rule plain_mem)
  then show "list_all plain_operand [r, ''['' @ rname n @ ''+'' @ fmt_d v @ '']'']"
    using is_regD(1) [OF assms(2)] by simp
  show "accept (op, [r, ''['' @ rname n @ ''+'' @ fmt_d v @ '']''])" by (rule accept_word) (fact assms)+
qed (use assms in \<open>auto simp: long_ops_def\<close>)

lemma accepted_byte:
  assumes "op \<in> {''LDB'', ''LDBS'', ''STB''}" "is_reg r" "0 < k"
  shows "accepted 2 [insn_text op k [r, ''[r0]'']]"
proof (rule accepted_short)
  have r0: "rname 0 = ''r0''" by code_simp
  have "accept (op, [r, ''['' @ rname 0 @ '']''])" by (rule accept_byte) (use assms in simp_all)
  then show "accept (op, [r, ''[r0]''])" by (simp add: r0)
  have "plain_operand ''[r0]''" by code_simp
  then show "list_all plain_operand [r, ''[r0]'']" using is_regD(1) [OF assms(2)] by simp
qed (use assms in \<open>auto simp: long_ops_def\<close>)

lemma window_base: "''    LDI16 r7, 0x'' @ fmt_0X 4 WIN = ldi16_line ''r7'' WIN"
  by (simp add: ldi16_line_def)

lemma r7_name: "rname 7 = ''r7''"
  by code_simp

lemma accepted_word_line:
  assumes "is_reg r" "0 \<le> w" "w < WIN_WORDS"
  shows "accepted 2 [''    ST   '' @ r @ '', [r7+'' @ fmt_d (w * 2) @ '']'']"
    "accepted 2 [''    LD   '' @ r @ '', [r7+'' @ fmt_d (w * 2) @ '']'']"
proof -
  have "accepted 2 [insn_text op 3 [r, ''['' @ rname 7 @ ''+'' @ fmt_d (w * 2) @ '']'']]" if "op \<in> {''LD'', ''ST''}" for op
    by (rule accepted_word) (use that assms in \<open>simp_all add: WIN_WORDS_def\<close>)
  from this [of "''ST''"] this [of "''LD''"]
  show "accepted 2 [''    ST   '' @ r @ '', [r7+'' @ fmt_d (w * 2) @ '']'']"
    "accepted 2 [''    LD   '' @ r @ '', [r7+'' @ fmt_d (w * 2) @ '']'']"
    by (simp_all add: insn_text_def numeral_3_eq_3 r7_name)
qed

lemma accepted_byte_line:
  assumes "op \<in> {''LDB'', ''LDBS'', ''STB''}" "is_reg r"
  shows "accepted 2 [''    '' @ fmt_5s op @ '' '' @ r @ '', [r0]'']"
proof -
  have "length op \<le> 5" "0 < 6 - length op" using assms(1) by auto
  then show ?thesis
    using accepted_byte [OF assms, of "6 - length op"] fmt_5s_text [of op "[r, ''[r0]'']"] by simp
qed

lemma WIN_reg: "accepted n ls \<Longrightarrow> accepted (n + 4) (ldi16_line ''r7'' WIN # ls)"
  by (rule accepted_ldi16) (simp_all add: WIN_def)

lemma accepted_via_r0:
  assumes "0 \<le> boff" "accepted 2 [l]"
  shows "accepted 10 [ldi16_line ''r7'' WIN, ''    LDI   r0, '' @ fmt_d boff, ''    ADD   r0, r7, r0'', l]"
proof -
  have "accepted 4 [''    ADD   r0, r7, r0'', l]" by (rule accepted_add_line) (use assms in simp)
  then have "accepted 6 [''    LDI   '' @ ''r0'' @ '', '' @ fmt_d boff, ''    ADD   r0, r7, r0'', l]"
    by (intro accepted_imm_line) (use assms in simp_all)
  from WIN_reg [OF this] show ?thesis by simp
qed

lemma accepted_base_word:
  assumes "is_reg r" "0 \<le> w \<and> w < WIN_WORDS"
  shows "accepted 10 [ldi16_line ''r7'' WIN, ''    ST   '' @ r @ '', [r7+'' @ fmt_d (w * 2) @ '']'']"
    "accepted 10 [ldi16_line ''r7'' WIN, ''    LD   '' @ r @ '', [r7+'' @ fmt_d (w * 2) @ '']'']"
  using accepted_mono [OF WIN_reg [OF accepted_word_line(1) [of r w]], of 10]
    accepted_mono [OF WIN_reg [OF accepted_word_line(2) [of r w]], of 10] assms by simp_all

lemma accepted_base_byte:
  assumes "is_reg r" "0 \<le> boff \<and> boff < n"
  shows "op \<in> set [''LDB'', ''LDBS''] \<Longrightarrow>
      accepted 10 [ldi16_line ''r7'' WIN, ''    LDI   r0, '' @ fmt_d boff, ''    ADD   r0, r7, r0'',
        ''    '' @ fmt_5s op @ '' '' @ r @ '', [r0]'']"
    "accepted 10 [ldi16_line ''r7'' WIN, ''    LDI   r0, '' @ fmt_d boff, ''    ADD   r0, r7, r0'',
        ''    STB   '' @ r @ '', [r0]'']"
    "accepted 10 [ldi16_line ''r7'' WIN, ''    LDI   r0, '' @ fmt_d boff, ''    ADD   r0, r7, r0'',
        (if c then ''    LDB   '' else ''    STB   '') @ r @ '', [r0]'']"
  using accepted_via_r0 [OF _ accepted_byte_line [of op r], of boff]
    accepted_via_r0 [OF _ accepted_byte_line [of "''STB''" r], of boff]
    accepted_via_r0 [OF _ accepted_byte_line [of "''LDB''" r], of boff] assms
  by (auto simp: padded)

lemma yields_op_mem: "yields op_mem (accepted 10)"
  unfolding op_mem_def Let_def window_base
  by (intro yields_bind [OF yields_randrange] yields_bind [OF yields_any] yields_if
      yields_bind [OF yields_reg] yields_bind [OF yields_choice] yields_ret)
    (erule (1) accepted_base_word accepted_base_byte, (assumption)?)+

lemma yields_op_mem_nano: "yields op_mem_nano (accepted 10)"
  unfolding op_mem_nano_def Let_def window_base
  by (intro yields_bind [OF yields_randrange] yields_bind [OF yields_any] yields_if
      yields_bind [OF yields_reg] yields_ret)
    (erule (1) accepted_base_word accepted_base_byte)+

section \<open>Any single operation\<close>

lemma yields_accepted: "yields m (accepted a) \<Longrightarrow> a \<le> n \<Longrightarrow> yields m (accepted n)"
  by (rule yields_mono) (assumption, rule accepted_mono)

lemma yields_simple_attempt: "yields (simple_attempt cfg) (accepted 14)"
  unfolding simple_attempt_def
  by (intro yields_bind [OF yields_any] yields_if; rule yields_accepted,
      (rule yields_op_alu yields_op_imm yields_op_shift yields_op_mdu yields_op_mul yields_op_sreg), simp)

lemma yields_simple_op: "yields (simple_op cfg ex) (\<lambda>ls. accepted 14 ls \<and> \<not> excluded ex ls)"
  unfolding simple_op_def by (rule yields_retry [OF yields_simple_attempt])

lemma yields_op_shift_nano: "yields op_shift_nano (accepted 2)"
proof -
  have sh: "accepted 2 [''    '' @ fmt_5s op @ '' '' @ a @ '', '' @ b @ '', 1'']"
    if "op \<in> set [''SRLI'', ''SRAI'']" "is_reg a" "is_reg b" for op a b
  proof -
    have "fmt_d 1 = ''1''" by code_simp
    then show ?thesis using accepted_shift [of op a b 1] that by (auto simp: shift_ops_def)
  qed
  have shl: "accepted 2 [''    SHL1  '' @ a @ '', '' @ b]" if "is_reg a" "is_reg b" for a b
  proof -
    have "encode_insn ''SHL1'' os labels pc iflush = enc_mov ''SHL1'' os" for os labels pc iflush
      by (simp add: dispatch)
    then have "accept (''SHL1'', [a, b])"
      using is_regD(2) [OF that(1)] is_regD(2) [OF that(2)]
      by (auto intro!: acceptI simp: enc_mov_def n_ops_def)
    then have "accepted 2 [insn_text ''SHL1'' 2 [a, b]]"
      using that is_regD(1) by (intro accepted_short) (simp_all add: long_ops_def)
    then show ?thesis by (simp add: insn_text_def numeral_2_eq_2)
  qed
  show ?thesis
    unfolding op_shift_nano_def
    by (intro yields_bind [OF yields_any] yields_if yields_bind [OF yields_choice]
        yields_bind [OF yields_reg] yields_ret sh shl)
qed

lemma yields_simple_op_nano: "yields (simple_op_nano ex) (\<lambda>ls. accepted 10 ls \<and> \<not> excluded ex ls)"
  unfolding simple_op_nano_def
proof (rule yields_retry)
  show "yields (simple_attempt_nano ex) (accepted 10)"
    unfolding simple_attempt_nano_def
    by (intro yields_bind [OF yields_any] yields_if; rule yields_accepted,
        (rule yields_op_alu yields_op_imm yields_op_shift_nano yields_op_mem_nano), simp)
qed

text \<open>A name that is an operand of an instruction occurs in its line the way \<open>mentions\<close> looks for it.\<close>

lemma endswith_append: "endswith s x \<Longrightarrow> endswith (t @ s) x"
  by (auto simp: endswith_def)

lemma join_mentions:
  "x \<in> set ops \<Longrightarrow> py_in (x @ '','') (py_join '', '' ops) \<or> endswith (py_join '', '' ops) x"
proof (induction "'', '' :: string" ops rule: py_join.induct)
  case (3 y z ys)
  show ?case
  proof (cases "x = y")
    case True
    then have "py_in (x @ '','') ((x @ '','') @ '' '' @ py_join '', '' (z # ys))" by (intro py_in_prefix)
    then show ?thesis using True by simp
  next
    case False
    then have "py_in (x @ '','') (py_join '', '' (z # ys)) \<or> endswith (py_join '', '' (z # ys)) x"
      using 3 by auto
    then show ?thesis
      using py_in_append [of "x @ '',''" "py_join '', '' (z # ys)" "y @ '', ''"]
        endswith_append [of "py_join '', '' (z # ys)" x "y @ '', ''"] by auto
  qed
qed (auto simp: endswith_def)

lemma operand_mentioned:
  assumes "insn_shape l (op, ops)" "x \<in> set ops"
  shows "mentions x [l]"
proof -
  from assms obtain k where l: "l = insn_text op k ops" "k = 0 \<longleftrightarrow> ops = []" "mnemonic op"
    "list_all plain_operand ops" by (auto simp: insn_shape_def)
  define pre where "pre = ''    '' @ op @ replicate k CHR '' ''"
  have e: "l = pre @ py_join '', '' ops" by (simp add: l(1) insn_text_def pre_def)
  have "plain_char (last l)" using join_ends_plain [OF _ l(4)] assms(2) e by (cases ops) auto
  moreover have "l \<noteq> []" by (simp add: e pre_def)
  ultimately have "rstrip l = l" using plain_char_facts(1) by (intro rstrip_id) simp
  then show ?thesis
    using join_mentions [OF assms(2)] py_in_append [of "x @ '',''" "py_join '', '' ops" pre]
      endswith_append [of "py_join '', '' ops" x pre] by (auto simp: mentions_def e)
qed

end
