(* ===== verification/AsmFrame.thy ===== *)
theory AsmFrame
  imports AsmMeaning
begin

text \<open>
  What an assembled instruction leaves alone: no mnemonic writes a general register that is not
  among its operands, except the result register \<open>r0\<close> of \<open>CMPI\<close>.
\<close>

section \<open>Execution keeps a register\<close>

definition keeps :: "int \<Rightarrow> sim \<Rightarrow> exec_result \<Rightarrow> bool" where
  "keeps n m res \<longleftrightarrow> (\<forall>m' p'. res = Inr (m', p') \<longrightarrow> get_r m' n = get_r m n)"

lemma keeps_simps:
  "keeps n m (undef msg)" "keeps n m (Inr (m, p))"
  "keeps n m (if c then x else y) \<longleftrightarrow> (if c then keeps n m x else keeps n m y)"
  by (simp_all add: keeps_def)

lemma get_r_other: "r3 d \<Longrightarrow> r3 n \<Longrightarrow> d \<noteq> n \<Longrightarrow> get_r (set_r d v m) n = get_r m n"
  by (simp add: get_r_def set_r_def nat_eq_iff)

lemma get_r_frame:
  "get_r (store_word a v k m) n = get_r m n" "get_r (snd (load_word a m)) n = get_r m n"
  "get_r (stb a v m) n = get_r m n" "get_r (set_s i v m) n = get_r m n"
  "get_r (m\<lparr>sim_ie := x\<rparr>) n = get_r m n" "get_r (m\<lparr>sim_halted := b\<rparr>) n = get_r m n"
  by (simp_all add: get_r_def store_word_def load_word_def stb_def set_s_def Let_def)

lemmas keeps_exec = keeps_simps get_r_other get_r_frame Let_def case_prod_beta

lemma keeps_Inr: "get_r m' n = get_r m n \<Longrightarrow> keeps n m (Inr (m', p))"
  by (simp add: keeps_def)

lemma keeps_exec_reg:
  assumes "\<not> sim_nano m" "r3 d" "r3 a" "r3 n"
    and "d \<noteq> n \<and> (f \<in> {0x10, 0x14} \<longrightarrow> a \<noteq> n) \<or> f = 0x1F \<and> b \<noteq> 2"
  shows "keeps n m (exec_reg m d a f b p)"
proof (cases "f = 0x1F")
  case True
  then show ?thesis
    using assms by (auto simp: exec_reg_def exec_control_def keeps_exec intro!: keeps_Inr)
next
  case False
  then have d: "d \<noteq> n" using assms(5) by blast
  have alu: "keeps n m (exec_alu m d a f b p)"
    using assms d by (auto simp: exec_alu_def keeps_exec intro!: keeps_Inr)
  have mdu: "keeps n m (exec_mdu m d a f b p)" if "f \<in> {0x10, 0x14}"
    using assms d that by (auto simp: exec_mdu_def keeps_exec intro!: keeps_Inr)
  have funnel: "keeps n m (exec_funnel m d a b p)"
    using assms d by (auto simp: exec_funnel_def keeps_exec intro!: keeps_Inr)
  show ?thesis
    using False assms d alu mdu funnel
    by (auto simp: exec_reg_def keeps_exec intro!: keeps_Inr)
qed

lemma keeps_exec_imm:
  assumes "r3 d" "r3 n" "n \<noteq> 0" "op = 7 \<or> d \<noteq> n"
  shows "keeps n m (exec_imm m d op imm p)"
  using assms by (auto simp: exec_imm_def exec_branch_def keeps_exec intro!: keeps_Inr)

section \<open>Encodings that keep a register\<close>

text \<open>Each halfword of the bytes keeps register \<open>n\<close> when it is executed outside Nano.\<close>

definition kept :: "int \<Rightarrow> int list \<Rightarrow> bool" where
  "kept n bs \<longleftrightarrow> (\<forall>i < length bs div 2. \<forall>m p. \<not> sim_nano m \<longrightarrow>
     keeps n m (exec_insn m (halfword (drop (2 * i) bs)) p))"

definition kept_result :: "int \<Rightarrow> int list asm \<Rightarrow> bool" where
  "kept_result n res \<longleftrightarrow> (\<forall>bs. res = Inr bs \<longrightarrow> kept n bs)"

lemma kept_Inl: "kept_result n (Inl e)"
  by (simp add: kept_result_def)

lemma kept_if: "(c \<Longrightarrow> kept_result n a) \<Longrightarrow> (\<not> c \<Longrightarrow> kept_result n b) \<Longrightarrow> kept_result n (if c then a else b)"
  by simp

lemma kept_bind: "(\<And>x. m = Inr x \<Longrightarrow> kept_result n (f x)) \<Longrightarrow> kept_result n (bindE m f)"
  by (auto simp: kept_result_def bindE_Inr_iff)

lemma kept_word:
  assumes "fits 16 w" "\<And>m p. \<not> sim_nano m \<Longrightarrow> keeps n m (exec_insn m w p)"
  shows "kept n (encode_word w)"
  using assms halfword_single [OF assms(1)] by (simp add: kept_def encode_word_def)

lemma kept_halves:
  assumes "length bs = 4"
    and "\<And>m p. \<not> sim_nano m \<Longrightarrow> keeps n m (exec_insn m (halfword bs) p)"
    and "\<And>m p. \<not> sim_nano m \<Longrightarrow> keeps n m (exec_insn m (halfword (drop 2 bs)) p)"
  shows "kept n bs"
  unfolding kept_def
proof (intro allI impI)
  fix i p and m :: sim
  assume "i < length bs div 2" "\<not> sim_nano m"
  moreover from this(1) have "i = 0 \<or> i = 1" using assms(1) by auto
  ultimately show "keeps n m (exec_insn m (halfword (drop (2 * i) bs)) p)"
    using assms(2,3) by (metis drop0 mult.right_neutral mult_0_right)
qed

lemma kept_two:
  assumes "fits 16 v" "fits 16 w" "kept n (encode_word v)" "kept n (encode_word w)"
  shows "kept n (encode_word v @ encode_word w)"
proof (rule kept_halves)
  have "length (encode_word x) = 2" for x by (simp add: encode_word_def)
  then have one: "keeps n m (exec_insn m (halfword (encode_word x)) p)"
    if "kept n (encode_word x)" "\<not> sim_nano m" for x m p
    using that by (force simp: kept_def)
  have "halfword (encode_word v @ encode_word w) = halfword (encode_word v)"
    by (simp add: halfword_fits [OF assms(1)] halfword_single [OF assms(1)])
  then show "keeps n m (exec_insn m (halfword (encode_word v @ encode_word w)) p)" if "\<not> sim_nano m" for m p
    using one [OF assms(3) that] by simp
  show "keeps n m (exec_insn m (halfword (drop 2 (encode_word v @ encode_word w))) p)" if "\<not> sim_nano m" for m p
    unfolding drop_two by (rule one [OF assms(4) that])
qed (simp add: encode_word_def)

lemma kept_r:
  assumes "r3 d" "r3 a" "0 \<le> f" "f < 32" "r3 b" "r3 n"
    and "d \<noteq> n \<and> (f \<in> {0x10, 0x14} \<longrightarrow> a \<noteq> n) \<or> f = 0x1F \<and> b \<noteq> 2"
  shows "kept n (encode_word (enc_r d a f b))"
  using assms by (intro kept_word enc_r_fits) (simp_all add: exec_enc_r keeps_exec_reg)

lemma kept_i:
  assumes "r3 d" "r3 op" "0 \<le> imm" "imm < 256" "r3 n" "n \<noteq> 0" "op = 7 \<or> d \<noteq> n"
  shows "kept n (encode_word (enc_i d op imm))"
  using assms by (intro kept_word enc_i_fits) (simp_all add: exec_enc_i keeps_exec_imm)

lemma kept_mem:
  assumes "r3 d" "r3 a" "0 \<le> imm" "imm < 256" "imm mod 2 = 0" "r3 n" "d \<noteq> n"
  shows "kept n (encode_word (enc_mem_i st d a imm))"
proof (rule kept_word)
  show "fits 16 (enc_mem_i st d a imm)"
  proof -
    have "imm + of_bool st < 256" using assms by (cases st) (simp_all, presburger)
    then show ?thesis using assms by (simp add: enc_mem_i_pack pack4_fits)
  qed
  show "keeps n m (exec_insn m (enc_mem_i st d a imm) p)" for m p
    using assms by (auto simp: exec_enc_mem_i keeps_exec intro!: keeps_Inr)
qed

section \<open>Every mnemonic\<close>

text \<open>An operand that is a register is not the unnamed one.\<close>

lemma n_ops_ok: "n_ops op os k u = Inr x \<Longrightarrow> length os = k"
  by (simp add: n_ops_def split: if_splits)

definition unnamed :: "int \<Rightarrow> string list \<Rightarrow> bool" where
  "unnamed n os \<longleftrightarrow> r3 n \<and> n \<noteq> 0 \<and> (\<forall>x \<in> set os. reg x \<noteq> Inr n)"

lemma unnamedD: "unnamed n os \<Longrightarrow> r3 n" "unnamed n os \<Longrightarrow> n \<noteq> 0"
  "unnamed n os \<Longrightarrow> i < length os \<Longrightarrow> reg (os ! i) \<noteq> Inr n"
  by (auto simp: unnamed_def)

lemma table_ranges:
  "list_all (\<lambda>(k, f). 0 \<le> f \<and> f < 32) R_FUNC" "list_all (\<lambda>(k, f). 0 \<le> f \<and> f < 8) I_OP"
  "list_all (\<lambda>(k, f). 0 \<le> f \<and> f < 8) BR_CC"
  by code_simp+

lemma at_range:
  assumes "has_key t k" "list_all (\<lambda>(k, f). 0 \<le> f \<and> f < b) t"
  shows "0 \<le> at t k \<and> at t k < b"
proof -
  obtain v where v: "map_of t k = Some v"
    using assms(1) by (cases "map_of t k") (auto simp: has_key_def map_of_eq_None_iff)
  then have "(k, v) \<in> set t" by (rule map_of_SomeD)
  then show ?thesis using assms(2) v by (auto simp: list_all_iff at_def)
qed

lemma sys_values: "at R_FUNC ''SYS'' = 0x1F" "at SYS_SUB ''CONTROL'' = 0" "at SYS_SUB ''JALR'' = 1"
  "at SYS_SUB ''MFS'' = 2" "at SYS_SUB ''MTS'' = 3" "at BR_CC ''JMP8'' = 4"
  by (simp_all add: at_def R_FUNC_def SYS_SUB_def BR_CC_def)

lemma control_values: "op \<in> {''RET'', ''RETI'', ''CLI'', ''STI'', ''IFLUSH''} \<Longrightarrow> r3 (at CONTROL_CCC op)"
  by (auto simp: at_def CONTROL_CCC_def)

lemma enc_i8_range: "enc_i8 v w = Inr i \<Longrightarrow> 0 \<le> i \<and> i < 256"
  by (auto simp: enc_i8_def and_255 split: if_splits)

lemma enc_u8_range: "enc_u8 v w = Inr i \<Longrightarrow> 0 \<le> i \<and> i < 256"
  by (auto simp: enc_u8_def split: if_splits)

lemma enc_i8_even: "enc_i8 v w = Inr i \<Longrightarrow> v AND 1 = 0 \<Longrightarrow> i mod 2 = 0"
  by (auto simp: enc_i8_def and_255 and_one_eq split: if_splits) presburger

lemma kept_Inr: "kept n bs \<Longrightarrow> kept_result n (Inr bs)"
  by (simp add: kept_result_def)

lemma kept_reg: "(\<And>d. reg t = Inr d \<Longrightarrow> r3 d \<Longrightarrow> kept_result n (f d)) \<Longrightarrow> kept_result n (bindE (reg t) f)"
  by (rule kept_bind) (simp add: reg_range)

lemma kept_sreg: "(\<And>d. sreg t = Inr d \<Longrightarrow> r3 d \<Longrightarrow> kept_result n (f d)) \<Longrightarrow> kept_result n (bindE (sreg t) f)"
  by (rule kept_bind) (simp add: sreg_range)

lemma kept_n_ops: "(length os = k \<Longrightarrow> kept_result n (f ())) \<Longrightarrow> kept_result n (bindE (n_ops op os k u) f)"
  by (rule kept_bind) (simp add: n_ops_ok)

lemmas kept_rules = kept_Inl kept_n_ops kept_reg kept_sreg kept_bind kept_if kept_Inr

text \<open>In each group the destination field is an operand, or the instruction writes no register.\<close>

lemma kept_alu3:
  assumes "unnamed n os" "has_key R_FUNC op"
  shows "kept_result n (enc_alu3 op os)"
  unfolding enc_alu3_def
  using at_range [OF assms(2) table_ranges(1)] unnamedD [OF assms(1)]
  by (intro kept_rules kept_r) auto

lemma kept_fun1:
  assumes "unnamed n os" "op \<in> {''FSL1'', ''FSR1''}"
  shows "kept_result n (enc_fun1 op os)"
proof -
  have "has_key R_FUNC op" using assms(2) by (auto simp: has_key_def R_FUNC_def)
  then show ?thesis
    unfolding enc_fun1_def
    using at_range [OF _ table_ranges(1), of op] unnamedD [OF assms(1)]
    by (intro kept_rules kept_r) auto
qed

lemma kept_mov:
  assumes "unnamed n os"
  shows "kept_result n (enc_mov op os)"
proof -
  have "at R_FUNC ''OR'' = 5" "at R_FUNC ''ADD'' = 0" by (simp_all add: at_def R_FUNC_def)
  then show ?thesis
    unfolding enc_mov_def
    using unnamedD [OF assms] by (intro kept_rules kept_r) auto
qed

lemma kept_shift:
  assumes "unnamed n os" "op \<in> {''SLLI'', ''SRLI'', ''SRAI''}"
  shows "kept_result n (enc_shift op os labels)"
proof -
  have "has_key R_FUNC op" "at R_FUNC op \<notin> {0x10, 0x14}"
    using assms(2) by (auto simp: has_key_def R_FUNC_def at_def)
  then show ?thesis
    unfolding enc_shift_def
    using at_range [OF _ table_ranges(1), of op] unnamedD [OF assms(1)]
    by (intro kept_rules kept_r) auto
qed

lemma kept_byte:
  assumes "unnamed n os" "op \<in> {''LDB'', ''LDBS'', ''STB''}"
  shows "kept_result n (enc_byte op os)"
proof -
  have "has_key R_FUNC op" "at R_FUNC op \<notin> {0x10, 0x14}"
    using assms(2) by (auto simp: has_key_def R_FUNC_def at_def)
  then show ?thesis
    unfolding enc_byte_def
    using at_range [OF _ table_ranges(1), of op] unnamedD [OF assms(1)]
    by (intro kept_rules kept_r) auto
qed

lemma kept_ldx:
  assumes "unnamed n os"
  shows "kept_result n (enc_ldx ''LDX'' os)"
proof -
  have "at R_FUNC ''LDX'' = 8" by (simp add: at_def R_FUNC_def)
  then show ?thesis
    unfolding enc_ldx_def
    using unnamedD [OF assms] by (intro kept_rules kept_r) auto
qed

lemma kept_ld_st:
  assumes "unnamed n os"
  shows "kept_result n (enc_ld_st op os labels)"
  unfolding enc_ld_st_def
  using unnamedD [OF assms] enc_i8_range enc_i8_even
  by (intro kept_rules kept_mem) auto

lemma kept_imm:
  assumes "unnamed n os" "has_key I_OP op"
  shows "kept_result n (enc_imm op os labels)"
proof -
  have "0 \<le> i \<and> i < 256"
    if "(if c then enc_i8 v w else enc_u8 (v AND 0xFF) w') = Inr i" for c v w w' i
    using that enc_i8_range enc_u8_range by (cases c) auto
  then show ?thesis
    unfolding enc_imm_def
    using at_range [OF assms(2) table_ranges(2)] unnamedD [OF assms(1)]
    by (intro kept_n_ops kept_reg kept_bind kept_Inr kept_i) auto
qed

lemma kept_ldi16:
  assumes "unnamed n os"
  shows "kept_result n (enc_ldi16 op os labels)"
proof -
  have "0 \<le> x AND 0xFF \<and> x AND 0xFF < 256" for x :: int by (simp add: and_255)
  then show ?thesis
    unfolding enc_ldi16_def Let_def table_values
    using unnamedD [OF assms] by (intro kept_rules kept_two kept_i enc_i_fits) auto
qed

lemma kept_branch:
  assumes "r3 n" "n \<noteq> 0" "r3 cc" "-128 \<le> rel" "rel \<le> 127"
  shows "kept n (encode_word (enc_branch cc (rel AND 0xFF)))"
  using assms
  by (intro kept_word enc_branch_fits) (auto simp: exec_enc_branch keeps_exec exec_branch_def intro!: keeps_Inr)

lemma enc_i8_value: "enc_i8 v w = Inr i \<Longrightarrow> i = v AND 0xFF \<and> -128 \<le> v \<and> v \<le> 127"
  by (auto simp: enc_i8_def split: if_splits)

lemma kept_br:
  assumes "unnamed n os" "has_key BR_CC op"
  shows "kept_result n (enc_br op os labels pc)"
  unfolding enc_br_def Let_def
  using at_range [OF assms(2) table_ranges(3)] unnamedD [OF assms(1)]
  by (intro kept_rules) (auto dest!: enc_i8_value intro!: kept_branch)

lemma kept_halt:
  assumes "unnamed n os"
  shows "kept_result n (enc_halt op os)"
proof -
  have "r3 (at BR_CC ''JMP8'')" by (simp add: at_def BR_CC_def)
  then show ?thesis
    unfolding enc_halt_def
    using unnamedD [OF assms]
    by (intro kept_rules) (auto dest!: enc_i8_value intro!: kept_branch)
qed

lemma kept_system:
  assumes "unnamed n os"
  shows "op \<in> {''RET'', ''RETI''} \<Longrightarrow> kept_result n (enc_ret op os)"
    "op \<in> {''CLI'', ''STI'', ''IFLUSH''} \<Longrightarrow> kept_result n (enc_control op os)"
    "kept_result n (enc_sbank op os)" "kept_result n (enc_nop op os)" "kept_result n (enc_jalr op os)"
proof -
  note u = unnamedD [OF assms]
  show "kept_result n (enc_ret op os)" if "op \<in> {''RET'', ''RETI''}"
    unfolding enc_ret_def sys_values using u control_values [of op] that by (intro kept_rules kept_r) auto
  show "kept_result n (enc_control op os)" if "op \<in> {''CLI'', ''STI'', ''IFLUSH''}"
    unfolding enc_control_def sys_values using u control_values [of op] that by (intro kept_rules kept_r) auto
  show "kept_result n (enc_sbank op os)"
    unfolding enc_sbank_def sys_values using u by (intro kept_rules kept_r) auto
  have "at R_FUNC ''OR'' = 5" by (simp add: at_def R_FUNC_def)
  then show "kept_result n (enc_nop op os)"
    unfolding enc_nop_def using u by (intro kept_rules kept_r) auto
  have "r3 d" if "(case map_of REGS t of Some d \<Rightarrow> Inr d | None \<Rightarrow> sreg v) = Inr d" for t v d
    using that sreg_range map_of_range [OF _ regs_range(1)] by (auto split: option.splits)
  then show "kept_result n (enc_jalr op os)"
    unfolding enc_jalr_def sys_values using u
    by (intro kept_if kept_n_ops kept_reg kept_bind kept_Inr kept_r) auto
qed

lemma kept_encode_insn:
  assumes "unnamed n os" "py_upper op \<notin> {''JALL'', ''JMPL'', ''JAL16'', ''JMP16''}"
  shows "kept_result n (encode_insn op os labels pc iflush)"
proof -
  define u where "u = py_upper op"
  have alu: "u \<in> {''ADD'', ''SUB'', ''AND'', ''OR'', ''XOR'', ''SLT'', ''SLTU'', ''MUL'', ''DIVU'', ''MULHU''} \<Longrightarrow>
      has_key R_FUNC u"
    by (auto simp: has_key_def R_FUNC_def)
  have u: "u \<notin> {''JALL'', ''JMPL'', ''JAL16'', ''JMP16''}" using assms(2) by (simp add: u_def)
  then have e: "(if u \<in> {''JALL'', ''JMPL''} then the (map_of MNEMONIC_ALIASES u) else u) = u" by simp
  have jump: "u \<in> {''JAL16'', ''JMP16''} \<Longrightarrow> kept_result n (enc_jump u os labels)" using u by auto
  have byte: "u \<in> {''LDB'', ''LDBS''} \<Longrightarrow> kept_result n (enc_byte u os)"
    "u = ''STB'' \<Longrightarrow> kept_result n (enc_byte u os)"
    by (rule kept_byte [OF assms(1)]; auto)+
  have ldx: "u = ''LDX'' \<Longrightarrow> kept_result n (enc_ldx u os)" using kept_ldx [OF assms(1)] by simp
  note groups = jump byte ldx kept_Inl kept_system [OF assms(1)] kept_ldi16 [OF assms(1)] kept_ld_st [OF assms(1)]
    kept_imm [OF assms(1)] kept_br [OF assms(1)] kept_mov [OF assms(1)] kept_fun1 [OF assms(1)]
    kept_alu3 [OF assms(1) alu] kept_shift [OF assms(1)] kept_halt [OF assms(1)]
  show ?thesis
    unfolding encode_insn_def Let_def u_def [symmetric] e
    by (intro kept_if groups)
qed



end
