(* ===== verification/FuzzGenProps.thy ===== *)
theory FuzzGenProps
  imports FuzzBlocks AsmFrame
begin

text \<open>
  Properties of the RISC-C program generator against the assembler and the simulator: every
  single operation is accepted code of bounded size, the body of a counted loop keeps the
  counter, and the operands of \<open>DIVU\<close> satisfy its precondition.
\<close>

section \<open>Lines of accepted code\<close>

lemma accepted_reads:
  assumes "accepted n ls"
  shows "\<exists>is. length is = length ls \<and> block_size is \<le> n \<and> (\<forall>(l, op, os) \<in> set (zip ls is). \<forall>lineno st labels pc iflush.
       source_line lineno l st = Inr (add_item INSN op os (insn_size op os) lineno l st) \<and>
       (\<exists>bs. encode_insn op os labels pc iflush = Inr bs))"
proof -
  obtain "is" where "is": "list_all2 insn_shape ls is" "list_all accept is" "block_size is \<le> n"
    using assms by (auto simp: accepted_def)
  moreover have "source_line lineno l st = Inr (add_item INSN op os (insn_size op os) lineno l st) \<and>
       (\<exists>bs. encode_insn op os labels pc iflush = Inr bs)"
    if "(l, op, os) \<in> set (zip ls is)" for l op os lineno st labels pc iflush
  proof -
    have "insn_shape l (op, os)" "accept (op, os)"
      using "is"(1,2) that by (auto simp: list_all2_iff list_all_iff dest: set_zip_rightD)
    then show ?thesis by (simp add: accept_def source_insn_line)
  qed
  ultimately show ?thesis using list_all2_lengthD [OF "is"(1)] by (intro exI [of _ "is"]) auto
qed

text \<open>
  Every operation \<open>simple_op\<close> returns, in every profile and after any number of retries,
  is code the assembler takes: each line is read as one instruction, every instruction encodes
  whatever the labels, the address and the options, and they have at most 14 bytes in all.
\<close>

theorem simple_op_assembles:
  assumes "simple_op cfg ex s = Some (Inr (ls, s'))"
  shows "\<exists>is. length is = length ls \<and> block_size is \<le> 14 \<and> (\<forall>(l, op, os) \<in> set (zip ls is). \<forall>lineno st labels pc iflush.
       source_line lineno l st = Inr (add_item INSN op os (insn_size op os) lineno l st) \<and>
       (\<exists>bs. encode_insn op os labels pc iflush = Inr bs))"
  using yields_simple_op [of cfg ex] assms by (intro accepted_reads) (auto simp: yields_def)

definition demo_config :: config where
  "demo_config = \<lparr>cf_profile = ''full'', cf_sys = True, cf_shifts = True, cf_long_calls = True, cf_full = True,
     cf_mulhu = True, cf_divu = True, cf_mdu = True\<rparr>"

text \<open>A generator state whose draws are the elements of a list, then zeros.\<close>

definition tape :: "int list \<Rightarrow> gst" where
  "tape ds = \<lparr>gs_rng = \<lparr>rg_draws = (\<lambda>n. if n < length ds then ds ! n else 0), rg_pos = 0\<rparr>, gs_label = 0\<rparr>"

lemma demo_result:
  "map_option (map_sum id fst) r = Some (Inr x) \<Longrightarrow> \<exists>s'. r = Some (Inr (x, s'))"
  by (cases r; cases "the r") (auto simp: map_sum_def)

lemma demo_simple:
  "map_option (map_sum id fst) (simple_op demo_config (Some ''r1'') (tape [0, 1, 0, 1, 2, 0, 2, 4, 3, 2])) =
     Some (Inr [''    SLT   r5, r4, r3''])"
  by code_simp

theorem simple_op_assembles_witness:
  "\<exists>op os. insn_size op os \<le> 14 \<and> (\<forall>lineno st. source_line lineno ''    SLT   r5, r4, r3'' st =
       Inr (add_item INSN op os (insn_size op os) lineno ''    SLT   r5, r4, r3'' st))"
proof -
  obtain s' where "simple_op demo_config (Some ''r1'') (tape [0, 1, 0, 1, 2, 0, 2, 4, 3, 2]) =
      Some (Inr ([''    SLT   r5, r4, r3''], s'))"
    using demo_result [OF demo_simple] by blast
  from simple_op_assembles [OF this] obtain "is" where "is": "length is = Suc 0" "block_size is \<le> 14"
    "\<forall>(l, op, os) \<in> set (zip [''    SLT   r5, r4, r3''] is). \<forall>lineno st labels pc iflush.
       source_line lineno l st = Inr (add_item INSN op os (insn_size op os) lineno l st) \<and>
       (\<exists>bs. encode_insn op os labels pc iflush = Inr bs)" by auto
  then obtain op os where "is = [(op, os)]" by (auto simp: length_Suc_conv)
  then show ?thesis using "is"(2,3) by (intro exI [of _ op] exI [of _ os]) (simp add: block_size_def)
qed

section \<open>The loop counter\<close>

lemma yields_reg6: "yields gen_reg (\<lambda>r. \<exists>n. 1 \<le> n \<and> n \<le> 6 \<and> r = rname n)"
  unfolding gen_reg_def
  by (rule yields_map, rule yields_mono [OF yields_randint]) (auto simp: rname_def)

text \<open>An accepted line that does not mention a register encodes to code that keeps it.\<close>

definition keeping_line :: "int \<Rightarrow> string \<Rightarrow> bool" where
  "keeping_line n l \<longleftrightarrow> (\<exists>op os. insn_shape l (op, os) \<and> accept (op, os) \<and>
     (\<forall>labels pc iflush bs. encode_insn op os labels pc iflush = Inr bs \<longrightarrow> kept n bs))"

lemma kept_unmentioned:
  assumes "insn_shape l (op, os)" "accept (op, os)" "\<not> mentions (rname n) [l]" "1 \<le> n" "n \<le> 7"
  shows "keeping_line n l"
proof -
  have "reg x \<noteq> Inr n" if x: "x \<in> set os" for x
  proof
    assume "reg x = Inr n"
    moreover have "plain_operand x" using assms(1) x by (auto simp: insn_shape_def list_all_iff)
    ultimately have "x = rname n" by (rule plain_reg [rotated])
    then show False using operand_mentioned [OF assms(1)] x assms(3) by blast
  qed
  then have "unnamed n os" using assms(4,5) by (simp add: unnamed_def)
  moreover have "py_upper op = op" using assms(1) by (intro mnemonic_upper) (simp add: insn_shape_def)
  moreover have "op \<notin> jump_ops" using assms(2) by (simp add: accept_def)
  ultimately have "kept_result n (encode_insn op os labels pc iflush)" for labels pc iflush
    by (intro kept_encode_insn) (auto simp: jump_ops_def)
  then show ?thesis using assms(1,2) by (auto simp: keeping_line_def kept_result_def)
qed

lemma keeping_lines:
  assumes "accepted k ls" "\<not> excluded (Some (rname n)) ls" "1 \<le> n" "n \<le> 7"
  shows "list_all (keeping_line n) ls"
proof -
  have "\<not> mentions (rname n) [l]" if "l \<in> set ls" for l
    using assms(2) that by (auto simp: excluded_def mentions_def list_ex_iff)
  moreover have "\<exists>i. insn_shape l i \<and> accept i" if "l \<in> set ls" for l
    using assms(1) that unfolding accepted_def
    by (metis in_set_conv_nth list_all2_conv_all_nth list_all_length)
  ultimately show ?thesis
    unfolding list_all_iff using kept_unmentioned assms(3,4) by (metis surj_pair)
qed

lemma yields_op_loop:
  "yields (op_loop cfg) (\<lambda>ls. \<exists>lab n times body. 1 \<le> n \<and> n \<le> 6 \<and> 1 \<le> times \<and> times \<le> 5 \<and>
     ls = [''    LDI   '' @ rname n @ '', '' @ fmt_d times, lab @ '':''] @ body @
       [''    ADDI  '' @ rname n @ '', -1'', ''    MOV   r0, '' @ rname n, ''    BNEZ  '' @ lab] \<and>
     list_all (keeping_line n) body)"
  unfolding op_loop_def
proof (rule yields_bind [OF yields_any], rule yields_bind [OF yields_reg6], rule yields_bind [OF yields_any])
  fix lab cnt k
  assume "\<exists>n. 1 \<le> n \<and> n \<le> 6 \<and> cnt = rname n"
  then obtain n where n: "1 \<le> n" "n \<le> 6" "cnt = rname n" by blast
  have body: "yields (repeatG (nat k) (simple_op cfg (Some cnt))) (list_all (keeping_line n))"
    by (intro yields_repeat yields_mono [OF yields_simple_op]) (use n in \<open>auto intro: keeping_lines\<close>)
  show "yields (bindG (repeatG (nat k) (simple_op cfg (Some cnt))) (\<lambda>body.
     bindG (randint 1 5) (\<lambda>times.
       retG ([''    LDI   '' @ cnt @ '', '' @ fmt_d times, lab @ '':''] @ body @
             [''    ADDI  '' @ cnt @ '', -1'', ''    MOV   r0, '' @ cnt, ''    BNEZ  '' @ lab]))))
     (\<lambda>ls. \<exists>lab n times body. 1 \<le> n \<and> n \<le> 6 \<and> 1 \<le> times \<and> times \<le> 5 \<and>
     ls = [''    LDI   '' @ rname n @ '', '' @ fmt_d times, lab @ '':''] @ body @
       [''    ADDI  '' @ rname n @ '', -1'', ''    MOV   r0, '' @ rname n, ''    BNEZ  '' @ lab] \<and>
     list_all (keeping_line n) body)"
    by (rule yields_bind [OF body], rule yields_bind [OF yields_randint], rule yields_ret) (use n in blast)
qed

text \<open>
  C14: a counted loop ends after its count: \<open>op_loop\<close> sets a register to a count of one to five,
  and no instruction of the loop's body changes that register when it is executed (outside
  Nano), so only the decrement before the closing branch does.
\<close>

theorem loop_counter_kept:
  assumes "op_loop cfg s = Some (Inr (ls, s'))"
  shows "\<exists>lab n times body. 1 \<le> n \<and> n \<le> 6 \<and> 1 \<le> times \<and> times \<le> 5 \<and>
     ls = [''    LDI   '' @ rname n @ '', '' @ fmt_d times, lab @ '':''] @ body @
       [''    ADDI  '' @ rname n @ '', -1'', ''    MOV   r0, '' @ rname n, ''    BNEZ  '' @ lab] \<and>
     (\<forall>l \<in> set body. \<exists>op os. insn_shape l (op, os) \<and>
        (\<forall>labels pc iflush bs i m p m' p'. encode_insn op os labels pc iflush = Inr bs \<longrightarrow>
           i < length bs div 2 \<longrightarrow> \<not> sim_nano m \<longrightarrow>
           exec_insn m (halfword (drop (2 * i) bs)) p = Inr (m', p') \<longrightarrow> get_r m' n = get_r m n))"
proof -
  have "\<exists>op os. insn_shape l (op, os) \<and>
      (\<forall>labels pc iflush bs i m p m' p'. encode_insn op os labels pc iflush = Inr bs \<longrightarrow>
         i < length bs div 2 \<longrightarrow> \<not> sim_nano m \<longrightarrow>
         exec_insn m (halfword (drop (2 * i) bs)) p = Inr (m', p') \<longrightarrow> get_r m' n = get_r m n)"
    if "keeping_line n l" for n l
    using that unfolding keeping_line_def kept_def keeps_def by metis
  moreover obtain lab n times body where "1 \<le> n \<and> n \<le> 6 \<and> 1 \<le> times \<and> times \<le> 5 \<and>
     ls = [''    LDI   '' @ rname n @ '', '' @ fmt_d times, lab @ '':''] @ body @
       [''    ADDI  '' @ rname n @ '', -1'', ''    MOV   r0, '' @ rname n, ''    BNEZ  '' @ lab]"
    "list_all (keeping_line n) body"
    using yields_op_loop [of cfg] assms unfolding yields_def by blast
  ultimately show ?thesis
    by (intro exI [of _ lab] exI [of _ n] exI [of _ times] exI [of _ body]) (simp add: list_all_iff)
qed

lemma demo_loop:
  "map_option (map_sum id fst) (op_loop demo_config (tape [4, 0, 0, 0, 4, 0, 1, 0, 1, 0, 2, 3, 2])) =
     Some (Inr [''    LDI   r5, 3'', ''loop_1:'', ''    SUB   r1, r3, r4'', ''    ADDI  r5, -1'',
       ''    MOV   r0, r5'', ''    BNEZ  loop_1''])"
  by code_simp

lemma rname_values: "rname 1 = ''r1''" "rname 2 = ''r2''" "rname 3 = ''r3''" "rname 4 = ''r4''" "rname 5 = ''r5''"
  "rname 6 = ''r6''"
  by code_simp+

theorem loop_counter_kept_witness:
  "\<exists>op os. insn_shape ''    SUB   r1, r3, r4'' (op, os) \<and>
     (\<forall>bs m p m' p'. encode_insn op os no_labels 0 False = Inr bs \<longrightarrow> 0 < length bs div 2 \<longrightarrow> \<not> sim_nano m \<longrightarrow>
        exec_insn m (halfword bs) p = Inr (m', p') \<longrightarrow> get_r m' 5 = get_r m 5)"
proof -
  obtain s' where "op_loop demo_config (tape [4, 0, 0, 0, 4, 0, 1, 0, 1, 0, 2, 3, 2]) =
      Some (Inr ([''    LDI   r5, 3'', ''loop_1:'', ''    SUB   r1, r3, r4'', ''    ADDI  r5, -1'',
       ''    MOV   r0, r5'', ''    BNEZ  loop_1''], s'))"
    using demo_result [OF demo_loop] by blast
  from loop_counter_kept [OF this] obtain lab n times body where n: "1 \<le> n" "n \<le> 6"
    and ls: "[''    LDI   r5, 3'', ''loop_1:'', ''    SUB   r1, r3, r4'', ''    ADDI  r5, -1'',
       ''    MOV   r0, r5'', ''    BNEZ  loop_1''] =
      [''    LDI   '' @ rname n @ '', '' @ fmt_d times, lab @ '':''] @ body @
       [''    ADDI  '' @ rname n @ '', -1'', ''    MOV   r0, '' @ rname n, ''    BNEZ  '' @ lab]"
    and body: "\<forall>l \<in> set body. \<exists>op os. insn_shape l (op, os) \<and>
        (\<forall>labels pc iflush bs i m p m' p'. encode_insn op os labels pc iflush = Inr bs \<longrightarrow>
           i < length bs div 2 \<longrightarrow> \<not> sim_nano m \<longrightarrow>
           exec_insn m (halfword (drop (2 * i) bs)) p = Inr (m', p') \<longrightarrow> get_r m' n = get_r m n)"
    by blast
  have "n \<in> {1, 2, 3, 4, 5, 6}" using n by auto
  then have "n = 5" using ls by (elim insertE) (simp_all add: rname_values)
  moreover have "length body = 1" using arg_cong [OF ls, of length] by simp
  then have "body = [''    SUB   r1, r3, r4'']" using ls by (auto simp: length_Suc_conv)
  ultimately obtain op os where "insn_shape ''    SUB   r1, r3, r4'' (op, os)"
    "\<forall>labels pc iflush bs i m p m' p'. encode_insn op os labels pc iflush = Inr bs \<longrightarrow>
       i < length bs div 2 \<longrightarrow> \<not> sim_nano m \<longrightarrow>
       exec_insn m (halfword (drop (2 * i) bs)) p = Inr (m', p') \<longrightarrow> get_r m' 5 = get_r m 5"
    using body by auto
  then show ?thesis by (intro exI [of _ op] exI [of _ os]) (metis drop0 mult_0_right)
qed

section \<open>Division\<close>

text \<open>
  C16: the generated division never meets an undefined case: \<open>op_divu\<close> loads three distinct
  registers with a remainder below the divisor, a quotient word and the divisor, so that in every
  state which holds the loaded values the \<open>DIVU\<close> it ends with divides.
\<close>

theorem generated_division_defined:
  assumes "op_divu s = Some (Inr (ls, s'))"
  shows "\<exists>rr rq rb rem quo dvs. distinct [rr, rq, rb] \<and> set [rr, rq, rb] \<subseteq> {1..6} \<and>
    0 \<le> rem \<and> rem < dvs \<and> dvs \<le> 0xFFFF \<and> 0 \<le> quo \<and> quo \<le> 0xFFFF \<and>
    ls = [ldi16_line (rname rr) rem, ldi16_line (rname rq) quo, ldi16_line (rname rb) dvs,
          ''    DIVU  '' @ rname rr @ '', '' @ rname rq @ '', '' @ rname rb] \<and>
    (\<forall>m p labels pc iflush bs. sim_mdu m \<longrightarrow> get_r m rr = rem \<longrightarrow> get_r m rq = quo \<longrightarrow> get_r m rb = dvs \<longrightarrow>
       encode_insn ''DIVU'' [rname rr, rname rq, rname rb] labels pc iflush = Inr bs \<longrightarrow>
       exec_insn m (halfword bs) p =
         Inr (set_r rr ((rem * 65536 + quo) mod dvs) (set_r rq ((rem * 65536 + quo) div dvs) m), p))"
proof -
  have step: "exec_insn m (halfword bs) p =
      Inr (set_r rr ((rem * 65536 + quo) mod dvs) (set_r rq ((rem * 65536 + quo) div dvs) m), p)"
    if d: "distinct [rr, rq, rb]" "set [rr, rq, rb] \<subseteq> {1..6}" and r: "0 \<le> rem" "rem < dvs" "0 \<le> quo" "quo \<le> 0xFFFF"
      and m: "sim_mdu m" "get_r m rr = rem" "get_r m rq = quo" "get_r m rb = dvs"
      and enc: "encode_insn ''DIVU'' [rname rr, rname rq, rname rb] labels pc iflush = Inr bs"
    for rr rq rb rem quo dvs m p labels pc iflush bs
  proof -
    have f: "at R_FUNC ''DIVU'' = 16" by (simp add: at_def R_FUNC_def)
    have regs: "reg (rname rr) = Inr rr" "reg (rname rq) = Inr rq" "reg (rname rb) = Inr rb"
      using d(2) by (auto intro!: reg_operand)
    have "bs = encode_word (enc_r rr rq 16 rb)"
      using enc encode_alu3 [of "''DIVU''"] regs f by (simp add: alu3_ops_def enc_alu3_def n_ops_def numeral_2_eq_2)
    moreover have "r3 rr" "r3 rq" "r3 rb" using d(2) by auto
    ultimately have "exec_insn m (halfword bs) p = exec_reg m rr rq 16 rb p"
      using halfword_single [OF enc_r_fits] exec_enc_r by simp
    also have "\<dots> = exec_mdu m rr rq 16 rb p" by (simp add: exec_reg_def)
    also have "card {rr, rq, rb} = 3" using d(1) by (simp add: card_insert_if)
    then have "exec_mdu m rr rq 16 rb p =
        Inr (set_r rr ((rem * 65536 + quo) mod dvs) (set_r rq ((rem * 65536 + quo) div dvs) m), p)"
      using m r pack_or [of quo 16 rem] by (simp add: exec_mdu_def Let_def)
    finally show ?thesis .
  qed
  have "yields op_divu (\<lambda>ls. \<exists>rr rq rb rem quo dvs. distinct [rr, rq, rb] \<and> set [rr, rq, rb] \<subseteq> {1..6} \<and>
    0 \<le> rem \<and> rem < dvs \<and> dvs \<le> 0xFFFF \<and> 0 \<le> quo \<and> quo \<le> 0xFFFF \<and>
    ls = [ldi16_line (rname rr) rem, ldi16_line (rname rq) quo, ldi16_line (rname rb) dvs,
          ''    DIVU  '' @ rname rr @ '', '' @ rname rq @ '', '' @ rname rb])"
    unfolding op_divu_def
  proof (intro yields_bind [OF yields_sample] yields_bind [OF yields_randint] yields_bind [OF yields_randrange])
    fix rs :: "int list" and d r q :: int
    assume rs: "length rs = 3 \<and> set rs \<subseteq> set [1, 2, 3, 4, 5, 6] \<and> (distinct [1, 2, 3, 4, 5, 6 :: int] \<longrightarrow> distinct rs)"
      and d: "1 \<le> d \<and> d \<le> 0xffff" and r: "0 \<le> r \<and> r < d" and q: "0 \<le> q \<and> q \<le> 0xffff"
    obtain x y z where e: "rs = [x, y, z]" using rs by (auto simp: length_Suc_conv numeral_3_eq_3)
    have xyz: "distinct [x, y, z]" "set [x, y, z] \<subseteq> {1..6}" using rs unfolding e by auto
    show "yields (let rr = rname (rs ! 0); rq = rname (rs ! 1); rb = rname (rs ! 2) in
         retG [ldi16_line rr r, ldi16_line rq q, ldi16_line rb d, ''    DIVU  '' @ rr @ '', '' @ rq @ '', '' @ rb])
      (\<lambda>ls. \<exists>rr rq rb rem quo dvs. distinct [rr, rq, rb] \<and> set [rr, rq, rb] \<subseteq> {1..6} \<and>
        0 \<le> rem \<and> rem < dvs \<and> dvs \<le> 0xFFFF \<and> 0 \<le> quo \<and> quo \<le> 0xFFFF \<and>
        ls = [ldi16_line (rname rr) rem, ldi16_line (rname rq) quo, ldi16_line (rname rb) dvs,
          ''    DIVU  '' @ rname rr @ '', '' @ rname rq @ '', '' @ rname rb])"
      unfolding Let_def e
      by (rule yields_ret, rule exI [of _ x], rule exI [of _ y], rule exI [of _ z], rule exI [of _ r],
          rule exI [of _ q], rule exI [of _ d]) (use xyz d r q in simp)
  qed
  then have "\<exists>rr rq rb rem quo dvs. distinct [rr, rq, rb] \<and> set [rr, rq, rb] \<subseteq> {1..6} \<and>
    0 \<le> rem \<and> rem < dvs \<and> dvs \<le> 0xFFFF \<and> 0 \<le> quo \<and> quo \<le> 0xFFFF \<and>
    ls = [ldi16_line (rname rr) rem, ldi16_line (rname rq) quo, ldi16_line (rname rb) dvs,
          ''    DIVU  '' @ rname rr @ '', '' @ rname rq @ '', '' @ rname rb]"
    using assms by (simp only: yields_def)
  then obtain rr rq rb rem quo dvs where f: "distinct [rr, rq, rb]" "set [rr, rq, rb] \<subseteq> {1..6}"
    "0 \<le> rem" "rem < dvs" "dvs \<le> 0xFFFF" "0 \<le> quo" "quo \<le> 0xFFFF"
    "ls = [ldi16_line (rname rr) rem, ldi16_line (rname rq) quo, ldi16_line (rname rb) dvs,
          ''    DIVU  '' @ rname rr @ '', '' @ rname rq @ '', '' @ rname rb]"
    by (elim exE conjE)
  show ?thesis
    by (rule exI [of _ rr], rule exI [of _ rq], rule exI [of _ rb], rule exI [of _ rem], rule exI [of _ quo],
        rule exI [of _ dvs], intro conjI allI impI; (fact f | rule step [OF f(1-4,6,7)]))
qed

lemma demo_divu:
  "map_option (map_sum id fst) (op_divu (tape [1, 4, 0, 99, 41, 7])) =
     Some (Inr [''    LDI16 r2, 0x0029'', ''    LDI16 r5, 0x0007'', ''    LDI16 r1, 0x0064'',
       ''    DIVU  r2, r5, r1''])"
  by code_simp

theorem generated_division_defined_witness:
  "\<exists>rr rq rb rem quo dvs. rem < dvs \<and>
    [''    LDI16 r2, 0x0029'', ''    LDI16 r5, 0x0007'', ''    LDI16 r1, 0x0064'', ''    DIVU  r2, r5, r1''] =
      [ldi16_line (rname rr) rem, ldi16_line (rname rq) quo, ldi16_line (rname rb) dvs,
        ''    DIVU  '' @ rname rr @ '', '' @ rname rq @ '', '' @ rname rb] \<and>
    (\<forall>m p labels pc iflush bs. sim_mdu m \<longrightarrow> get_r m rr = rem \<longrightarrow> get_r m rq = quo \<longrightarrow> get_r m rb = dvs \<longrightarrow>
       encode_insn ''DIVU'' [rname rr, rname rq, rname rb] labels pc iflush = Inr bs \<longrightarrow>
       exec_insn m (halfword bs) p =
         Inr (set_r rr ((rem * 65536 + quo) mod dvs) (set_r rq ((rem * 65536 + quo) div dvs) m), p))"
proof -
  obtain s' where "op_divu (tape [1, 4, 0, 99, 41, 7]) = Some (Inr ([''    LDI16 r2, 0x0029'',
      ''    LDI16 r5, 0x0007'', ''    LDI16 r1, 0x0064'', ''    DIVU  r2, r5, r1''], s'))"
    using demo_result [OF demo_divu] by blast
  from generated_division_defined [OF this] show ?thesis by blast
qed

end
