(* ===== verification/FuzzProgram.thy ===== *)
theory FuzzProgram
  imports FuzzBlocks AsmProps AsmText
begin

text \<open>
  Programs that consist of label lines and instruction lines in the vectors and text sections,
  as the generators write them: what the assembler's first pass makes of them, the address of
  every instruction and label, and when the whole program assembles.
\<close>

section \<open>Program lines\<close>

datatype pline = PLab string | PIns string "string list" | PSec sect | PNop

definition label_text :: "string \<Rightarrow> bool" where
  "label_text x \<longleftrightarrow> x \<noteq> [] \<and> ident_start (hd x) \<and> list_all ident_char x"

fun line_reads :: "string \<Rightarrow> pline \<Rightarrow> bool" where
  "line_reads l (PLab x) \<longleftrightarrow> label_text x \<and> l = x @ '':''"
| "line_reads l (PIns op os) \<longleftrightarrow> insn_shape l (op, os)"
| "line_reads l (PSec s) \<longleftrightarrow> (s = VECTORS \<and> l = ''.vectors'') \<or> (s = TEXT \<and> l = ''.text'')"
| "line_reads l PNop \<longleftrightarrow> startswith l '';''"

fun line_size :: "pline \<Rightarrow> int" where
  "line_size (PIns op os) = insn_size op os"
| "line_size _ = 0"

definition psize :: "pline list \<Rightarrow> int" where
  "psize ps = sum_list (map line_size ps)"

lemma psize_simps [simp]: "psize [] = 0" "psize (p # ps) = line_size p + psize ps"
  "psize (ps @ qs) = psize ps + psize qs"
  by (simp_all add: psize_def)

lemma insn_size_nonneg: "0 \<le> insn_size op os" "even (insn_size op os)"
  using insn_size_even [of op os] by auto

lemma line_size_nonneg: "0 \<le> line_size p" "even (line_size p)"
proof -
  have "0 \<le> line_size p \<and> even (line_size p)" by (cases p) (simp_all add: insn_size_nonneg)
  then show "0 \<le> line_size p" "even (line_size p)" by simp_all
qed

lemma psize_nonneg: "0 \<le> psize ps" "even (psize ps)"
  by (induction ps) (simp_all add: line_size_nonneg)

fun plabs :: "pline list \<Rightarrow> string list" where
  "plabs [] = []"
| "plabs (PLab x # ps) = x # plabs ps"
| "plabs (_ # ps) = plabs ps"

lemma plabs_append [simp]: "plabs (ps @ qs) = plabs ps @ plabs qs"
  by (induction ps rule: plabs.induct) simp_all

section \<open>The first pass\<close>

fun pass_labels :: "sect \<Rightarrow> (sect \<Rightarrow> int) \<Rightarrow> pline list \<Rightarrow> label_defs" where
  "pass_labels s off [] = []"
| "pass_labels s off (PLab x # ps) = (py_upper x, (s, off s)) # pass_labels s off ps"
| "pass_labels s off (PIns op os # ps) = pass_labels s (off(s := off s + insn_size op os)) ps"
| "pass_labels s off (PSec t # ps) = pass_labels t off ps"
| "pass_labels s off (PNop # ps) = pass_labels s off ps"

fun pass_items :: "sect \<Rightarrow> (sect \<Rightarrow> int) \<Rightarrow> pline list \<Rightarrow> (sect \<times> int \<times> string \<times> string list) list" where
  "pass_items s off [] = []"
| "pass_items s off (PIns op os # ps) = (s, off s, op, os) # pass_items s (off(s := off s + insn_size op os)) ps"
| "pass_items s off (PSec t # ps) = pass_items t off ps"
| "pass_items s off (PLab x # ps) = pass_items s off ps"
| "pass_items s off (PNop # ps) = pass_items s off ps"

definition insn_item :: "item \<Rightarrow> sect \<times> int \<times> string \<times> string list \<Rightarrow> bool" where
  "insn_item it k = (case k of (s, off, op, os) \<Rightarrow> it_kind it = INSN \<and> it_section it = s \<and> it_offset it = off \<and>
     it_op it = op \<and> it_operands it = os \<and> it_size it = insn_size op os)"

lemma label_chars:
  assumes "label_text x"
  shows "\<not> py_space (hd x)" "list_all line_char x" "x \<noteq> []"
proof -
  have "list_all plain_char x" using assms by (auto simp: label_text_def list_all_iff plain_char_def)
  then show "\<not> py_space (hd x)" "list_all line_char x" "x \<noteq> []"
    using assms plain_char_facts(1) line_char_plain by (auto simp: label_text_def list_all_iff)
qed

lemma source_label_line:
  assumes "label_text x" "py_upper x \<notin> set (map fst (ss_labels st))"
  shows "source_line n (x @ '':'') st =
    Inr (st\<lparr>ss_labels := ss_labels st @ [(py_upper x, (ss_section st, ss_offsets st (ss_section st)))]\<rparr>)"
proof -
  note x = label_chars [OF assms(1)]
  have sp: "\<not> py_space CHR '':''" by (simp add: py_space_def char_codes)
  then have strip: "strip_comment (x @ '':'') = x @ '':''"
    unfolding strip_comment_def using x strip_loop_line [of "x @ '':''"] line_char_blank(3)
    by (simp add: py_strip_trimmed_id trimmed_def)
  obtain c cs where c: "x = c # cs" "ident_start c" "list_all ident_char cs"
    using assms(1) by (cases x) (auto simp: label_text_def)
  have "\<not> ident_char CHR '':''" by (simp add: char_class_defs char_codes)
  then have "match_ident (x @ '':'') = Some (x, '':'')"
    using c by (simp add: match_ident_def list_all_iff takeWhile_append2 dropWhile_append2)
  then have "match_label (x @ '':'') = Some (x, [])"
    using sp by (simp add: match_label_def lstrip_def one_line_def py_strip_def rstrip_def)
  then show ?thesis
    using assms(2) by (simp add: source_line_def strip label_loop.simps [of _ _ _ "x @ '':''"] has_key_def)
qed

lemma source_section_line:
  "source_line n ''.vectors'' st = Inr (st\<lparr>ss_section := VECTORS\<rparr>)"
  "source_line n ''.text'' st = Inr (st\<lparr>ss_section := TEXT\<rparr>)"
proof -
  have e: "strip_comment ''.vectors'' = ''.vectors''" "match_label ''.vectors'' = None"
    "startswith ''.vectors'' ''.''" "split1 ''.vectors'' = [''.vectors'']" "py_lower ''.vectors'' = ''.vectors''"
    "parse_section_name ''.vectors'' = Inr VECTORS"
    "strip_comment ''.text'' = ''.text''" "match_label ''.text'' = None"
    "startswith ''.text'' ''.''" "split1 ''.text'' = [''.text'']" "py_lower ''.text'' = ''.text''"
    "parse_section_name ''.text'' = Inr TEXT"
    by code_simp+
  show "source_line n ''.vectors'' st = Inr (st\<lparr>ss_section := VECTORS\<rparr>)"
    by (simp add: source_line_def label_loop.simps [of _ _ _ "''.vectors''"] directive_line_def Let_def e)
  show "source_line n ''.text'' st = Inr (st\<lparr>ss_section := TEXT\<rparr>)"
    by (simp add: source_line_def label_loop.simps [of _ _ _ "''.text''"] directive_line_def Let_def e)
qed

lemma source_nop_line: "startswith l '';'' \<Longrightarrow> source_line n l st = Inr st"
proof -
  assume "startswith l '';''"
  then obtain t where "l = CHR '';'' # t" by (cases l) (auto simp: startswith_def)
  then have "strip_comment l = []"
    by (simp add: strip_comment_def is_quote_def dquote_def squote_def py_strip_def rstrip_def)
  then show ?thesis by (simp add: source_line_def)
qed

lemma source_run:
  assumes "list_all2 line_reads ls ps" "distinct (map fst (ss_labels st) @ map py_upper (plabs ps))"
  shows "\<exists>st'. source_loop n ls st = Inr st' \<and>
    ss_labels st' = ss_labels st @ pass_labels (ss_section st) (ss_offsets st) ps \<and>
    (\<exists>its. ss_items st' = ss_items st @ its \<and> list_all2 insn_item its (pass_items (ss_section st) (ss_offsets st) ps))"
  using assms
proof (induction ps arbitrary: ls n st rule: list.induct)
  case (Cons p ps)
  then obtain l ls' where l: "ls = l # ls'" "line_reads l p" "list_all2 line_reads ls' ps" by (auto simp: list_all2_Cons2)
  show ?case
  proof (cases p)
    case (PLab x)
    then have "source_line n l st =
        Inr (st\<lparr>ss_labels := ss_labels st @ [(py_upper x, (ss_section st, ss_offsets st (ss_section st)))]\<rparr>)"
      using source_label_line [of x st n] l(2) Cons.prems(2) by simp
    then show ?thesis
      using Cons.IH [OF l(3), of "st\<lparr>ss_labels := ss_labels st @ [(py_upper x, (ss_section st, ss_offsets st (ss_section st)))]\<rparr>" "Suc n"]
        Cons.prems(2) PLab l(1) by auto
  next
    case (PIns op os)
    let ?st = "add_item INSN op os (insn_size op os) n l st"
    have "source_line n l st = Inr ?st" using source_insn_line l(2) PIns by simp
    moreover have "ss_labels ?st = ss_labels st" "ss_section ?st = ss_section st"
      "ss_offsets ?st = (ss_offsets st)(ss_section st := ss_offsets st (ss_section st) + insn_size op os)"
      "\<exists>it. ss_items ?st = ss_items st @ [it] \<and> insn_item it (ss_section st, ss_offsets st (ss_section st), op, os)"
      by (simp_all add: add_item_def Let_def insn_item_def)
    ultimately show ?thesis
      using Cons.IH [OF l(3), of ?st "Suc n"] Cons.prems(2) PIns l(1) by fastforce
  next
    case (PSec s)
    then have "source_line n l st = Inr (st\<lparr>ss_section := s\<rparr>)"
      using l(2) source_section_line by auto
    then show ?thesis
      using Cons.IH [OF l(3), of "st\<lparr>ss_section := s\<rparr>" "Suc n"] Cons.prems(2) PSec l(1) by auto
  next
    case PNop
    then show ?thesis
      using source_nop_line [of l n st] Cons.IH [OF l(3), of st "Suc n"] Cons.prems(2) l(1,2) by auto
  qed
qed simp

section \<open>Addresses\<close>

text \<open>Labels and instructions of a flat program with their addresses, from \<open>a\<close> on.\<close>

fun lin_labels :: "int \<Rightarrow> pline list \<Rightarrow> (string \<times> int) list" where
  "lin_labels a [] = []"
| "lin_labels a (PLab x # ps) = (py_upper x, a) # lin_labels a ps"
| "lin_labels a (p # ps) = lin_labels (a + line_size p) ps"

fun lin_items :: "int \<Rightarrow> pline list \<Rightarrow> (int \<times> string \<times> string list) list" where
  "lin_items a [] = []"
| "lin_items a (PIns op os # ps) = (a, op, os) # lin_items (a + insn_size op os) ps"
| "lin_items a (p # ps) = lin_items a ps"

fun flat_line :: "pline \<Rightarrow> bool" where
  "flat_line (PLab x) \<longleftrightarrow> True"
| "flat_line (PIns op os) \<longleftrightarrow> True"
| "flat_line _ \<longleftrightarrow> False"

lemma lin_append:
  "lin_labels a (ps @ qs) = lin_labels a ps @ lin_labels (a + psize ps) qs"
  "lin_items a (ps @ qs) = lin_items a ps @ lin_items (a + psize ps) qs"
proof -
  show "lin_labels a (ps @ qs) = lin_labels a ps @ lin_labels (a + psize ps) qs"
    by (induction a ps rule: lin_labels.induct) (simp_all add: add.assoc)
  show "lin_items a (ps @ qs) = lin_items a ps @ lin_items (a + psize ps) qs"
    by (induction a ps rule: lin_items.induct) (simp_all add: add.assoc)
qed

lemma pass_flat:
  assumes "list_all flat_line ps"
  shows "pass_labels s off (ps @ qs) =
      map (\<lambda>(x, a). (x, (s, a))) (lin_labels (off s) ps) @ pass_labels s (off(s := off s + psize ps)) qs"
    and "pass_items s off (ps @ qs) =
      map (\<lambda>(a, op, os). (s, a, op, os)) (lin_items (off s) ps) @ pass_items s (off(s := off s + psize ps)) qs"
proof -
  show "pass_labels s off (ps @ qs) =
      map (\<lambda>(x, a). (x, (s, a))) (lin_labels (off s) ps) @ pass_labels s (off(s := off s + psize ps)) qs"
    using assms
  proof (induction ps arbitrary: off rule: list.induct)
    case (Cons p ps)
    then show ?case by (cases p) (simp_all add: add.assoc cong: if_cong)
  qed simp
  show "pass_items s off (ps @ qs) =
      map (\<lambda>(a, op, os). (s, a, op, os)) (lin_items (off s) ps) @ pass_items s (off(s := off s + psize ps)) qs"
    using assms
  proof (induction ps arbitrary: off rule: list.induct)
    case (Cons p ps)
    then show ?case by (cases p) (simp_all add: add.assoc cong: if_cong)
  qed simp
qed

lemma shift_labels: "map (\<lambda>(x, a). (x, b + a)) (lin_labels a ps) = lin_labels (b + a) ps"
  by (induction a ps rule: lin_labels.induct) (simp_all add: add.assoc)

lemma shift_items: "map (\<lambda>(a, op, os). (b + a, op, os)) (lin_items a ps) = lin_items (b + a) ps"
  by (induction a ps rule: lin_items.induct) (simp_all add: add.assoc)

lemma lin_items_size: "sum_list (map (\<lambda>(a, op, os). insn_size op os) (lin_items a ps)) = psize ps"
  by (induction a ps rule: lin_items.induct) simp_all

text \<open>The size of a section is the size of the instructions placed in it.\<close>

lemma sect_size:
  assumes "list_all2 insn_item its ks"
  shows "sum_list (map it_size (sect_items s its)) =
    sum_list (map (\<lambda>(t, a, op, os). insn_size op os) (filter (\<lambda>k. fst k = s) ks))"
  using assms by (induction its ks rule: list_all2_induct) (auto simp: sect_items_def insn_item_def)

text \<open>A program: a comment, the instructions of the vectors section, those of the text section.\<close>

definition program_of :: "pline list \<Rightarrow> pline list \<Rightarrow> pline list" where
  "program_of vs ts = PNop # PSec VECTORS # vs @ PSec TEXT # ts"

lemma program_pass:
  assumes flat: "list_all flat_line vs" "list_all flat_line ts"
    and ls: "list_all2 line_reads ls (program_of vs ts)"
    and dist: "distinct (map py_upper (plabs (vs @ ts)))"
  shows "\<exists>items defs. parse_source ls = Inr (items, defs) \<and>
    final_label_map defs (layout_sections items) = map_of (lin_labels 0 (vs @ ts)) \<and>
    section_sizes items = (\<lambda>s. if s = VECTORS then psize vs else if s = TEXT then psize ts else 0) \<and>
    list_all2 (\<lambda>it (a, op, os). it_kind it = INSN \<and> it_op it = op \<and> it_operands it = os \<and>
      layout_sections items (it_section it) + it_offset it = a) items (lin_items 0 (vs @ ts))"
proof -
  define ks where "ks = map (\<lambda>(a, op, os). (VECTORS, a, op, os)) (lin_items 0 vs) @
    map (\<lambda>(a, op, os). (TEXT, a, op, os)) (lin_items 0 ts)"
  have off: "ss_offsets src_init = (\<lambda>_. 0)" "ss_section src_init = TEXT" "ss_labels src_init = []" "ss_items src_init = []"
    by (simp_all add: src_init_def)
  have plabs: "plabs (program_of vs ts) = plabs (vs @ ts)" by (simp add: program_of_def)
  have pass: "pass_labels TEXT (\<lambda>_. 0) (program_of vs ts) = map (\<lambda>(x, a). (x, (VECTORS, a))) (lin_labels 0 vs) @
      map (\<lambda>(x, a). (x, (TEXT, a))) (lin_labels 0 ts)" "pass_items TEXT (\<lambda>_. 0) (program_of vs ts) = ks"
    using pass_flat [OF flat(2), of TEXT _ "[]"]
    by (simp_all add: program_of_def pass_flat [OF flat(1)] ks_def)
  obtain st its where st: "source_loop 1 ls src_init = Inr st" "ss_items st = its"
    "ss_labels st = map (\<lambda>(x, a). (x, (VECTORS, a))) (lin_labels 0 vs) @ map (\<lambda>(x, a). (x, (TEXT, a))) (lin_labels 0 ts)"
    and its: "list_all2 insn_item its ks"
    using source_run [OF ls, of src_init 1] dist by (auto simp: off pass plabs)
  define defs where "defs = ss_labels st"
  have parse: "parse_source ls = Inr (its, defs)" using st by (simp add: parse_source_def defs_def)
  have nonneg: "\<forall>it \<in> set its. 0 \<le> it_size it"
  proof
    fix it assume "it \<in> set its"
    then obtain i where "i < length its" "it = its ! i" by (auto simp: in_set_conv_nth)
    then have "insn_item it (ks ! i)" using its by (simp add: list_all2_conv_all_nth)
    then show "0 \<le> it_size it" by (auto simp: insn_item_def insn_size_nonneg(1) split: prod.splits)
  qed
  have size: "section_sizes its s = (if s = VECTORS then psize vs else if s = TEXT then psize ts else 0)" for s
  proof -
    obtain e where e: "contig 0 (sect_items s its) e" using parse_source_inv(2) [OF parse] by blast
    have "section_sizes its s = sum_list (map it_size (sect_items s its))"
      using section_sizes_contig [OF e nonneg] contig_end [OF e] by simp
    then show ?thesis
      unfolding sect_size [OF its] ks_def
      using lin_items_size [of 0 vs, unfolded split_def] lin_items_size [of 0 ts, unfolded split_def]
      by (simp add: filter_map o_def split_def)
  qed
  have bases: "layout_sections its VECTORS = 0" "layout_sections its TEXT = psize vs"
    using psize_nonneg(2) [of vs] by (simp_all add: layout_next align_up_2 size even_iff_mod_2_eq_zero)
  have "final_label_map defs (layout_sections its) = map_of (lin_labels 0 (vs @ ts))"
    using shift_labels [of 0 0 vs] shift_labels [of "psize vs" 0 ts]
    by (simp add: final_label_map_def defs_def st(3) bases lin_append o_def split_def)
  moreover have "list_all2 (\<lambda>it (a, op, os). it_kind it = INSN \<and> it_op it = op \<and> it_operands it = os \<and>
      layout_sections its (it_section it) + it_offset it = a) its
      (map (\<lambda>(s, a, op, os). (layout_sections its s + a, op, os)) ks)"
    using its by (auto simp: list_all2_map2 insn_item_def elim!: list_all2_mono)
  moreover have "map (\<lambda>(s, a, op, os). (layout_sections its s + a, op, os)) ks = lin_items 0 (vs @ ts)"
    using shift_items [of 0 0 vs] shift_items [of "psize vs" 0 ts]
    by (simp add: ks_def bases lin_append o_def split_def)
  ultimately show ?thesis using parse size by auto
qed

section \<open>Assembly\<close>

text \<open>A line read from a file keeps its line feed, which changes nothing.\<close>

definition nl :: "string \<Rightarrow> string" where
  "nl l = l @ ''\<newline>''"

lemma nl_facts:
  "rstrip (nl l) = rstrip l"
  "list_all line_char l \<or> startswith l '';'' \<Longrightarrow> strip_comment (nl l) = strip_comment l"
proof -
  have sp: "py_space CHR 0x0A" by (simp add: py_space_def ccode_def)
  show r: "rstrip (nl l) = rstrip l" for l by (simp add: nl_def rstrip_def sp)
  have lc: "line_char CHR 0x0A" by (simp add: line_char_def is_quote_def dquote_def squote_def)
  show "strip_comment (nl l) = strip_comment l" if "list_all line_char l \<or> startswith l '';''"
    using that
  proof
    assume "list_all line_char l"
    then have "strip_loop None False (nl l) = nl l" "strip_loop None False l = l"
      using lc by (auto intro!: strip_loop_line simp: nl_def)
    moreover have "py_strip (nl l) = py_strip l"
    proof (cases "\<forall>c \<in> set l. py_space c")
      case True
      then have "lstrip l = []" "lstrip (nl l) = []" using sp by (auto simp: lstrip_def nl_def)
      then show ?thesis by (simp add: py_strip_def)
    next
      case False
      then have "lstrip (nl l) = nl (lstrip l)" by (auto simp: lstrip_def nl_def dropWhile_append1)
      then show ?thesis by (simp add: py_strip_def r)
    qed
    ultimately show ?thesis by (simp add: strip_comment_def)
  next
    assume "startswith l '';''"
    then obtain t where "l = CHR '';'' # t" by (cases l) (auto simp: startswith_def)
    then show ?thesis by (simp add: strip_comment_def nl_def is_quote_def dquote_def squote_def)
  qed
qed

lemma source_line_nl:
  assumes "strip_comment (nl l) = strip_comment l"
  shows "source_line n (nl l) st = source_line n l st"
  by (simp add: source_line_def directive_line_def insn_line_def add_item_def assms nl_facts(1) cong: if_cong)

lemma no_directive:
  assumes "strip_comment raw = [] \<or> \<not> py_space (hd (strip_comment raw)) \<and> hd (strip_comment raw) \<noteq> CHR ''.''"
  shows "fst (pp_directive raw) = []"
proof (cases "strip_comment raw")
  case Nil
  then show ?thesis by (simp add: pp_directive_def split1_def)
next
  case (Cons c cs)
  then have c: "\<not> py_space c" "c \<noteq> CHR ''.''" using assms by simp_all
  then have "split1 (c # cs) \<noteq> []" "hd (split1 (c # cs)) = c # takeWhile (\<lambda>c. \<not> py_space c) cs"
    by (simp_all add: split1_def Let_def lstrip_id)
  then show ?thesis using c(2) Cons by (simp add: pp_directive_def startswith_def Let_def)
qed

lemma line_reads_facts:
  assumes "line_reads l p"
  shows "strip_comment (nl l) = strip_comment l"
    and "fst (pp_directive (nl l)) \<notin> {''.ifdef'', ''.ifndef'', ''.else'', ''.endif''}"
proof -
  have "list_all line_char l \<or> startswith l '';''"
  proof (cases p)
    case (PLab x)
    then show ?thesis using assms label_chars(2) [of x] line_char_blank(3) by simp
  next
    case (PIns op os)
    then have "insn_shape l (op, os)" using assms by simp
    then obtain k where l: "l = insn_text op k os" "mnemonic op" "list_all plain_operand os" "k = 0 \<longleftrightarrow> os = []"
      unfolding insn_shape_def by blast
    then show ?thesis using insn_text_body [OF l(2-4)] line_char_blank(1) by (simp add: insn_text_def)
  next
    case (PSec s)
    then show ?thesis using assms by (auto simp: line_char_def is_quote_def dquote_def squote_def)
  qed (use assms in simp)
  then show strip: "strip_comment (nl l) = strip_comment l" by (rule nl_facts(2))
  show "fst (pp_directive (nl l)) \<notin> {''.ifdef'', ''.ifndef'', ''.else'', ''.endif''}"
  proof (cases p)
    case (PSec s)
    moreover have "fst (pp_directive (nl ''.vectors'')) = ''.vectors''" "fst (pp_directive (nl ''.text'')) = ''.text''"
      by code_simp+
    ultimately show ?thesis using assms by auto
  next
    case (PLab x)
    note x = label_chars [of x]
    have sp: "\<not> py_space CHR '':''" by (simp add: py_space_def char_codes)
    have "label_text x" "strip_comment l = x @ '':''"
      using assms PLab x sp line_char_blank(3) strip_loop_line [of l]
      by (simp_all add: strip_comment_def py_strip_trimmed_id trimmed_def)
    then show ?thesis
      using x(1,3) by (subst no_directive) (auto simp: strip label_text_def ident_start_def char_class_defs char_codes)
  next
    case (PIns op os)
    then obtain k where l: "l = insn_text op k os" "mnemonic op" "list_all plain_operand os" "k = 0 \<longleftrightarrow> os = []"
      using assms by (auto simp: insn_shape_def)
    then have "strip_comment l \<noteq> []" "is_upper (hd (strip_comment l))" "\<not> py_space (hd (strip_comment l))"
      using insn_text_body [OF l(2-4)] by (auto simp: strip_insn_text [OF l(2-4)] mnemonic_def)
    then show ?thesis by (subst no_directive) (auto simp: strip is_upper_def char_codes)
  next
    case PNop
    then obtain t where "l = CHR '';'' # t" using assms by (cases l) (auto simp: startswith_def)
    then have "strip_comment l = []"
      by (simp add: strip_comment_def is_quote_def dquote_def squote_def py_strip_def rstrip_def)
    then show ?thesis by (subst no_directive) (simp_all add: strip)
  qed
qed

lemma preprocess_trees:
  "list_all tree_ok ts \<Longrightarrow>
   preprocess_source (concat (map tree_lines ts)) defines = Inr (concat (map (tree_sem defines True) ts))"
  using pp_trees [OF pp_tree, of ts "defines" 1 "[]" True "[]"] by (simp add: preprocess_source_def pp_loop.simps(1))

lemma parse_nl:
  assumes "list_all2 line_reads ls ps"
  shows "source_loop n (map nl ls) st = source_loop n ls st"
    and "preprocess_source (map nl ls) defines = Inr (map nl ls)"
proof -
  show "source_loop n (map nl ls) st = source_loop n ls st"
    using assms
  proof (induction arbitrary: n st rule: list_all2_induct)
    case (Cons l ls p ps)
    have "source_loop (Suc n) (map nl ls) = source_loop (Suc n) ls" using Cons.IH by (intro ext)
    then show ?case using Cons by (simp add: source_line_nl line_reads_facts(1))
  qed simp
  have "list_all tree_ok (map Plain (map nl ls))"
    using assms by (induction rule: list_all2_induct) (auto dest: line_reads_facts(2))
  from preprocess_trees [OF this] show "preprocess_source (map nl ls) defines = Inr (map nl ls)"
    by (simp add: o_def)
qed

text \<open>
  A program whose instructions can all be encoded with the final labels assembles, whatever
  symbols are defined, and its image has the size of its instructions.
\<close>

lemma image_two_sections:
  assumes "length (bytes VECTORS) = v" "length (bytes TEXT) = t" "even v" "even t"
    "bytes RODATA = []" "bytes DATA = []" "bytes BSS = []"
  shows "length (image_spec bytes [] SECTION_ORDER) = v + t"
  using assms by (simp add: SECTION_ORDER_def)

lemma assemble_linear:
  assumes flat: "list_all flat_line vs" "list_all flat_line ts"
    and ls: "list_all2 line_reads ls (program_of vs ts)"
    and dist: "distinct (map py_upper (plabs (vs @ ts)))"
    and enc: "\<And>a op os. (a, op, os) \<in> set (lin_items 0 (vs @ ts)) \<Longrightarrow>
      \<exists>bs. encode_insn op os (map_of (lin_labels 0 (vs @ ts))) a False = Inr bs"
  shows "\<exists>img. assemble (map nl ls) defines False = Inr img \<and> int (length img) = psize (vs @ ts)"
proof -
  obtain items defs where parse: "parse_source ls = Inr (items, defs)"
    and labels: "final_label_map defs (layout_sections items) = map_of (lin_labels 0 (vs @ ts))"
    and size: "section_sizes items = (\<lambda>s. if s = VECTORS then psize vs else if s = TEXT then psize ts else 0)"
    and its: "list_all2 (\<lambda>it (a, op, os). it_kind it = INSN \<and> it_op it = op \<and> it_operands it = os \<and>
      layout_sections items (it_section it) + it_offset it = a) items (lin_items 0 (vs @ ts))"
    using program_pass [OF flat ls dist] by blast
  let ?L = "map_of (lin_labels 0 (vs @ ts))" and ?b = "layout_sections items"
  note inv = parse_source_inv [OF parse]
  have even: "even a" if "(a, op, os) \<in> set (lin_items b ps)" "even b" for a b op os ps
    using that by (induction b ps rule: lin_items.induct) (auto simp: insn_size_nonneg(2))
  have "\<exists>data. emit_item it ?L ?b False = Inr data \<and> int (length data) = it_size it" if it: "it \<in> set items" for it
  proof -
    obtain a op os where k: "(a, op, os) \<in> set (lin_items 0 (vs @ ts))" "it_kind it = INSN" "it_op it = op"
      "it_operands it = os" "?b (it_section it) + it_offset it = a"
    proof -
      obtain i where i: "i < length items" "it = items ! i" using it by (auto simp: in_set_conv_nth)
      obtain a op os where "lin_items 0 (vs @ ts) ! i = (a, op, os)" by (cases "lin_items 0 (vs @ ts) ! i")
      moreover have "lin_items 0 (vs @ ts) ! i \<in> set (lin_items 0 (vs @ ts))"
        using i(1) list_all2_lengthD [OF its] by (intro nth_mem) simp
      ultimately show ?thesis using that list_all2_nthD [OF its i(1)] i(2) by simp
    qed
    obtain bs where bs: "encode_insn op os ?L a False = Inr bs" using enc [OF k(1)] by blast
    have "a AND 1 = 0" using even [OF k(1)] by (simp add: and_one_eq even_iff_mod_2_eq_zero)
    then have "emit_item it ?L ?b False = Inr bs" by (simp add: emit_item_def k(2-5) bs at_line_def)
    moreover have "item_ok it" using inv(1) it by (auto simp: list_all_iff)
    ultimately show ?thesis
      using item_enc.enc_len [of it "(?L, ?b, False)" bs] by (simp add: emit_in_def)
  qed
  then obtain blobs where blobs: "\<And>b. emit_loop ?L ?b False items b = Inr (blobs b)"
    using emit_loop_ok [of items ?L ?b False] by metis
  then obtain img where img: "build_image items defs False = Inr img"
    by (simp add: build_image_def Let_def labels)
  have "assemble (map nl ls) defines False = Inr img"
  proof -
    have "parse_source (map nl ls) = parse_source ls" by (simp add: parse_source_def parse_nl(1) [OF ls])
    then show ?thesis using parse by (simp add: assemble_def parse_nl(2) [OF ls] img)
  qed
  moreover have "int (length img) = psize (vs @ ts)"
  proof -
    let ?f = "\<lambda>s. concat (map (item_bytes ?L ?b False) (sect_items s items))"
    have len: "int (length (?f s)) = (if s = VECTORS then psize vs else if s = TEXT then psize ts else 0)" for s
      using build_image_blobs(3) [OF inv(1,2) img refl refl, of s] by (simp only: size labels)
    have "img = image_spec ?f [] SECTION_ORDER"
      using build_image_blobs(2) [OF inv(1,2) img refl refl] by (simp only: labels)
    moreover have "length (image_spec ?f [] SECTION_ORDER) = nat (psize vs) + nat (psize ts)"
      using len [of VECTORS] len [of TEXT] len [of RODATA] len [of DATA] len [of BSS] psize_nonneg
      by (intro image_two_sections) (simp_all add: even_nat_iff)
    ultimately show ?thesis using psize_nonneg(1) by simp
  qed
  ultimately show ?thesis by blast
qed

end
