(* ===== verification/FuzzPieces.thy ===== *)
theory FuzzPieces
  imports FuzzProgram
begin

text \<open>
  Pieces of generated programs: lines with the labels they define, the labels they refer to and
  a bound on their size, such that every instruction can be encoded wherever the piece is placed.
\<close>

section \<open>Labels\<close>

definition good_label :: "string \<Rightarrow> bool" where
  "good_label x \<longleftrightarrow> label_text x \<and> hd x \<noteq> CHR ''R'' \<and> x \<notin> set py_keywords"

lemma good_label_operand:
  assumes "good_label x"
  shows "plain_operand x" "label_text x" "eval_expr x L = (case L (py_upper x) of
    None \<Rightarrow> Inl (AsmError (''unknown symbol: '' @ x)) | Some v \<Rightarrow> Inr v)"
proof -
  have x: "x \<noteq> []" "list_all ident_char x" "hd x \<noteq> CHR ''R''" "is_ident x" "x \<notin> set py_keywords"
    using assms by (auto simp: good_label_def label_text_def is_ident_def split: list.splits)
  show pl: "plain_operand x" using x by (intro plain_operandI) (auto simp: list_all_iff)
  show "label_text x" using assms by (simp add: good_label_def)
  have t: "trimmed x" "\<not> is_quote (hd x)"
    using pl plain_trimmed [of x] by (simp_all add: plain_operand_def)
  have "lex x = Inr [TName x]"
    using lex_name [of "[]" x] x by (simp add: separated_def lex.simps [of "[]"])
  moreover have "parse True [] [] [TName x] = Inr (Name x)" by code_simp
  ultimately show "eval_expr x L = (case L (py_upper x) of
      None \<Rightarrow> Inl (AsmError (''unknown symbol: '' @ x)) | Some v \<Rightarrow> Inr v)"
    using eval_token [OF t(1) x(1) t(2)] by simp
qed

text \<open>The number at the end of a label.\<close>

definition label_no :: "string \<Rightarrow> int" where
  "label_no x = (case eval_expr (rev (takeWhile is_digit (rev x))) no_labels of Inr v \<Rightarrow> v | Inl _ \<Rightarrow> 0)"

lemma label_no_numbered:
  assumes "0 \<le> k"
  shows "label_no (stem @ ''_'' @ fmt_d k) = k"
proof -
  have "fmt_d k = dec_str (nat k)" using assms by (simp add: fmt_d_def)
  then have "\<forall>c \<in> set (rev (fmt_d k)). is_digit c" using dec_str_digits [of "nat k"] by (simp add: list_all_iff)
  moreover have "\<not> is_digit CHR ''_''" by (simp add: is_digit_def char_codes)
  ultimately have "takeWhile is_digit (rev (stem @ ''_'' @ fmt_d k)) = rev (fmt_d k)"
    by (simp, subst takeWhile_append2) auto
  then show ?thesis by (simp add: label_no_def eval_dec)
qed

lemma digit_upper: "is_digit (upper_char c) = is_digit c"
proof (cases "is_lower c")
  case True
  then have "ccode c - 32 < 256" "97 \<le> ccode c" "ccode c \<le> 122" by (auto simp: is_lower_def)
  then have "ccode (upper_char c) = ccode c - 32" using True by (simp add: upper_char_def ccode_cchr)
  then show ?thesis using True by (auto simp: is_digit_def is_lower_def)
qed (simp add: upper_char_def)

lemma label_no_upper: "label_no (py_upper x) = label_no x"
proof -
  have d: "is_digit c \<Longrightarrow> upper_char c = c" for c
    by (auto simp: upper_char_def is_digit_def is_lower_def)
  have "takeWhile is_digit (map upper_char xs) = takeWhile is_digit xs" for xs
    by (induction xs) (simp_all add: digit_upper d)
  then show ?thesis by (simp add: label_no_def py_upper_def rev_map)
qed

section \<open>Pieces\<close>

definition resolves :: "labels \<Rightarrow> string set \<Rightarrow> bool" where
  "resolves L R \<longleftrightarrow> (\<forall>x \<in> R. \<exists>v. L (py_upper x) = Some v \<and> even v \<and> 0 \<le> v \<and> v \<le> 0xFFFF)"

definition placed :: "labels \<Rightarrow> int \<Rightarrow> pline list \<Rightarrow> bool" where
  "placed L b ps \<longleftrightarrow> (\<forall>(x, a) \<in> set (lin_labels b ps). L x = Some a)"

definition encodes :: "labels \<Rightarrow> int \<Rightarrow> pline list \<Rightarrow> bool" where
  "encodes L b ps \<longleftrightarrow> (\<forall>(a, op, os) \<in> set (lin_items b ps). \<exists>bs. encode_insn op os L a False = Inr bs)"

definition piece :: "int \<Rightarrow> string set \<Rightarrow> string list \<Rightarrow> string list \<Rightarrow> bool" where
  "piece n R xs ls \<longleftrightarrow> (\<exists>ps. list_all2 line_reads ls ps \<and> list_all flat_line ps \<and> psize ps \<le> n \<and>
     plabs ps = xs \<and> (\<forall>L b. even b \<longrightarrow> placed L b ps \<longrightarrow> resolves L R \<longrightarrow> encodes L b ps))"

lemma pieceI:
  assumes "list_all2 line_reads ls ps" "list_all flat_line ps" "psize ps \<le> n" "plabs ps = xs"
    and "\<And>L b. even b \<Longrightarrow> placed L b ps \<Longrightarrow> resolves L R \<Longrightarrow> encodes L b ps"
  shows "piece n R xs ls"
  using assms unfolding piece_def by blast

lemma pieceE:
  assumes "piece n R xs ls"
  obtains ps where "list_all2 line_reads ls ps" "list_all flat_line ps" "psize ps \<le> n" "plabs ps = xs"
    and "\<And>L b. even b \<Longrightarrow> placed L b ps \<Longrightarrow> resolves L R \<Longrightarrow> encodes L b ps"
  using assms unfolding piece_def by blast

lemma placed_simps [simp]:
  "placed L b [] = True"
  "placed L b (PLab x # ps) \<longleftrightarrow> L (py_upper x) = Some b \<and> placed L b ps"
  "placed L b (PIns op os # ps) \<longleftrightarrow> placed L (b + insn_size op os) ps"
  "placed L b (ps @ qs) \<longleftrightarrow> placed L b ps \<and> placed L (b + psize ps) qs"
  by (auto simp: placed_def lin_append)

lemma encodes_simps [simp]:
  "encodes L b [] = True"
  "encodes L b (PLab x # ps) \<longleftrightarrow> encodes L b ps"
  "encodes L b (PIns op os # ps) \<longleftrightarrow> (\<exists>bs. encode_insn op os L b False = Inr bs) \<and> encodes L (b + insn_size op os) ps"
  "encodes L b (ps @ qs) \<longleftrightarrow> encodes L b ps \<and> encodes L (b + psize ps) qs"
  by (simp_all add: encodes_def lin_append ball_Un)

lemma resolves_mono: "resolves L R \<Longrightarrow> Q \<subseteq> R \<Longrightarrow> resolves L Q"
  by (auto simp: resolves_def)

lemma piece_mono: "piece m Q xs ls \<Longrightarrow> m \<le> n \<Longrightarrow> Q \<subseteq> R \<Longrightarrow> piece n R xs ls"
  by (elim pieceE, rule pieceI) (auto intro: resolves_mono)

lemma piece_append:
  assumes "piece m R xs ls" "piece n R ys ls'"
  shows "piece (m + n) R (xs @ ys) (ls @ ls')"
  using assms
  by (elim pieceE, rule_tac ps = "ps @ psa" in pieceI)
    (auto simp: list_all2_appendI psize_nonneg(2))

lemma piece_Nil: "0 \<le> n \<Longrightarrow> piece n R [] []"
  by (rule pieceI [of _ "[]"]) simp_all

lemma piece_accepted:
  assumes "accepted n ls"
  shows "piece n R [] ls"
proof -
  obtain js where js: "list_all2 insn_shape ls js" "list_all accept js" "block_size js \<le> n"
    using assms by (auto simp: accepted_def)
  let ?ps = "map (\<lambda>(op, os). PIns op os) js"
  have "list_all2 line_reads ls ?ps" using js(1) by (induction rule: list_all2_induct) auto
  moreover have "psize ?ps = block_size js" by (induction js) (auto simp: block_size_def)
  moreover have "plabs ?ps = []" "list_all flat_line ?ps" by (induction js) auto
  moreover have "encodes L b ?ps" for L b using js(2) by (induction js arbitrary: b) (auto simp: accept_def)
  ultimately show ?thesis using js(3) by (intro pieceI [of _ ?ps]) simp_all
qed

lemma piece_label: "good_label x \<Longrightarrow> piece 0 R [x] [x @ '':'']"
  by (rule pieceI [of _ "[PLab x]"]) (auto simp: good_label_def)

section \<open>Branches and label references\<close>

lemma encode_near_branch:
  assumes "op \<in> branch_ops" "good_label x" "L (py_upper x) = Some t" "even t" "even pc"
    and "-256 \<le> t - pc - 2" "t - pc - 2 \<le> 254"
  shows "\<exists>bs. encode_insn op [x] L pc False = Inr bs"
proof -
  have "encode_insn op [x] L pc False = enc_br op [x] L pc"
    using assms(1) unfolding branch_ops_def by (elim insertE) (simp_all add: dispatch)
  moreover obtain a where t: "t = 2 * a" using assms(4) by (elim evenE)
  moreover obtain p where p: "pc = 2 * p" using assms(5) by (elim evenE)
  moreover have "drop_bit 1 (2 * a) = a" "drop_bit 1 (2 * p) = p" by (simp_all add: drop_bit_eq_div)
  ultimately show ?thesis
    using assms(3,6,7) good_label_operand(3) [OF assms(2), of L]
    by (simp add: enc_br_def n_ops_def and_one_eq enc_i8_def)
qed

lemma branch_op_facts:
  assumes "op \<in> branch_ops"
  shows "mnemonic op" "insn_size op os = 2" "length op \<le> 5"
proof -
  have "list_all (\<lambda>op. mnemonic op \<and> op \<notin> long_ops \<and> length op \<le> 5) [''BEQZ'', ''BNEZ'', ''BLTZ'', ''BGEZ'', ''JMP8'']"
    by code_simp
  then have "mnemonic op \<and> op \<notin> long_ops \<and> length op \<le> 5" using assms by (auto simp: branch_ops_def)
  then show "mnemonic op" "insn_size op os = 2" "length op \<le> 5" using size_two mnemonic_upper by auto
qed

lemma label_insn_shape:
  "mnemonic op \<Longrightarrow> good_label x \<Longrightarrow> list_all plain_operand os \<Longrightarrow> 0 < k \<Longrightarrow>
   insn_shape (insn_text op k (os @ [x])) (op, os @ [x])"
  by (intro insn_shapeI [where k = k]) (simp_all add: good_label_operand(1))

text \<open>A forward branch over a short body, and a backward one.\<close>

lemma piece_forward:
  assumes "op \<in> branch_ops" "good_label x" "0 < k" "piece n R xs body" "n \<le> 254"
  shows "piece (n + 2) R (xs @ [x]) (insn_text op k [x] # body @ [x @ '':''])"
proof -
  from assms(4) obtain ps where ps: "list_all2 line_reads body ps" "list_all flat_line ps" "psize ps \<le> n"
    "plabs ps = xs" and enc: "\<forall>L b. even b \<longrightarrow> placed L b ps \<longrightarrow> resolves L R \<longrightarrow> encodes L b ps"
    unfolding piece_def by blast
  note op = branch_op_facts [OF assms(1)]
  have "encodes L b (PIns op [x] # ps @ [PLab x])"
    if "even b" "placed L b (PIns op [x] # ps @ [PLab x])" "resolves L R" for L b
    using that encode_near_branch [OF assms(1,2), of L "b + 2 + psize ps" b] psize_nonneg [of ps] ps(3) enc assms(5)
    by (simp add: op(2))
  then show ?thesis
    using ps(1-4) label_insn_shape [OF op(1) assms(2), of "[]" k] assms(2,3)
    by (intro pieceI [of _ "PIns op [x] # ps @ [PLab x]"]) (auto simp: op(2) good_label_def list_all2_appendI)
qed

lemma piece_backward:
  assumes "op \<in> branch_ops" "good_label x" "0 < k" "piece n R xs body" "n \<le> 254"
  shows "piece (n + 2) R (x # xs) ((x @ '':'') # body @ [insn_text op k [x]])"
proof -
  from assms(4) obtain ps where ps: "list_all2 line_reads body ps" "list_all flat_line ps" "psize ps \<le> n"
    "plabs ps = xs" and enc: "\<forall>L b. even b \<longrightarrow> placed L b ps \<longrightarrow> resolves L R \<longrightarrow> encodes L b ps"
    unfolding piece_def by blast
  note op = branch_op_facts [OF assms(1)]
  have "encodes L b (PLab x # ps @ [PIns op [x]])"
    if "even b" "placed L b (PLab x # ps @ [PIns op [x]])" "resolves L R" for L b
    using that encode_near_branch [OF assms(1,2), of L b "b + psize ps"] psize_nonneg [of ps] ps(3) enc assms(5)
    by simp
  then show ?thesis
    using ps(1-4) label_insn_shape [OF op(1) assms(2), of "[]" k] assms(2,3)
    by (intro pieceI [of _ "PLab x # ps @ [PIns op [x]]"]) (auto simp: op(2) good_label_def list_all2_appendI)
qed

text \<open>An instruction that takes the address of a label.\<close>

lemma piece_ref_shape:
  assumes "insn_shape l (op, os)"
    and "\<And>L pc. resolves L R \<Longrightarrow> \<exists>bs. encode_insn op os L pc False = Inr bs"
  shows "piece 4 R [] [l]"
  using assms insn_size_bounds [of op os] by (intro pieceI [of _ "[PIns op os]"]) auto

lemma resolvesD:
  assumes "resolves L R" "x \<in> R" "good_label x"
  obtains v where "eval_expr x L = Inr v" "\<And>w. code_addr v w = Inr v"
proof -
  obtain v where v: "L (py_upper x) = Some v" "even v" "0 \<le> v" "v \<le> 0xFFFF"
    using assms(1,2) by (auto simp: resolves_def)
  then have "eval_expr x L = Inr v" using good_label_operand(3) [OF assms(3), of L] by simp
  moreover have "code_addr v w = Inr v" for w using v by (simp add: code_addr_def and_one_eq)
  ultimately show thesis by (rule that)
qed

lemma piece_ldi16:
  assumes "is_reg r" "good_label x" "x \<in> R" "0 < k"
  shows "piece 4 R [] [insn_text ''LDI16'' k [r, x]]"
proof (rule piece_ref_shape)
  show "insn_shape (insn_text ''LDI16'' k [r, x]) (''LDI16'', [r, x])"
    using label_insn_shape [of "''LDI16''" x "[r]" k] assms is_regD(1) by simp
  show "\<exists>bs. encode_insn ''LDI16'' [r, x] L pc False = Inr bs" if "resolves L R" for L pc
    by (rule resolvesD [OF that assms(3,2)], insert is_regD(2) [OF assms(1)], auto simp: encode_one enc_ldi16_def n_ops_def Let_def)
qed

lemma piece_jall:
  assumes "is_sreg s" "good_label x" "x \<in> R" "0 < k"
  shows "piece 4 R [] [insn_text ''JALL'' k [s, x]]"
proof (rule piece_ref_shape)
  show "insn_shape (insn_text ''JALL'' k [s, x]) (''JALL'', [s, x])"
    using label_insn_shape [of "''JALL''" x "[s]" k] assms is_sregD(1) by simp
  show "\<exists>bs. encode_insn ''JALL'' [s, x] L pc False = Inr bs" if "resolves L R" for L pc
    by (rule resolvesD [OF that assms(3,2)], insert is_sregD(2) [OF assms(1)], auto simp: dispatch enc_jump_def n_ops_def Let_def)
qed

lemma piece_jmpl:
  assumes "good_label x" "x \<in> R" "0 < k"
  shows "piece 4 R [] [insn_text ''JMPL'' k [x]]"
proof (rule piece_ref_shape)
  have "mnemonic ''JMPL''" by code_simp
  then show "insn_shape (insn_text ''JMPL'' k [x]) (''JMPL'', [x])"
    using label_insn_shape [of "''JMPL''" x "[]" k] assms by simp
  show "\<exists>bs. encode_insn ''JMPL'' [x] L pc False = Inr bs" if "resolves L R" for L pc
    by (rule resolvesD [OF that assms(2,1)], auto simp: dispatch enc_jump_def n_ops_def Let_def)
qed

end
