(* ===== verification/FuzzSpec.thy ===== *)
theory FuzzSpec
  imports FuzzPieces "HOL-Library.Multiset"
begin

text \<open>
  Results of a generator together with the label counter before and after: the single-instruction
  generators leave the counter alone, and labels drawn at different times are different.
\<close>

section \<open>The label counter\<close>

definition spec :: "'a gen \<Rightarrow> (int \<Rightarrow> int \<Rightarrow> 'a \<Rightarrow> bool) \<Rightarrow> bool" where
  "spec m Q \<longleftrightarrow> (\<forall>s x s'. m s = Some (Inr (x, s')) \<longrightarrow> Q (gs_label s) (gs_label s') x)"

lemma spec_ret: "(\<And>a. Q a a x) \<Longrightarrow> spec (retG x) Q"
  by (auto simp: spec_def retG_def)

lemma spec_bind:
  assumes "spec m P" "\<And>x. spec (f x) (R x)" "\<And>a b c x y. P a b x \<Longrightarrow> R x b c y \<Longrightarrow> Q a c y"
  shows "spec (bindG m f) Q"
  unfolding spec_def
proof (intro allI impI)
  fix s y s'
  assume "bindG m f s = Some (Inr (y, s'))"
  then obtain x t where "m s = Some (Inr (x, t))" "f x t = Some (Inr (y, s'))"
    by (auto simp: bindG_def split: option.splits sum.splits)
  then show "Q (gs_label s) (gs_label s') y" using assms unfolding spec_def by blast
qed

lemma spec_map: "spec m (\<lambda>a b x. Q a b (f x)) \<Longrightarrow> spec (mapG f m) Q"
  unfolding mapG_def by (rule spec_bind [where R = "\<lambda>x a b y. b = a \<and> y = f x"]) (auto intro: spec_ret)

lemma spec_if: "(c \<Longrightarrow> spec m Q) \<Longrightarrow> (\<not> c \<Longrightarrow> spec n Q) \<Longrightarrow> spec (if c then m else n) Q"
  by simp

lemma spec_mono: "spec m P \<Longrightarrow> (\<And>a b x. P a b x \<Longrightarrow> Q a b x) \<Longrightarrow> spec m Q"
  unfolding spec_def by blast

lemma spec_lift: "(\<And>a x. m = Inr x \<Longrightarrow> Q a a x) \<Longrightarrow> spec (liftG m) Q"
  by (cases m) (auto simp: liftG_def raiseG_def spec_def retG_def)

text \<open>Generators that draw no label.\<close>

definition silent :: "'a gen \<Rightarrow> bool" where
  "silent m \<longleftrightarrow> spec m (\<lambda>a b x. b = a)"

named_theorems silent \<open>generators that leave the label counter alone\<close>

lemma silent_bind: "silent m \<Longrightarrow> (\<And>x. silent (f x)) \<Longrightarrow> silent (bindG m f)"
  unfolding silent_def by (erule spec_bind) auto

lemma silent_ret: "silent (retG x)"
  unfolding silent_def by (rule spec_ret) simp

lemma silent_raise: "silent (raiseG e)"
  by (simp add: silent_def spec_def raiseG_def)

lemma silent_map: "silent m \<Longrightarrow> silent (mapG f m)"
  unfolding mapG_def by (intro silent_bind silent_ret)

lemma silent_if: "silent m \<Longrightarrow> silent n \<Longrightarrow> silent (if c then m else n)"
  by simp

lemma silent_split: "(\<And>x y. silent (f x y)) \<Longrightarrow> silent (case z of (x, y) \<Rightarrow> f x y)"
  by (cases z) simp

lemma silent_let: "silent (f x) \<Longrightarrow> silent (let y = x in f y)"
  by (simp add: Let_def)

lemmas silent_rules = silent_bind silent_ret silent_raise silent_map silent_if silent_split silent_let

lemma silent_draw: "silent draw"
  by (auto simp: silent_def spec_def draw_def Let_def)

lemma silent_draws [silent]: "silent (randrange n)" "silent (randint a b)" "silent random" "silent (choice xs)"
  unfolding randrange_def randint_def random_def getrandbits_def choice_def
  by (intro silent_rules silent_draw)+

lemma silent_sample [silent]: "silent (sample k pool)"
  by (induction k pool rule: sample.induct) (simp_all, auto intro!: silent_rules silent)

lemma silent_retry [silent]:
  assumes "silent m"
  shows "silent (retry m ex)"
proof -
  have "triple (\<lambda>s. gs_label s = a) m (\<lambda>ls s. gs_label s = a \<and> True)" for a
    using assms by (simp add: silent_def spec_def triple_def)
  then have "triple (\<lambda>s. gs_label s = a) (retry m ex) (\<lambda>ls s. gs_label s = a \<and> True \<and> \<not> excluded ex ls)" for a
    by (rule triple_retry)
  then show ?thesis unfolding silent_def spec_def triple_def by blast
qed

lemma silent_repeat [silent]: "silent m \<Longrightarrow> silent (repeatG n m)"
  by (induction n) (auto intro!: silent_rules)

lemma silent_concat [silent]: "(\<And>x. silent (f x)) \<Longrightarrow> silent (concatG f xs)"
  by (induction xs) (auto intro!: silent_rules)

lemma silent_reg [silent]: "silent gen_reg"
  unfolding gen_reg_def by (intro silent_rules silent)

lemma silent_three [silent]: "silent (three_regs pre)"
  unfolding three_regs_def by (intro silent_rules silent)

lemma silent_ops [silent]: "silent op_alu" "silent op_imm" "silent (op_shift cfg)" "silent op_mul"
  "silent op_divu" "silent op_mulhu" "silent op_mem" "silent op_sreg" "silent (window_word w)"
  unfolding op_alu_def op_imm_def op_shift_def op_mul_def op_divu_def op_mulhu_def op_mem_def op_sreg_def
    window_word_def
  by (intro silent_rules silent)+

lemma silent_simple [silent]: "silent (op_mdu cfg)" "silent (simple_attempt cfg)" "silent (simple_op cfg ex)"
  unfolding op_mdu_def simple_attempt_def simple_op_def by (intro silent_rules silent)+

lemma spec_silent:
  assumes "silent m" "yields m P"
  shows "spec m (\<lambda>a b x. b = a \<and> P x)"
  using assms unfolding silent_def spec_def yields_def by blast

section \<open>Fresh labels\<close>

definition fresh :: "int \<Rightarrow> int \<Rightarrow> string list \<Rightarrow> bool" where
  "fresh a b xs \<longleftrightarrow> a \<le> b \<and> distinct (map label_no xs) \<and>
     (\<forall>x \<in> set xs. a < label_no x \<and> label_no x \<le> b \<and> good_label x \<and> take 2 (py_upper x) \<noteq> ''OK'')"

lemma fresh_Nil [simp]: "fresh a b [] \<longleftrightarrow> a \<le> b"
  by (simp add: fresh_def)

lemma fresh_append: "fresh a b xs \<Longrightarrow> fresh b c ys \<Longrightarrow> fresh a c (xs @ ys)"
  by (fastforce simp: fresh_def)

lemma fresh_perm: "fresh a b xs \<Longrightarrow> mset xs = mset ys \<Longrightarrow> fresh a b ys"
proof -
  assume f: "fresh a b xs" and m: "mset xs = mset ys"
  then have "set xs = set ys" "mset (map label_no xs) = mset (map label_no ys)"
    by (metis set_mset_mset, simp)
  moreover have "distinct (map label_no ys)"
    using f calculation(2) mset_eq_imp_distinct_iff by (fastforce simp: fresh_def)
  ultimately show "fresh a b ys" using f by (simp add: fresh_def)
qed

definition good_stem :: "string \<Rightarrow> bool" where
  "good_stem x \<longleftrightarrow> 2 \<le> length x \<and> ident_start (hd x) \<and> hd x \<noteq> CHR ''R'' \<and> list_all ident_char x \<and>
     take 2 (py_upper x) \<noteq> ''OK''"

lemma numbered_label:
  assumes "good_stem x" "0 \<le> k"
  shows "good_label (x @ ''_'' @ fmt_d k)" "take 2 (py_upper (x @ ''_'' @ fmt_d k)) \<noteq> ''OK''"
proof -
  have "list_all (\<lambda>w. CHR ''_'' \<notin> set w) py_keywords" by code_simp
  then have "x @ ''_'' @ fmt_d k \<notin> set py_keywords" by (auto simp: list_all_iff)
  moreover have "list_all ident_char (fmt_d k)" using assms(2) dec_ident by (simp add: fmt_d_def)
  moreover have "ident_char CHR ''_''" by (simp add: ident_char_def ident_start_def)
  moreover have "x \<noteq> []" using assms(1) by (auto simp: good_stem_def)
  ultimately show "good_label (x @ ''_'' @ fmt_d k)"
    using assms(1) by (auto simp: good_label_def label_text_def good_stem_def)
  show "take 2 (py_upper (x @ ''_'' @ fmt_d k)) \<noteq> ''OK''"
    using assms(1) by (simp add: good_stem_def py_upper_def)
qed

lemma spec_new_label:
  assumes "good_stem x"
  shows "spec (new_label x) (\<lambda>a b l. b = a + 1 \<and> (0 \<le> a \<longrightarrow> good_label l \<and> fresh a b [l]))"
  using numbered_label [OF assms] label_no_numbered
  by (auto simp: spec_def new_label_def Let_def fresh_def)

end
