(* ===== verification/FuzzCode.thy ===== *)
theory FuzzCode
  imports FuzzSpec
begin

text \<open>
  The blocks of \<open>Gen\<close>: every branch block, loop, call, interrupt window and the deterministic
  block is a piece of bounded size whose labels are new.
\<close>

section \<open>Blocks as pieces\<close>

definition coded :: "int \<Rightarrow> int \<Rightarrow> int \<Rightarrow> string list \<Rightarrow> bool" where
  "coded n a b ls \<longleftrightarrow> (0 \<le> a \<longrightarrow> (\<exists>xs. piece n (set xs) xs ls \<and> fresh a b xs))"

lemma coded_accepted: "accepted m ls \<Longrightarrow> m \<le> n \<Longrightarrow> coded n a a ls"
  unfolding coded_def using piece_accepted [of n ls "{}"] accepted_mono by (intro impI exI [of _ "[]"]) auto

lemma yields_repeat_accepted:
  assumes "yields m (accepted k)"
  shows "yields (repeatG n m) (accepted (int n * k))"
proof (induction n)
  case 0
  then show ?case by (simp add: accepted_Nil yields_ret)
next
  case (Suc n)
  have "int (Suc n) * k = k + int n * k" by (simp add: algebra_simps)
  then show ?case
    using Suc by (auto intro!: yields_bind [OF assms] yields_map elim!: yields_mono intro: accepted_append)
qed

lemma yields_body: "yields (repeatG n (simple_op cfg ex)) (accepted (int n * 14))"
  by (rule yields_repeat_accepted) (rule yields_mono [OF yields_simple_op], blast)

lemma spec_simple: "spec (simple_op cfg ex) (coded 14)"
  by (rule spec_mono [OF spec_silent [OF silent_simple(3) yields_simple_op]]) (auto intro: coded_accepted)

lemma spec_mem: "spec op_mem (coded 14)"
  by (rule spec_mono [OF spec_silent [OF silent_ops(7) yields_op_mem]]) (auto intro: coded_accepted)

text \<open>Lines the blocks write themselves.\<close>

lemma accepted_two_regs:
  assumes "is_reg r"
  shows "accepted 2 [''    MOV   r0, '' @ r]"
  using accepted_short [of "''MOV''" "[''r0'', r]" 3] accept_mov [of "''r0''" r] is_regD(1) [of "''r0''"] is_regD(1) [OF assms] assms
  by (simp add: long_ops_def insn_text_def numeral_3_eq_3)

lemma accepted_cmpi:
  assumes "is_reg r" "0 \<le> v" "v \<le> 127"
  shows "accepted 2 [''    CMPI  '' @ r @ '', '' @ fmt_d v]"
  using accepted_imm [of "''CMPI''" r v] assms by (simp add: imm_ops_def fmt_5s_def)

lemma accepted_ldi:
  assumes "is_reg r" "0 \<le> v" "v \<le> 127"
  shows "accepted 2 [''    LDI   '' @ r @ '', '' @ fmt_d v]"
  using accepted_imm_line [of r v 2 "[]"] assms by (simp add: accepted_Nil)

lemma accepted_decrement:
  assumes "is_reg r"
  shows "accepted 2 [''    ADDI  '' @ r @ '', -1'']"
proof -
  have "fmt_d (-1) = ''-1''" by code_simp
  then show ?thesis using accepted_imm [of "''ADDI''" r "-1"] assms by (simp add: imm_ops_def fmt_5s_def)
qed

lemma stems: "good_stem ''fwd''" "good_stem ''loop''" "good_stem ''sub''"
  by code_simp+

lemma branch_text:
  "cc \<in> set [''BEQZ'', ''BNEZ'', ''BLTZ'', ''BGEZ''] \<Longrightarrow>
   cc \<in> branch_ops \<and> ''    '' @ fmt_5s cc @ '' '' @ lab = insn_text cc 2 [lab]"
  by (auto simp: branch_ops_def fmt_5s_def insn_text_def numeral_2_eq_2)

lemma spec_branch: "spec (op_branch_block cfg) (coded 60)"
  unfolding op_branch_block_def
proof (rule spec_bind [OF spec_new_label [OF stems(1)]])
  fix lab
  show "spec (bindG (choice [''BEQZ'', ''BNEZ'', ''BLTZ'', ''BGEZ'']) (\<lambda>cc.
     bindG gen_reg (\<lambda>r.
     bindG (randint 0 127) (\<lambda>v.
     bindG (randint 1 4) (\<lambda>n.
     bindG (repeatG (nat n) (simple_op cfg None)) (\<lambda>body.
       retG ([''    CMPI  '' @ r @ '', '' @ fmt_d v, ''    '' @ fmt_5s cc @ '' '' @ lab] @
             body @ [lab @ '':'']))))))) (\<lambda>a b ls. b = a \<and> (good_label lab \<longrightarrow> piece 60 {} [lab] ls))"
  proof (rule spec_silent, (intro silent_rules silent)[1],
      rule yields_bind [OF yields_choice], rule yields_bind [OF yields_reg],
      rule yields_bind [OF yields_randint], rule yields_bind [OF yields_randint],
      rule yields_bind [OF yields_body], rule yields_ret, rule impI)
    fix cc r body and v n :: int
    assume cc: "cc \<in> set [''BEQZ'', ''BNEZ'', ''BLTZ'', ''BGEZ'']" and r: "is_reg r" "0 \<le> v \<and> v \<le> 127"
      and n: "1 \<le> n \<and> n \<le> 4" and body: "accepted (int (nat n) * 14) body" and lab: "good_label lab"
    have "accepted 56 body" by (rule accepted_mono [OF body]) (use n in simp)
    then have "piece (56 + 2) {} ([] @ [lab]) (insn_text cc 2 [lab] # body @ [lab @ '':''])"
      using branch_text [OF cc, of lab] lab by (intro piece_forward piece_accepted) auto
    with piece_accepted [OF accepted_cmpi [of r v]] r
    have "piece (2 + (56 + 2)) {} ([] @ ([] @ [lab])) ([''    CMPI  '' @ r @ '', '' @ fmt_d v] @ (insn_text cc 2 [lab] # body @ [lab @ '':'']))"
      by (intro piece_append) auto
    then show "piece 60 {} [lab] ([''    CMPI  '' @ r @ '', '' @ fmt_d v, ''    '' @ fmt_5s cc @ '' '' @ lab] @ body @ [lab @ '':''])"
      using branch_text [OF cc, of lab] by simp
  qed
next
  fix a b c x y
  assume "b = a + 1 \<and> (0 \<le> a \<longrightarrow> good_label x \<and> fresh a b [x])" "c = b \<and> (good_label x \<longrightarrow> piece 60 {} [x] y)"
  then show "coded 60 a c y" unfolding coded_def using piece_mono [of 60 "{}" "[x]" y 60] by auto
qed

lemma spec_loop: "spec (op_loop cfg) (coded 60)"
  unfolding op_loop_def
proof (rule spec_bind [OF spec_new_label [OF stems(2)]])
  fix lab
  show "spec (bindG gen_reg (\<lambda>cnt.
     bindG (randint 1 3) (\<lambda>n.
     bindG (repeatG (nat n) (simple_op cfg (Some cnt))) (\<lambda>body.
     bindG (randint 1 5) (\<lambda>times.
       retG ([''    LDI   '' @ cnt @ '', '' @ fmt_d times, lab @ '':''] @ body @
             [''    ADDI  '' @ cnt @ '', -1'', ''    MOV   r0, '' @ cnt, ''    BNEZ  '' @ lab]))))))
      (\<lambda>a b ls. b = a \<and> (good_label lab \<longrightarrow> piece 60 {} [lab] ls))"
  proof (rule spec_silent, (intro silent_rules silent)[1],
      rule yields_bind [OF yields_reg], rule yields_bind [OF yields_randint],
      rule yields_bind [OF yields_body], rule yields_bind [OF yields_randint], rule yields_ret, rule impI)
    fix cnt body and n times :: int
    assume r: "is_reg cnt" and n: "1 \<le> n \<and> n \<le> 3" and body: "accepted (int (nat n) * 14) body"
      and t: "1 \<le> times \<and> times \<le> 5" and lab: "good_label lab"
    have "accepted 42 body" by (rule accepted_mono [OF body]) (use n in simp)
    then have "accepted (42 + (2 + 2)) (body @ [''    ADDI  '' @ cnt @ '', -1''] @ [''    MOV   r0, '' @ cnt])"
      by (intro accepted_append accepted_decrement accepted_two_regs r)
    then have "piece (46 + 2) {} (lab # []) ((lab @ '':'') # (body @ [''    ADDI  '' @ cnt @ '', -1''] @ [''    MOV   r0, '' @ cnt]) @
        [insn_text ''BNEZ'' 2 [lab]])"
      using lab by (intro piece_backward piece_accepted) (auto simp: branch_ops_def)
    with piece_accepted [OF accepted_ldi [of cnt times]] r t
    have "piece (2 + (46 + 2)) {} ([] @ [lab]) ([''    LDI   '' @ cnt @ '', '' @ fmt_d times] @
        ((lab @ '':'') # (body @ [''    ADDI  '' @ cnt @ '', -1''] @ [''    MOV   r0, '' @ cnt]) @
        [insn_text ''BNEZ'' 2 [lab]]))"
      by (intro piece_append) auto
    then have "piece 50 {} [lab] ([''    LDI   '' @ cnt @ '', '' @ fmt_d times, lab @ '':''] @ body @
        [''    ADDI  '' @ cnt @ '', -1'', ''    MOV   r0, '' @ cnt, ''    BNEZ  '' @ lab])"
      by (simp add: insn_text_def numeral_2_eq_2)
    then show "piece 60 {} [lab] ([''    LDI   '' @ cnt @ '', '' @ fmt_d times, lab @ '':''] @ body @
        [''    ADDI  '' @ cnt @ '', -1'', ''    MOV   r0, '' @ cnt, ''    BNEZ  '' @ lab])"
      by (rule piece_mono) auto
  qed
next
  fix a b c x y
  assume "b = a + 1 \<and> (0 \<le> a \<longrightarrow> good_label x \<and> fresh a b [x])" "c = b \<and> (good_label x \<longrightarrow> piece 60 {} [x] y)"
  then show "coded 60 a c y" unfolding coded_def using piece_mono [of 60 "{}" "[x]" y 60] by auto
qed

section \<open>Calls\<close>

text \<open>
  The lines of the subroutines, and a step of the body: its own lines may refer to the labels of
  the subroutines it adds.
\<close>

definition sub_lines :: "subs \<Rightarrow> string list" where
  "sub_lines subs = concat (map (\<lambda>(lab, code_lines). lab # code_lines) subs)"

lemma sub_lines_simps [simp]:
  "sub_lines [] = []" "sub_lines (x # subs) = fst x # snd x @ sub_lines subs"
  "sub_lines (subs @ subs') = sub_lines subs @ sub_lines subs'"
  by (simp_all add: sub_lines_def split_def)

definition stepped :: "int \<Rightarrow> int \<Rightarrow> int \<Rightarrow> string list \<Rightarrow> subs \<Rightarrow> bool" where
  "stepped n a b ls new \<longleftrightarrow> (\<exists>xs ys. piece n (set (xs @ ys)) xs ls \<and> piece n {} ys (sub_lines new) \<and>
     fresh a b (xs @ ys))"

lemma stepped_coded: "coded m a b ls \<Longrightarrow> m \<le> n \<Longrightarrow> 0 \<le> a \<Longrightarrow> 0 \<le> n \<Longrightarrow> stepped n a b ls []"
proof -
  assume "coded m a b ls" "m \<le> n" "0 \<le> a" "0 \<le> n"
  then obtain xs where "piece m (set xs) xs ls" "fresh a b xs" by (auto simp: coded_def)
  then have "piece n (set (xs @ [])) xs ls \<and> piece n {} [] (sub_lines []) \<and> fresh a b (xs @ [])"
    using piece_mono [of m "set xs" xs ls n] \<open>m \<le> n\<close> \<open>0 \<le> n\<close> piece_Nil by simp
  then show ?thesis unfolding stepped_def by blast
qed

lemma accepted_return: "is_sreg s \<Longrightarrow> accepted 2 [''    RET '' @ s]"
proof -
  assume s: "is_sreg s"
  have "accept (''RET'', [s])"
    using is_sregD(2) [OF s] by (auto intro!: acceptI simp: encode_one enc_ret_def n_ops_def jump_ops_def)
  then show ?thesis
    using accepted_short [of "''RET''" "[s]" 1] is_sregD(1) [OF s] by (simp add: long_ops_def insn_text_def)
qed

lemma accepted_jalr: "is_sreg s \<Longrightarrow> is_reg r \<Longrightarrow> 0 < k \<Longrightarrow> accepted 2 [insn_text ''JALR'' k [s, r]]"
proof -
  assume s: "is_sreg s" and r: "is_reg r" and k: "0 < k"
  have "map_of REGS (py_upper (py_strip s)) = None \<or> (\<exists>d. map_of REGS (py_upper (py_strip s)) = Some d)" by auto
  then have "accept (''JALR'', [s, r])"
    using is_sregD(2) [OF s] is_regD(2) [OF r]
    by (auto intro!: acceptI simp: encode_one enc_jalr_def n_ops_def jump_ops_def)
  then show ?thesis
    using accepted_short [of "''JALR''" "[s, r]" k] is_sregD(1) [OF s] is_regD(1) [OF r] k by (simp add: long_ops_def)
qed

lemma call_direct:
  assumes "good_label lab" "lab \<in> R"
  shows "piece 60 R [] [''    JALL S7, '' @ lab]"
proof -
  have "piece 4 R [] [insn_text ''JALL'' 1 [''S7'', lab]]" by (rule piece_jall) (use assms in simp_all)
  then show "piece 60 R [] [''    JALL S7, '' @ lab]"
    by (intro piece_mono [of 4 R "[]" _ 60 R]) (simp_all add: insn_text_def)
qed

lemma call_register:
  assumes "good_label lab" "is_reg r" "lab \<in> R"
  shows "piece 60 R [] [''    LDI16 '' @ r @ '', '' @ lab, ''    JALR S7, '' @ r]"
proof -
  have "piece (4 + 2) R ([] @ []) ([insn_text ''LDI16'' 1 [r, lab]] @ [insn_text ''JALR'' 1 [''S7'', r]])"
    by (intro piece_append piece_ldi16 piece_accepted accepted_jalr) (use assms in simp_all)
  then show "piece 60 R [] [''    LDI16 '' @ r @ '', '' @ lab, ''    JALR S7, '' @ r]"
    by (intro piece_mono [of 6 R "[]" _ 60 R]) (simp_all add: insn_text_def)
qed

lemma spec_call:
  "spec (op_call cfg subs) (\<lambda>a b (ls, subs'). \<exists>new. subs' = subs @ new \<and> (0 \<le> a \<longrightarrow> stepped 60 a b ls new))"
  unfolding op_call_def Let_def
proof (rule spec_bind [OF spec_new_label [OF stems(3)]])
  fix lab
  let ?Q = "\<lambda>(ls, subs'). \<exists>body. subs' = subs @ [(lab @ '':'', body @ [''    RET S7''])] \<and> accepted 42 body \<and>
    (good_label lab \<longrightarrow> piece 60 {lab} [] ls)"
  show "spec (bindG (randint 1 3) (\<lambda>n.
     bindG (repeatG (nat n) (simple_op cfg None)) (\<lambda>body.
       if cf_long_calls cfg
       then bindG random (\<lambda>k.
              if k < prob 50 then retG ([''    JALL S7, '' @ lab], subs @ [(lab @ '':'', body @ [''    RET S7''])])
              else bindG gen_reg (\<lambda>r. retG ([''    LDI16 '' @ r @ '', '' @ lab, ''    JALR S7, '' @ r],
                subs @ [(lab @ '':'', body @ [''    RET S7''])])))
       else bindG gen_reg (\<lambda>r. retG ([''    LDI16 '' @ r @ '', '' @ lab, ''    JALR S7, '' @ r],
                subs @ [(lab @ '':'', body @ [''    RET S7''])])))))
      (\<lambda>a b x. b = a \<and> ?Q x)"
  proof (rule spec_silent, (intro silent_rules silent)[1],
      rule yields_bind [OF yields_randint], rule yields_bind [OF yields_body])
    fix n :: int and body
    assume n: "1 \<le> n \<and> n \<le> 3" and "accepted (int (nat n) * 14) body"
    then have body: "accepted 42 body" using accepted_mono by fastforce
    show "yields (if cf_long_calls cfg
       then bindG random (\<lambda>k.
              if k < prob 50 then retG ([''    JALL S7, '' @ lab], subs @ [(lab @ '':'', body @ [''    RET S7''])])
              else bindG gen_reg (\<lambda>r. retG ([''    LDI16 '' @ r @ '', '' @ lab, ''    JALR S7, '' @ r],
                subs @ [(lab @ '':'', body @ [''    RET S7''])])))
       else bindG gen_reg (\<lambda>r. retG ([''    LDI16 '' @ r @ '', '' @ lab, ''    JALR S7, '' @ r],
                subs @ [(lab @ '':'', body @ [''    RET S7''])]))) ?Q"
      by (intro yields_if yields_bind [OF yields_any] yields_bind [OF yields_reg] yields_ret)
        (use body in \<open>auto intro!: call_direct [simplified] call_register [simplified]\<close>)
  qed
next
  fix a b c lab y
  assume lab: "b = a + 1 \<and> (0 \<le> a \<longrightarrow> good_label lab \<and> fresh a b [lab])"
    and y: "c = b \<and> (case y of (ls, subs') \<Rightarrow> \<exists>body. subs' = subs @ [(lab @ '':'', body @ [''    RET S7''])] \<and>
      accepted 42 body \<and> (good_label lab \<longrightarrow> piece 60 {lab} [] ls))"
  obtain ls subs' where e: "y = (ls, subs')" by (cases y)
  with y obtain body where body: "subs' = subs @ [(lab @ '':'', body @ [''    RET S7''])]" "accepted 42 body"
    and ls: "good_label lab \<Longrightarrow> piece 60 {lab} [] ls" by auto
  let ?new = "[(lab @ '':'', body @ [''    RET S7''])]"
  have "stepped 60 a c ls ?new" if "0 \<le> a"
  proof -
    have lab': "good_label lab" "fresh a c [lab]" using lab y that by auto
    have "piece (0 + (42 + 2)) {} ([lab] @ ([] @ [])) ([lab @ '':''] @ (body @ [''    RET '' @ ''S7'']))"
      by (intro piece_append piece_label piece_accepted accepted_return) (use lab' body(2) in simp_all)
    then have "piece 60 {} [lab] (sub_lines ?new)" by (intro piece_mono [of 44 "{}" _ _ 60 "{}"]) simp_all
    then show ?thesis
      unfolding stepped_def by (intro exI [of _ "[]"] exI [of _ "[lab]"]) (use ls lab' in simp)
  qed
  then show "case y of (ls, subs') \<Rightarrow> \<exists>new. subs' = subs @ new \<and> (0 \<le> a \<longrightarrow> stepped 60 a c ls new)"
    using body(1) e by auto
qed

lemma accepted_flag: "accepted 2 [''    CLI'']" "accepted 2 [''    STI'']"
proof -
  have "accepted 2 [insn_text op 0 []]" if "op \<in> {''CLI'', ''STI''}" for op
    using that accept_control size_two [OF _ mnemonic_upper, of op "[]"]
    by (intro accepted_Cons [of _ "(op, [])"] insn_shapeI [of op "[]" _ 0] accepted_Nil) (auto simp: long_ops_def)
  from this [of "''CLI''"] this [of "''STI''"] show "accepted 2 [''    CLI'']" "accepted 2 [''    STI'']"
    by (simp_all add: insn_text_def)
qed

lemma spec_window: "spec (op_ie_window cfg) (coded 18)"
proof -
  have "silent (op_ie_window cfg)" unfolding op_ie_window_def by (intro silent_rules silent)
  moreover have "yields (op_ie_window cfg) (accepted 18)"
    unfolding op_ie_window_def
  proof (rule yields_bind [OF yields_simple_op], rule yields_ret)
    fix ls
    assume "accepted 14 ls \<and> \<not> excluded None ls"
    then have "accepted (2 + (14 + 2)) ([''    CLI''] @ (ls @ [''    STI'']))"
      by (intro accepted_append accepted_flag) blast+
    then show "accepted 18 ([''    CLI''] @ ls @ [''    STI''])" by simp
  qed
  ultimately show ?thesis by (rule spec_mono [OF spec_silent]) (auto intro: coded_accepted)
qed

section \<open>The random part of the body\<close>

lemma spec_stepped:
  assumes "spec m (coded k)" "k \<le> 60" "0 \<le> k"
  shows "spec (mapG (\<lambda>ls. (ls, subs)) m)
    (\<lambda>a b (ls, subs'). \<exists>new. subs' = subs @ new \<and> (0 \<le> a \<longrightarrow> stepped 60 a b ls new))"
  by (rule spec_map, rule spec_mono [OF assms(1)])
    (use assms(2,3) stepped_coded in \<open>auto intro!: exI [of _ "[]"]\<close>)

lemma spec_body_step:
  "spec (body_step cfg subs)
    (\<lambda>a b (ls, subs'). \<exists>new. subs' = subs @ new \<and> (0 \<le> a \<longrightarrow> stepped 60 a b ls new))"
  unfolding body_step_def
  by (rule spec_bind [OF silent_draws(3) [unfolded silent_def], where R = "\<lambda>k a b (ls, subs').
      \<exists>new. subs' = subs @ new \<and> (0 \<le> a \<longrightarrow> stepped 60 a b ls new)"],
      intro spec_if spec_stepped [OF spec_simple] spec_stepped [OF spec_mem] spec_stepped [OF spec_branch]
        spec_stepped [OF spec_loop] spec_call spec_stepped [OF spec_window]) auto

lemma stepped_append:
  assumes "stepped m a b ls new" "stepped n b c ls' new'"
  shows "stepped (m + n) a c (ls @ ls') (new @ new')"
proof -
  obtain xs ys where p: "piece m (set (xs @ ys)) xs ls" "piece m {} ys (sub_lines new)" "fresh a b (xs @ ys)"
    using assms(1) by (auto simp: stepped_def)
  obtain xs' ys' where q: "piece n (set (xs' @ ys')) xs' ls'" "piece n {} ys' (sub_lines new')" "fresh b c (xs' @ ys')"
    using assms(2) by (auto simp: stepped_def)
  let ?R = "set ((xs @ xs') @ (ys @ ys'))"
  have "piece m ?R xs ls" "piece n ?R xs' ls'" by (rule piece_mono [OF p(1)] piece_mono [OF q(1)]; auto)+
  then have "piece (m + n) ?R (xs @ xs') (ls @ ls')" by (rule piece_append)
  moreover have "piece (m + n) {} (ys @ ys') (sub_lines (new @ new'))" using piece_append [OF p(2) q(2)] by simp
  moreover have "fresh a c ((xs @ xs') @ (ys @ ys'))"
    by (rule fresh_perm [OF fresh_append [OF p(3) q(3)]]) simp
  ultimately show ?thesis unfolding stepped_def by blast
qed

lemma spec_body_steps:
  "spec (body_steps (body_step cfg) n subs)
    (\<lambda>a b (ls, subs'). \<exists>new. subs' = subs @ new \<and> (0 \<le> a \<longrightarrow> a \<le> b \<and> stepped (int n * 60) a b ls new))"
proof (induction n arbitrary: subs)
  case 0
  have "stepped 0 a a [] []" for a
    unfolding stepped_def by (intro exI [of _ "[]"]) (simp add: piece_Nil)
  then show ?case by (auto intro!: spec_ret)
next
  case (Suc n)
  show ?case
    unfolding body_steps.simps
  proof (rule spec_bind [OF spec_body_step [of cfg subs]])
    fix x :: "string list \<times> subs"
    show "spec (case x of (ls, subs') \<Rightarrow> mapG (\<lambda>(ls', subs''). (ls @ ls', subs'')) (body_steps (body_step cfg) n subs'))
      (\<lambda>a b y. \<exists>ls' new. y = (fst x @ ls', snd x @ new) \<and>
        (0 \<le> a \<longrightarrow> a \<le> b \<and> stepped (int n * 60) a b ls' new))"
      unfolding split_def by (rule spec_map, rule spec_mono [OF Suc.IH]) auto
  next
    fix a b c and x y :: "string list \<times> subs"
    assume x: "case x of (ls, subs') \<Rightarrow> \<exists>new. subs' = subs @ new \<and> (0 \<le> a \<longrightarrow> stepped 60 a b ls new)"
      and y: "\<exists>ls' new. y = (fst x @ ls', snd x @ new) \<and>
        (0 \<le> b \<longrightarrow> b \<le> c \<and> stepped (int n * 60) b c ls' new)"
    then obtain ls new ls' new' where e: "x = (ls, subs @ new)" "y = (ls @ ls', subs @ new @ new')"
      and st: "0 \<le> a \<Longrightarrow> stepped 60 a b ls new" "0 \<le> b \<Longrightarrow> b \<le> c \<and> stepped (int n * 60) b c ls' new'"
      by (cases x) auto
    have "a \<le> b" if "0 \<le> a" using st(1) [OF that] by (auto simp: stepped_def fresh_def)
    then have "0 \<le> a \<Longrightarrow> a \<le> c \<and> stepped (int (Suc n) * 60) a c (ls @ ls') (new @ new')"
      using stepped_append [OF st(1) conjunct2 [OF st(2)]] st(2) by (simp add: algebra_simps)
    then show "case y of (ls, subs') \<Rightarrow> \<exists>new. subs' = subs @ new \<and>
        (0 \<le> a \<longrightarrow> a \<le> c \<and> stepped (int (Suc n) * 60) a c ls new)"
      using e(2) by auto
  qed
qed

end
