(* ===== verification/FuzzCover.thy ===== *)
theory FuzzCover
  imports FuzzCode
begin

text \<open>
  The fixed lines of the generated programs, checked by evaluation, and the deterministic block
  that covers the instructions of the profile.
\<close>

section \<open>Fixed lines\<close>

definition read_line :: "string \<Rightarrow> string \<times> nat \<times> string list" where
  "read_line l = (let t = drop 4 l; op = takeWhile (\<lambda>c. c \<noteq> CHR '' '') t;
     rest = dropWhile (\<lambda>c. c \<noteq> CHR '' '') t; k = length (takeWhile (\<lambda>c. c = CHR '' '') rest)
   in (op, k, split_operands (drop k rest)))"

fun is_ok :: "'a asm \<Rightarrow> bool" where
  "is_ok (Inr x) = True"
| "is_ok (Inl e) = False"

lemma is_ok_iff: "is_ok m \<longleftrightarrow> (\<exists>x. m = Inr x)"
  by (cases m) simp_all

definition fixed_shape :: "string \<Rightarrow> bool" where
  "fixed_shape l \<longleftrightarrow> (case read_line l of (op, k, os) \<Rightarrow> mnemonic op \<and> list_all plain_operand os \<and>
     l = insn_text op k os \<and> (k = 0 \<longleftrightarrow> os = []) \<and> op \<notin> jump_ops)"

definition fixed_ok :: "labels \<Rightarrow> int \<Rightarrow> bool \<Rightarrow> string \<Rightarrow> bool" where
  "fixed_ok labels pc iflush l \<longleftrightarrow> (case read_line l of (op, k, os) \<Rightarrow> is_ok (encode_insn op os labels pc iflush))"

definition fixed_size :: "string \<Rightarrow> int" where
  "fixed_size l = (case read_line l of (op, k, os) \<Rightarrow> insn_size op os)"

lemma accepted_fixed:
  assumes "list_all fixed_shape ls" "\<And>labels pc iflush. list_all (fixed_ok labels pc iflush) ls"
    and "sum_list (map fixed_size ls) \<le> n"
  shows "accepted n ls"
proof -
  let ?i = "\<lambda>l. case read_line l of (op, k, os) \<Rightarrow> (op, os)"
  have "insn_shape l (?i l)" if "fixed_shape l" for l
    using that unfolding fixed_shape_def insn_shape_def by (cases "read_line l") auto
  then have "list_all2 insn_shape ls (map ?i ls)"
    using assms(1) by (simp add: list_all2_map2 list_all2_same list_all_iff)
  moreover have "accept (?i l)" if "l \<in> set ls" for l
  proof -
    obtain op k os where r: "read_line l = (op, k, os)" by (cases "read_line l")
    have "fixed_ok labels pc iflush l" for labels pc iflush using assms(2) that by (simp add: list_all_iff)
    then have "\<exists>bs. encode_insn op os labels pc iflush = Inr bs" for labels pc iflush
      by (simp add: fixed_ok_def r is_ok_iff)
    moreover have "fixed_shape l" using assms(1) that by (simp add: list_all_iff)
    then have "op \<notin> jump_ops" by (simp add: fixed_shape_def r)
    ultimately show ?thesis by (simp add: accept_def r)
  qed
  moreover have "block_size (map ?i ls) = sum_list (map fixed_size ls)"
    by (simp add: block_size_def fixed_size_def [abs_def] o_def split_def)
  ultimately show ?thesis
    using assms(3) unfolding accepted_def by (intro exI [of _ "map ?i ls"]) (simp add: list_all_iff)
qed

definition cover_start :: "string list" where
  "cover_start =
     [''    LDI16 r7, 0x'' @ fmt_0X 4 WIN, ''    LDI16 r1, 0x80A5'', ''    ST    r1, [r7+0]'',
      ''    LD    r2, [r7+0]'', ''    LDI   r3, 0'', ''    LDX   r2, [r7+r3]'', ''    LDB   r2, [r7]'',
      ''    LDBS  r2, [r7]'', ''    STB   r1, [r7]'', ''    LDI   r1, 0x12'', ''    LUI   r2, 0x34'',
      ''    ADDI  r1, -1'', ''    CMPI  r1, 0x11'', ''    ANDI  r2, 0x7F'', ''    ORI   r2, 0x40'',
      ''    XORI  r2, 0x55'', ''    ADD   r3, r1, r2'', ''    SUB   r3, r3, r1'',
      ''    SLT   r4, r1, r2'', ''    SLTU  r4, r1, r2'', ''    AND   r4, r1, r2'',
      ''    OR    r4, r1, r2'', ''    XOR   r4, r1, r2'', ''    SRLI  r4, r2, 1'',
      ''    SRAI  r4, r2, 1'', ''    FSL1  r4, r1'', ''    FSR1  r4, r1'', ''    LDI   r0, 0'']"

text \<open>The first and the last instructions of the deterministic block.\<close>

definition cover_mem :: "string list" where
  "cover_mem =
     [''    ST    r1, [r7+0]'',
      ''    LD    r2, [r7+0]'', ''    LDI   r3, 0'', ''    LDX   r2, [r7+r3]'', ''    LDB   r2, [r7]'',
      ''    LDBS  r2, [r7]'', ''    STB   r1, [r7]'', ''    LDI   r1, 0x12'', ''    LUI   r2, 0x34'']"

definition cover_alu :: "string list" where
  "cover_alu =
     [''    ADDI  r1, -1'', ''    CMPI  r1, 0x11'', ''    ANDI  r2, 0x7F'', ''    ORI   r2, 0x40'',
      ''    XORI  r2, 0x55'', ''    ADD   r3, r1, r2'', ''    SUB   r3, r3, r1'',
      ''    SLT   r4, r1, r2'', ''    SLTU  r4, r1, r2'']"

definition cover_bits :: "string list" where
  "cover_bits =
     [''    AND   r4, r1, r2'',
      ''    OR    r4, r1, r2'', ''    XOR   r4, r1, r2'', ''    SRLI  r4, r2, 1'',
      ''    SRAI  r4, r2, 1'', ''    FSL1  r4, r1'', ''    FSR1  r4, r1'', ''    LDI   r0, 0'']"

definition cover_ops :: "string list" where
  "cover_ops = cover_mem @ cover_alu @ cover_bits"

lemma cover_mem_enc: "list_all (fixed_ok labels pc iflush) cover_mem"
  unfolding cover_mem_def by code_simp

lemma cover_alu_enc: "list_all (fixed_ok labels pc iflush) cover_alu"
  unfolding cover_alu_def by code_simp

lemma cover_bits_enc: "list_all (fixed_ok labels pc iflush) cover_bits"
  unfolding cover_bits_def by code_simp

lemma cover_mem_shape: "list_all fixed_shape cover_mem"
  unfolding cover_mem_def by code_simp

lemma cover_alu_shape: "list_all fixed_shape cover_alu"
  unfolding cover_alu_def by code_simp

lemma cover_bits_shape: "list_all fixed_shape cover_bits"
  unfolding cover_bits_def by code_simp

lemma cover_sizes: "map (\<lambda>ls. sum_list (map fixed_size ls)) [cover_mem, cover_alu, cover_bits] = [18, 18, 16]"
  unfolding cover_mem_def cover_alu_def cover_bits_def by code_simp

definition call_ops :: "string list list" where
  "call_ops = [[''    ADDI  r0, -1''], [''    LDI   r6, 0x5A''], [''    MTS   S5, r1'', ''    MFS   r2, S5''],
     [''    JALR  S4, r3''], [''    RET   S4''], [''    RET   S6''], [''    MTS   S0, r3'', ''    RETI  S0''],
     [''    JMP   r0''], [''    ST   r7, [r6+0]'', ''    HALT'']]"

definition mdu_ops :: "string list list" where
  "mdu_ops = [[''    SLLI  r4, r2, 4'', ''    SRLI  r4, r2, 4'', ''    SRAI  r4, r2, 4'', ''    MUL   r4, r1, r2''],
     [''    LDI16 r3, 0x1234'', ''    LDI16 r4, 0x4321'', ''    MULHU r5, r3, r4''],
     [''    LDI   r3, 1'', ''    LDI16 r4, 0x2345'', ''    LDI16 r5, 0x0123'', ''    DIVU  r3, r4, r5'']]"

definition frame_ops :: "string list list" where
  "frame_ops = [[''    LDI16 r1, 0x80A5''], [''    LDI16 r7, 0x0BAD''], [''    LDI16 r7, 0x600D''],
     [''    MTS   S2, r1''], [''    LD   r1, [r1+0]'', ''    MFS   r1, S2'', ''    RETI S0'']]"

definition trap_ops :: "string list list" where
  "trap_ops = [[''    MTS   S2, r1'', ''    MFS   r1, S3'', ''    ADDI  r1, 1'', ''    MTS   S3, r1'',
      ''    MFS   r1, S2'', ''    RETI S0''],
     [''    ST    r7, [r7+0]''], [''    MTS   S4, r7''], [''    ST   r7, [r0+0]'', ''    HALT'']]"

definition mid_ops :: "string list list" where
  "mid_ops = call_ops @ mdu_ops @ frame_ops @ trap_ops"

lemma call_ops_enc: "list_all (list_all (fixed_ok labels pc iflush)) call_ops"
  unfolding call_ops_def by code_simp

lemma mdu_ops_enc: "list_all (list_all (fixed_ok labels pc iflush)) mdu_ops"
  unfolding mdu_ops_def by code_simp

lemma frame_ops_enc: "list_all (list_all (fixed_ok labels pc iflush)) frame_ops"
  unfolding frame_ops_def by code_simp

lemma trap_ops_enc: "list_all (list_all (fixed_ok labels pc iflush)) trap_ops"
  unfolding trap_ops_def by code_simp

lemma call_ops_shape: "list_all (list_all fixed_shape) call_ops"
  unfolding call_ops_def by code_simp

lemma mdu_ops_shape: "list_all (list_all fixed_shape) mdu_ops"
  unfolding mdu_ops_def by code_simp

lemma frame_ops_shape: "list_all (list_all fixed_shape) frame_ops"
  unfolding frame_ops_def by code_simp

lemma trap_ops_shape: "list_all (list_all fixed_shape) trap_ops"
  unfolding trap_ops_def by code_simp

lemma call_ops_size: "list_all (\<lambda>ls. sum_list (map fixed_size ls) \<le> 4 * int (length ls)) call_ops"
  unfolding call_ops_def by code_simp

lemma mdu_ops_size: "list_all (\<lambda>ls. sum_list (map fixed_size ls) \<le> 4 * int (length ls)) mdu_ops"
  unfolding mdu_ops_def by code_simp

lemma frame_ops_size: "list_all (\<lambda>ls. sum_list (map fixed_size ls) \<le> 4 * int (length ls)) frame_ops"
  unfolding frame_ops_def by code_simp

lemma trap_ops_size: "list_all (\<lambda>ls. sum_list (map fixed_size ls) \<le> 4 * int (length ls)) trap_ops"
  unfolding trap_ops_def by code_simp

lemma mid_ops_enc: "list_all (list_all (fixed_ok labels pc iflush)) mid_ops"
  by (simp add: mid_ops_def call_ops_enc mdu_ops_enc frame_ops_enc trap_ops_enc)

lemma mid_ops_shape: "list_all (list_all fixed_shape) mid_ops"
  "list_all (\<lambda>ls. sum_list (map fixed_size ls) \<le> 4 * int (length ls)) mid_ops"
  by (simp_all only: mid_ops_def list_all_append call_ops_shape mdu_ops_shape frame_ops_shape trap_ops_shape
      call_ops_size mdu_ops_size frame_ops_size trap_ops_size simp_thms)

lemmas mid_ops_lines = mid_ops_def call_ops_def mdu_ops_def frame_ops_def trap_ops_def
lemmas cover_lines = cover_ops_def cover_mem_def cover_alu_def cover_bits_def

lemma accepted_mid: "ls \<in> set mid_ops \<Longrightarrow> accepted (4 * int (length ls)) ls"
  using mid_ops_enc mid_ops_shape by (intro accepted_fixed) (auto simp: list_all_iff)

lemma accepted_cover_ops: "accepted 52 cover_ops"
proof (rule accepted_fixed)
  show "list_all fixed_shape cover_ops" by (simp add: cover_ops_def cover_mem_shape cover_alu_shape cover_bits_shape)
  show "list_all (fixed_ok labels pc iflush) cover_ops" for labels pc iflush
    by (simp add: cover_ops_def cover_mem_enc cover_alu_enc cover_bits_enc)
  show "sum_list (map fixed_size cover_ops) \<le> 52" using cover_sizes by (simp add: cover_ops_def)
qed

section \<open>The deterministic block\<close>

lemma piece_concat:
  "list_all (\<lambda>(n, xs, ls). piece n R xs ls) ps \<Longrightarrow>
   piece (sum_list (map fst ps)) R (concat (map (fst \<circ> snd) ps)) (concat (map (snd \<circ> snd) ps))"
  by (induction ps) (auto intro!: piece_append piece_Nil)

lemma piece_mid: "ls \<in> set mid_ops \<Longrightarrow> piece (4 * int (length ls)) R [] ls"
  by (rule piece_accepted [OF accepted_mid])

lemma spec_cover_labels:
  assumes "distinct xs" "list_all (list_all ident_char) xs"
  shows "spec (cover_labels xs) (\<lambda>a b f. 0 \<le> a \<longrightarrow> a \<le> b \<and> fresh a b (map f xs))"
  using assms
proof (induction xs)
  case Nil
  show ?case by (auto intro!: spec_ret)
next
  case (Cons x xs)
  have st: "good_stem (''cover_'' @ x)"
  proof -
    have "good_stem ''cover_''" by code_simp
    then show ?thesis using Cons.prems(2) by (simp add: good_stem_def py_upper_def)
  qed
  show ?case
    unfolding cover_labels.simps
  proof (rule spec_bind [OF spec_new_label [OF st]])
    fix l
    show "spec (mapG (\<lambda>f. f(x := l)) (cover_labels xs))
      (\<lambda>a b f. 0 \<le> a \<longrightarrow> a \<le> b \<and> (\<exists>g. f = g(x := l) \<and> fresh a b (map g xs)))"
      by (rule spec_map, rule spec_mono [OF Cons.IH]) (use Cons.prems in auto)
  next
    fix a b c l f
    assume l: "b = a + 1 \<and> (0 \<le> a \<longrightarrow> good_label l \<and> fresh a b [l])"
      and f: "0 \<le> b \<longrightarrow> b \<le> c \<and> (\<exists>g. f = g(x := l) \<and> fresh b c (map g xs))"
    show "0 \<le> a \<longrightarrow> a \<le> c \<and> fresh a c (map f (x # xs))"
    proof
      assume a: "0 \<le> a"
      with l f obtain g where g: "f = g(x := l)" "fresh b c (map g xs)" "b \<le> c" by auto
      then have "map f (x # xs) = [l] @ map g xs" using Cons.prems(1) by auto
      moreover have "fresh a c ([l] @ map g xs)" using l a g(2) by (intro fresh_append) auto
      ultimately show "a \<le> c \<and> fresh a c (map f (x # xs))" by (simp only:) (simp only: fresh_def)
    qed
  qed
qed

definition base_stems :: "string list" where
  "base_stems = [''beq'', ''bne'', ''blt'', ''bge'', ''after_jmp'', ''reg_sub'', ''reg_done'']"

definition sys_stems :: "string list" where
  "sys_stems = [''long_sub'', ''long_done'', ''after_reti'']"

lemma stems_ok: "distinct base_stems" "list_all (list_all ident_char) base_stems"
  "distinct sys_stems" "list_all (list_all ident_char) sys_stems"
  unfolding base_stems_def sys_stems_def by code_simp+

lemma piece_skip:
  assumes "cc \<in> branch_ops" "good_label x" "piece n R xs body" "n \<le> 254" "pre = insn_text cc 2 [x]"
  shows "piece (n + 2) R (xs @ [x]) ([pre] @ body @ [x @ '':''])"
  using piece_forward [OF assms(1,2) _ assms(3,4), of 2] assms(5) by simp

lemma branch_lines:
  "''    BEQZ  '' @ x = insn_text ''BEQZ'' 2 [x]" "''    BNEZ  '' @ x = insn_text ''BNEZ'' 2 [x]"
  "''    BLTZ  '' @ x = insn_text ''BLTZ'' 2 [x]" "''    BGEZ  '' @ x = insn_text ''BGEZ'' 2 [x]"
  "''    JMP8  '' @ x = insn_text ''JMP8'' 2 [x]"
  by (simp_all add: insn_text_def numeral_2_eq_2)

lemma piece_cover_base:
  assumes "\<And>x. x \<in> set base_stems \<Longrightarrow> good_label (lab x)" "lab ''reg_sub'' \<in> R"
  shows "piece 120 R (map lab base_stems) (cover_base lab)"
proof -
  have g: "good_label (lab ''beq'')" "good_label (lab ''bne'')" "good_label (lab ''blt'')" "good_label (lab ''bge'')"
    "good_label (lab ''after_jmp'')" "good_label (lab ''reg_sub'')" "good_label (lab ''reg_done'')"
    using assms(1) by (simp_all add: base_stems_def)
  have b: "''BEQZ'' \<in> branch_ops" "''BNEZ'' \<in> branch_ops" "''BLTZ'' \<in> branch_ops" "''BGEZ'' \<in> branch_ops"
    "''JMP8'' \<in> branch_ops" by (simp_all add: branch_ops_def)
  have skip: "piece 2 R [x] [insn_text cc 2 [x], x @ '':'']" if "cc \<in> branch_ops" "good_label x" for cc x
    using piece_skip [OF that piece_Nil [of 0 R], of "insn_text cc 2 [x]"] by simp
  have m: "piece 4 R [] [l]" if "[l] \<in> set mid_ops" for l using piece_mid [OF that] by simp
  define ps where "ps =
    [(4, [], [ldi16_line ''r7'' WIN]), (4, [], [''    LDI16 r1, 0x80A5'']), (52, [], cover_ops),
     (2, [lab ''beq''], [insn_text ''BEQZ'' 2 [lab ''beq''], lab ''beq'' @ '':'']),
     (2, [lab ''bne''], [insn_text ''BNEZ'' 2 [lab ''bne''], lab ''bne'' @ '':'']),
     (4, [], [''    ADDI  r0, -1'']),
     (2, [lab ''blt''], [insn_text ''BLTZ'' 2 [lab ''blt''], lab ''blt'' @ '':'']),
     (2, [lab ''bge''], [insn_text ''BGEZ'' 2 [lab ''bge''], lab ''bge'' @ '':'']),
     (4 + 2, [] @ [lab ''after_jmp''],
        [insn_text ''JMP8'' 2 [lab ''after_jmp'']] @ [''    LDI   r6, 0x5A''] @ [lab ''after_jmp'' @ '':'']),
     (8, [], [''    MTS   S5, r1'', ''    MFS   r2, S5'']),
     (4, [], [insn_text ''LDI16'' 1 [''r3'', lab ''reg_sub'']]),
     (4, [], [''    JALR  S4, r3'']),
     ((0 + 4) + 2, ([lab ''reg_sub''] @ []) @ [lab ''reg_done''],
        [insn_text ''JMP8'' 2 [lab ''reg_done'']] @ ([lab ''reg_sub'' @ '':''] @ [''    RET   S4'']) @
        [lab ''reg_done'' @ '':'']) :: int \<times> string list \<times> string list]"
  have "list_all (\<lambda>(n, xs, ls). piece n R xs ls) ps"
    unfolding ps_def list.pred_inject prod.case
  proof (intro conjI TrueI)
    show "piece 4 R [] [ldi16_line ''r7'' WIN]"
      by (intro piece_accepted accepted_ldi16 accepted_Nil) (simp_all add: WIN_def)
    show "piece 52 R [] cover_ops" by (intro piece_accepted accepted_cover_ops)
    show "piece 4 R [] [insn_text ''LDI16'' 1 [''r3'', lab ''reg_sub'']]"
      by (rule piece_ldi16) (use g assms(2) in simp_all)
    show "piece 8 R [] [''    MTS   S5, r1'', ''    MFS   r2, S5'']"
      using piece_mid [of "[''    MTS   S5, r1'', ''    MFS   r2, S5'']"] by (simp add: mid_ops_lines)
    show "piece 4 R [] [''    LDI16 r1, 0x80A5'']" "piece 4 R [] [''    ADDI  r0, -1'']" "piece 4 R [] [''    JALR  S4, r3'']"
      by (rule m; simp add: mid_ops_lines)+
    show "piece (4 + 2) R ([] @ [lab ''after_jmp''])
        ([insn_text ''JMP8'' 2 [lab ''after_jmp'']] @ [''    LDI   r6, 0x5A''] @ [lab ''after_jmp'' @ '':''])"
      by (rule piece_skip [OF b(5) g(5) m]) (simp_all add: mid_ops_lines)
    show "piece ((0 + 4) + 2) R (([lab ''reg_sub''] @ []) @ [lab ''reg_done''])
        ([insn_text ''JMP8'' 2 [lab ''reg_done'']] @ ([lab ''reg_sub'' @ '':''] @ [''    RET   S4'']) @
        [lab ''reg_done'' @ '':''])"
      by (rule piece_skip [OF b(5) g(7) piece_append [OF piece_label [OF g(6)] m]]) (simp_all add: mid_ops_lines)
  qed (rule skip b g list.pred_inject(1))+
  from piece_concat [OF this]
  have "piece (sum_list (map fst ps)) R (map lab base_stems) (cover_base lab)"
    by (simp add: ps_def base_stems_def cover_base_def cover_lines ldi16_line_def insn_text_def numeral_2_eq_2)
  then show ?thesis by (rule piece_mono) (simp_all add: ps_def)
qed

end
