(* ===== verification/FuzzBody.thy ===== *)
theory FuzzBody
  imports FuzzCover
begin

text \<open>
  The body of a generated program: the window initialisation, the deterministic block and the
  random steps, as a piece of bounded size whose labels are all different.
\<close>

section \<open>The deterministic block\<close>

lemma map_labels: "fresh a b (map lab xs) \<Longrightarrow> x \<in> set xs \<Longrightarrow> good_label (lab x)"
  by (auto simp: fresh_def)

lemma piece_cover_opt:
  "piece 44 R [] ((if f then cover_full else []) @ (if m then cover_mulhu else []) @ (if d then cover_divu else []))"
proof -
  have "piece 16 R [] cover_full" "piece 12 R [] cover_mulhu" "piece 16 R [] cover_divu"
    using piece_mid [of cover_full R] piece_mid [of cover_mulhu R] piece_mid [of cover_divu R]
    by (simp_all add: mid_ops_lines cover_full_def cover_mulhu_def cover_divu_def)
  then have "piece 16 R [] (if f then cover_full else [])" "piece 12 R [] (if m then cover_mulhu else [])"
    "piece 16 R [] (if d then cover_divu else [])"
    by (simp_all add: piece_Nil)
  from piece_append [OF this(1) piece_append [OF this(2,3)]] show ?thesis by simp
qed

lemma piece_cover_sys:
  assumes "good_label x" "good_label y" "good_label z" "{x, y, z} \<subseteq> R"
  shows "piece 40 R [x, y, z] (cover_sys x y z)"
proof -
  have m: "piece (4 * int (length ls)) R [] ls" if "ls \<in> set mid_ops" for ls using piece_mid [OF that] .
  define ps where "ps =
    [(4, [], [insn_text ''JALL'' 2 [''S6'', x]]), (4, [], [insn_text ''JMPL'' 2 [y]]), (0, [x], [x @ '':'']),
     (4, [], [''    RET   S6'']), (0, [y], [y @ '':'']), (2, [], [''    CLI'']),
     (4, [], [insn_text ''LDI16'' 1 [''r3'', z]]), (8, [], [''    MTS   S0, r3'', ''    RETI  S0'']),
     (0, [z], [z @ '':'']), (2, [], [''    STI'']) :: int \<times> string list \<times> string list]"
  have s6: "is_sreg ''S6''"
  proof -
    have "''S'' @ fmt_d 6 = ''S6''" by code_simp
    then show ?thesis using sname_sreg [of 6] by simp
  qed
  have "list_all (\<lambda>(n, xs, ls). piece n R xs ls) ps"
    unfolding ps_def list.pred_inject prod.case
  proof (intro conjI TrueI)
    show "piece 4 R [] [insn_text ''JALL'' 2 [''S6'', x]]" by (rule piece_jall) (use assms s6 in simp_all)
    show "piece 4 R [] [insn_text ''JMPL'' 2 [y]]" by (rule piece_jmpl) (use assms in simp_all)
    show "piece 4 R [] [insn_text ''LDI16'' 1 [''r3'', z]]" by (rule piece_ldi16) (use assms in simp_all)
    show "piece 4 R [] [''    RET   S6'']" "piece 8 R [] [''    MTS   S0, r3'', ''    RETI  S0'']"
      using m [of "[''    RET   S6'']"] m [of "[''    MTS   S0, r3'', ''    RETI  S0'']"] by (simp_all add: mid_ops_lines)
    show "piece 2 R [] [''    CLI'']" "piece 2 R [] [''    STI'']" by (intro piece_accepted accepted_flag)+
  qed (rule piece_label assms list.pred_inject(1))+
  from piece_concat [OF this]
  have "piece (sum_list (map fst ps)) R [x, y, z] (cover_sys x y z)"
    by (simp add: ps_def cover_sys_def insn_text_def numeral_2_eq_2)
  then show ?thesis by (rule piece_mono) (simp_all add: ps_def)
qed

lemma spec_supported: "spec (supported_isa_ops cfg) (coded 210)"
  unfolding supported_isa_ops_def base_stems_def [symmetric] sys_stems_def [symmetric]
proof (rule spec_bind [OF spec_cover_labels [OF stems_ok(1,2)]])
  fix lab
  let ?ls = "cover_base lab @ (if cf_full cfg then cover_full else []) @
    (if cf_mulhu cfg then cover_mulhu else []) @ (if cf_divu cfg then cover_divu else [])"
  let ?Q = "\<lambda>a b ls. (0 \<le> a \<longrightarrow> a \<le> b) \<and> (\<forall>c. 0 \<le> c \<longrightarrow> 0 \<le> a \<longrightarrow> fresh c a (map lab base_stems) \<longrightarrow> coded 210 c b ls)"
  have base: "piece (120 + 44) R (map lab base_stems @ []) ?ls"
    if "fresh c a (map lab base_stems)" "set (map lab base_stems) \<subseteq> R" for a c R
  proof (rule piece_append [OF piece_cover_base piece_cover_opt])
    show "good_label (lab x)" if "x \<in> set base_stems" for x by (rule map_labels) fact+
    show "lab ''reg_sub'' \<in> R" using \<open>set (map lab base_stems) \<subseteq> R\<close> by (simp add: base_stems_def)
  qed
  show "spec (let ls = ?ls in if cf_sys cfg
       then bindG (cover_labels sys_stems) (\<lambda>lab'.
              retG (ls @ cover_sys (lab' ''long_sub'') (lab' ''long_done'') (lab' ''after_reti'')))
       else retG ls) ?Q"
    unfolding Let_def
  proof (rule spec_if)
    show "spec (bindG (cover_labels sys_stems) (\<lambda>lab'.
              retG (?ls @ cover_sys (lab' ''long_sub'') (lab' ''long_done'') (lab' ''after_reti'')))) ?Q"
    proof (rule spec_bind [OF spec_cover_labels [OF stems_ok(3,4)]])
      fix lab'
      show "spec (retG (?ls @ cover_sys (lab' ''long_sub'') (lab' ''long_done'') (lab' ''after_reti'')))
        (\<lambda>a b ls. b = a \<and> ls = ?ls @ cover_sys (lab' ''long_sub'') (lab' ''long_done'') (lab' ''after_reti''))"
        by (rule spec_ret) simp
    next
      fix a b d lab' ls
      assume l: "0 \<le> a \<longrightarrow> a \<le> b \<and> fresh a b (map lab' sys_stems)"
        and ls: "d = b \<and> ls = ?ls @ cover_sys (lab' ''long_sub'') (lab' ''long_done'') (lab' ''after_reti'')"
      have "coded 210 c d ls" if c: "0 \<le> c" "0 \<le> a" "fresh c a (map lab base_stems)" for c
      proof -
        let ?xs = "map lab base_stems @ map lab' sys_stems"
        have f: "fresh c d ?xs" using l ls c by (intro fresh_append) auto
        have s: "map lab' sys_stems = [lab' ''long_sub'', lab' ''long_done'', lab' ''after_reti'']" by (simp add: sys_stems_def)
        have g: "good_label (lab' ''long_sub'')" "good_label (lab' ''long_done'')" "good_label (lab' ''after_reti'')"
          using l c(2) by (auto simp: s fresh_def)
        have "piece ((120 + 44) + 40) (set ?xs) ((map lab base_stems @ []) @ map lab' sys_stems) ls"
          unfolding conjunct2 [OF ls] using g
          by (intro piece_append base [OF c(3)]) (auto simp: s intro: piece_cover_sys)
        then have "piece 210 (set ?xs) ?xs ls" using piece_mono [of "164 + 40" "set ?xs" ?xs ls 210] by simp
        then show ?thesis using f unfolding coded_def by blast
      qed
      then show "?Q a d ls" using l ls by auto
    qed
    have "coded 210 c a ?ls" if "fresh c a (map lab base_stems)" for a c
    proof -
      have "piece 210 (set (map lab base_stems)) (map lab base_stems) ?ls"
        using piece_mono [OF base [OF that subset_refl], of 210] by simp
      then show ?thesis using that unfolding coded_def by blast
    qed
    then show "spec (retG ?ls) ?Q" by (intro spec_ret) simp
  qed
next
  fix a b c lab ls
  assume "0 \<le> a \<longrightarrow> a \<le> b \<and> fresh a b (map lab base_stems)"
    "(0 \<le> b \<longrightarrow> b \<le> c) \<and> (\<forall>c'. 0 \<le> c' \<longrightarrow> 0 \<le> b \<longrightarrow> fresh c' b (map lab base_stems) \<longrightarrow> coded 210 c' c ls)"
  then show "coded 210 a c ls" by (auto simp: coded_def)
qed

section \<open>The whole body\<close>

lemma yields_concat_accepted:
  assumes "\<And>x. x \<in> set xs \<Longrightarrow> yields (f x) (accepted k)"
  shows "yields (concatG f xs) (accepted (int (length xs) * k))"
  using assms
proof (induction xs)
  case (Cons x xs)
  have "int (length (x # xs)) * k = k + int (length xs) * k" by (simp add: algebra_simps)
  moreover have "yields (f x) (accepted k)" "yields (concatG f xs) (accepted (int (length xs) * k))"
    using Cons by simp_all
  then have "yields (concatG f (x # xs)) (accepted (k + int (length xs) * k))"
    by (auto intro!: yields_map elim!: yields_bind yields_mono intro: accepted_append)
  ultimately show ?case by simp
qed (simp add: accepted_Nil yields_ret)

lemma yields_window: "0 \<le> w \<Longrightarrow> w < WIN_WORDS \<Longrightarrow> yields (window_word w) (accepted 6)"
  unfolding window_word_def
proof (rule yields_bind [OF yields_randint], rule yields_ret)
  fix v :: int
  assume w: "0 \<le> w" "w < WIN_WORDS" and v: "0 \<le> v \<and> v \<le> 0xFFFF"
  have "accepted 6 [ldi16_line ''r1'' v, ''    ST   '' @ ''r1'' @ '', [r7+'' @ fmt_d (w * 2) @ '']'']"
    using accepted_word_line(1) [OF _ w, of "''r1''"] v by (intro accepted_ldi16) simp_all
  then show "accepted 6 [''    LDI16 r1, 0x'' @ fmt_0X 4 v, ''    ST   r1, [r7+'' @ fmt_d (w * 2) @ '']'']"
    by (simp add: ldi16_line_def)
qed

lemma stepped_mono: "stepped m a b ls new \<Longrightarrow> m \<le> n \<Longrightarrow> stepped n a b ls new"
  unfolding stepped_def by (meson order_refl piece_mono)

lemma spec_gen_body:
  "spec (gen_body cfg) (\<lambda>a b (ls, subs). 0 \<le> a \<longrightarrow> stepped 3200 a b ls subs)"
  unfolding gen_body_def
proof (rule spec_bind [OF spec_silent [OF silent_concat [OF silent_ops(9)] yields_concat_accepted [where k = 6]]])
  fix w
  assume "w \<in> set (map int [0..<nat WIN_WORDS])"
  then show "yields (window_word w) (accepted 6)" by (intro yields_window) (auto simp: WIN_WORDS_def)
next
  fix window
  show "spec (bindG (supported_isa_ops cfg) (\<lambda>cover.
     bindG (randint 25 45) (\<lambda>n.
     bindG (body_steps (body_step cfg) (nat n) []) (\<lambda>(ls, subs).
       retG ([''    LDI16 r7, 0x'' @ fmt_0X 4 WIN] @ window @ cover @ ls, subs)))))
     (\<lambda>a b (ls, subs). accepted 192 window \<longrightarrow> 0 \<le> a \<longrightarrow> stepped 3200 a b ls subs)"
  proof (rule spec_bind [OF spec_supported])
    fix cover
    show "spec (bindG (randint 25 45) (\<lambda>n.
       bindG (body_steps (body_step cfg) (nat n) []) (\<lambda>(ls, subs).
         retG ([''    LDI16 r7, 0x'' @ fmt_0X 4 WIN] @ window @ cover @ ls, subs))))
       (\<lambda>a b (ls, subs). \<exists>ls'. ls = [ldi16_line ''r7'' WIN] @ window @ cover @ ls' \<and>
         (0 \<le> a \<longrightarrow> stepped 2700 a b ls' subs))"
    proof (rule spec_bind [OF spec_silent [OF silent_draws(2) yields_randint]])
      fix n
      show "spec (bindG (body_steps (body_step cfg) (nat n) []) (\<lambda>(ls, subs).
           retG ([''    LDI16 r7, 0x'' @ fmt_0X 4 WIN] @ window @ cover @ ls, subs)))
         (\<lambda>a b (ls, subs). n \<le> 45 \<longrightarrow> (\<exists>ls'. ls = [ldi16_line ''r7'' WIN] @ window @ cover @ ls' \<and>
           (0 \<le> a \<longrightarrow> stepped 2700 a b ls' subs)))"
      proof (rule spec_bind [OF spec_body_steps])
        fix x :: "string list \<times> subs"
        show "spec (case x of (ls, subs) \<Rightarrow> retG ([''    LDI16 r7, 0x'' @ fmt_0X 4 WIN] @ window @ cover @ ls, subs))
          (\<lambda>a b y. b = a \<and> y = ([ldi16_line ''r7'' WIN] @ window @ cover @ fst x, snd x))"
          by (cases x) (auto intro!: spec_ret simp: ldi16_line_def)
      next
        fix a b c and x y :: "string list \<times> subs"
        assume x: "case x of (ls, subs') \<Rightarrow> \<exists>new. subs' = [] @ new \<and>
            (0 \<le> a \<longrightarrow> a \<le> b \<and> stepped (int (nat n) * 60) a b ls new)"
          and y: "c = b \<and> y = ([ldi16_line ''r7'' WIN] @ window @ cover @ fst x, snd x)"
        have "stepped 2700 a b ls new" if "stepped (int (nat n) * 60) a b ls new" "n \<le> 45" for ls new
          by (rule stepped_mono [OF that(1)]) (use that(2) in simp)
        then show "case y of (ls, subs) \<Rightarrow> n \<le> 45 \<longrightarrow>
            (\<exists>ls'. ls = [ldi16_line ''r7'' WIN] @ window @ cover @ ls' \<and> (0 \<le> a \<longrightarrow> stepped 2700 a c ls' subs))"
          using x y by (cases x) auto
      qed
    next
      fix a b c n and y :: "string list \<times> subs"
      assume "b = a \<and> 25 \<le> n \<and> n \<le> 45" "case y of (ls, subs) \<Rightarrow> n \<le> 45 \<longrightarrow>
        (\<exists>ls'. ls = [ldi16_line ''r7'' WIN] @ window @ cover @ ls' \<and> (0 \<le> b \<longrightarrow> stepped 2700 b c ls' subs))"
      then show "case y of (ls, subs) \<Rightarrow> \<exists>ls'. ls = [ldi16_line ''r7'' WIN] @ window @ cover @ ls' \<and>
         (0 \<le> a \<longrightarrow> stepped 2700 a c ls' subs)" by auto
    qed
  next
    fix a b c cover and y :: "string list \<times> subs"
    assume cover: "coded 210 a b cover" and y: "case y of (ls, subs) \<Rightarrow>
      \<exists>ls'. ls = [ldi16_line ''r7'' WIN] @ window @ cover @ ls' \<and> (0 \<le> b \<longrightarrow> stepped 2700 b c ls' subs)"
    obtain ls subs where e: "y = (ls, subs)" by (cases y)
    then obtain ls' where ls: "ls = [ldi16_line ''r7'' WIN] @ window @ cover @ ls'" "0 \<le> b \<longrightarrow> stepped 2700 b c ls' subs"
      using y by auto
    have "stepped 3200 a c ls subs" if win: "accepted 192 window" and a: "0 \<le> a"
    proof -
      have "accepted 196 ([ldi16_line ''r7'' WIN] @ window)"
        using win by (simp, intro accepted_ldi16) (simp_all add: WIN_def)
      then have pre: "stepped 196 a a ([ldi16_line ''r7'' WIN] @ window) []"
        by (intro stepped_coded [of 196] coded_accepted [of 196] a) simp_all
      have mid: "stepped 210 a b cover []" by (intro stepped_coded [OF cover] a) simp_all
      then have "0 \<le> b" using a by (auto simp: stepped_def fresh_def)
      then have "stepped (196 + (210 + 2700)) a c (([ldi16_line ''r7'' WIN] @ window) @ (cover @ ls')) ([] @ ([] @ subs))"
        using ls(2) by (intro stepped_append [OF pre] stepped_append [OF mid]) simp
      then show ?thesis using stepped_mono [of 3106 a c ls subs 3200] by (simp add: ls(1))
    qed
    then show "case y of (ls, subs) \<Rightarrow> accepted 192 window \<longrightarrow> 0 \<le> a \<longrightarrow> stepped 3200 a c ls subs"
      using e by simp
  qed
next
  fix a b c window and y :: "string list \<times> subs"
  assume "b = a \<and> accepted (int (length (map int [0..<nat WIN_WORDS])) * 6) window"
    "case y of (ls, subs) \<Rightarrow> accepted 192 window \<longrightarrow> 0 \<le> b \<longrightarrow> stepped 3200 b c ls subs"
  then show "case y of (ls, subs) \<Rightarrow> 0 \<le> a \<longrightarrow> stepped 3200 a c ls subs"
    by (auto simp: WIN_WORDS_def)
qed

end
