(* ===== verification/FuzzEmit.thy ===== *)
theory FuzzEmit
  imports FuzzBody
begin

text \<open>
  Complete generated programs: the fixed frame around the body and the subroutines, and the
  checks against an expected state. Every program that \<open>Gen.emit\<close> returns is assembled, and its
  image ends below the words the test bench watches.
\<close>

section \<open>Programs of pieces\<close>

lemma lin_labels_keys: "map fst (lin_labels b ps) = map py_upper (plabs ps)"
  by (induction b ps rule: lin_labels.induct) auto

lemma lin_labels_range:
  "(x, a) \<in> set (lin_labels b ps) \<Longrightarrow> even b \<Longrightarrow> b \<le> a \<and> a \<le> b + psize ps \<and> even a"
proof (induction ps arbitrary: b)
  case (Cons p ps)
  have "even (b + line_size p)" using Cons.prems(2) line_size_nonneg(2) [of p] by simp
  then have "(x, a) \<in> set (lin_labels (b + line_size p) ps) \<Longrightarrow> b \<le> a \<and> a \<le> b + psize (p # ps) \<and> even a"
    using Cons.IH [of "b + line_size p"] line_size_nonneg(1) [of p] by auto
  moreover have "(x, a) \<in> set (lin_labels (b + line_size p) ps) \<or> a = b"
    using Cons.prems(1) by (cases p) auto
  ultimately show ?case using Cons.prems(2) psize_nonneg(1) [of "p # ps"] by auto
qed simp

lemma pieces_assemble:
  assumes "piece n1 R [] vl" "piece n2 R xs zl" "R \<subseteq> set xs" "distinct (map py_upper xs)"
    and "n1 + n2 \<le> 0xFFFF" "startswith c '';''"
  shows "\<exists>img. assemble (map nl (c # ''.vectors'' # vl @ ''.text'' # zl)) defines False = Inr img \<and>
    int (length img) \<le> n1 + n2"
proof -
  obtain vs where vs: "list_all2 line_reads vl vs" "list_all flat_line vs" "psize vs \<le> n1" "plabs vs = []"
    and vs_enc: "\<forall>L b. even b \<longrightarrow> placed L b vs \<longrightarrow> resolves L R \<longrightarrow> encodes L b vs"
    using assms(1) unfolding piece_def by blast
  obtain ts where ts: "list_all2 line_reads zl ts" "list_all flat_line ts" "psize ts \<le> n2" "plabs ts = xs"
    and ts_enc: "\<forall>L b. even b \<longrightarrow> placed L b ts \<longrightarrow> resolves L R \<longrightarrow> encodes L b ts"
    using assms(2) unfolding piece_def by blast
  let ?L = "map_of (lin_labels 0 (vs @ ts))"
  have keys: "map fst (lin_labels 0 (vs @ ts)) = map py_upper xs" by (simp add: lin_labels_keys vs(4) ts(4))
  have dist: "distinct (map fst (lin_labels 0 (vs @ ts)))" using assms(4) keys by simp
  have at: "?L x = Some a" if "(x, a) \<in> set (lin_labels 0 (vs @ ts))" for x a
    using map_of_is_SomeI [OF dist that] .
  have "placed ?L 0 (vs @ ts)" unfolding placed_def using at by blast
  moreover have "resolves ?L R"
    unfolding resolves_def
  proof
    fix x
    assume "x \<in> R"
    then have "py_upper x \<in> set (map fst (lin_labels 0 (vs @ ts)))" using assms(3) keys by auto
    then obtain a where a: "(py_upper x, a) \<in> set (lin_labels 0 (vs @ ts))" by auto
    then show "\<exists>v. ?L (py_upper x) = Some v \<and> even v \<and> 0 \<le> v \<and> v \<le> 0xFFFF"
      using at [OF a] lin_labels_range [OF a] vs(3) ts(3) assms(5) by auto
  qed
  ultimately have "encodes ?L 0 (vs @ ts)"
    using vs_enc ts_enc psize_nonneg(2) [of vs] by simp
  then have enc: "\<exists>bs. encode_insn op os ?L a False = Inr bs" if "(a, op, os) \<in> set (lin_items 0 (vs @ ts))" for a op os
    using that by (auto simp: encodes_def)
  have ls: "list_all2 line_reads (c # ''.vectors'' # vl @ ''.text'' # zl) (program_of vs ts)"
    using vs(1) ts(1) assms(6) by (simp add: program_of_def list_all2_appendI)
  have "distinct (map py_upper (plabs (vs @ ts)))" using assms(4) by (simp add: vs(4) ts(4))
  from assemble_linear [OF vs(2) ts(2) ls this enc]
  show ?thesis using vs(3) ts(3) by fastforce
qed

section \<open>The frame\<close>

definition frame_labels :: "config \<Rightarrow> string list" where
  "frame_labels cfg = [''reset_tramp'', ''fail''] @ (if cf_sys cfg then [''irq_h'', ''brk_h''] else [])"

lemma frame_names:
  "list_all (\<lambda>x. good_label x \<and> label_no (py_upper x) = 0 \<and> take 2 (py_upper x) \<noteq> ''OK'')
     [''reset_tramp'', ''fail'', ''irq_h'', ''brk_h'', ''start'']"
  "distinct (map py_upper [''reset_tramp'', ''fail'', ''irq_h'', ''brk_h'', ''start''])"
  by code_simp+

text \<open>The vectors and the lines from the text section to the subroutines.\<close>

definition frame_vectors :: "config \<Rightarrow> string list" where
  "frame_vectors cfg =
     (if cf_sys cfg then [''    JMPL reset_tramp'', ''    JMPL irq_h'', ''    JMPL brk_h''] else [])"

definition frame_start :: "string list" where
  "frame_start =
     [''reset_tramp:'', ''    LDI16 r0, start'', ''    JMP   r0'', ''fail:'',
      ''    LDI16 r7, 0x0BAD'', ''    LDI16 r6, 0x'' @ fmt_0X 4 RESULT, ''    ST   r7, [r6+0]'', ''    HALT'']"

definition frame_traps :: "string list" where
  "frame_traps =
     [''irq_h:'', ''    MTS   S2, r1'', ''    LDI16 r1, 0x'' @ fmt_0X 4 TEST_IRQ, ''    LD   r1, [r1+0]'',
      ''    MFS   r1, S2'', ''    RETI S0'',
      ''brk_h:'', ''    MTS   S2, r1'', ''    MFS   r1, S3'', ''    ADDI  r1, 1'', ''    MTS   S3, r1'',
      ''    MFS   r1, S2'', ''    RETI S0'']"

definition frame_text :: "config \<Rightarrow> string list" where
  "frame_text cfg = frame_start @ (if cf_sys cfg then frame_traps else [])"

lemma emit_head_frame:
  assumes "cf_sys cfg \<longrightarrow> cf_long_calls cfg"
  shows "emit_head cfg seed config = (''; generated by riscc_fuzz.py seed='' @ fmt_d seed @ '' config='' @ config) #
    ''.vectors'' # frame_vectors cfg @ ''.text'' # frame_text cfg"
  using assms by (simp add: emit_head_def frame_vectors_def frame_text_def frame_start_def frame_traps_def)

lemma good_frame: "x \<in> {''reset_tramp'', ''fail'', ''irq_h'', ''brk_h'', ''start''} \<Longrightarrow> good_label x"
  using frame_names(1) by auto

lemma piece_vectors:
  assumes "{''reset_tramp'', ''irq_h'', ''brk_h''} \<subseteq> R \<or> \<not> cf_sys cfg"
  shows "piece 12 R [] (frame_vectors cfg)"
proof (cases "cf_sys cfg")
  case True
  have "piece (4 + (4 + 4)) R ([] @ [] @ []) ([insn_text ''JMPL'' 1 [''reset_tramp'']] @ [insn_text ''JMPL'' 1 [''irq_h'']] @
      [insn_text ''JMPL'' 1 [''brk_h'']])"
    by (intro piece_append piece_jmpl good_frame) (use assms True in simp_all)
  then show ?thesis using True by (simp add: frame_vectors_def insn_text_def)
qed (simp add: frame_vectors_def piece_Nil)

lemma piece_hex:
  assumes "is_reg r" "0 \<le> v"
  shows "piece 4 R [] [''    LDI16 '' @ r @ '', 0x'' @ fmt_0X 4 v]"
  using piece_accepted [OF accepted_ldi16 [OF assms, of 4 "[]"]] accepted_Nil by (simp add: ldi16_line_def)

lemma piece_frame_start:
  assumes "''start'' \<in> R"
  shows "piece 24 R [''reset_tramp'', ''fail''] frame_start"
proof -
  have m: "piece (4 * int (length ls)) R [] ls" if "ls \<in> set mid_ops" for ls using piece_mid [OF that] .
  have "piece (0 + (4 + (4 + (0 + (4 + (4 + 8)))))) R ([''reset_tramp''] @ [] @ [] @ [''fail''] @ [] @ [] @ [])
    ([''reset_tramp'' @ '':''] @ [insn_text ''LDI16'' 1 [''r0'', ''start'']] @ [''    JMP   r0''] @ [''fail'' @ '':''] @
     [''    LDI16 r7, 0x0BAD''] @ [''    LDI16 '' @ ''r6'' @ '', 0x'' @ fmt_0X 4 RESULT] @
     [''    ST   r7, [r6+0]'', ''    HALT''])"
  proof (intro piece_append)
    show "piece 4 R [] [''    JMP   r0'']" using m [of "[''    JMP   r0'']"] by (simp add: mid_ops_lines)
    show "piece 4 R [] [''    LDI16 r7, 0x0BAD'']" using m [of "[''    LDI16 r7, 0x0BAD'']"] by (simp add: mid_ops_lines)
    show "piece 8 R [] [''    ST   r7, [r6+0]'', ''    HALT'']"
      using m [of "[''    ST   r7, [r6+0]'', ''    HALT'']"] by (simp add: mid_ops_lines)
    show "piece 4 R [] [insn_text ''LDI16'' 1 [''r0'', ''start'']]"
      by (rule piece_ldi16) (use assms good_frame in simp_all)
    show "piece 4 R [] [''    LDI16 '' @ ''r6'' @ '', 0x'' @ fmt_0X 4 RESULT]"
      by (rule piece_hex) (simp_all add: RESULT_def)
    show "piece 0 R [''reset_tramp''] [''reset_tramp'' @ '':'']" "piece 0 R [''fail''] [''fail'' @ '':'']"
      by (intro piece_label good_frame, simp)+
  qed
  then show ?thesis by (simp add: frame_start_def insn_text_def)
qed

lemma piece_frame_traps: "piece 44 R [''irq_h'', ''brk_h''] frame_traps"
proof -
  have m: "piece (4 * int (length ls)) R [] ls" if "ls \<in> set mid_ops" for ls using piece_mid [OF that] .
  have "piece (0 + (4 + (4 + (12 + (0 + 24))))) R ([''irq_h''] @ [] @ [] @ [] @ [''brk_h''] @ [])
    ([''irq_h'' @ '':''] @ [''    MTS   S2, r1''] @ [''    LDI16 '' @ ''r1'' @ '', 0x'' @ fmt_0X 4 TEST_IRQ] @
     [''    LD   r1, [r1+0]'', ''    MFS   r1, S2'', ''    RETI S0''] @ [''brk_h'' @ '':''] @
     [''    MTS   S2, r1'', ''    MFS   r1, S3'', ''    ADDI  r1, 1'', ''    MTS   S3, r1'',
         ''    MFS   r1, S2'', ''    RETI S0''])"
  proof (intro piece_append)
    show "piece 4 R [] [''    MTS   S2, r1'']" using m [of "[''    MTS   S2, r1'']"] by (simp add: mid_ops_lines)
    show "piece 12 R [] [''    LD   r1, [r1+0]'', ''    MFS   r1, S2'', ''    RETI S0'']"
      using m [of "[''    LD   r1, [r1+0]'', ''    MFS   r1, S2'', ''    RETI S0'']"] by (simp add: mid_ops_lines)
    show "piece 24 R [] [''    MTS   S2, r1'', ''    MFS   r1, S3'', ''    ADDI  r1, 1'', ''    MTS   S3, r1'',
         ''    MFS   r1, S2'', ''    RETI S0'']"
      using m [of "[''    MTS   S2, r1'', ''    MFS   r1, S3'', ''    ADDI  r1, 1'', ''    MTS   S3, r1'',
         ''    MFS   r1, S2'', ''    RETI S0'']"] by (simp add: mid_ops_lines)
    show "piece 4 R [] [''    LDI16 '' @ ''r1'' @ '', 0x'' @ fmt_0X 4 TEST_IRQ]"
      by (rule piece_hex) (simp_all add: TEST_IRQ_def)
    show "piece 0 R [''irq_h''] [''irq_h'' @ '':'']" "piece 0 R [''brk_h''] [''brk_h'' @ '':'']"
      by (intro piece_label good_frame, simp)+
  qed
  then show ?thesis by (simp add: frame_traps_def)
qed

lemma piece_frame:
  assumes "''start'' \<in> R"
  shows "piece 68 R (frame_labels cfg) (frame_text cfg)"
proof -
  have "piece 44 R (if cf_sys cfg then [''irq_h'', ''brk_h''] else []) (if cf_sys cfg then frame_traps else [])"
    by (simp add: piece_frame_traps piece_Nil)
  from piece_append [OF piece_frame_start [OF assms] this]
  show ?thesis by (simp add: frame_labels_def frame_text_def)
qed

section \<open>The checks\<close>

text \<open>
  What the fuzzer hands to the self-checking build: the registers, the special registers and the
  window words of the simulated probe, all of them halfwords, and a few words of the window.
\<close>

definition halfwords :: "nat \<Rightarrow> int list \<Rightarrow> bool" where
  "halfwords n xs \<longleftrightarrow> length xs = n \<and> list_all (\<lambda>v. 0 \<le> v \<and> v \<le> 0xFFFF) xs"

definition expect_ok :: "expect16 \<Rightarrow> bool" where
  "expect_ok e \<longleftrightarrow> halfwords 8 (ex_r e) \<and> halfwords 8 (ex_s e) \<and> halfwords (nat WIN_WORDS) (ex_mem e) \<and>
     0 \<le> ex_r7 e \<and> ex_r7 e \<le> 0xFFFF \<and>
     length (ex_probes e) \<le> nat WIN_WORDS \<and> list_all (\<lambda>w. 0 \<le> w \<and> w < WIN_WORDS) (ex_probes e)"

lemma halfwords_nth:
  assumes "halfwords n xs" "0 \<le> k" "k < int n"
  obtains v where "py_nth xs k = Inr v" "0 \<le> v" "v \<le> 0xFFFF"
proof -
  have "nat k < length xs" using assms by (simp add: halfwords_def)
  then have "0 \<le> xs ! nat k \<and> xs ! nat k \<le> 0xFFFF"
    using assms(1) nth_mem by (fastforce simp: halfwords_def list_all_iff)
  moreover have "py_nth xs k = Inr (xs ! nat k)" using assms by (simp add: py_nth_def halfwords_def)
  ultimately show thesis using that by blast
qed

definition ok_label :: "int \<Rightarrow> string" where
  "ok_label code = ''ok_'' @ fmt_x code"

lemma upper_lower_hex: "map upper_char (map lower_char (hex_str n)) = hex_str n"
proof (induction n rule: hex_str.induct)
  case (1 n)
  have d: "upper_char (lower_char (hex_digit k)) = hex_digit k" if "k < 16" for k
  proof -
    have "ccode (cchr n) = n" if "n < 256" for n using that by (simp add: ccode_cchr)
    then show ?thesis
      using that by (simp add: hex_digit_def upper_char_def lower_char_def is_upper_def is_lower_def add.commute)
  qed
  show ?case using 1 by (subst (1 2) hex_str.simps) (simp add: d)
qed

lemma hex_str_inj: "hex_str m = hex_str n \<Longrightarrow> m = n"
proof -
  assume "hex_str m = hex_str n"
  then have "fmt_0X 0 (int m) = fmt_0X 0 (int n)" by (simp add: fmt_0X_def)
  then have "Inr (int m) = (Inr (int n) :: int asm)"
    using eval_hex(1) [of "int m" 0 no_labels] eval_hex(1) [of "int n" 0 no_labels] by simp
  then show "m = n" by simp
qed

lemma ok_label_inj:
  assumes "0 \<le> c" "0 \<le> d" "py_upper (ok_label c) = py_upper (ok_label d)"
  shows "c = d"
proof -
  have "hex_str (nat c) = hex_str (nat d)"
    using assms upper_lower_hex [of "nat c"] upper_lower_hex [of "nat d"]
    by (simp add: ok_label_def py_upper_def py_lower_def fmt_x_def)
  then have "nat c = nat d" by (rule hex_str_inj)
  then show ?thesis using assms(1,2) by simp
qed

end
