(* ===== verification/FuzzChecks.thy ===== *)
theory FuzzChecks
  imports FuzzEmit
begin

text \<open>
  The end of a program: the report of the probe, or one check per expected value, and the
  assembly of the complete program.
\<close>

section \<open>One check\<close>

lemma good_ok_label: "good_label (ok_label c)" "take 2 (py_upper (ok_label c)) = ''OK''" if "0 \<le> c" for c
proof -
  have "list_all (\<lambda>w. CHR ''_'' \<notin> set w) py_keywords" by code_simp
  then have "ok_label c \<notin> set py_keywords" by (auto simp: list_all_iff ok_label_def)
  moreover have "list_all ident_char (fmt_x c)"
  proof -
    obtain ns where ns: "hex_str (nat c) = map hex_digit ns" "list_all (\<lambda>d. d < 16) ns"
      using hex_str_digits [of "nat c"] by blast
    have "ident_char (lower_char (hex_digit d))" if "d < 16" for d
    proof -
      have "ccode (cchr n) = n" if "n < 256" for n using that by (simp add: ccode_cchr)
      then show ?thesis
        using that by (simp add: hex_digit_def ident_char_def ident_start_def lower_char_def is_upper_def
            is_lower_def is_digit_def)
    qed
    then show ?thesis using ns \<open>0 \<le> c\<close> by (auto simp: fmt_x_def py_lower_def list_all_iff)
  qed
  moreover have "list_all ident_char ''ok_''" "ident_start CHR ''o''" by code_simp+
  ultimately show "good_label (ok_label c)" by (auto simp: good_label_def label_text_def ok_label_def)
  have "py_upper ''ok'' = ''OK''" by code_simp
  then show "take 2 (py_upper (ok_label c)) = ''OK''" by (simp add: ok_label_def py_upper_def)
qed

lemma accepted_sub: "is_reg r \<Longrightarrow> is_reg s \<Longrightarrow> accepted 2 [''    SUB   r0, '' @ r @ '', '' @ s]"
  using accepted_alu3 [of "''SUB''" "''r0''" r s 3] by (simp add: alu3_ops_def insn_text_def numeral_3_eq_3)

lemma piece_store: "piece 8 R [] [''    ST   r7, [r6+0]'', ''    HALT'']"
  using piece_mid [of "[''    ST   r7, [r6+0]'', ''    HALT'']" R] by (simp add: mid_ops_lines)

lemma piece_check:
  assumes "is_reg r" "0 \<le> want" "0 \<le> code"
  shows "piece 30 R [ok_label code] (check_reg r want code)"
proof -
  let ?s = "if r \<noteq> ''r7'' then ''r7'' else ''r6''"
  have body: "piece (4 + (4 + 8)) R ([] @ [] @ []) ([''    LDI16 '' @ ''r7'' @ '', 0x'' @ fmt_0X 4 code] @
      [''    LDI16 '' @ ''r6'' @ '', 0x'' @ fmt_0X 4 RESULT] @ [''    ST   r7, [r6+0]'', ''    HALT''])"
    using assms(3) by (intro piece_append piece_hex piece_store) (simp_all add: RESULT_def)
  define skip where "skip = [''    BEQZ  '' @ ok_label code] @
      ([''    LDI16 '' @ ''r7'' @ '', 0x'' @ fmt_0X 4 code] @
       [''    LDI16 '' @ ''r6'' @ '', 0x'' @ fmt_0X 4 RESULT] @ [''    ST   r7, [r6+0]'', ''    HALT'']) @
      [ok_label code @ '':'']"
  have "piece ((4 + (4 + 8)) + 2) R (([] @ [] @ []) @ [ok_label code]) skip"
    unfolding skip_def
    by (rule piece_skip [OF _ good_ok_label(1) [OF assms(3)] body, of "''BEQZ''"])
      (simp_all add: branch_ops_def insn_text_def numeral_2_eq_2)
  then have "piece (4 + (2 + ((4 + (4 + 8)) + 2))) R ([] @ [] @ ([] @ [] @ []) @ [ok_label code])
      ([''    LDI16 '' @ ?s @ '', 0x'' @ fmt_0X 4 want] @ [''    SUB   r0, '' @ r @ '', '' @ ?s] @ skip)"
    using assms by (intro piece_append piece_hex piece_accepted [OF accepted_sub]) simp_all
  then have "piece 24 R [ok_label code] (check_reg r want code)"
    by (simp add: check_reg_def Let_def ok_label_def skip_def)
  then show ?thesis by (rule piece_mono) simp_all
qed

section \<open>All checks\<close>

definition check_ok :: "(int \<Rightarrow> string list py) \<Rightarrow> bool" where
  "check_ok f \<longleftrightarrow> (\<forall>code \<ge> 0. \<exists>ls. f code = Inr ls \<and> piece 40 {} [ok_label code] ls)"

lemma check_okI: "(\<And>code. 0 \<le> code \<Longrightarrow> \<exists>ls. f code = Inr ls \<and> piece 40 {} [ok_label code] ls) \<Longrightarrow> check_ok f"
  by (simp add: check_ok_def)

lemma numbered_pieces:
  assumes "list_all check_ok fs" "0 \<le> code"
  shows "\<exists>ls. numbered code fs = Inr ls \<and>
    piece (40 * int (length fs)) {} (map (\<lambda>i. ok_label (code + 1 + int i)) [0..<length fs]) ls"
proof -
  have "\<exists>lss. mapE (\<lambda>(i, f). f (code + 1 + int i)) (zip [a..<a + length fs] fs) = Inr lss \<and>
      piece (40 * int (length fs)) {} (map (\<lambda>i. ok_label (code + 1 + int i)) [a..<a + length fs]) (concat lss)" for a
    using assms(1)
  proof (induction fs arbitrary: a)
    case Nil
    then show ?case by (simp add: piece_Nil)
  next
    case (Cons f fs)
    have upt: "[a..<a + length (f # fs)] = a # [Suc a..<Suc a + length fs]"
      using upt_conv_Cons [of a "a + length (f # fs)"] by simp
    have "check_ok f" "0 \<le> code + 1 + int a" using Cons.prems assms(2) by simp_all
    then obtain ls where ls: "f (code + 1 + int a) = Inr ls" "piece 40 {} [ok_label (code + 1 + int a)] ls"
      unfolding check_ok_def by blast
    obtain lss where lss: "mapE (\<lambda>(i, f). f (code + 1 + int i)) (zip [Suc a..<Suc a + length fs] fs) = Inr lss"
      "piece (40 * int (length fs)) {} (map (\<lambda>i. ok_label (code + 1 + int i)) [Suc a..<Suc a + length fs]) (concat lss)"
      using Cons.IH [of "Suc a"] Cons.prems by auto
    have "40 * int (length (f # fs)) = 40 + 40 * int (length fs)" by simp
    then show ?case using piece_append [OF ls(2) lss(2)] ls(1) lss(1) unfolding upt by simp
  qed
  from this [of 0] show ?thesis by (auto simp: numbered_def)
qed

lemma mfs_line: "0 \<le> k \<Longrightarrow> k \<le> 7 \<Longrightarrow> accepted 2 [''    MFS   r6, S'' @ fmt_d k]"
proof -
  assume k: "0 \<le> k" "k \<le> 7"
  have "accepted 2 [insn_text ''MFS'' 3 [''r6'', ''S'' @ fmt_d k]]"
    using is_regD(1) [of "''r6''"] reg_operand(3) [OF k] accept_sbank(2) [of "''r6''" "''S'' @ fmt_d k"] sname_sreg [OF k]
    by (intro accepted_short) (simp_all add: long_ops_def)
  then show ?thesis by (simp add: insn_text_def numeral_3_eq_3)
qed

lemma word_line: "accepted 2 [''    LD   r6, [r7+0]'']"
proof -
  have z: "fmt_d 0 = ''0''" by code_simp
  show ?thesis using accepted_word_line(2) [of "''r6''" 0] by (simp add: WIN_WORDS_def z)
qed

lemma check_after:
  assumes "accepted 6 pre" "0 \<le> v"
  shows "check_ok (\<lambda>code. Inr (pre @ check_reg ''r6'' v code))"
proof (rule check_okI)
  fix code :: int
  assume "0 \<le> code"
  with assms have "piece (6 + 30) {} ([] @ [ok_label code]) (pre @ check_reg ''r6'' v code)"
    by (intro piece_append piece_accepted piece_check) simp_all
  then have "piece 40 {} [ok_label code] (pre @ check_reg ''r6'' v code)" using piece_mono by fastforce
  then show "\<exists>ls. (Inr (pre @ check_reg ''r6'' v code) :: string list py) = Inr ls \<and> piece 40 {} [ok_label code] ls" by simp
qed

lemma tail_checks_ok:
  assumes "expect_ok e"
  shows "list_all check_ok (tail_checks e)" "length (tail_checks e) \<le> 42"
proof -
  have e: "halfwords 8 (ex_r e)" "halfwords 8 (ex_s e)" "halfwords (nat WIN_WORDS) (ex_mem e)" "0 \<le> ex_r7 e"
    "length (ex_probes e) \<le> 32" "\<forall>w \<in> set (ex_probes e). 0 \<le> w \<and> w < WIN_WORDS"
    using assms by (auto simp: expect_ok_def WIN_WORDS_def list_all_iff)
  show "length (tail_checks e) \<le> 42" using e(5) by (simp add: tail_checks_def)
  have reg: "check_ok (\<lambda>code. bindE (py_nth (ex_r e) k) (\<lambda>v. Inr (check_reg (''r'' @ fmt_d k) v code)))"
    if k: "1 \<le> k" "k \<le> 6" for k
  proof (rule check_okI)
    fix code :: int
    assume code: "0 \<le> code"
    obtain v where v: "py_nth (ex_r e) k = Inr v" "0 \<le> v" by (rule halfwords_nth [OF e(1), of k]) (use k in auto)
    have "is_reg (''r'' @ fmt_d k)" using rname_reg [of k] k by (simp add: rname_def)
    from piece_check [OF this v(2) code] have "piece 40 {} [ok_label code] (check_reg (''r'' @ fmt_d k) v code)"
      by (rule piece_mono) simp_all
    then show "\<exists>ls. bindE (py_nth (ex_r e) k) (\<lambda>v. Inr (check_reg (''r'' @ fmt_d k) v code)) = Inr ls \<and>
        piece 40 {} [ok_label code] ls" using v(1) by simp
  qed
  have sreg: "check_ok (\<lambda>code. bindE (py_nth (ex_s e) k) (\<lambda>v.
      Inr ([''    MFS   r6, S'' @ fmt_d k] @ check_reg ''r6'' v code)))" if k: "0 \<le> k" "k \<le> 7" for k
  proof -
    obtain v where v: "py_nth (ex_s e) k = Inr v" "0 \<le> v" by (rule halfwords_nth [OF e(2), of k]) (use k in auto)
    show ?thesis using check_after [OF accepted_mono [OF mfs_line [OF k]] v(2)] v(1) by simp
  qed
  have mem: "check_ok (\<lambda>code. bindE (py_nth (ex_mem e) w) (\<lambda>v.
      Inr ([''    LDI16 r7, 0x'' @ fmt_0X 4 (WIN + 2 * w), ''    LD   r6, [r7+0]''] @ check_reg ''r6'' v code)))"
    if w: "0 \<le> w" "w < WIN_WORDS" for w
  proof -
    obtain v where v: "py_nth (ex_mem e) w = Inr v" "0 \<le> v" by (rule halfwords_nth [OF e(3), of w]) (use w in auto)
    have "accepted 6 [ldi16_line ''r7'' (WIN + 2 * w), ''    LD   r6, [r7+0]'']"
      by (rule accepted_ldi16) (use w word_line in \<open>simp_all add: WIN_def\<close>)
    from check_after [OF this v(2)] show ?thesis using v(1) by (simp add: ldi16_line_def)
  qed
  have four: "fmt_d 4 = ''4''" by code_simp
  have "check_ok (\<lambda>code. Inr ([''    MFS   r6, S4''] @ check_reg ''r6'' (ex_r7 e) code))"
    using check_after [OF accepted_mono [OF mfs_line [of 4]] e(4)] by (simp add: four)
  then show "list_all check_ok (tail_checks e)"
    using reg sreg mem e(6) by (auto simp: tail_checks_def list_all_iff simp del: append.simps)
qed

section \<open>The end of a program\<close>

definition tail_piece :: "string list \<Rightarrow> string list \<Rightarrow> bool" where
  "tail_piece xs ls \<longleftrightarrow> piece 1720 {} xs ls \<and> distinct (map py_upper xs) \<and>
     (\<forall>x \<in> set xs. take 2 (py_upper x) = ''OK'')"

lemma piece_save: "piece 4 R [] [''    MTS   S4, r7'']"
  using piece_mid [of "[''    MTS   S4, r7'']" R] by (simp add: mid_ops_lines)

lemma piece_pass: "piece 4 R [] [''    LDI16 r7, 0x600D'']"
  using piece_mid [of "[''    LDI16 r7, 0x600D'']" R] by (simp add: mid_ops_lines)

lemma probe_tail_piece: "tail_piece [] probe_tail"
proof -
  have st: "piece 8 {} [] [''    ST   r7, [r0+0]'', ''    HALT'']"
    using piece_mid [of "[''    ST   r7, [r0+0]'', ''    HALT'']" "{}"] by (simp add: mid_ops_lines)
  have "piece (4 + (4 + (4 + 8))) {} ([] @ [] @ [] @ []) ([''    MTS   S4, r7''] @ [''    LDI16 r7, 0x600D''] @
      [''    LDI16 '' @ ''r0'' @ '', 0x'' @ fmt_0X 4 RESULT] @ [''    ST   r7, [r0+0]'', ''    HALT''])"
    by (intro piece_append piece_save piece_pass piece_hex st) (simp_all add: RESULT_def)
  then have "piece 20 {} [] probe_tail" by (simp add: probe_tail_def)
  then show ?thesis using piece_mono [of 20 "{}" "[]" probe_tail 1720] by (simp add: tail_piece_def)
qed

lemma check_tail_piece:
  assumes "expect_ok e"
  shows "\<exists>xs ls. check_tail e = Inr ls \<and> tail_piece xs ls"
proof -
  note ok = tail_checks_ok [OF assms]
  let ?xs = "map (\<lambda>i. ok_label (FAILBASE + 1 + int i)) [0..<length (tail_checks e)]"
  have base: "0 \<le> FAILBASE" by (simp add: FAILBASE_def)
  obtain checks where c: "numbered FAILBASE (tail_checks e) = Inr checks"
    "piece (40 * int (length (tail_checks e))) {} ?xs checks"
    using numbered_pieces [OF ok(1) base] by blast
  let ?ls = "[''    MTS   S4, r7''] @ checks @ [''    LDI16 r7, 0x600D''] @
      [''    LDI16 '' @ ''r6'' @ '', 0x'' @ fmt_0X 4 RESULT] @ [''    ST   r7, [r6+0]'', ''    HALT'']"
  have "piece (4 + (40 * int (length (tail_checks e)) + (4 + (4 + 8)))) {} ([] @ ?xs @ [] @ [] @ []) ?ls"
    by (intro piece_append piece_save piece_pass piece_hex piece_store c(2)) (simp_all add: RESULT_def)
  then have "piece 1720 {} ?xs ?ls"
    using ok(2) by (intro piece_mono [of "4 + (40 * int (length (tail_checks e)) + (4 + (4 + 8)))" "{}" ?xs ?ls 1720]) simp_all
  moreover have "distinct (map py_upper ?xs)"
    unfolding distinct_map map_map
  proof (intro conjI distinct_upt inj_onI)
    fix i j
    assume "(py_upper \<circ> (\<lambda>i. ok_label (FAILBASE + 1 + int i))) i = (py_upper \<circ> (\<lambda>i. ok_label (FAILBASE + 1 + int i))) j"
    then show "i = j" using ok_label_inj [of "FAILBASE + 1 + int i" "FAILBASE + 1 + int j"] base by simp
  qed
  moreover have "\<forall>x \<in> set ?xs. take 2 (py_upper x) = ''OK''" using good_ok_label(2) base by auto
  moreover have "check_tail e = Inr ?ls" using c(1) by (simp add: check_tail_def)
  ultimately show ?thesis unfolding tail_piece_def by blast
qed

lemma emit_tail_piece:
  assumes "case expect of None \<Rightarrow> True | Some e \<Rightarrow> expect_ok e"
  shows "\<exists>xs ls. emit_tail expect = Inr ls \<and> tail_piece xs ls"
  using assms probe_tail_piece check_tail_piece by (auto simp: emit_tail_def split: option.splits)

section \<open>Assembly of the program\<close>

lemma labels_distinct:
  assumes gen: "fresh 0 b gs" and tail: "distinct (map py_upper ts)" "\<forall>x \<in> set ts. take 2 (py_upper x) = ''OK''"
    and fixed: "set fs \<subseteq> {''reset_tramp'', ''fail'', ''irq_h'', ''brk_h'', ''start''}" "distinct fs"
  shows "distinct (map py_upper (fs @ gs @ ts))"
proof -
  have F: "label_no (py_upper x) = 0 \<and> take 2 (py_upper x) \<noteq> ''OK''" if "x \<in> set fs" for x
    using that fixed(1) frame_names(1) by auto
  have G: "0 < label_no (py_upper x) \<and> take 2 (py_upper x) \<noteq> ''OK''" if "x \<in> set gs" for x
    using that gen by (auto simp: fresh_def label_no_upper)
  have "inj_on py_upper {''reset_tramp'', ''fail'', ''irq_h'', ''brk_h'', ''start''}"
    using frame_names(2) by (simp only: distinct_map list.set)
  then have "inj_on py_upper (set fs)" by (rule inj_on_subset) (rule fixed(1))
  then have "distinct (map py_upper fs)" using fixed(2) by (simp add: distinct_map)
  moreover have "distinct (map py_upper gs)"
  proof -
    have "distinct (map label_no (map py_upper gs))" using gen by (simp add: fresh_def label_no_upper o_def)
    then show ?thesis by (simp only: distinct_map)
  qed
  moreover have "py_upper x \<noteq> py_upper y" if "x \<in> set fs" "y \<in> set gs" for x y using F [OF that(1)] G [OF that(2)] by auto
  moreover have "py_upper x \<noteq> py_upper y" if "x \<in> set fs \<union> set gs" "y \<in> set ts" for x y
    using that F G tail(2) by force
  ultimately show ?thesis using tail(1) by auto
qed

text \<open>The lines of a program, from the parts that \<open>emit\<close> puts together.\<close>

definition program_lines :: "config \<Rightarrow> subs \<Rightarrow> string list \<Rightarrow> string list \<Rightarrow> string list" where
  "program_lines cfg subs body tail = frame_text cfg @ emit_start cfg subs @ body @ emit_marker cfg @ tail"

lemma piece_clean:
  assumes "piece n R xs ls" "l \<in> set ls"
  shows "CHR 0x0A \<notin> set l \<and> CHR 0x0D \<notin> set l"
proof -
  obtain ps where ps: "list_all2 line_reads ls ps" "list_all flat_line ps" using assms(1) by (auto simp: piece_def)
  obtain i where i: "i < length ls" "l = ls ! i" using assms(2) by (auto simp: in_set_conv_nth)
  define p where "p = ps ! i"
  have p: "line_reads l p" "flat_line p"
    using list_all2_nthD [OF ps(1) i(1)] ps(2) i list_all2_lengthD [OF ps(1)]
    by (simp_all add: p_def list_all_length)
  have plain: "\<not> plain_char CHR 0x0A" "\<not> plain_char CHR 0x0D"
    by (simp_all add: plain_char_def ident_char_def ident_start_def char_class_defs ccode_def)
  show ?thesis
  proof (cases p)
    case (PLab x)
    have "list_all plain_char x" using p PLab by (auto simp: label_text_def list_all_iff plain_char_def)
    then show ?thesis using p PLab plain by (auto simp: list_all_iff)
  next
    case (PIns op os)
    then obtain k where l: "l = insn_text op k os" and m: "mnemonic op" "list_all plain_operand os"
      using p by (auto simp: insn_shape_def)
    let ?P = "\<lambda>c. c \<noteq> CHR 0x0A \<and> c \<noteq> CHR 0x0D"
    have "list_all plain_char op" using m(1) mnemonic_chars by (auto simp: mnemonic_def list_all_iff)
    then have "list_all ?P op" using plain by (auto simp: list_all_iff)
    moreover have "list_all (list_all ?P) os" using m(2) plain by (auto simp: plain_operand_def list_all_iff)
    then have "list_all ?P (py_join '', '' os)" by (rule join_chars) simp_all
    ultimately have "list_all ?P l" by (simp add: l insn_text_def) (auto simp: list_all_iff)
    then show ?thesis by (auto simp: list_all_iff)
  qed (use p in simp_all)
qed

lemma piece_program:
  assumes body: "stepped 3200 0 b body subs" and tail: "tail_piece ts tail" and sys: "cf_sys cfg \<longrightarrow> cf_long_calls cfg"
  shows "\<exists>xs R. piece 12 R [] (frame_vectors cfg) \<and> piece 8300 R xs (program_lines cfg subs body tail) \<and>
    R \<subseteq> set xs \<and> distinct (map py_upper xs)"
proof -
  obtain gs ys where g: "piece 3200 (set (gs @ ys)) gs body" "piece 3200 {} ys (sub_lines subs)" "fresh 0 b (gs @ ys)"
    using body by (auto simp: stepped_def)
  let ?fs = "frame_labels cfg" and ?sys = "cf_sys cfg"
  let ?xs = "?fs @ ys @ [''start''] @ [] @ gs @ [] @ ts"
  let ?R = "set (?fs @ ''start'' # gs @ ys)"
  have sti: "piece 2 ?R [] (if ?sys then [''    STI''] else [])" by (simp add: piece_Nil piece_accepted accepted_flag)
  have marker: "piece 8 ?R [] (emit_marker cfg)"
  proof (cases ?sys)
    case True
    have "piece 4 ?R [] [''    ST    r7, [r7+0]'']"
      using piece_mid [of "[''    ST    r7, [r7+0]'']" ?R] by (simp add: mid_ops_lines)
    then have "piece (4 + 4) ?R ([] @ []) ([''    LDI16 '' @ ''r7'' @ '', 0x'' @ fmt_0X 4 IRQ_MARKER] @ [''    ST    r7, [r7+0]''])"
      by (intro piece_append piece_hex) (simp_all add: IRQ_MARKER_def)
    then show ?thesis using True by (simp add: emit_marker_def)
  qed (simp add: emit_marker_def piece_Nil)
  have start: "piece 0 ?R [''start''] [''start:'']" using piece_label [OF good_frame, of "''start''" ?R] by simp
  have "piece (68 + (3200 + (0 + (2 + (3200 + (8 + 1720)))))) ?R ?xs
      (frame_text cfg @ sub_lines subs @ [''start:''] @ (if ?sys then [''    STI''] else []) @ body @ emit_marker cfg @ tail)"
  proof (intro piece_append)
    show "piece 68 ?R ?fs (frame_text cfg)" by (rule piece_frame) simp
    show "piece 3200 ?R ys (sub_lines subs)" by (rule piece_mono [OF g(2)]) simp_all
    show "piece 3200 ?R gs body" by (rule piece_mono [OF g(1)]) auto
    show "piece 1720 ?R ts tail" by (rule piece_mono [of 1720 "{}"]) (use tail in \<open>simp_all add: tail_piece_def\<close>)
  qed (fact start sti marker)+
  then have "piece 8198 ?R ?xs (program_lines cfg subs body tail)"
    by (simp add: program_lines_def emit_start_def sub_lines_def)
  then have "piece 8300 ?R ?xs (program_lines cfg subs body tail)" by (rule piece_mono) simp_all
  moreover have "piece 12 ?R [] (frame_vectors cfg)" by (rule piece_vectors) (auto simp: frame_labels_def)
  moreover have "distinct (map py_upper ?xs)"
  proof -
    have "distinct (map py_upper ((?fs @ [''start'']) @ (gs @ ys) @ ts))"
      by (rule labels_distinct [OF g(3)]) (use tail in \<open>auto simp: tail_piece_def frame_labels_def\<close>)
    moreover have "mset ?xs = mset ((?fs @ [''start'']) @ (gs @ ys) @ ts)" by simp
    ultimately show ?thesis
      using mset_eq_imp_distinct_iff [of "map py_upper ?xs" "map py_upper ((?fs @ [''start'']) @ (gs @ ys) @ ts)"]
      by (simp only: mset_map)
  qed
  ultimately show ?thesis by (intro exI [of _ ?xs] exI [of _ ?R]) auto
qed

end
