(* ===== verification/FuzzAssembles.thy ===== *)
theory FuzzAssembles
  imports FuzzChecks
begin

text \<open>
  The contract between the two tools: whatever \<open>Gen.emit\<close> returns, written to a file and read
  back by the assembler, is assembled.
\<close>

section \<open>Reading the file\<close>

text \<open>
  \<open>readlines\<close> of a text file: a carriage return, with a line feed after it or not, is read as a
  line feed, and every line keeps its line feed.
\<close>

fun universal_newlines :: "string \<Rightarrow> string" where
  "universal_newlines [] = []"
| "universal_newlines (c # cs) =
     (if c = CHR 0x0D then (if cs \<noteq> [] \<and> hd cs = CHR 0x0A then universal_newlines cs
        else CHR 0x0A # universal_newlines cs)
      else c # universal_newlines cs)"

fun keep_lines :: "string \<Rightarrow> string \<Rightarrow> string list" where
  "keep_lines cur [] = (if cur = [] then [] else [cur])"
| "keep_lines cur (c # cs) = (if c = CHR 0x0A then (cur @ [c]) # keep_lines [] cs else keep_lines (cur @ [c]) cs)"

definition readlines :: "string \<Rightarrow> string list" where
  "readlines text = keep_lines [] (universal_newlines text)"

definition clean :: "string \<Rightarrow> bool" where
  "clean l \<longleftrightarrow> CHR 0x0A \<notin> set l \<and> CHR 0x0D \<notin> set l"

lemma keep_lines_clean: "clean l \<Longrightarrow> keep_lines cur (l @ CHR 0x0A # cs) = nl (cur @ l) # keep_lines [] cs"
  by (induction l arbitrary: cur) (auto simp: clean_def nl_def)

lemma universal_id: "CHR 0x0D \<notin> set s \<Longrightarrow> universal_newlines s = s"
  by (induction s) auto

lemma readlines_join:
  assumes "list_all clean ls" "ls \<noteq> []"
  shows "readlines (py_join ''\<newline>'' ls @ ''\<newline>'') = map nl ls"
proof -
  have cr: "CHR 0x0D \<notin> set (py_join ''\<newline>'' ls @ ''\<newline>'')"
    using assms(1) by (induction "''\<newline>''" ls rule: py_join.induct) (auto simp: clean_def)
  have "keep_lines [] (py_join ''\<newline>'' ls @ ''\<newline>'') = map nl ls"
    using assms
  proof (induction "''\<newline>''" ls rule: py_join.induct)
    case (2 x)
    then show ?case using keep_lines_clean [of x "[]" "[]"] by simp
  next
    case (3 x y ys)
    then show ?case using keep_lines_clean [of x "[]" "py_join ''\<newline>'' (y # ys) @ ''\<newline>''"] by simp
  qed simp
  then show ?thesis using universal_id [OF cr] by (simp add: readlines_def)
qed

section \<open>The contract\<close>

lemma parsed_config:
  assumes "parse_config config = Inr cfg"
  shows "config \<in> set RC16_CONFIGS" "cf_sys cfg \<longrightarrow> cf_long_calls cfg"
proof -
  show config: "config \<in> set RC16_CONFIGS" using assms by (simp add: parse_config_def split: if_splits)
  have "list_all (\<lambda>c. case parse_config c of Inr cfg \<Rightarrow> cf_sys cfg \<longrightarrow> cf_long_calls cfg | Inl _ \<Rightarrow> True) RC16_CONFIGS"
    by code_simp
  then show "cf_sys cfg \<longrightarrow> cf_long_calls cfg" using config assms by (auto simp: list_all_iff)
qed

lemma specD: "spec m Q \<Longrightarrow> m s = Some (Inr (x, s')) \<Longrightarrow> Q (gs_label s) (gs_label s') x"
  by (simp add: spec_def)

lemma map_result:
  assumes "mapG f m s = Some (Inr (y, s'))"
  obtains x where "m s = Some (Inr (x, s'))" "y = f x"
  using assms by (auto simp: mapG_def bindG_def retG_def split: option.splits sum.splits)

lemma spec_emit_lines:
  assumes "case expect of None \<Rightarrow> True | Some e \<Rightarrow> expect_ok e"
  shows "spec (emit_lines cfg seed config expect) (\<lambda>a b ls. \<exists>c body subs ts tail.
    ls = emit_head cfg seed config @ emit_start cfg subs @ body @ emit_marker cfg @ tail \<and>
    (0 \<le> a \<longrightarrow> stepped 3200 a c body subs) \<and> tail_piece ts tail)"
  unfolding emit_lines_def
proof (rule spec_bind [OF spec_gen_body])
  fix x :: "string list \<times> subs"
  obtain ts tail where tail: "emit_tail expect = Inr tail" "tail_piece ts tail"
    using emit_tail_piece [OF assms] by blast
  show "spec (case x of (body, subs) \<Rightarrow> bindG (liftG (emit_tail expect)) (\<lambda>tail.
       retG (emit_head cfg seed config @ emit_start cfg subs @ body @ emit_marker cfg @ tail)))
    (\<lambda>a b ls. \<exists>ts tail. ls = emit_head cfg seed config @ emit_start cfg (snd x) @ fst x @ emit_marker cfg @ tail \<and>
      tail_piece ts tail)"
    unfolding split_def
    by (rule spec_bind [where R = "\<lambda>t a b ls. ls = emit_head cfg seed config @ emit_start cfg (snd x) @ fst x @ emit_marker cfg @ t",
          OF spec_lift [where Q = "\<lambda>a b t. tail_piece ts t"]])
      (use tail in \<open>auto intro: spec_ret\<close>)
next
  fix a b c and x :: "string list \<times> subs" and ls
  assume "case x of (body, subs) \<Rightarrow> 0 \<le> a \<longrightarrow> stepped 3200 a b body subs"
    "\<exists>ts tail. ls = emit_head cfg seed config @ emit_start cfg (snd x) @ fst x @ emit_marker cfg @ tail \<and> tail_piece ts tail"
  then show "\<exists>c body subs ts tail. ls = emit_head cfg seed config @ emit_start cfg subs @ body @ emit_marker cfg @ tail \<and>
    (0 \<le> a \<longrightarrow> stepped 3200 a c body subs) \<and> tail_piece ts tail" by (cases x) fastforce
qed

end
