(* ===== verification/FuzzReturns.thy ===== *)
theory FuzzReturns
  imports FuzzAssembles
begin

text \<open>
  The generators never raise: every draw is from a range that is not empty. A run either returns
  or stays in a retry loop; on the streams that keep out of the loops it returns.
\<close>

section \<open>Runs\<close>

text \<open>
  From a state with \<open>I\<close>, \<open>m\<close> returns a value with \<open>P\<close> in a state with \<open>I\<close>, or never returns, which
  is allowed if \<open>stuck\<close>.
\<close>

definition runs :: "bool \<Rightarrow> (gst \<Rightarrow> bool) \<Rightarrow> 'a gen \<Rightarrow> ('a \<Rightarrow> bool) \<Rightarrow> bool" where
  "runs stuck I m P \<longleftrightarrow> (\<forall>s. I s \<longrightarrow> (stuck \<and> m s = None) \<or> (\<exists>x s'. m s = Some (Inr (x, s')) \<and> I s' \<and> P x))"

lemma runs_ret: "P x \<Longrightarrow> runs stuck I (retG x) P"
  by (simp add: runs_def retG_def)

lemma runs_bind:
  assumes "runs stuck I m R" "\<And>x. R x \<Longrightarrow> runs stuck I (f x) P"
  shows "runs stuck I (bindG m f) P"
  unfolding runs_def
proof (intro allI impI)
  fix s
  assume "I s"
  then have "(stuck \<and> m s = None) \<or> (\<exists>x t. m s = Some (Inr (x, t)) \<and> I t \<and> R x)"
    using assms(1) by (simp add: runs_def)
  then show "(stuck \<and> bindG m f s = None) \<or> (\<exists>x s'. bindG m f s = Some (Inr (x, s')) \<and> I s' \<and> P x)"
  proof (elim disjE exE conjE)
    fix x t
    assume "m s = Some (Inr (x, t))" "I t" "R x"
    then show ?thesis using assms(2) [of x] by (simp add: runs_def bindG_def)
  qed (simp add: bindG_def)
qed

lemma runs_mono: "runs stuck I m R \<Longrightarrow> (\<And>x. R x \<Longrightarrow> P x) \<Longrightarrow> runs stuck I m P"
  unfolding runs_def by blast

lemma runs_any: "runs stuck I m R \<Longrightarrow> runs stuck I m (\<lambda>_. True)"
  by (erule runs_mono) simp

lemma runs_map: "runs stuck I m (\<lambda>x. P (f x)) \<Longrightarrow> runs stuck I (mapG f m) P"
  unfolding mapG_def by (erule runs_bind) (rule runs_ret)

lemma runs_if: "(c \<Longrightarrow> runs stuck I m P) \<Longrightarrow> (\<not> c \<Longrightarrow> runs stuck I n P) \<Longrightarrow> runs stuck I (if c then m else n) P"
  by simp

lemma runs_split: "(\<And>x y. runs stuck I (f x y) P) \<Longrightarrow> runs stuck I (case z of (x, y) \<Rightarrow> f x y) P"
  by (cases z) simp

lemma runs_let: "runs stuck I (f x) P \<Longrightarrow> runs stuck I (let y = x in f y) P"
  by (simp add: Let_def)

lemma runs_repeat: "runs stuck I m (\<lambda>_. True) \<Longrightarrow> runs stuck I (repeatG n m) (\<lambda>_. True)"
  by (induction n) (auto intro: runs_ret runs_bind runs_map)

lemma runs_concat:
  "(\<And>x. x \<in> set xs \<Longrightarrow> runs stuck I (f x) (\<lambda>_. True)) \<Longrightarrow> runs stuck I (concatG f xs) (\<lambda>_. True)"
proof (induction xs)
  case (Cons x xs)
  then have "runs stuck I (f x) (\<lambda>_. True)" "runs stuck I (concatG f xs) (\<lambda>_. True)" by simp_all
  then show ?case by (auto intro: runs_bind runs_map)
qed (simp add: runs_ret)

section \<open>The generators on a kind of stream\<close>

text \<open>
  A kind of random stream: the draws satisfy \<open>D\<close>, and numbering labels does not change the stream.
\<close>

locale stream_kind =
  fixes stuck :: bool and I :: "gst \<Rightarrow> bool" and D :: "int \<Rightarrow> bool"
  assumes draw_runs: "runs stuck I draw D"
    and relabel: "I s \<Longrightarrow> I (s\<lparr>gs_label := n\<rparr>)"
begin

lemma randrange_runs: "0 < n \<Longrightarrow> runs stuck I (randrange n) (\<lambda>x. 0 \<le> x \<and> x < n \<and> (\<exists>d. D d \<and> x = d mod n))"
  unfolding randrange_def by (auto intro!: runs_bind [OF draw_runs] runs_ret)

lemma randint_runs: "a \<le> b \<Longrightarrow> runs stuck I (randint a b) (\<lambda>x. a \<le> x \<and> x \<le> b)"
  unfolding randint_def by (rule runs_bind [OF randrange_runs]) (auto intro!: runs_ret)

lemma random_runs: "runs stuck I random (\<lambda>k. \<exists>d. D d \<and> k = d mod 2 ^ 53)"
  unfolding random_def getrandbits_def by (rule runs_bind [OF draw_runs]) (auto intro!: runs_ret)

lemma choice_runs: "xs \<noteq> [] \<Longrightarrow> runs stuck I (choice xs) (\<lambda>x. x \<in> set xs)"
proof -
  assume xs: "xs \<noteq> []"
  have "runs stuck I (randrange (int (length xs))) (\<lambda>i. xs ! nat i \<in> set xs)"
  proof (rule runs_mono [OF randrange_runs])
    fix i
    assume "0 \<le> i \<and> i < int (length xs) \<and> (\<exists>d. D d \<and> i = d mod int (length xs))"
    then have "nat i < length xs" by (elim conjE) linarith
    then show "xs ! nat i \<in> set xs" by (rule nth_mem)
  qed (use xs in simp)
  then show ?thesis using xs unfolding choice_def by (simp, elim runs_bind) (rule runs_ret)
qed

lemma sample_runs: "k \<le> length pool \<Longrightarrow> runs stuck I (sample k pool) (\<lambda>_. True)"
proof (induction k arbitrary: pool)
  case (Suc k)
  then have "runs stuck I (randrange (int (length pool))) (\<lambda>_. True)"
    by (intro runs_any [OF randrange_runs]) (cases pool; simp)
  moreover have "runs stuck I (sample k (butlast (pool[nat j := last pool]))) (\<lambda>_. True)" for j
    using Suc by simp
  moreover have "pool \<noteq> []" using Suc.prems by auto
  ultimately show ?case unfolding sample.simps by (simp only: if_False) (intro runs_bind runs_map)
qed (simp add: runs_ret)

lemma new_label_runs: "runs stuck I (new_label x) (\<lambda>_. True)"
  using relabel by (simp add: runs_def new_label_def Let_def)

lemma retry_runs:
  assumes m: "runs stuck I m (\<lambda>_. True)" and ex: "ex = None \<or> stuck"
  shows "runs stuck I (retry m ex) (\<lambda>_. True)"
proof (cases "ex = None")
  case True
  have "runs stuck I (bindG m retG) (\<lambda>_. True)" by (intro runs_bind [OF m] runs_ret) simp
  moreover have "retry m None s = bindG m retG s" for s
    by (subst retry.simps) (auto simp: bindG_def retG_def excluded_def split: option.splits sum.splits)
  ultimately show ?thesis using True by (simp add: runs_def)
next
  case False
  then have stuck using ex by blast
  define S where "S = (\<lambda>m' ex' s (r :: (py_error, string list \<times> gst) result). m' = m \<longrightarrow> ex' = ex \<longrightarrow> I s \<longrightarrow>
    (\<exists>x s'. r = Inr (x, s') \<and> I s'))"
  have "S m ex s r" if "retry m ex s = Some r" for s r
  proof (rule retry.raw_induct [OF _ that])
    fix rec m' ex' s r
    assume IH: "\<And>m ex s r. rec m ex s = Some r \<Longrightarrow> S m ex s r"
      and step: "(case m' s of None \<Rightarrow> None | Some (Inl e) \<Rightarrow> Some (Inl e)
        | Some (Inr (ls, s')) \<Rightarrow> if excluded ex' ls then rec m' ex' s' else Some (Inr (ls, s'))) = Some r"
    show "S m' ex' s r"
      unfolding S_def
    proof (intro impI)
      assume eq: "m' = m" "ex' = ex" and "I s"
      moreover have "m s \<noteq> None" using step eq by (auto split: option.splits)
      ultimately obtain ls t where t: "m s = Some (Inr (ls, t))" "I t" using m unfolding runs_def by metis
      show "\<exists>x s'. r = Inr (x, s') \<and> I s'"
        using step t eq IH [of m ex t r] by (auto simp: S_def split: if_splits)
    qed
  qed
  then have "I s \<Longrightarrow> retry m ex s = None \<or> (\<exists>x s'. retry m ex s = Some (Inr (x, s')) \<and> I s')" for s
    unfolding S_def by (cases "retry m ex s") auto
  then show ?thesis using \<open>stuck\<close> by (simp add: runs_def)
qed

lemmas draws_run = randint_runs random_runs choice_runs runs_any [OF randrange_runs] sample_runs

lemma reg_runs: "runs stuck I gen_reg (\<lambda>_. True)"
  unfolding gen_reg_def by (intro runs_map runs_any [OF randint_runs]) simp

lemma three_runs: "runs stuck I (three_regs pre) (\<lambda>_. True)"
  unfolding three_regs_def by (intro runs_bind [OF reg_runs] runs_ret) simp

lemma op_runs:
  "runs stuck I op_alu (\<lambda>_. True)" "runs stuck I op_imm (\<lambda>_. True)" "runs stuck I (op_shift cfg) (\<lambda>_. True)"
  "runs stuck I op_mul (\<lambda>_. True)" "runs stuck I op_mem (\<lambda>_. True)" "runs stuck I op_sreg (\<lambda>_. True)"
  "runs stuck I (window_word w) (\<lambda>_. True)"
proof -
  note rules = runs_bind [OF choice_runs] runs_bind [OF randint_runs] runs_bind [OF random_runs]
    runs_bind [OF runs_any [OF randrange_runs]] runs_bind [OF reg_runs]
    runs_ret runs_if runs_split runs_let three_runs randint_runs [THEN runs_any]
  have v: "runs stuck I (if c then bindG random (\<lambda>k. if k < prob 50 then randint (-128) (-1) else randint 0 127)
      else randint 0 255) (\<lambda>_. True)" for c
    by (intro rules) simp_all
  show "runs stuck I op_imm (\<lambda>_. True)"
    unfolding op_imm_def by (rule runs_bind [OF choice_runs], simp, rule runs_bind [OF v]) (intro rules, simp)
  have sh: "runs stuck I (if c
            then bindG (choice [''SRLI'', ''SRAI'', ''SLLI'']) (\<lambda>op.
                 bindG (randint 1 8) (\<lambda>n. retG (op, n)))
            else bindG (choice [''SRLI'', ''SRAI'']) (\<lambda>op. retG (op, 1))) (\<lambda>_. True)" for c
    by (intro rules) simp_all
  show "runs stuck I (op_shift cfg) (\<lambda>_. True)"
    unfolding op_shift_def by (rule runs_bind [OF sh]) (intro rules, simp)
  show "runs stuck I op_alu (\<lambda>_. True)" "runs stuck I op_mul (\<lambda>_. True)" "runs stuck I op_mem (\<lambda>_. True)"
    "runs stuck I op_sreg (\<lambda>_. True)" "runs stuck I (window_word w) (\<lambda>_. True)"
    unfolding op_alu_def op_mul_def op_mem_def op_sreg_def window_word_def
    by (intro rules; simp add: WIN_WORDS_def)+
qed

lemma mdu_runs: "runs stuck I op_divu (\<lambda>_. True)" "runs stuck I op_mulhu (\<lambda>_. True)" "runs stuck I (op_mdu cfg) (\<lambda>_. True)"
proof -
  show d: "runs stuck I op_divu (\<lambda>_. True)"
    unfolding op_divu_def
    by (rule runs_bind [OF sample_runs], simp, rule runs_bind [OF randint_runs], simp,
        rule runs_bind [OF randrange_runs], simp, rule runs_bind [OF randint_runs], simp) (intro runs_let runs_ret, simp)
  show m: "runs stuck I op_mulhu (\<lambda>_. True)"
    unfolding op_mulhu_def
    by (rule runs_bind [OF sample_runs], simp, rule runs_bind [OF randint_runs], simp,
        rule runs_bind [OF randint_runs], simp, rule runs_bind [OF randint_runs], simp) (intro runs_let runs_ret, simp)
  show "runs stuck I (op_mdu cfg) (\<lambda>_. True)"
    unfolding op_mdu_def by (intro runs_if runs_bind [OF random_runs] d m)
qed

lemma simple_runs: "ex = None \<or> stuck \<Longrightarrow> runs stuck I (simple_op cfg ex) (\<lambda>_. True)"
  unfolding simple_op_def simple_attempt_def
  by (intro retry_runs runs_bind [OF random_runs] runs_if op_runs mdu_runs)

lemma cover_runs: "runs stuck I (supported_isa_ops cfg) (\<lambda>_. True)"
proof -
  have "runs stuck I (cover_labels xs) (\<lambda>_. True)" for xs
    by (induction xs) (auto intro!: runs_ret runs_bind [OF new_label_runs] runs_map)
  note labels = runs_bind [OF this]
  show ?thesis
    unfolding supported_isa_ops_def Let_def by (rule labels) (intro runs_if labels runs_ret TrueI)
qed

text \<open>The program, if the steps of its body run.\<close>

lemma emit_lines_runs:
  assumes "\<And>subs. runs stuck I (body_step cfg subs) (\<lambda>_. True)"
    and "case expect of None \<Rightarrow> True | Some e \<Rightarrow> expect_ok e"
  shows "runs stuck I (emit_lines cfg seed config expect) (\<lambda>_. True)"
proof -
  have steps: "runs stuck I (body_steps (body_step cfg) n subs) (\<lambda>_. True)" for n subs
    by (induction n arbitrary: subs) (auto intro!: runs_ret runs_bind [OF assms(1)] runs_map)
  have body: "runs stuck I (gen_body cfg) (\<lambda>_. True)"
    unfolding gen_body_def
    by (rule runs_bind [OF runs_concat [OF op_runs(7)]], rule runs_bind [OF cover_runs],
        rule runs_bind [OF randint_runs], simp, rule runs_bind [OF steps]) (intro runs_split runs_ret, simp)
  obtain tail where "emit_tail expect = Inr tail" using emit_tail_piece [OF assms(2)] by blast
  then have "liftG (emit_tail expect) = retG tail" by (simp add: liftG_def)
  then show ?thesis
    unfolding emit_lines_def
    by (intro runs_bind [OF body] runs_split) (simp, intro runs_bind [OF runs_ret] runs_ret, simp_all)
qed

lemma emit_runs:
  assumes "\<And>subs. runs stuck I (body_step cfg subs) (\<lambda>_. True)"
    and "case expect of None \<Rightarrow> True | Some e \<Rightarrow> expect_ok e" and "I (reset_gen random_of seed)"
  shows "(stuck \<and> emit random_of cfg seed config expect = None) \<or>
    (\<exists>text s. emit random_of cfg seed config expect = Some (Inr (text, s)))"
proof -
  have "runs stuck I (mapG (\<lambda>ls. py_join ''\<newline>'' ls @ ''\<newline>'') (emit_lines cfg seed config expect)) (\<lambda>_. True)"
    by (intro runs_map runs_any [OF emit_lines_runs [OF assms(1,2)]])
  then show ?thesis using assms(3) unfolding runs_def emit_def by blast
qed

lemma body_step_runs:
  assumes stuck
  shows "runs stuck I (body_step cfg subs) (\<lambda>_. True)"
proof -
  have simple: "runs stuck I (simple_op cfg ex) (\<lambda>_. True)" for ex by (rule simple_runs) (simp add: assms)
  have branch: "runs stuck I (op_branch_block cfg) (\<lambda>_. True)" "runs stuck I (op_loop cfg) (\<lambda>_. True)"
    "runs stuck I (op_ie_window cfg) (\<lambda>_. True)"
    unfolding op_branch_block_def op_loop_def op_ie_window_def
    by (intro runs_bind [OF new_label_runs] runs_bind [OF choice_runs] runs_bind [OF reg_runs]
        runs_bind [OF randint_runs] runs_bind [OF runs_repeat [OF simple]] runs_bind [OF simple] runs_ret; simp)+
  have "runs stuck I (op_call cfg subs) (\<lambda>_. True)"
    unfolding op_call_def Let_def
    by (intro runs_bind [OF new_label_runs] runs_bind [OF randint_runs] runs_bind [OF runs_repeat [OF simple]]
        runs_if runs_bind [OF random_runs] runs_bind [OF reg_runs] runs_ret; simp)
  then show ?thesis
    unfolding body_step_def
    by (intro runs_bind [OF random_runs] runs_if runs_map) (simp_all add: simple branch op_runs)
qed

end

end
