(* ===== verification/FuzzContract.thy ===== *)
theory FuzzContract
  imports FuzzReturns
begin

text \<open>
  The contract between the generator and the assembler, and when generation returns.
\<close>

section \<open>Streams\<close>

text \<open>On any stream a generator returns or stays in a retry loop.\<close>

interpretation any_stream: stream_kind True "\<lambda>_. True" "\<lambda>_. True"
  by unfold_locales (simp_all add: runs_def draw_def Let_def)

text \<open>On the stream of zeros it returns, since every step of the body is a single instruction.\<close>

abbreviation zeros :: "gst \<Rightarrow> bool" where
  "zeros s \<equiv> rg_draws (gs_rng s) = (\<lambda>_. 0)"

interpretation zero_stream: stream_kind False zeros "\<lambda>d. d = 0"
  by unfold_locales (simp_all add: runs_def draw_def Let_def)

lemma zero_body_step: "runs False zeros (body_step cfg subs) (\<lambda>_. True)"
  unfolding body_step_def
proof (rule runs_bind [OF zero_stream.random_runs])
  fix k :: int
  assume "\<exists>d. d = 0 \<and> k = d mod 2 ^ 53"
  then have "k < prob 45" by (simp add: prob_def)
  then show "runs False zeros
      (if k < prob 45 then mapG (\<lambda>ls. (ls, subs)) (simple_op cfg None)
       else if k < prob 60 then mapG (\<lambda>ls. (ls, subs)) op_mem
       else if k < prob 72 then mapG (\<lambda>ls. (ls, subs)) (op_branch_block cfg)
       else if k < prob 82 then mapG (\<lambda>ls. (ls, subs)) (op_loop cfg)
       else if k < prob 90 then op_call cfg subs
       else if cf_sys cfg then mapG (\<lambda>ls. (ls, subs)) (op_ie_window cfg)
       else mapG (\<lambda>ls. (ls, subs)) (simple_op cfg None)) (\<lambda>_. True)"
    by (simp add: runs_map zero_stream.simple_runs)
qed

lemma zero_stream_returns:
  assumes "case expect of None \<Rightarrow> True | Some e \<Rightarrow> expect_ok e"
  obtains prog s where "emit (\<lambda>_ _. 0) cfg seed config expect = Some (Inr (prog, s))"
  using zero_stream.emit_runs [OF zero_body_step assms, of "\<lambda>_ _. 0" seed cfg config]
  by (auto simp: reset_gen_def)

section \<open>The contract\<close>

text \<open>
  C5: every program the fuzzer generates for the base, \<open>Sys\<close> and \<open>Full\<close> profiles, with or
  without checks, is accepted by the assembler: for every configuration, seed and stream of random
  numbers, what \<open>emit\<close> returns, read back from the file, is assembled, and the image ends
  below the word the test bench watches for interrupts, the scratch words, the data window and the
  result word. So no label is missing or defined twice, every branch is in range and every operand
  is well-formed, however many instructions the random choices put between a branch and its target.
\<close>

theorem emitted_programs_assemble:
  assumes "parse_config config = Inr cfg"
    and "emit random_of cfg seed config expect = Some (Inr (text, s))"
    and "case expect of None \<Rightarrow> True | Some e \<Rightarrow> expect_ok e"
  shows "\<exists>image. assemble (readlines text) defines False = Inr image \<and> int (length image) < IRQ_MARKER"
proof -
  let ?c = "''; generated by riscc_fuzz.py seed='' @ fmt_d seed @ '' config='' @ config"
  note sys = parsed_config(2) [OF assms(1)] and config = parsed_config(1) [OF assms(1)]
  obtain ls where e: "emit_lines cfg seed config expect (reset_gen random_of seed) = Some (Inr (ls, s))"
    "text = py_join ''\<newline>'' ls @ ''\<newline>''"
    using assms(2) unfolding emit_def by (rule map_result)
  have lab: "0 \<le> gs_label (reset_gen random_of seed)" "gs_label (reset_gen random_of seed) = 0" by (simp_all add: reset_gen_def)
  from specD [OF spec_emit_lines [OF assms(3)] e(1)] lab(1) obtain c body subs ts tail where
    ls: "ls = emit_head cfg seed config @ emit_start cfg subs @ body @ emit_marker cfg @ tail"
    and body: "stepped 3200 0 c body subs" and tail: "tail_piece ts tail"
    unfolding lab(2) by blast
  obtain xs R where p: "piece 12 R [] (frame_vectors cfg)" "piece 8300 R xs (program_lines cfg subs body tail)"
    "R \<subseteq> set xs" "distinct (map py_upper xs)"
    using piece_program [OF body tail sys] by blast
  have lines: "ls = ?c # ''.vectors'' # frame_vectors cfg @ ''.text'' # program_lines cfg subs body tail"
    by (simp add: ls emit_head_frame [OF sys] program_lines_def)
  have comment: "startswith ?c '';''" "clean ?c"
  proof -
    show "startswith ?c '';''" by (simp add: startswith_def)
    have ident: "\<not> ident_char CHR 0x0A \<and> \<not> ident_char CHR 0x0D"
      by (simp add: ident_char_def ident_start_def char_class_defs ccode_def)
    have d: "clean (dec_str n)" for n
      using dec_ident [of n] ident by (auto simp: clean_def list_all_iff)
    then have "clean (fmt_d seed)" by (simp add: fmt_d_def clean_def)
    moreover have "clean config" using config by (auto simp: RC16_CONFIGS_def clean_def)
    ultimately show "clean ?c" by (simp add: clean_def)
  qed
  have "list_all clean ls"
    using comment(2) piece_clean [OF p(1)] piece_clean [OF p(2)]
    by (auto simp: lines list_all_iff clean_def)
  then have "readlines text = map nl ls" using e(2) readlines_join [of ls] lines by simp
  moreover obtain img where "assemble (map nl ls) defines False = Inr img" "int (length img) \<le> 12 + 8300"
    using pieces_assemble [OF p(1-4) _ comment(1), of "defines"] lines by auto
  ultimately show ?thesis by (intro exI [of _ img]) (simp add: IRQ_MARKER_def)
qed

theorem emitted_programs_assemble_witness:
  "\<exists>text s image. emit (\<lambda>_ _. 0) \<lparr>cf_profile = ''full'', cf_sys = True, cf_shifts = True, cf_long_calls = True,
      cf_full = True, cf_mulhu = True, cf_divu = True, cf_mdu = True\<rparr> 7 ''full-muldiv'' None = Some (Inr (text, s)) \<and>
    assemble (readlines text) (\<lambda>_. False) False = Inr image"
proof -
  let ?cfg = "\<lparr>cf_profile = ''full'', cf_sys = True, cf_shifts = True, cf_long_calls = True,
      cf_full = True, cf_mulhu = True, cf_divu = True, cf_mdu = True\<rparr>"
  obtain prog s where e: "emit (\<lambda>_ _. 0) ?cfg 7 ''full-muldiv'' None = Some (Inr (prog, s))"
    by (rule zero_stream_returns [of None]) simp
  have "parse_config ''full-muldiv'' = Inr ?cfg" by code_simp
  from emitted_programs_assemble [OF this e] show ?thesis using e by auto
qed

section \<open>Errors and progress\<close>

text \<open>
  C12: generation never raises: for every configuration, seed and stream of random numbers no
  draw is from an empty range or an empty list, the divisor of a \<open>DIVU\<close> is never zero when its
  remainder is drawn, and no expected value is missing; the only way not to return a program is to
  stay in the loop that redraws an instruction.
\<close>

theorem emit_never_raises:
  assumes "case expect of None \<Rightarrow> True | Some e \<Rightarrow> expect_ok e"
  shows "emit random_of cfg seed config expect \<noteq> Some (Inl e)"
proof -
  have "(True \<and> emit random_of cfg seed config expect = None) \<or>
      (\<exists>prog s. emit random_of cfg seed config expect = Some (Inr (prog, s)))"
    by (rule any_stream.emit_runs [OF any_stream.body_step_runs assms]) simp_all
  then show ?thesis by auto
qed

theorem emit_never_raises_witness:
  "emit (\<lambda>seed n. seed + 3 * int n) \<lparr>cf_profile = ''min'', cf_sys = False, cf_shifts = False, cf_long_calls = False,
      cf_full = False, cf_mulhu = False, cf_divu = False, cf_mdu = False\<rparr> 5 ''min''
     (Some \<lparr>ex_r = replicate 8 0, ex_mem = replicate 32 0xFFFF, ex_probes = [0, 31], ex_s = replicate 8 1, ex_r7 = 0\<rparr>)
   \<noteq> Some (Inl IndexError)"
proof -
  have "expect_ok \<lparr>ex_r = replicate 8 0, ex_mem = replicate 32 0xFFFF, ex_probes = [0, 31],
      ex_s = replicate 8 1, ex_r7 = 0\<rparr>"
    by (simp add: expect_ok_def halfwords_def WIN_WORDS_def list_all_iff)
  then show ?thesis by (intro emit_never_raises) simp
qed

text \<open>The attempts of a retry loop: the result of the \<open>n\<close>-th, if those before it returned.\<close>

fun nth_attempt :: "nat \<Rightarrow> string list gen \<Rightarrow> string list gen" where
  "nth_attempt 0 m s = m s"
| "nth_attempt (Suc n) m s = (case m s of Some (Inr (ls, s')) \<Rightarrow> nth_attempt n m s' | r \<Rightarrow> r)"

lemma retry_attempt:
  assumes "nth_attempt n m s = Some (Inr (ls, s'))" "\<not> excluded ex ls"
  shows "\<exists>ls s'. retry m ex s = Some (Inr (ls, s'))"
  using assms
proof (induction n arbitrary: s)
  case 0
  then show ?case by (simp add: retry.simps)
next
  case (Suc n)
  then obtain ls1 s1 where "m s = Some (Inr (ls1, s1))" "nth_attempt n m s1 = Some (Inr (ls, s'))"
    by (auto split: option.splits sum.splits)
  then show ?case using Suc.IH Suc.prems(2) by (auto simp: retry.simps [of m ex s])
qed

lemma retry_attempts:
  assumes "retry m ex s = Some (Inr (ls, s'))"
  shows "\<exists>n. nth_attempt n m s = Some (Inr (ls, s')) \<and> \<not> excluded ex ls"
proof -
  define S where "S = (\<lambda>m' ex' s (r :: (py_error, string list \<times> gst) result). m' = m \<longrightarrow> ex' = ex \<longrightarrow>
    (\<forall>ls s'. r = Inr (ls, s') \<longrightarrow> (\<exists>n. nth_attempt n m s = Some (Inr (ls, s')) \<and> \<not> excluded ex ls)))"
  have "S m ex s (Inr (ls, s'))"
  proof (rule retry.raw_induct [OF _ assms])
    fix rec m' ex' s r
    assume IH: "\<And>m ex s r. rec m ex s = Some r \<Longrightarrow> S m ex s r"
      and step: "(case m' s of None \<Rightarrow> None | Some (Inl e) \<Rightarrow> Some (Inl e)
        | Some (Inr (ls, s')) \<Rightarrow> if excluded ex' ls then rec m' ex' s' else Some (Inr (ls, s'))) = Some r"
    show "S m' ex' s r"
      unfolding S_def
    proof (intro impI allI)
      fix ls s'
      assume eq: "m' = m" "ex' = ex" and r: "r = Inr (ls, s')"
      then obtain ls1 s1 where m: "m s = Some (Inr (ls1, s1))"
        using step by (auto split: option.splits sum.splits)
      show "\<exists>n. nth_attempt n m s = Some (Inr (ls, s')) \<and> \<not> excluded ex ls"
      proof (cases "excluded ex ls1")
        case True
        then have "rec m ex s1 = Some r" using step m eq by simp
        then obtain n where "nth_attempt n m s1 = Some (Inr (ls, s'))" "\<not> excluded ex ls"
          using IH r unfolding S_def by blast
        then show ?thesis using m by (intro exI [of _ "Suc n"]) simp
      next
        case False
        then show ?thesis using step m eq r by (intro exI [of _ 0]) simp
      qed
    qed
  qed
  then show ?thesis by (simp add: S_def)
qed


end
