(* ===== verification/FuzzState.thy ===== *)
theory FuzzState
  imports FuzzCompare
begin

text \<open>
  How the fuzzer reads a simulator's final state (\<open>parse_fast_state\<close>, \<open>run_fast_state\<close> and the
  three \<open>*_state\<close> functions of \<open>tools/riscc_fuzz.py\<close>). The dictionary of the state is a map
  from keys to integers, texts and integer lists.
\<close>

section \<open>Fields and numbers\<close>

text \<open>\<open>str.split()\<close>: the runs of characters that are not whitespace.\<close>

fun fields_acc :: "string \<Rightarrow> string \<Rightarrow> string list" where
  "fields_acc cur [] = (if cur = [] then [] else [cur])"
| "fields_acc cur (c # cs) =
     (if py_space c then (if cur = [] then fields_acc [] cs else cur # fields_acc [] cs)
      else fields_acc (cur @ [c]) cs)"

definition py_fields :: "string \<Rightarrow> string list" where
  "py_fields s = fields_acc [] s"

text \<open>
  \<open>int(s, 0)\<close>: surrounding whitespace, a sign, a base prefix, and digits that single underscores
  may group (one may also follow the prefix). A decimal number has no leading zero unless it
  is zero.
\<close>

fun underscores_ok :: "bool \<Rightarrow> string \<Rightarrow> bool" where
  "underscores_ok after_digit [] \<longleftrightarrow> after_digit"
| "underscores_ok after_digit (c # cs) \<longleftrightarrow>
     (if c = CHR ''_'' then after_digit \<and> underscores_ok False cs else underscores_ok True cs)"

definition grouped :: "nat \<Rightarrow> bool \<Rightarrow> string \<Rightarrow> int option" where
  "grouped b prefixed s =
     (if underscores_ok prefixed s
      then map_option (number_of b) (digits_of b (filter (\<lambda>c. c \<noteq> CHR ''_'') s)) else None)"

definition magnitude :: "string \<Rightarrow> int option" where
  "magnitude w =
     (let base = (case w of
            c # x # ds \<Rightarrow>
              if c \<noteq> CHR ''0'' then None
              else if x = CHR ''x'' \<or> x = CHR ''X'' then Some (16, ds)
              else if x = CHR ''b'' \<or> x = CHR ''B'' then Some (2, ds)
              else if x = CHR ''o'' \<or> x = CHR ''O'' then Some (8, ds)
              else None
          | _ \<Rightarrow> None)
      in case base of
           Some (b, ds) \<Rightarrow> grouped b True ds
         | None \<Rightarrow>
             if w \<noteq> [] \<and> hd w = CHR ''0'' \<and> list_ex (\<lambda>c. c \<noteq> CHR ''0'' \<and> c \<noteq> CHR ''_'') w then None
             else grouped 10 False w)"

definition py_int0 :: "string \<Rightarrow> int py" where
  "py_int0 s =
     (let t = py_strip s in
      case (if t \<noteq> [] \<and> hd t = CHR ''-'' then map_option uminus (magnitude (tl t))
            else if t \<noteq> [] \<and> hd t = CHR ''+'' then magnitude (tl t)
            else magnitude t) of
        Some v \<Rightarrow> Inr v
      | None \<Rightarrow> Inl (ValueError (''invalid literal for int() with base 0: '' @ s)))"

section \<open>Reading the state\<close>

datatype state_value = VInt int | VText string | VInts "int list"

type_synonym state = "string \<rightharpoonup> state_value"

text \<open>\<open>key, val = item.split("=", 1)\<close>.\<close>

definition state_item :: "string \<Rightarrow> state \<Rightarrow> state py" where
  "state_item item st =
     (if CHR ''='' \<notin> set item then Inl (ValueError ''not enough values to unpack (expected 2, got 1)'')
      else
        let key = takeWhile (\<lambda>c. c \<noteq> CHR ''='') item; val = drop 1 (dropWhile (\<lambda>c. c \<noteq> CHR ''='') item) in
        if key \<in> {''insns'', ''cycles'', ''result''}
        then bindE (py_int0 val) (\<lambda>v. Inr (st(key \<mapsto> VInt v)))
        else Inr (st(key \<mapsto> VText val)))"

fun state_items :: "string list \<Rightarrow> state \<Rightarrow> state py" where
  "state_items [] st = Inr st"
| "state_items (i # is) st = bindE (state_item i st) (\<lambda>st'. state_items is st')"

text \<open>One line of the output; \<open>dumped\<close> is the memory read so far.\<close>

definition state_line :: "string \<Rightarrow> state \<times> (int \<rightharpoonup> int) \<Rightarrow> (state \<times> (int \<rightharpoonup> int)) py" where
  "state_line line acc = (case acc of (st, dumped) \<Rightarrow>
     if startswith line ''STATE '' then
       bindE (state_items (drop 1 (py_fields line)) st) (\<lambda>st'. Inr (st', dumped))
     else if startswith line ''R '' then
       bindE (mapE py_int0 (drop 1 (py_fields line))) (\<lambda>vs. Inr (st(''r'' \<mapsto> VInts vs), dumped))
     else if startswith line ''S '' then
       bindE (mapE py_int0 (drop 1 (py_fields line))) (\<lambda>vs. Inr (st(''s'' \<mapsto> VInts vs), dumped))
     else if startswith (py_strip line) ''[0x'' then
       (case py_fields (filter (\<lambda>c. c \<noteq> CHR ''['' \<and> c \<noteq> CHR '']'' \<and> c \<noteq> CHR ''='') (py_strip line)) of
          [a, v] \<Rightarrow> bindE (py_int0 a) (\<lambda>a'. bindE (py_int0 v) (\<lambda>v'. Inr (st, dumped(a' AND 0x7fff \<mapsto> v'))))
        | _ \<Rightarrow> Inr (st, dumped))
     else Inr (st, dumped))"

fun state_lines :: "string list \<Rightarrow> state \<times> (int \<rightharpoonup> int) \<Rightarrow> (state \<times> (int \<rightharpoonup> int)) py" where
  "state_lines [] acc = Inr acc"
| "state_lines (l # ls) acc = bindE (state_line l acc) (\<lambda>acc'. state_lines ls acc')"

definition dump_words :: "(int \<rightharpoonup> int) \<Rightarrow> int \<Rightarrow> nat \<Rightarrow> int list py" where
  "dump_words dumped base n =
     mapE (\<lambda>i. case dumped ((base + int i) AND 0x7fff) of
                 Some v \<Rightarrow> Inr v | None \<Rightarrow> Inl (KeyError ((base + int i) AND 0x7fff))) [0..<n]"

definition parse_fast_state :: "string \<Rightarrow> int option \<Rightarrow> nat \<Rightarrow> state py" where
  "parse_fast_state stdout dump_base dump_len =
     bindE (state_lines (splitlines stdout) (Map.empty, Map.empty)) (\<lambda>(st, dumped).
     if st ''outcome'' = None \<or> st ''result'' = None then Inl (RuntimeError ''C++ ISS did not print state'')
     else (case dump_base of
             None \<Rightarrow> Inr st
           | Some base \<Rightarrow>
               bindE (dump_words dumped base dump_len) (\<lambda>ws. Inr (st(''mem'' \<mapsto> VInts ws)))))"

section \<open>Running the simulator\<close>

text \<open>\<open>fast_iss_path\<close>: the environment, the repository's root and which files exist.\<close>

definition fast_iss_path :: "(string \<rightharpoonup> string) \<Rightarrow> string \<Rightarrow> (string \<Rightarrow> bool) \<Rightarrow> string py" where
  "fast_iss_path env root present =
     (case env ''RISCC_SIM'' of
        Some e \<Rightarrow> if e \<noteq> [] then Inr e
                  else if present (root @ ''/build/tools/riscc_sim'') then Inr (root @ ''/build/tools/riscc_sim'')
                  else Inl (RuntimeError ''C++ ISS not found; build it with make sim-cpp or set RISCC_SIM'')
      | None \<Rightarrow> if present (root @ ''/build/tools/riscc_sim'') then Inr (root @ ''/build/tools/riscc_sim'')
                else Inl (RuntimeError ''C++ ISS not found; build it with make sim-cpp or set RISCC_SIM''))"

definition state_args :: "int \<Rightarrow> int option \<Rightarrow> nat \<Rightarrow> string list" where
  "state_args max_insns dump_base dump_len =
     [''--max-insns'', fmt_d max_insns, ''--state''] @
     (case dump_base of None \<Rightarrow> []
      | Some base \<Rightarrow> [''--dump'', ''0x'' @ fmt_04X base, fmt_d (int dump_len)])"

definition run_fast_state ::
  "exec \<Rightarrow> string py \<Rightarrow> string \<Rightarrow> string \<Rightarrow> string \<Rightarrow> int \<Rightarrow> int option \<Rightarrow> nat \<Rightarrow> state py" where
  "run_fast_state exec iss_path family config img max_insns dump_base dump_len =
     bindE iss_path (\<lambda>fast_iss.
     bindE (sim_base_args family config img fast_iss) (\<lambda>args.
     let run = exec (args @ state_args max_insns dump_base dump_len);
         output = p_stdout run @ p_stderr run in
     bindE (parse_fast_state output dump_base dump_len) (\<lambda>st.
     Inr (st(''returncode'' \<mapsto> VInt (p_returncode run), ''stdout'' \<mapsto> VText output,
             ''stderr'' \<mapsto> VText (p_stderr run))))))"

definition sim_trace_args :: "string py \<Rightarrow> string \<Rightarrow> string \<Rightarrow> string \<Rightarrow> string list py" where
  "sim_trace_args iss_path family config img =
     bindE iss_path (\<lambda>fast_iss.
     bindE (sim_base_args family config img fast_iss) (\<lambda>args. Inr (args @ [''--trace'', ''--dump-written''])))"

definition rc16_state :: "exec \<Rightarrow> string py \<Rightarrow> string \<Rightarrow> string \<Rightarrow> bool \<Rightarrow> state py" where
  "rc16_state exec iss_path img config dump_window =
     (if dump_window
      then run_fast_state exec iss_path ''rc16'' config img 500000 (Some (drop_bit 1 WIN)) (nat WIN_WORDS)
      else run_fast_state exec iss_path ''rc16'' config img 500000 None 0)"

text \<open>
  \<open>state[key]\<close> where the code uses it as a list; the parser sets these keys to lists only.
\<close>

definition state_ints :: "state \<Rightarrow> string \<Rightarrow> int list py" where
  "state_ints st key = (case st key of Some (VInts vs) \<Rightarrow> Inr vs | _ \<Rightarrow> Inl (MissingKey key))"

definition nano_state :: "exec \<Rightarrow> string py \<Rightarrow> string \<Rightarrow> string \<Rightarrow> bool \<Rightarrow> state py" where
  "nano_state exec iss_path img config dump_window =
     (if dump_window then
        let scratch_w = drop_bit 1 NANO_SCRATCH; win_w = drop_bit 1 WIN; skip = nat (win_w - scratch_w) in
        bindE (run_fast_state exec iss_path ''nano'' config img 500000 (Some scratch_w) (skip + nat WIN_WORDS)) (\<lambda>st.
        bindE (state_ints st ''mem'') (\<lambda>dumped.
        bindE (mapE (\<lambda>r. if r < length dumped then Inr (dumped ! r) else Inl IndexError) [1..<8]) (\<lambda>regs.
        Inr (st(''r'' \<mapsto> VInts (0 # regs),
                ''mem'' \<mapsto> VInts (take (nat WIN_WORDS) (drop skip dumped)))))))
      else run_fast_state exec iss_path ''nano'' config img 500000 None 0)"

end
