(* ===== verification/FuzzWorld.thy ===== *)
theory FuzzWorld
  imports FuzzState FuzzRng
begin

text \<open>
  The fuzzer's surroundings: files, subprocesses and environment variables, as the operations of
  a world \<open>'w\<close>, and the actions over it. Running a command may change the world in any way; the
  runs of a simulator or a testbench, which only read files and print, are made on a given world.
\<close>

section \<open>The world\<close>

record 'w world =
  w_write :: "string \<Rightarrow> string \<Rightarrow> 'w \<Rightarrow> 'w"
  w_exec :: "string list \<Rightarrow> 'w \<Rightarrow> proc \<times> 'w"
  w_exists :: "string \<Rightarrow> 'w \<Rightarrow> bool"
  w_mtime :: "string \<Rightarrow> 'w \<Rightarrow> int"
  w_isdir :: "string \<Rightarrow> 'w \<Rightarrow> bool"
  w_writable :: "string \<Rightarrow> 'w \<Rightarrow> bool"
  w_var :: "string \<Rightarrow> 'w \<Rightarrow> string option"
  w_setvar :: "string \<Rightarrow> string \<Rightarrow> 'w \<Rightarrow> 'w"
  w_which :: "string \<Rightarrow> 'w \<Rightarrow> string option"

text \<open>
  An action: \<open>None\<close> when it does not return, otherwise a result or the error it raises, and the
  world it leaves.
\<close>

type_synonym ('w, 'a) act = "'w \<Rightarrow> ((py_error, 'a) result \<times> 'w) option"

definition retA :: "'a \<Rightarrow> ('w, 'a) act" where
  "retA x = (\<lambda>w. Some (Inr x, w))"

definition liftA :: "'a py \<Rightarrow> ('w, 'a) act" where
  "liftA m = (\<lambda>w. Some (m, w))"

definition bindA :: "('w, 'a) act \<Rightarrow> ('a \<Rightarrow> ('w, 'b) act) \<Rightarrow> ('w, 'b) act" where
  "bindA m f = (\<lambda>w. case m w of
       None \<Rightarrow> None
     | Some (Inl e, w') \<Rightarrow> Some (Inl e, w')
     | Some (Inr x, w') \<Rightarrow> f x w')"

lemma bindA_Some_iff:
  "bindA m f w = Some (Inr y, w'') \<longleftrightarrow> (\<exists>x w'. m w = Some (Inr x, w') \<and> f x w' = Some (Inr y, w''))"
  by (auto simp: bindA_def split: option.splits sum.splits)

definition failA :: "py_error \<Rightarrow> ('w, 'a) act" where
  "failA e = (\<lambda>w. Some (Inl e, w))"

definition writeA :: "'w world \<Rightarrow> string \<Rightarrow> string \<Rightarrow> ('w, unit) act" where
  "writeA W path s = (\<lambda>w. Some (Inr (), w_write W path s w))"

text \<open>\<open>subprocess.run(cmd, check=True)\<close>.\<close>

definition checkedA :: "'w world \<Rightarrow> string list \<Rightarrow> ('w, unit) act" where
  "checkedA W cmd = (\<lambda>w. case w_exec W cmd w of (r, w') \<Rightarrow>
     Some (if p_returncode r \<noteq> 0 then Inl (CalledProcessError (p_returncode r)) else Inr (), w'))"

text \<open>Reading the world, and \<open>subprocess.run(cmd)\<close> whose outcome the caller looks at.\<close>

definition askA :: "('w \<Rightarrow> 'a) \<Rightarrow> ('w, 'a) act" where
  "askA f = (\<lambda>w. Some (Inr (f w), w))"

definition execA :: "'w world \<Rightarrow> string list \<Rightarrow> ('w, proc) act" where
  "execA W cmd = (\<lambda>w. case w_exec W cmd w of (r, w') \<Rightarrow> Some (Inr r, w'))"

fun mapA :: "('a \<Rightarrow> ('w, 'b) act) \<Rightarrow> 'a list \<Rightarrow> ('w, 'b list) act" where
  "mapA f [] = retA []"
| "mapA f (x # xs) = bindA (f x) (\<lambda>y. bindA (mapA f xs) (\<lambda>ys. retA (y # ys)))"

text \<open>A generator's program: the text, or not returning.\<close>

definition genA :: "(py_error, string \<times> gst) result option \<Rightarrow> ('w, string) act" where
  "genA g = (\<lambda>w. case g of
       None \<Rightarrow> None
     | Some (Inl e) \<Rightarrow> Some (Inl e, w)
     | Some (Inr (s, gs)) \<Rightarrow> Some (Inr s, w))"

definition runA :: "'w world \<Rightarrow> (exec \<Rightarrow> 'a py) \<Rightarrow> ('w, 'a) act" where
  "runA W f = (\<lambda>w. Some (f (\<lambda>cmd. fst (w_exec W cmd w)), w))"

end
