(* ===== verification/FuzzBuild.thy ===== *)
theory FuzzBuild
  imports FuzzWorld
begin

text \<open>
  How the fuzzer builds a testbench (\<open>build_tb\<close> of \<open>tools/riscc_fuzz.py\<close>): the design, its
  parameters and sources for a core, a family and a configuration, whether an existing build is
  recent enough, and the command line of the build otherwise. \<open>root\<close> is the repository's root
  and \<open>script\<close> the path of the fuzzer itself.
\<close>

section \<open>Paths\<close>

text \<open>\<open>os.path.join\<close> with a relative second part.\<close>

definition path_join :: "string \<Rightarrow> string \<Rightarrow> string" where
  "path_join a b = (if a = [] \<or> last a = CHR ''/'' then a @ b else a @ ''/'' @ b)"

text \<open>
  \<open>os.path.dirname\<close>: the text before the last slash, without trailing slashes unless it is all
  slashes.
\<close>

definition py_dirname :: "string \<Rightarrow> string" where
  "py_dirname p =
     (let head = rev (dropWhile (\<lambda>c. c \<noteq> CHR ''/'') (rev p)) in
      if list_all (\<lambda>c. c = CHR ''/'') head then head
      else rev (dropWhile (\<lambda>c. c = CHR ''/'') (rev head)))"

definition rtl_dir :: "string \<Rightarrow> string" where
  "rtl_dir root = path_join root ''rtl''"

definition test_dir :: "string \<Rightarrow> string" where
  "test_dir root = path_join root ''test''"

section \<open>The compiler cache\<close>

definition writable_or_creatable_dir :: "'w world \<Rightarrow> string \<Rightarrow> 'w \<Rightarrow> bool" where
  "writable_or_creatable_dir W path w =
     (if path = [] then False
      else if w_isdir W path w then w_writable W path w
      else let parent = (if py_dirname path = [] then ''.'' else py_dirname path) in
        \<not> w_exists W path w \<and> w_writable W parent w)"

definition env_default :: "'w world \<Rightarrow> string \<Rightarrow> string \<Rightarrow> 'w \<Rightarrow> string" where
  "env_default W name d w = (case w_var W name w of Some v \<Rightarrow> v | None \<Rightarrow> d)"

definition ccache_usable :: "'w world \<Rightarrow> string \<Rightarrow> ('w, bool) act" where
  "ccache_usable W ccache =
     bindA (askA (w_var W ''CCACHE_DIR'')) (\<lambda>dir.
     if dir \<noteq> None then retA True
     else
       bindA (execA W [ccache, ''--get-config'', ''cache_dir'']) (\<lambda>r.
       if p_returncode r \<noteq> 0 then retA False
       else
         bindA (askA (writable_or_creatable_dir W (py_strip (p_stdout r)))) (\<lambda>ok.
         if ok then retA True
         else
           bindA (askA (env_default W ''CCACHE_FALLBACK_DIR'' ''/tmp/riscc8-ccache'')) (\<lambda>fallback.
           bindA (askA (writable_or_creatable_dir W fallback)) (\<lambda>ok2.
           if ok2 then (\<lambda>w. Some (Inr True, w_setvar W ''CCACHE_DIR'' fallback w)) else retA False)))))"

definition verilator_makeflags :: "'w world \<Rightarrow> ('w, string) act" where
  "verilator_makeflags W =
     bindA (askA (w_var W ''VERILATOR_MAKEFLAGS'')) (\<lambda>makeflags.
     case makeflags of
       Some flags \<Rightarrow> retA flags
     | None \<Rightarrow>
         bindA (askA (env_default W ''VERILATOR_OPT_FAST'' ''-O1'')) (\<lambda>opt_fast.
         bindA (askA (env_default W ''VERILATOR_OPT_GLOBAL'' opt_fast)) (\<lambda>opt_global.
         let flags = [''OPT_FAST='' @ opt_fast, ''OPT_GLOBAL='' @ opt_global];
             cached = (\<lambda>c. retA (py_join '' '' (flags @ [''OBJCACHE='' @ c]))) in
         bindA (askA (w_var W ''OBJCACHE'')) (\<lambda>objcache.
         case objcache of
           Some c \<Rightarrow> if c \<noteq> [] then cached c else retA (py_join '' '' flags)
         | None \<Rightarrow>
             bindA (askA (env_default W ''CCACHE'' [])) (\<lambda>ccache.
             bindA (if ccache = [] then retA False else ccache_usable W ccache) (\<lambda>ok.
             if ok then cached ccache
             else
               bindA (askA (w_which W ''ccache'')) (\<lambda>found.
               case found of
                 None \<Rightarrow> retA (py_join '' '' flags)
               | Some c \<Rightarrow> bindA (ccache_usable W c) (\<lambda>ok2.
                   if ok2 then cached c else retA (py_join '' '' flags)))))))))"

section \<open>The design of a core\<close>

record design =
  ds_dir :: string
  ds_top :: string
  ds_rtl :: string
  ds_defs :: "string list"

definition NANO_CONFIGS :: "string list" where "NANO_CONFIGS = [''nano'']"
definition RC32_CONFIGS :: "string list" where "RC32_CONFIGS = [''min'', ''sys'', ''full'']"

definition profile_names :: "string list" where
  "profile_names = [''min'', ''sys'', ''full'']"

text \<open>\<open>tuple.index\<close>.\<close>

fun py_index :: "'a list \<Rightarrow> 'a \<Rightarrow> int py" where
  "py_index [] x = Inl (ValueError ''tuple.index(x): x not in tuple'')"
| "py_index (y # ys) x = (if x = y then Inr 0 else bindE (py_index ys x) (\<lambda>i. Inr (i + 1)))"

definition pipelined :: "string \<Rightarrow> bool" where
  "pipelined core \<longleftrightarrow> startswith core ''fast32-'' \<or> startswith core ''cached-'' \<or> startswith core ''cached32-''"

text \<open>\<open>int(core.rsplit("-", 1)[1])\<close> for a core whose suffix is a number.\<close>

definition core_width :: "string \<Rightarrow> int py" where
  "core_width core =
     (if CHR ''-'' \<notin> set core then Inl IndexError
      else let suffix = rev (takeWhile (\<lambda>c. c \<noteq> CHR ''-'') (rev core)) in
        (case digits_of 10 suffix of
           Some ns \<Rightarrow> Inr (number_of 10 ns)
         | None \<Rightarrow> Inl (ValueError (''invalid literal for int() with base 10: '' @ suffix))))"

definition trace_dir :: "string \<Rightarrow> string \<Rightarrow> string \<Rightarrow> string" where
  "trace_dir outdir core config = path_join outdir (''v_trace_'' @ core @ ''_'' @ config)"

definition xlen_def :: "bool \<Rightarrow> string" where
  "xlen_def wide = ''-GXLEN='' @ (if wide then ''32'' else ''16'')"

definition wide_design :: "string \<Rightarrow> string \<Rightarrow> string \<Rightarrow> string \<Rightarrow> string \<Rightarrow> design py" where
  "wide_design root core family config outdir =
     bindE (parse_config config) (\<lambda>cfg.
     if core \<in> {''rc16-mulh'', ''rc16-muldiv''} \<and> config \<noteq> ''full-'' @ drop 5 core then
       Inl (ValueError (core @ '' requires --config full-'' @ drop 5 core))
     else if core = ''rc16-16'' \<and> cf_mdu cfg then Inl (ValueError (config @ '' requires an MDU core''))
     else
       bindE (py_index profile_names (cf_profile cfg)) (\<lambda>profile.
       Inr \<lparr>ds_dir = trace_dir outdir core config, ds_top = ''riscc_wide'',
            ds_rtl = path_join (rtl_dir root) ''riscc_wide.v'',
            ds_defs = [xlen_def (family \<noteq> ''rc16''), ''-GPROFILE='' @ fmt_d profile,
              ''-GMDU='' @ (if cf_divu cfg then ''2'' else if cf_mulhu cfg then ''1'' else ''0'')]\<rparr>))"

definition serial_design :: "string \<Rightarrow> string \<Rightarrow> string \<Rightarrow> string \<Rightarrow> string \<Rightarrow> design py" where
  "serial_design root core family config outdir =
     bindE (core_width core) (\<lambda>width.
     if width \<notin> set (if family = ''rc16'' then SERIAL16_WIDTHS else RC32_WIDTHS) then
       Inl (ValueError (''unsupported serial datapath width: '' @ fmt_d width))
     else if config \<notin> {''min'', ''sys'', ''full''} then
       Inl (ValueError (core @ '' requires --config min, sys or full''))
     else
       bindE (py_index profile_names config) (\<lambda>profile.
       Inr \<lparr>ds_dir = trace_dir outdir core config, ds_top = ''riscc_serial'',
            ds_rtl = path_join (rtl_dir root) ''riscc_serial.v'',
            ds_defs = [xlen_def (family \<noteq> ''rc16''), ''-GW='' @ fmt_d width, ''-GPROFILE='' @ fmt_d profile]\<rparr>))"

definition cached_design :: "string \<Rightarrow> string \<Rightarrow> string \<Rightarrow> string \<Rightarrow> design py" where
  "cached_design root core config outdir =
     (if config \<noteq> ''full'' then Inl (ValueError ''Cached requires --config full'')
      else if core \<notin> {''cached-dsp'', ''cached-agilex-dsp'', ''cached32-dsp'', ''cached32-agilex-dsp''} then
        Inl (ValueError (''invalid Cached core name: '' @ core))
      else Inr \<lparr>ds_dir = path_join outdir (''v_state_'' @ core), ds_top = ''riscc_cached_test_top'',
        ds_rtl = path_join (rtl_dir root) ''riscc_cached.v'',
        ds_defs = (if py_in ''agilex'' core then [] else [''-DRISCC_ECP5'', ''-DRISCC_FAST_BLOCK_RF'']) @
          [xlen_def (startswith core ''cached32-'')]\<rparr>)"

text \<open>\<open>str.replace\<close>: every occurrence from the left; the old text is not empty.\<close>

function py_replace :: "string \<Rightarrow> string \<Rightarrow> string \<Rightarrow> string" where
  "py_replace old new s =
     (if s = [] then []
      else if old \<noteq> [] \<and> startswith s old then new @ py_replace old new (drop (length old) s)
      else hd s # py_replace old new (tl s))"
  by pat_completeness auto
termination by (relation "measure (\<lambda>(old, new, s). length s)") auto

declare py_replace.simps [simp del]

definition fast_design :: "string \<Rightarrow> string \<Rightarrow> string \<Rightarrow> string \<Rightarrow> design py" where
  "fast_design root core config outdir =
     (if config \<noteq> ''full'' then Inl (ValueError ''Fast requires --config full'')
      else if py_replace ''fast32-'' ''fast-'' core \<notin>
          {''fast-soft'', ''fast-dsp'', ''fast-agilex-soft'', ''fast-agilex-dsp''} then
        Inl (ValueError (''invalid Fast core name: '' @ core))
      else Inr \<lparr>ds_dir = path_join outdir (''v_state_'' @ core), ds_top = ''riscc_fast'',
        ds_rtl = path_join (rtl_dir root) ''riscc_fast.v'',
        ds_defs = (if py_in ''agilex'' core then [] else [''-DRISCC_FAST_BLOCK_RF'']) @
          [xlen_def (startswith core ''fast32-'')] @
          (if endswith core ''soft'' then [''-DRISCC_FAST_SOFT_MUL''] else [])\<rparr>)"

definition core_design :: "string \<Rightarrow> string \<Rightarrow> string \<Rightarrow> string \<Rightarrow> string \<Rightarrow> design py" where
  "core_design root core family config outdir =
     (if family \<noteq> ''fast'' \<and> \<not> pipelined core \<and> \<not> trace_supported family core then
        Inl (ValueError (''trace compare does not support '' @ core))
      else
        let generic_rc16 = (family = ''rc16'' \<and> (startswith core ''serial16-'' \<or>
              core \<in> set (map (\<lambda>w. ''rc16-'' @ fmt_d w) SERIAL16_WIDTHS)));
            generic_rc32 = (family = ''rc32'' \<and> (startswith core ''serial32-'' \<or>
              core \<in> set (map (\<lambda>w. ''rc32-'' @ fmt_d w) RC32_WIDTHS))) in
        if core \<in> {''wide16'', ''wide32'', ''rc16-16'', ''rc16-mulh'', ''rc16-muldiv''} then
          wide_design root core family config outdir
        else if generic_rc16 \<or> generic_rc32 then serial_design root core family config outdir
        else if family = ''nano'' then
          Inr \<lparr>ds_dir = path_join outdir ''v_trace_nano'', ds_top = ''riscc_nano'',
            ds_rtl = path_join (rtl_dir root) ''riscc_nano.v'', ds_defs = []\<rparr>
        else if startswith core ''cached-'' \<or> startswith core ''cached32-'' then cached_design root core config outdir
        else if family = ''fast'' \<or> startswith core ''fast32-'' then fast_design root core config outdir
        else Inl (ValueError (''unsupported core: '' @ core)))"

section \<open>Building\<close>

definition rtl_sources :: "string \<Rightarrow> design \<Rightarrow> string list" where
  "rtl_sources root d =
     (if ds_top d = ''riscc_cached_test_top'' then
        [path_join (rtl_dir root) ''riscc_pipeline_shared.v'', path_join (rtl_dir root) ''riscc_cached.v'',
         path_join (path_join (rtl_dir root) ''test'') ''riscc_cached_test_top.v'']
      else if ds_top d = ''riscc_fast'' then [ds_rtl d, path_join (rtl_dir root) ''riscc_pipeline_shared.v'']
      else [ds_rtl d])"

definition rtl_dependencies :: "string \<Rightarrow> design \<Rightarrow> string list" where
  "rtl_dependencies root d =
     rtl_sources root d @
     (if ds_top d \<in> {''riscc_serial'', ''riscc_wide''} then [path_join (rtl_dir root) ''riscc_rf.vh''] else [])"

definition newest_source :: "'w world \<Rightarrow> string \<Rightarrow> string \<Rightarrow> design \<Rightarrow> 'w \<Rightarrow> int" where
  "newest_source W root script d w =
     (let trace_rtl = path_join (rtl_dir root) ''test'' in
      foldr (\<lambda>path t. max (w_mtime W path w) t)
        (rtl_dependencies root d @ [script] @
         map (path_join trace_rtl)
           [''riscc_trace_ports.vh'', ''riscc_trace_state.vh'', ''riscc_trace_ports32.vh'', ''riscc_trace_state32.vh''])
        (w_mtime W (path_join (test_dir root) ''riscc_test.cpp'') w))"

text \<open>The options of the C++ testbench after those of the environment.\<close>

definition with_trace :: "string \<Rightarrow> string \<Rightarrow> bool" where
  "with_trace core family \<longleftrightarrow> family \<noteq> ''fast'' \<and> \<not> pipelined core"

definition tb_flags :: "string \<Rightarrow> string \<Rightarrow> string" where
  "tb_flags core family =
     (if with_trace core family then '' -DRISCC_TB_TRACE'' else []) @
     (if family = ''fast'' \<or> pipelined core then '' -DRISCC_TB_MEM_PIPELINED''
      else if family \<in> {''rc16'', ''rc32''} then '' -DRISCC_TB_MEM_HANDSHAKE'' else []) @
     (if family = ''nano'' then '' -DRISCC_TB_MEM_OE_N'' else []) @
     (if family = ''rc32'' \<or> startswith core ''fast32-'' \<or> startswith core ''cached32-''
      then '' -DRISCC_TB_RC32'' else []) @
     (if family = ''rc16'' \<or> core = ''wide32'' then '' -DRISCC_TB_TRACE_DRAIN=0'' else [])"

definition build_command ::
  "string \<Rightarrow> string \<Rightarrow> string \<Rightarrow> string \<Rightarrow> string \<Rightarrow> string \<Rightarrow> design \<Rightarrow> string list" where
  "build_command root verilator cxxflags makeflags core family d =
     [verilator, ''-cc'', ''--exe'', ''--build''] @
     (if makeflags \<noteq> [] then [''-MAKEFLAGS'', makeflags] else []) @
     [''--top-module'', ds_top d, ''--prefix'', ''Vriscc'', ''-Mdir'', ds_dir d,
      ''-I'' @ rtl_dir root, ''-I'' @ path_join (rtl_dir root) ''test''] @
     ds_defs d @ (if with_trace core family then [''-DRISCC_TRACE''] else []) @
     [''-CFLAGS'', cxxflags @ tb_flags core family, ''-o'', ''tb''] @
     rtl_sources root d @ [path_join (test_dir root) ''riscc_test.cpp'']"

definition build_tb ::
  "'w world \<Rightarrow> string \<Rightarrow> string \<Rightarrow> string \<Rightarrow> string \<Rightarrow> string \<Rightarrow> string \<Rightarrow> ('w, string) act" where
  "build_tb W root script core family config outdir =
     bindA (liftA (core_design root core family config outdir)) (\<lambda>d.
     let tb = path_join (ds_dir d) ''tb'' in
     bindA (askA (\<lambda>w. w_exists W tb w \<and> w_mtime W tb w > newest_source W root script d w)) (\<lambda>recent.
     if recent then retA tb
     else
       bindA (askA (env_default W ''VERILATOR'' ''verilator'')) (\<lambda>verilator.
       bindA (verilator_makeflags W) (\<lambda>makeflags.
       bindA (askA (env_default W ''TB_CXXFLAGS'' ''-std=c++17'')) (\<lambda>cxxflags.
       bindA (checkedA W (build_command root verilator cxxflags makeflags core family d)) (\<lambda>_. retA tb))))))"

end
