(* ===== verification/FuzzCase.thy ===== *)
theory FuzzCase
  imports FuzzBuild FuzzRC32 FuzzNano
begin

text \<open>
  Making a test case (\<open>make_rc16_case\<close>, \<open>make_nano_case\<close>, \<open>make_rc32_case\<close> of
  \<open>tools/riscc_fuzz.py\<close>): a probe program is generated, assembled and run; the state it ends in
  becomes the expectation of a second program from the same seed, which must pass when it is
  run.
\<close>

section \<open>Assembling\<close>

record tools =
  tl_python :: string
  tl_here :: string
  tl_iss :: "string py"
  tl_llvm :: "string list py"

text \<open>The interpreter, the fuzzer's directory, the simulator's path and the three LLVM tools.\<close>

definition assemble_cmd :: "tools \<Rightarrow> string \<Rightarrow> string \<Rightarrow> string option \<Rightarrow> bool \<Rightarrow> string list" where
  "assemble_cmd T asm_path bin_path profile mdu =
     [tl_python T, tl_here T @ ''/riscc_asm.py''] @
     (case profile of Some p \<Rightarrow> [''--profile'', p] | None \<Rightarrow> []) @
     (if mdu then [''--mdu''] else []) @ [asm_path, ''-o'', bin_path]"

definition assemble_file :: "'w world \<Rightarrow> tools \<Rightarrow> string \<Rightarrow> string \<Rightarrow> string option \<Rightarrow> bool \<Rightarrow> ('w, unit) act" where
  "assemble_file W T asm_path bin_path profile mdu = checkedA W (assemble_cmd T asm_path bin_path profile mdu)"

definition llvm_rc32_tools :: "(string \<rightharpoonup> string) \<Rightarrow> string \<Rightarrow> (string \<Rightarrow> bool) \<Rightarrow> string list py" where
  "llvm_rc32_tools env root isfile =
     (let bindir = (case env ''RISCC_LLVM_BIN'' of Some d \<Rightarrow> d | None \<Rightarrow> root @ ''/build/llvm-riscc/bin'');
          names = map (\<lambda>n. bindir @ ''/'' @ n) [''llvm-mc'', ''ld.lld'', ''llvm-objcopy''] in
      if list_all isfile names then Inr names
      else Inl (RuntimeError (''RC32 LLVM tools are missing; build them with make llvm-riscc '' @
        ''or set RISCC_LLVM_BIN'')))"

definition rc32_features :: "config \<Rightarrow> string" where
  "rc32_features cfg = ''+rc32'' @ (if cf_divu cfg then '',+mdu'' else if cf_mulhu cfg then '',+mulhu'' else [])"

definition assemble_rc32 :: "'w world \<Rightarrow> tools \<Rightarrow> string \<Rightarrow> string \<Rightarrow> string \<Rightarrow> ('w, unit) act" where
  "assemble_rc32 W T asm_path bin_path config =
     bindA (liftA (tl_llvm T)) (\<lambda>names.
     bindA (liftA (parse_config config)) (\<lambda>cfg.
     bindA (checkedA W [names ! 0, ''-triple=riscc-none-elf'', ''-mcpu='' @ cf_profile cfg,
       ''-mattr='' @ rc32_features cfg, ''-filetype=obj'', asm_path, ''-o'', bin_path @ ''.o'']) (\<lambda>_.
     bindA (checkedA W [names ! 1, ''-m'', ''elf32lriscc'', ''-Ttext=0'', ''-e'', ''start'',
       ''-o'', bin_path @ ''.elf'', bin_path @ ''.o'']) (\<lambda>_.
     checkedA W [names ! 2, ''-O'', ''binary'', bin_path @ ''.elf'', bin_path]))))"

definition rc32_state :: "exec \<Rightarrow> string py \<Rightarrow> string \<Rightarrow> string \<Rightarrow> bool \<Rightarrow> state py" where
  "rc32_state exec iss_path img config dump_window =
     (if \<not> dump_window then run_fast_state exec iss_path ''rc32'' config img 500000 None 0
      else
        bindE (run_fast_state exec iss_path ''rc32'' config img 500000 (Some (drop_bit 1 RC32_WIN))
          (nat RC32_WIN_WORDS * 2)) (\<lambda>st.
        bindE (state_ints st ''mem'') (\<lambda>halves.
        Inr (st(''mem'' \<mapsto> VInts (map (\<lambda>i. halves ! (i * 2) OR push_bit 16 (halves ! (i * 2 + 1)))
          [0..<nat RC32_WIN_WORDS]))))))"

section \<open>Test cases\<close>

text \<open>
  \<open>random.sample\<close> of at most five elements: from a population of up to 21 by shrinking the pool,
  from a larger one by drawing indices until a new one comes, which may never happen.
\<close>

partial_function (option) new_index :: "int \<Rightarrow> int list \<Rightarrow> gst \<Rightarrow> (py_error, int \<times> gst) result option" where
  "new_index n selected s =
     (case randrange n s of
        None \<Rightarrow> None
      | Some (Inl e) \<Rightarrow> Some (Inl e)
      | Some (Inr (j, s')) \<Rightarrow> if j \<in> set selected then new_index n selected s' else Some (Inr (j, s')))"

declare new_index.simps [code]

fun sample_indices :: "nat \<Rightarrow> int \<Rightarrow> int list \<Rightarrow> int list gen" where
  "sample_indices 0 n selected = retG []"
| "sample_indices (Suc k) n selected =
     bindG (new_index n selected) (\<lambda>j. mapG ((#) j) (sample_indices k n (j # selected)))"

definition sample_range :: "nat \<Rightarrow> int \<Rightarrow> int list gen" where
  "sample_range k n =
     (if n < int k then raiseG (ValueError ''Sample larger than population or is negative'')
      else if n \<le> 21 then sample k (map int [0..<nat n]) else sample_indices k n [])"

text \<open>\<open>sorted(random.Random(seed ^ 0x5EED).sample(range(n), 4))\<close>.\<close>

definition probe_words :: "(int \<Rightarrow> nat \<Rightarrow> int) \<Rightarrow> int \<Rightarrow> int \<Rightarrow> ('w, int list) act" where
  "probe_words random_of seed n = (\<lambda>w.
     case sample_range 4 n (reset_gen random_of (seed XOR 0x5EED)) of
       None \<Rightarrow> None
     | Some (Inl e) \<Rightarrow> Some (Inl e, w)
     | Some (Inr (ws, _)) \<Rightarrow> Some (Inr (sort ws), w))"

definition finished :: "state \<Rightarrow> bool" where
  "finished st \<longleftrightarrow> st ''outcome'' = Some (VText ''DONE'')"

definition passed :: "state \<Rightarrow> bool" where
  "passed st \<longleftrightarrow> finished st \<and> st ''result'' = Some (VInt 0x600D)"

definition state_result :: "state \<Rightarrow> int" where
  "state_result st = (case st ''result'' of Some (VInt v) \<Rightarrow> v | _ \<Rightarrow> 0)"

definition case_stem :: "string \<Rightarrow> string \<Rightarrow> string \<Rightarrow> int \<Rightarrow> string" where
  "case_stem outdir prefix config seed = path_join outdir (prefix @ config @ ''_'' @ fmt_d seed)"

definition make_rc16_case ::
  "'w world \<Rightarrow> tools \<Rightarrow> (int \<Rightarrow> nat \<Rightarrow> int) \<Rightarrow> int \<Rightarrow> string \<Rightarrow> string \<Rightarrow> ('w, string) act" where
  "make_rc16_case W T random_of seed config outdir =
     bindA (liftA (parse_config config)) (\<lambda>cfg.
     let stem = case_stem outdir ''fuzz_'' config seed; profile = Some (cf_profile cfg) in
     bindA (genA (emit random_of cfg seed config None)) (\<lambda>probe.
     bindA (writeA W (stem @ ''_probe.asm'') probe) (\<lambda>_.
     bindA (assemble_file W T (stem @ ''_probe.asm'') (stem @ ''_probe.bin'') profile (cf_mdu cfg)) (\<lambda>_.
     bindA (runA W (\<lambda>exec. rc16_state exec (tl_iss T) (stem @ ''_probe.bin'') config True)) (\<lambda>sim.
     if \<not> finished sim then failA (RuntimeError (''probe did not finish (seed '' @ fmt_d seed @ '')''))
     else
       bindA (liftA (state_ints sim ''r'')) (\<lambda>r.
       bindA (liftA (state_ints sim ''s'')) (\<lambda>s.
       bindA (liftA (py_nth s 4)) (\<lambda>r7.
       bindA (liftA (state_ints sim ''mem'')) (\<lambda>mem.
       bindA (probe_words random_of seed WIN_WORDS) (\<lambda>probes.
       bindA (genA (emit random_of cfg seed config
         (Some \<lparr>ex_r = r, ex_mem = mem, ex_probes = probes, ex_s = s, ex_r7 = r7\<rparr>))) (\<lambda>checked.
       bindA (writeA W (stem @ ''.asm'') checked) (\<lambda>_.
       bindA (assemble_file W T (stem @ ''.asm'') (stem @ ''.bin'') profile (cf_mdu cfg)) (\<lambda>_.
       bindA (runA W (\<lambda>exec. rc16_state exec (tl_iss T) (stem @ ''.bin'') config False)) (\<lambda>chk.
       if \<not> passed chk then failA (RuntimeError (''self-check failed under ISS (seed '' @ fmt_d seed @
         '', result 0x'' @ fmt_0X 4 (state_result chk) @ '')''))
       else retA (stem @ ''.bin'')))))))))))))))"

definition make_nano_case ::
  "'w world \<Rightarrow> tools \<Rightarrow> (int \<Rightarrow> nat \<Rightarrow> int) \<Rightarrow> int \<Rightarrow> string \<Rightarrow> string \<Rightarrow> ('w, string) act" where
  "make_nano_case W T random_of seed config outdir =
     (let stem = case_stem outdir ''fuzz_nano_'' config seed in
     bindA (genA (emit_nano random_of seed config None)) (\<lambda>probe.
     bindA (writeA W (stem @ ''_probe.asm'') probe) (\<lambda>_.
     bindA (assemble_file W T (stem @ ''_probe.asm'') (stem @ ''_probe.bin'') (Some ''nano'') False) (\<lambda>_.
     bindA (runA W (\<lambda>exec. nano_state exec (tl_iss T) (stem @ ''_probe.bin'') config True)) (\<lambda>sim.
     if \<not> finished sim then failA (RuntimeError (''nano probe did not finish (seed '' @ fmt_d seed @ '')''))
     else
       bindA (liftA (state_ints sim ''r'')) (\<lambda>r.
       bindA (liftA (state_ints sim ''mem'')) (\<lambda>mem.
       bindA (probe_words random_of seed WIN_WORDS) (\<lambda>probes.
       bindA (genA (emit_nano random_of seed config (Some \<lparr>ex_r = r, ex_mem = mem, ex_probes = probes\<rparr>))) (\<lambda>checked.
       bindA (writeA W (stem @ ''.asm'') checked) (\<lambda>_.
       bindA (assemble_file W T (stem @ ''.asm'') (stem @ ''.bin'') (Some ''nano'') False) (\<lambda>_.
       bindA (runA W (\<lambda>exec. nano_state exec (tl_iss T) (stem @ ''.bin'') config False)) (\<lambda>chk.
       if \<not> passed chk then failA (RuntimeError (''nano self-check failed under ISS (seed '' @ fmt_d seed @
         '', result 0x'' @ fmt_0X 4 (state_result chk) @ '')''))
       else retA (stem @ ''.bin'')))))))))))))"

definition make_rc32_case ::
  "'w world \<Rightarrow> tools \<Rightarrow> (int \<Rightarrow> nat \<Rightarrow> int) \<Rightarrow> int \<Rightarrow> string \<Rightarrow> string \<Rightarrow> ('w, string) act" where
  "make_rc32_case W T random_of seed config outdir =
     (let stem = case_stem outdir ''fuzz_rc32_'' config seed in
     bindA (liftA (parse_config config)) (\<lambda>cfg.
     bindA (genA (emit_rc32 random_of cfg seed config None)) (\<lambda>text1.
     bindA (writeA W (stem @ ''_probe.s'') text1) (\<lambda>_.
     bindA (assemble_rc32 W T (stem @ ''_probe.s'') (stem @ ''_probe.bin'') config) (\<lambda>_.
     bindA (runA W (\<lambda>exec. rc32_state exec (tl_iss T) (stem @ ''_probe.bin'') config True)) (\<lambda>probe.
     if \<not> passed probe then failA (RuntimeError (''RC32 probe did not finish (seed '' @ fmt_d seed @
       '', result 0x'' @ fmt_0X 8 (state_result probe) @ '')''))
     else
       bindA (liftA (state_ints probe ''r'')) (\<lambda>r.
       bindA (liftA (state_ints probe ''s'')) (\<lambda>s.
       bindA (liftA (state_ints probe ''mem'')) (\<lambda>mem.
       bindA (probe_words random_of seed RC32_WIN_WORDS) (\<lambda>probes.
       bindA (genA (emit_rc32 random_of cfg seed config
         (Some \<lparr>ex_r = r, ex_mem = mem, ex_probes = probes, ex_s = s\<rparr>))) (\<lambda>text2.
       bindA (writeA W (stem @ ''.s'') text2) (\<lambda>_.
       bindA (assemble_rc32 W T (stem @ ''.s'') (stem @ ''.bin'') config) (\<lambda>_.
       bindA (runA W (\<lambda>exec. rc32_state exec (tl_iss T) (stem @ ''.bin'') config False)) (\<lambda>checked.
       if \<not> passed checked then failA (RuntimeError (''RC32 self-check failed under ISS (seed '' @ fmt_d seed @
         '', result 0x'' @ fmt_0X 8 (state_result checked) @ '')''))
       else retA (stem @ ''.bin'')))))))))))))))"

definition make_case ::
  "'w world \<Rightarrow> tools \<Rightarrow> (int \<Rightarrow> nat \<Rightarrow> int) \<Rightarrow> int \<Rightarrow> string \<Rightarrow> string \<Rightarrow> string \<Rightarrow> ('w, string) act" where
  "make_case W T random_of seed family config outdir =
     (if family = ''nano'' then make_nano_case W T random_of seed config outdir
      else if family = ''rc32'' then make_rc32_case W T random_of seed config outdir
      else make_rc16_case W T random_of seed config outdir)"

end
