(* ===== verification/FuzzMain.thy ===== *)
theory FuzzMain
  imports FuzzBuild FuzzCase
begin

text \<open>
  The campaign of the fuzzer (\<open>main\<close> of \<open>tools/riscc_fuzz.py\<close>): the checks of the command line,
  the configurations and cores it runs by default, the generation of the cases, the builds, the
  comparisons and the exit status. The thread pools hand their results over in the order of
  their inputs; the model makes their calls in that order.
\<close>

section \<open>The command line\<close>

record cli =
  cl_seed :: "int option"
  cl_campaign :: "int option"
  cl_base_seed :: "int option"
  cl_random_seed :: bool
  cl_family :: string
  cl_config :: "string option"
  cl_cores :: string
  cl_jobs :: int
  cl_outdir :: string

text \<open>An option \<open>--cores\<close> that is absent is the empty text; the code treats both alike.\<close>

definition default_configs :: "string \<Rightarrow> string list" where
  "default_configs family =
     (if family = ''nano'' then NANO_CONFIGS
      else if family = ''rc32'' then RC32_CONFIGS
      else if family = ''fast'' then [''full'']
      else RC16_CONFIGS)"

fun split_commas_acc :: "string \<Rightarrow> string \<Rightarrow> string list" where
  "split_commas_acc cur [] = [cur]"
| "split_commas_acc cur (c # cs) =
     (if c = CHR '','' then cur # split_commas_acc [] cs else split_commas_acc (cur @ [c]) cs)"

definition requested_cores :: "cli \<Rightarrow> string list option" where
  "requested_cores args = (if cl_cores args = [] then None else Some (split_commas_acc [] (cl_cores args)))"

text \<open>The first complaint of the argument checks.\<close>

definition check_args :: "cli \<Rightarrow> string option" where
  "check_args args =
     (let defaults = default_configs (cl_family args);
          valid = (if cl_family args = ''rc32'' then RC16_CONFIGS else defaults) in
      if (case cl_config args of Some c \<Rightarrow> c \<notin> set valid | None \<Rightarrow> False)
      then Some (''--config must be one of: '' @ py_join '', '' valid)
      else if cl_family args = ''rc32'' \<and>
           (case cl_config args of Some c \<Rightarrow> c \<notin> set RC32_CONFIGS | None \<Rightarrow> False) \<and>
           requested_cores args \<noteq> Some [''wide32'']
      then Some ''RC32 MDU configurations require --cores wide32''
      else if cl_random_seed args \<and> cl_base_seed args \<noteq> None
      then Some ''--random-seed and --base-seed are mutually exclusive''
      else if cl_jobs args < 1 then Some ''--jobs must be positive''
      else if (case cl_campaign args of Some n \<Rightarrow> n < 1 | None \<Rightarrow> False)
      then Some ''--campaign must be positive''
      else if cl_campaign args = None \<and> cl_seed args = None then Some ''need --seed or --campaign''
      else if cl_campaign args = None \<and> cl_config args = None then Some ''--seed mode needs --config''
      else None)"

definition default_cores :: "string \<Rightarrow> string \<Rightarrow> string list" where
  "default_cores family config =
     (if family = ''nano'' then [''nano'']
      else if family = ''rc32'' then map (\<lambda>w. ''rc32-'' @ fmt_d w) RC32_WIDTHS
      else if family = ''fast'' then [''fast-soft'', ''fast-dsp'', ''fast-agilex-soft'', ''fast-agilex-dsp'']
      else if config = ''full-mulh'' then [''rc16-mulh'']
      else if config = ''full-muldiv'' then [''rc16-muldiv'']
      else [''rc16-1'', ''rc16-2'', ''rc16-4'', ''rc16-8'', ''rc16-16''])"

section \<open>Replay commands\<close>

text \<open>\<open>shlex.quote\<close>.\<close>

definition shell_safe :: "char \<Rightarrow> bool" where
  "shell_safe c \<longleftrightarrow> ident_char c \<or>
     c \<in> {CHR ''@'', CHR ''%'', CHR ''+'', CHR ''='', CHR '':'', CHR '','', CHR ''.'', CHR ''/'', CHR ''-''}"

definition shell_quote :: "string \<Rightarrow> string" where
  "shell_quote s =
     (if s \<noteq> [] \<and> list_all shell_safe s then s
      else [squote] @ concat (map (\<lambda>c. if c = squote then [squote, dquote, squote, dquote, squote] else [c]) s)
           @ [squote])"

definition replay_command :: "tools \<Rightarrow> string \<Rightarrow> string \<Rightarrow> cli \<Rightarrow> string \<Rightarrow> int \<Rightarrow> string option \<Rightarrow> string" where
  "replay_command T script root args config seed core =
     py_join '' '' (map shell_quote
       ([tl_python T, script, ''--campaign'', ''1'', ''--base-seed'', fmt_d seed,
         ''--family'', cl_family args, ''--config'', config] @
        (case core of
           Some c \<Rightarrow> [''--cores'', c]
         | None \<Rightarrow> if cl_cores args \<noteq> [] then [''--cores'', cl_cores args] else []) @
        (if cl_outdir args \<noteq> root @ ''/build/fuzz'' then [''--outdir'', cl_outdir args] else [])))"

section \<open>One configuration\<close>

definition state_core :: "string \<Rightarrow> bool" where
  "state_core core \<longleftrightarrow> startswith core ''fast-'' \<or> pipelined core"

text \<open>\<open>generate\<close>: an exception becomes part of the answer.\<close>

definition tryA :: "('w, 'a) act \<Rightarrow> ('w, (py_error, 'a) result) act" where
  "tryA m = (\<lambda>w. map_option (\<lambda>(r, w'). (Inr r, w')) (m w))"

definition compare_item ::
  "(int \<Rightarrow> int \<Rightarrow> int \<Rightarrow> int) \<Rightarrow> string py \<Rightarrow> exec \<Rightarrow> string \<Rightarrow> string \<Rightarrow> string \<Rightarrow> int \<Rightarrow> string \<Rightarrow> string \<Rightarrow> verdict py"
where
  "compare_item pick iss exec core family config seed img tb =
     bindE iss (\<lambda>fast_iss.
       (if state_core core then compare_final_state else compare_trace)
         exec pick fast_iss core family config seed img tb)"

record cresult =
  cr_core :: string
  cr_config :: string
  cr_seed :: int
  cr_image :: string
  cr_ok :: bool
  cr_detail :: string

definition made_images :: "int list \<Rightarrow> (py_error, string) result list \<Rightarrow> (int \<times> string) list" where
  "made_images seeds generated =
     concat (map (\<lambda>(seed, r). case r of Inl _ \<Rightarrow> [] | Inr img \<Rightarrow> [(seed, img)]) (zip seeds generated))"

text \<open>
  The results of one configuration, in the order of the comparisons, or the first seed whose
  case could not be generated.
\<close>

definition run_config ::
  "'w world \<Rightarrow> tools \<Rightarrow> string \<Rightarrow> string \<Rightarrow> (int \<Rightarrow> nat \<Rightarrow> int) \<Rightarrow> (int \<Rightarrow> int \<Rightarrow> int \<Rightarrow> int) \<Rightarrow>
   string \<Rightarrow> string \<Rightarrow> string \<Rightarrow> string list \<Rightarrow> int list \<Rightarrow> ('w, (int \<times> py_error) + cresult list) act" where
  "run_config W T root script random_of pick family outdir config cores seeds =
     bindA (mapA (\<lambda>seed. tryA (make_case W T random_of seed family config outdir)) seeds) (\<lambda>generated.
     case find (\<lambda>(seed, r). case r of Inl _ \<Rightarrow> True | Inr _ \<Rightarrow> False) (zip seeds generated) of
       Some (seed, Inl e) \<Rightarrow> retA (Inl (seed, e))
     | _ \<Rightarrow>
       let bins = made_images seeds generated in
       bindA (mapA (\<lambda>core. build_tb W root script core family config outdir) cores) (\<lambda>tbs.
       bindA (runA W (\<lambda>exec. mapE (\<lambda>((core, tb), (seed, img)).
           bindE (compare_item pick (tl_iss T) exec core family config seed img tb) (\<lambda>(ok, detail, _, _).
           Inr \<lparr>cr_core = core, cr_config = config, cr_seed = seed, cr_image = img, cr_ok = ok, cr_detail = detail\<rparr>))
         (List.product (zip cores tbs) bins))) (\<lambda>results.
       retA (Inr results))))"

section \<open>The campaign\<close>

text \<open>The counters of the loop over the results, and what has been printed.\<close>

record tally =
  ta_fails :: int
  ta_total :: int
  ta_irqs :: int
  ta_first :: "(string \<times> string \<times> int) option"
  ta_lines :: "string list"

definition py_basename :: "string \<Rightarrow> string" where
  "py_basename p = rev (takeWhile (\<lambda>c. c \<noteq> CHR ''/'') (rev p))"

definition count_result :: "(string \<Rightarrow> int \<Rightarrow> string option \<Rightarrow> string) \<Rightarrow> string \<Rightarrow> tally \<Rightarrow> cresult \<Rightarrow> tally" where
  "count_result replay family t r =
     (let t1 = t\<lparr>ta_total := ta_total t + 1\<rparr> in
      if \<not> cr_ok r then
        let divergence = (if state_core (cr_core r) then ''STATE-DIVERGE'' else ''TRACE-DIVERGE'');
            t2 = t1\<lparr>ta_fails := ta_fails t + 1,
              ta_lines := ta_lines t @ [divergence @ '' '' @ cr_core r @ '' '' @ family @ ''/'' @ cr_config r @
                '' seed='' @ fmt_d (cr_seed r) @ '': '' @ py_basename (cr_image r), cr_detail r]\<rparr> in
        (case ta_first t of
           Some _ \<Rightarrow> t2
         | None \<Rightarrow> t2\<lparr>ta_first := Some (cr_core r, cr_config r, cr_seed r),
             ta_lines := ta_lines t2 @ [''replay: '' @ replay (cr_config r) (cr_seed r) (Some (cr_core r))]\<rparr>)
      else if startswith (cr_detail r) ''PASS external IRQ'' then t1\<lparr>ta_irqs := ta_irqs t + 1\<rparr>
      else t1)"

fun run_configs ::
  "(string \<Rightarrow> ('w, (int \<times> py_error) + cresult list) act) \<Rightarrow> (string \<Rightarrow> int \<Rightarrow> string option \<Rightarrow> string) \<Rightarrow> string \<Rightarrow>
   string list \<Rightarrow> tally \<Rightarrow> ('w, int \<times> tally + tally) act" where
  "run_configs run1 replay family [] t = retA (Inr t)"
| "run_configs run1 replay family (config # cs) t =
     bindA (run1 config) (\<lambda>r.
     case r of
       Inl (seed, e) \<Rightarrow>
         retA (Inl (1, t\<lparr>ta_lines := ta_lines t @
           [''GENFAIL '' @ family @ ''/'' @ config @ '' seed='' @ fmt_d seed, ''replay: '' @ replay config seed None]\<rparr>))
     | Inr results \<Rightarrow>
         let t' = foldl (count_result replay family) t results in
         run_configs run1 replay family cs
           (t'\<lparr>ta_lines := ta_lines t' @ [''config '' @ family @ ''/'' @ config @ '' done'']\<rparr>))"

definition summary_lines :: "(string \<Rightarrow> int \<Rightarrow> string option \<Rightarrow> string) \<Rightarrow> string \<Rightarrow> tally \<Rightarrow> string list" where
  "summary_lines replay family t =
     [''campaign: '' @ fmt_d (ta_total t) @ '' runs, '' @ fmt_d (ta_fails t) @ '' divergences''] @
     (if ta_irqs t \<noteq> 0 then [''external IRQ injections: '' @ fmt_d (ta_irqs t)] else []) @
     (case ta_first t of
        None \<Rightarrow> []
      | Some (core, config, seed) \<Rightarrow>
          [''first failing seed: family='' @ family @ '' config='' @ config @ '' core='' @ core @ '' seed='' @ fmt_d seed,
           ''replay first failure: '' @ replay config seed (Some core)])"

definition start_tally :: "int \<Rightarrow> int \<Rightarrow> int \<Rightarrow> tally" where
  "start_tally base_seed count jobs =
     \<lparr>ta_fails = 0, ta_total = 0, ta_irqs = 0, ta_first = None,
      ta_lines = [''campaign seeds: base='' @ fmt_d base_seed @ '' count='' @ fmt_d count @ '' jobs='' @ fmt_d jobs]\<rparr>"

definition campaign_configs :: "cli \<Rightarrow> string list" where
  "campaign_configs args =
     (case cl_config args of Some c \<Rightarrow> [c] | None \<Rightarrow> default_configs (cl_family args))"

definition campaign_cores :: "cli \<Rightarrow> string \<Rightarrow> string list" where
  "campaign_cores args config =
     (case requested_cores args of Some cs \<Rightarrow> cs | None \<Rightarrow> default_cores (cl_family args) config)"

definition campaign_seeds :: "int \<Rightarrow> cli \<Rightarrow> int \<Rightarrow> int list" where
  "campaign_seeds random_base args count =
     (let base_seed = (case cl_base_seed args of Some b \<Rightarrow> b | None \<Rightarrow> random_base) in
      map (\<lambda>k. base_seed + int k) [0..<nat count])"

text \<open>
  A campaign whose arguments were accepted: the exit status and the lines printed; \<open>random_base\<close>
  is the system's random number for a campaign without a base seed.
\<close>

definition campaign ::
  "'w world \<Rightarrow> tools \<Rightarrow> string \<Rightarrow> string \<Rightarrow> (int \<Rightarrow> nat \<Rightarrow> int) \<Rightarrow> (int \<Rightarrow> int \<Rightarrow> int \<Rightarrow> int) \<Rightarrow> int \<Rightarrow> cli \<Rightarrow> int \<Rightarrow>
   ('w, int \<times> string list) act" where
  "campaign W T root script random_of pick random_base args count =
     (let base_seed = (case cl_base_seed args of Some b \<Rightarrow> b | None \<Rightarrow> random_base);
          family = cl_family args;
          replay = replay_command T script root args;
          run1 = (\<lambda>config. run_config W T root script random_of pick family (cl_outdir args) config
            (campaign_cores args config) (campaign_seeds random_base args count)) in
      bindA (run_configs run1 replay family (campaign_configs args)
        (start_tally base_seed count (cl_jobs args))) (\<lambda>r.
      case r of
        Inl (code, t) \<Rightarrow> retA (code, ta_lines t)
      | Inr t \<Rightarrow> retA (if ta_fails t \<noteq> 0 then 1 else 0, ta_lines t @ summary_lines replay family t)))"

text \<open>\<open>main\<close> after the output directory is made: the exit status and the lines.\<close>

definition fuzz_main ::
  "'w world \<Rightarrow> tools \<Rightarrow> string \<Rightarrow> string \<Rightarrow> (int \<Rightarrow> nat \<Rightarrow> int) \<Rightarrow> (int \<Rightarrow> int \<Rightarrow> int \<Rightarrow> int) \<Rightarrow> int \<Rightarrow> cli \<Rightarrow>
   ('w, int \<times> string list) act" where
  "fuzz_main W T root script random_of pick random_base args =
     (case check_args args of
        Some msg \<Rightarrow> retA (2, [msg])
      | None \<Rightarrow>
          (case cl_campaign args of
             Some n \<Rightarrow> campaign W T root script random_of pick random_base args n
           | None \<Rightarrow>
               bindA (make_case W T random_of (the (cl_seed args)) (cl_family args) (the (cl_config args)) (cl_outdir args))
                 (\<lambda>b. retA (0, [''OK (ISS self-check): '' @ b]))))"

end
