(* ===== verification/FuzzCampaign.thy ===== *)
theory FuzzCampaign
  imports FuzzMain FuzzContract
begin

text \<open>
  What the exit status of a campaign says: it is zero exactly when every case was made, every
  testbench built and every comparison passed.
\<close>

section \<open>A clean configuration\<close>

text \<open>
  Every seed has its image, every core its testbench, and every comparison of the two, in the
  world they leave, has a passing verdict.
\<close>

definition config_clean ::
  "'w world \<Rightarrow> tools \<Rightarrow> string \<Rightarrow> string \<Rightarrow> (int \<Rightarrow> nat \<Rightarrow> int) \<Rightarrow> (int \<Rightarrow> int \<Rightarrow> int \<Rightarrow> int) \<Rightarrow>
   string \<Rightarrow> string \<Rightarrow> string list \<Rightarrow> int list \<Rightarrow> string \<Rightarrow> 'w \<Rightarrow> 'w \<Rightarrow> bool" where
  "config_clean W T root script random_of pick family outdir cores seeds config w w2 \<longleftrightarrow>
     (\<exists>imgs tbs w1.
        mapA (\<lambda>seed. make_case W T random_of seed family config outdir) seeds w = Some (Inr imgs, w1) \<and>
        mapA (\<lambda>core. build_tb W root script core family config outdir) cores w1 = Some (Inr tbs, w2) \<and>
        (\<forall>i < length cores. \<forall>j < length seeds. \<exists>d out rtl.
           compare_item pick (tl_iss T) (\<lambda>cmd. fst (w_exec W cmd w2)) (cores ! i) family config
             (seeds ! j) (imgs ! j) (tbs ! i) = Inr (True, d, out, rtl)))"

fun all_clean :: "(string \<Rightarrow> 'w \<Rightarrow> 'w \<Rightarrow> bool) \<Rightarrow> string list \<Rightarrow> 'w \<Rightarrow> 'w \<Rightarrow> bool" where
  "all_clean okc [] w w' \<longleftrightarrow> w = w'"
| "all_clean okc (c # cs) w w' \<longleftrightarrow> (\<exists>w1. okc c w w1 \<and> all_clean okc cs w1 w')"

section \<open>Actions\<close>

lemma retA_iff [simp]: "retA x w = Some (Inr y, w') \<longleftrightarrow> y = x \<and> w' = w"
  by (auto simp: retA_def)

lemma runA_iff [simp]: "runA W f w = Some (r, w') \<longleftrightarrow> r = f (\<lambda>cmd. fst (w_exec W cmd w)) \<and> w' = w"
  by (auto simp: runA_def)

lemma mapA_length: "mapA f xs w = Some (Inr ys, w') \<Longrightarrow> length ys = length xs"
  by (induction xs arbitrary: ys w) (auto simp: bindA_Some_iff)

lemma mapA_tryA:
  "mapA (\<lambda>x. tryA (f x)) xs w = Some (Inr (map Inr ys), w') \<longleftrightarrow> mapA f xs w = Some (Inr ys, w')"
proof (induction xs arbitrary: ys w)
  case (Cons x xs)
  have one: "tryA (f x) w = Some (Inr (Inr y), w1) \<longleftrightarrow> f x w = Some (Inr y, w1)" for y w1
    by (auto simp: tryA_def split: prod.splits)
  show ?case
  proof (cases ys)
    case Nil
    then show ?thesis by (auto simp: bindA_Some_iff)
  next
    case (Cons y ys')
    then show ?thesis using Cons.IH by (auto simp: bindA_Some_iff one Cons.IH)
  qed
qed auto

lemma find_failure:
  assumes "length rs = length xs"
  shows "find (\<lambda>(x, r). case r of Inl _ \<Rightarrow> True | Inr _ \<Rightarrow> False) (zip xs rs) = None \<longleftrightarrow> (\<exists>ys. rs = map Inr ys)"
    and "find (\<lambda>(x, r). case r of Inl _ \<Rightarrow> True | Inr _ \<Rightarrow> False) (zip xs rs) = Some (x, r) \<Longrightarrow> \<exists>e. r = Inl e"
proof -
  show "find (\<lambda>(x, r). case r of Inl _ \<Rightarrow> True | Inr _ \<Rightarrow> False) (zip xs rs) = None \<longleftrightarrow> (\<exists>ys. rs = map Inr ys)"
    using assms
  proof (induction xs rs rule: list_induct2')
    case (4 x xs r rs)
    then show ?case by (cases r) (auto simp: Cons_eq_map_conv)
  qed auto
  show "find (\<lambda>(x, r). case r of Inl _ \<Rightarrow> True | Inr _ \<Rightarrow> False) (zip xs rs) = Some (x, r) \<Longrightarrow> \<exists>e. r = Inl e"
    by (cases r) (auto simp: find_Some_iff split: sum.splits)
qed

lemma mapE_Inr_iff:
  "mapE f xs = Inr ys \<longleftrightarrow> length ys = length xs \<and> (\<forall>i < length xs. f (xs ! i) = Inr (ys ! i))"
proof
  show "mapE f xs = Inr ys \<Longrightarrow> length ys = length xs \<and> (\<forall>i < length xs. f (xs ! i) = Inr (ys ! i))"
    using mapE_length mapE_nth by blast
  show "length ys = length xs \<and> (\<forall>i < length xs. f (xs ! i) = Inr (ys ! i)) \<Longrightarrow> mapE f xs = Inr ys"
  proof (induction xs arbitrary: ys)
    case (Cons x xs)
    then obtain y zs where "ys = y # zs" by (cases ys) auto
    then show ?case using Cons.IH [of zs] Cons.prems by force
  qed simp
qed

section \<open>One configuration\<close>

lemma mapE_Cons_all:
  "(\<exists>results. mapE f (x # xs) = Inr results \<and> list_all P results) \<longleftrightarrow>
   (\<exists>y. f x = Inr y \<and> P y) \<and> (\<exists>results. mapE f xs = Inr results \<and> list_all P results)"
  by (auto simp: bindE_Inr_iff)

lemma all_pass:
  assumes "\<And>x ok d. cr_ok (mk x ok d) = ok"
  shows "(\<exists>results. mapE (\<lambda>x. bindE (c x) (\<lambda>(ok, d, _, _). Inr (mk x ok d))) xs = Inr results \<and> list_all cr_ok results) \<longleftrightarrow>
    (\<forall>x \<in> set xs. \<exists>d out rtl. c x = Inr (True, d, out, rtl))"
proof (induction xs)
  case (Cons x xs)
  have one: "(\<exists>y. bindE (c x) (\<lambda>(ok, d, _, _). Inr (mk x ok d)) = Inr y \<and> cr_ok y) \<longleftrightarrow>
      (\<exists>d out rtl. c x = Inr (True, d, out, rtl))"
    by (auto simp: bindE_Inr_iff assms) (metis assms)
  show ?case unfolding mapE_Cons_all one Cons.IH by simp
qed simp

lemma ball_product:
  assumes "length bs = length as" "length ds = length cs"
  shows "(\<forall>x \<in> set (List.product (zip as bs) (zip cs ds)). P x) \<longleftrightarrow>
    (\<forall>i < length as. \<forall>j < length cs. P ((as ! i, bs ! i), (cs ! j, ds ! j)))"
  using assms by (auto simp: set_zip) blast+

lemma run_config_iff:
  "run_config W T root script random_of pick family outdir config cores seeds w = Some (Inr (Inr results), w2) \<longleftrightarrow>
   (\<exists>imgs tbs w1.
      mapA (\<lambda>seed. make_case W T random_of seed family config outdir) seeds w = Some (Inr imgs, w1) \<and>
      mapA (\<lambda>core. build_tb W root script core family config outdir) cores w1 = Some (Inr tbs, w2) \<and>
      mapE (\<lambda>((core, tb), (seed, img)).
        bindE (compare_item pick (tl_iss T) (\<lambda>cmd. fst (w_exec W cmd w2)) core family config seed img tb)
          (\<lambda>(ok, detail, _, _). Inr \<lparr>cr_core = core, cr_config = config, cr_seed = seed, cr_image = img,
             cr_ok = ok, cr_detail = detail\<rparr>))
        (List.product (zip cores tbs) (zip seeds imgs)) = Inr results)"
  (is "?run = _ \<longleftrightarrow> (\<exists>imgs tbs w1. ?made imgs w1 \<and> ?built tbs w1 \<and> ?compared tbs imgs)")
proof -
  let ?attempt = "\<lambda>seed. tryA (make_case W T random_of seed family config outdir)"
  let ?failed = "\<lambda>(seed, r :: (py_error, string) result). case r of Inl _ \<Rightarrow> True | Inr _ \<Rightarrow> False"
  have bins: "made_images seeds (map Inr imgs) = zip seeds imgs" if "length imgs = length seeds" for imgs
    using that unfolding made_images_def by (induction imgs seeds rule: list_induct2) simp_all
  show ?thesis
  proof
    assume run: "?run = Some (Inr (Inr results), w2)"
    then obtain gs w1 where gs: "mapA ?attempt seeds w = Some (Inr gs, w1)"
      by (auto simp: run_config_def bindA_Some_iff)
    have len: "length gs = length seeds" by (rule mapA_length [OF gs])
    have none: "find ?failed (zip seeds gs) = None"
    proof (rule ccontr)
      assume "find ?failed (zip seeds gs) \<noteq> None"
      then obtain x r where f: "find ?failed (zip seeds gs) = Some (x, r)" by (cases "find ?failed (zip seeds gs)") auto
      then obtain e where "r = Inl e" using find_failure(2) [OF len] by blast
      then show False using run gs f by (simp add: run_config_def bindA_def)
    qed
    then obtain imgs where imgs: "gs = map Inr imgs" using find_failure(1) [OF len] by blast
    then have made: "?made imgs w1" using gs mapA_tryA by metis
    have "length imgs = length seeds" using len imgs by simp
    note bins' = bins [OF this]
    show "\<exists>imgs tbs w1. ?made imgs w1 \<and> ?built tbs w1 \<and> ?compared tbs imgs"
      using run gs none made unfolding imgs run_config_def
      by (auto simp: bindA_Some_iff Let_def bins' simp del: mapE.simps)
  next
    assume "\<exists>imgs tbs w1. ?made imgs w1 \<and> ?built tbs w1 \<and> ?compared tbs imgs"
    then obtain imgs tbs w1 where made: "?made imgs w1" and built: "?built tbs w1" "?compared tbs imgs" by blast
    have gs: "mapA ?attempt seeds w = Some (Inr (map Inr imgs), w1)" using made mapA_tryA by metis
    have len: "length imgs = length seeds" by (rule mapA_length [OF made])
    have none: "find ?failed (zip seeds (map Inr imgs)) = None" using find_failure(1) [of "map Inr imgs" seeds] len by auto
    show "?run = Some (Inr (Inr results), w2)"
      using gs none built bins [OF len] unfolding run_config_def
      by (simp add: bindA_def Let_def runA_def retA_def)
  qed
qed

lemma run_config_passes:
  "(\<exists>results. run_config W T root script random_of pick family outdir config cores seeds w = Some (Inr (Inr results), w2) \<and>
      list_all cr_ok results) \<longleftrightarrow>
   config_clean W T root script random_of pick family outdir cores seeds config w w2"
proof -
  let ?cmp = "\<lambda>((core, tb), (seed, img)).
    compare_item pick (tl_iss T) (\<lambda>cmd. fst (w_exec W cmd w2)) core family config seed img tb"
  let ?mk = "\<lambda>((core, tb), (seed, img)) ok d. \<lparr>cr_core = core, cr_config = config, cr_seed = seed, cr_image = img,
    cr_ok = ok, cr_detail = d\<rparr>"
  have form: "(\<lambda>((core, tb), (seed, img)).
      bindE (compare_item pick (tl_iss T) (\<lambda>cmd. fst (w_exec W cmd w2)) core family config seed img tb)
        (\<lambda>(ok, detail, _, _). Inr \<lparr>cr_core = core, cr_config = config, cr_seed = seed, cr_image = img,
           cr_ok = ok, cr_detail = detail\<rparr>)) = (\<lambda>x. bindE (?cmp x) (\<lambda>(ok, d, _, _). Inr (?mk x ok d)))"
    by (auto intro!: ext split: prod.splits)
  have ok: "cr_ok (?mk x ok d) = ok" for x ok d by (auto split: prod.splits)
  have "(\<exists>results. mapE (\<lambda>x. bindE (?cmp x) (\<lambda>(ok, d, _, _). Inr (?mk x ok d)))
        (List.product (zip cores tbs) (zip seeds imgs)) = Inr results \<and> list_all cr_ok results) \<longleftrightarrow>
      (\<forall>i < length cores. \<forall>j < length seeds. \<exists>d out rtl. compare_item pick (tl_iss T)
        (\<lambda>cmd. fst (w_exec W cmd w2)) (cores ! i) family config (seeds ! j) (imgs ! j) (tbs ! i) = Inr (True, d, out, rtl))"
    if "length tbs = length cores" "length imgs = length seeds" for tbs imgs
    unfolding all_pass [of ?mk ?cmp, OF ok] ball_product [OF that] by simp
  then show ?thesis
    unfolding run_config_iff config_clean_def form using mapA_length by meson
qed

section \<open>The campaign\<close>

lemma count_result_fails:
  "ta_fails (foldl (count_result replay family) t results) = ta_fails t + int (length (filter (\<lambda>r. \<not> cr_ok r) results))"
proof (induction results arbitrary: t)
  case (Cons r results)
  have "ta_fails (count_result replay family t r) = ta_fails t + (if cr_ok r then 0 else 1)"
    by (simp add: count_result_def Let_def split: option.split)
  then show ?case using Cons by simp
qed simp

lemma run_configs_clean:
  assumes "run_configs run1 replay family configs t w = Some (Inr r, w')" "0 \<le> ta_fails t"
    and "\<And>c w r w2. c \<in> set configs \<Longrightarrow> run1 c w = Some (Inr r, w2) \<Longrightarrow>
      (\<exists>results. r = Inr results \<and> list_all cr_ok results) \<longleftrightarrow> okc c w w2"
    and "\<And>c w w2. c \<in> set configs \<Longrightarrow> okc c w w2 \<Longrightarrow> \<exists>r. run1 c w = Some (Inr r, w2)"
  shows "(\<exists>t'. r = Inr t' \<and> ta_fails t' = 0) \<longleftrightarrow> ta_fails t = 0 \<and> all_clean okc configs w w'"
  using assms
proof (induction configs arbitrary: t w)
  case (Cons c cs)
  obtain r1 w1 where r1: "run1 c w = Some (Inr r1, w1)"
    using Cons.prems(1) by (auto simp: bindA_Some_iff)
  have unique: "w2 = w1" if "okc c w w2" for w2 using Cons.prems(4) [OF _ that] r1 by auto
  have one: "(\<exists>results. r1 = Inr results \<and> list_all cr_ok results) \<longleftrightarrow> okc c w w1"
    using Cons.prems(3) [OF _ r1] by simp
  show ?case
  proof (cases r1)
    case (Inl p)
    then have "\<not> okc c w w1" using one by simp
    then have "\<not> all_clean okc (c # cs) w w'" using unique by auto
    then show ?thesis using Cons.prems(1) r1 Inl by (auto simp: bindA_def split: prod.splits)
  next
    case (Inr results)
    define t1 where "t1 = foldl (count_result replay family) t results"
    define t2 where "t2 = t1\<lparr>ta_lines := ta_lines t1 @ [''config '' @ family @ ''/'' @ c @ '' done'']\<rparr>"
    have rest: "run_configs run1 replay family cs t2 w1 = Some (Inr r, w')"
      using Cons.prems(1) r1 Inr by (simp add: bindA_def t1_def t2_def Let_def)
    have fails: "ta_fails t2 = ta_fails t + int (length (filter (\<lambda>r. \<not> cr_ok r) results))"
      by (simp add: t2_def t1_def count_result_fails)
    have "filter (\<lambda>r. \<not> cr_ok r) results = [] \<longleftrightarrow> okc c w w1"
      using one Inr by (auto simp: list_all_iff filter_empty_conv)
    moreover have "ta_fails t2 = 0 \<longleftrightarrow> ta_fails t = 0 \<and> length (filter (\<lambda>r. \<not> cr_ok r) results) = 0"
      using fails Cons.prems(2) by presburger
    ultimately have "ta_fails t2 = 0 \<longleftrightarrow> ta_fails t = 0 \<and> okc c w w1" by simp
    moreover have "0 \<le> ta_fails t2" using fails Cons.prems(2) by simp
    ultimately show ?thesis using Cons.IH [OF rest] Cons.prems(3,4) unique by auto
  qed
qed auto

text \<open>
  C6. A campaign that runs to its end has exit status 0 exactly when it found nothing: for every
  configuration in turn, each seed's case was made (so it passed its own checks on the
  instruction-set simulator), each core's testbench was built, and each comparison of the two
  had a passing verdict.
\<close>

theorem campaign_exit_status:
  assumes "campaign W T root script random_of pick random_base args num w = Some (Inr (code, lines), w')"
  shows "code = 0 \<longleftrightarrow>
    all_clean (\<lambda>config. config_clean W T root script random_of pick (cl_family args) (cl_outdir args)
        (campaign_cores args config) (campaign_seeds random_base args num) config)
      (campaign_configs args) w w'"
proof -
  let ?run = "\<lambda>config. run_config W T root script random_of pick (cl_family args) (cl_outdir args) config
    (campaign_cores args config) (campaign_seeds random_base args num)"
  let ?okc = "\<lambda>config. config_clean W T root script random_of pick (cl_family args) (cl_outdir args)
    (campaign_cores args config) (campaign_seeds random_base args num) config"
  define t where "t = start_tally (case cl_base_seed args of Some b \<Rightarrow> b | None \<Rightarrow> random_base) num (cl_jobs args)"
  have t: "ta_fails t = 0" by (simp add: t_def start_tally_def)
  obtain r w1 where r: "run_configs ?run (replay_command T script root args) (cl_family args) (campaign_configs args) t w
      = Some (Inr r, w1)"
    and rest: "(case r of Inl (code, t) \<Rightarrow> retA (code, ta_lines t)
      | Inr t \<Rightarrow> retA (if ta_fails t \<noteq> 0 then 1 else 0,
          ta_lines t @ summary_lines (replay_command T script root args) (cl_family args) t)) w1 = Some (Inr (code, lines), w')"
    using assms unfolding campaign_def Let_def bindA_Some_iff t_def by blast
  have run: "run_configs ?run (replay_command T script root args) (cl_family args) (campaign_configs args) t w
      = Some (Inr r, w')"
    and code: "code = (case r of Inl (c, t') \<Rightarrow> c | Inr t' \<Rightarrow> if ta_fails t' \<noteq> 0 then 1 else 0)"
    using r rest by (cases r; auto split: prod.splits)+
  have failed: "c = 1" if "run_configs f g h cs t w = Some (Inr (Inl (c, t')), w')" for f g h cs t w c t'
    using that
  proof (induction cs arbitrary: t w)
    case (Cons x cs)
    then obtain r1 w1 where r1: "f x w = Some (Inr r1, w1)" by (auto simp: bindA_Some_iff)
    show ?case
    proof (cases r1)
      case (Inl p)
      then show ?thesis using Cons.prems r1 by (auto simp: bindA_def split: prod.splits)
    next
      case (Inr results)
      then show ?thesis using Cons.prems r1 by (auto simp: bindA_def Let_def intro: Cons.IH)
    qed
  qed simp
  have "(\<exists>t'. r = Inr t' \<and> ta_fails t' = 0) \<longleftrightarrow> ta_fails t = 0 \<and> all_clean ?okc (campaign_configs args) w w'"
  proof (rule run_configs_clean [OF run])
    fix c w1 r1 w2
    show "?run c w1 = Some (Inr r1, w2) \<Longrightarrow> (\<exists>results. r1 = Inr results \<and> list_all cr_ok results) \<longleftrightarrow> ?okc c w1 w2"
      unfolding run_config_passes [symmetric] by auto
    show "?okc c w1 w2 \<Longrightarrow> \<exists>r. ?run c w1 = Some (Inr r, w2)"
      unfolding run_config_passes [symmetric] by auto
  qed (simp add: t)
  moreover have "code = 0 \<longleftrightarrow> (\<exists>t'. r = Inr t' \<and> ta_fails t' = 0)"
  proof (cases r)
    case (Inl p)
    then have "fst p = 1" using failed run by (cases p) fastforce
    then show ?thesis by (cases p) (simp add: code Inl)
  qed (simp add: code)
  ultimately show ?thesis using t by simp
qed

section \<open>A clean campaign\<close>

text \<open>
  A world in which every command succeeds with the same output, a final state and \<open>PASS\<close>, and in
  which the testbench is up to date; random numbers that are zero for seed 7 and num upward
  for other seeds.
\<close>

definition sample_output :: string where
  "sample_output =
     ''STATE outcome=DONE result=0x600D'' @ [CHR 0x0A] @
     ''R 0 0 0 0 0 0 0 0'' @ [CHR 0x0A] @ ''S 0 0 0 0 0 0 0 0'' @ [CHR 0x0A] @
     concat (map (\<lambda>d. ''[0x7E0'' @ [d] @ ''] = 0'' @ [CHR 0x0A]) ''0123456789ABCDEF'') @
     concat (map (\<lambda>d. ''[0x7E1'' @ [d] @ ''] = 0'' @ [CHR 0x0A]) ''0123456789ABCDEF'') @ ''PASS'' @ [CHR 0x0A]"

definition sample_proc :: proc where
  "sample_proc = \<lparr>p_returncode = 0, p_stdout = sample_output, p_stderr = []\<rparr>"

definition sample_world :: "unit world" where
  "sample_world = \<lparr>w_write = (\<lambda>_ _ w. w), w_exec = (\<lambda>_ w. (sample_proc, w)), w_exists = (\<lambda>_ _. True),
     w_mtime = (\<lambda>p _. if endswith p ''/tb'' then 1 else 0), w_isdir = (\<lambda>_ _. True), w_writable = (\<lambda>_ _. True),
     w_var = (\<lambda>_ _. None), w_setvar = (\<lambda>_ _ w. w), w_which = (\<lambda>_ _. None)\<rparr>"

definition sample_tools :: tools where
  "sample_tools = \<lparr>tl_python = ''python3'', tl_here = ''tools'', tl_iss = Inr ''sim'', tl_llvm = Inl (RuntimeError [])\<rparr>"

definition sample_random :: "int \<Rightarrow> nat \<Rightarrow> int" where
  "sample_random seed = (if seed = 7 then (\<lambda>_. 0) else int)"

definition sample_args :: cli where
  "sample_args = \<lparr>cl_seed = None, cl_campaign = Some 1, cl_base_seed = Some 7, cl_random_seed = False,
     cl_family = ''rc16'', cl_config = Some ''min'', cl_cores = ''rc16-1'', cl_jobs = 1, cl_outdir = ''out''\<rparr>"

text \<open>The state read from the output; the arguments of the command do not matter.\<close>

lemma run_const:
  "run_fast_state (\<lambda>_. p) (Inr i) family config img n base len =
    bindE (sim_base_args family config img i) (\<lambda>_.
    bindE (parse_fast_state (p_stdout p @ p_stderr p) base len) (\<lambda>st.
    Inr (st(''returncode'' \<mapsto> VInt (p_returncode p), ''stdout'' \<mapsto> VText (p_stdout p @ p_stderr p),
      ''stderr'' \<mapsto> VText (p_stderr p)))))"
  by (simp add: run_fast_state_def Let_def)

lemma sample_parse:
  "case parse_fast_state sample_output (Some 0x7E00) 32 of
     Inl _ \<Rightarrow> False
   | Inr st \<Rightarrow> passed st \<and> st ''r'' = Some (VInts (replicate 8 0)) \<and> st ''s'' = Some (VInts (replicate 8 0)) \<and>
       st ''mem'' = Some (VInts (replicate 32 0))"
  by code_simp

lemma sample_parse_check: "case parse_fast_state sample_output None 0 of Inl _ \<Rightarrow> False | Inr st \<Rightarrow> passed st"
  by code_simp

lemma sample_compare:
  "case compare_item (\<lambda>_ lo _. lo) (Inr ''sim'') (\<lambda>_. sample_proc) ''rc16-1'' ''rc16'' ''min'' 7 img tb of
     Inl _ \<Rightarrow> False | Inr (ok, _) \<Rightarrow> ok"
  by code_simp

lemma sample_probes: "case sample_range 4 WIN_WORDS (reset_gen sample_random (7 XOR 0x5EED)) of
    Some (Inr (ws, _)) \<Rightarrow> sort ws = [0, 1, 2, 3] | _ \<Rightarrow> False"
  by code_simp

lemma sample_build:
  "build_tb sample_world ''.'' ''fuzz'' ''rc16-1'' ''rc16'' ''min'' ''out'' () = Some (Inr ''out/v_trace_rc16-1_min/tb'', ())"
  by code_simp

text \<open>The case of seed 7 is made.\<close>

lemma bindA_pass: "m w = Some (Inr x, w1) \<Longrightarrow> f x w1 = r \<Longrightarrow> bindA m f w = r"
  by (simp add: bindA_def)

lemma sample_acts:
  "writeA sample_world p s () = Some (Inr (), ())"
  "assemble_file sample_world sample_tools p q prof mdu () = Some (Inr (), ())"
  "runA sample_world f () = Some (f (\<lambda>_. sample_proc), ())"
  "liftA (Inr x) () = Some (Inr x, ())"
  by (simp_all add: writeA_def assemble_file_def checkedA_def runA_def liftA_def sample_world_def sample_proc_def)

lemma sample_case:
  "\<exists>img. make_case sample_world sample_tools sample_random 7 ''rc16'' ''min'' ''out'' () = Some (Inr img, ())"
proof -
  let ?e = "\<lparr>ex_r = replicate 8 0, ex_mem = replicate 32 0, ex_probes = [0, 1, 2, 3], ex_s = replicate 8 0, ex_r7 = 0\<rparr>"
  obtain cfg where cfg: "parse_config ''min'' = Inr cfg" by (simp add: parse_config_def RC16_CONFIGS_def Let_def)
  have zero: "sample_random 7 = (\<lambda>_ _. 0) (7 :: int)" by (simp add: sample_random_def)
  have emits: "\<exists>prog s. emit sample_random cfg 7 ''min'' expect = Some (Inr (prog, s))"
    if "case expect of None \<Rightarrow> True | Some e \<Rightarrow> expect_ok e" for expect
    using zero_stream.emit_runs [OF zero_body_step that, of sample_random 7 cfg "''min''"]
    by (auto simp: reset_gen_def sample_random_def)
  have "expect_ok ?e" by (simp add: expect_ok_def halfwords_def WIN_WORDS_def list_all_iff)
  then obtain p1 s1 p2 s2 where p1: "emit sample_random cfg 7 ''min'' None = Some (Inr (p1, s1))"
    and p2: "emit sample_random cfg 7 ''min'' (Some ?e) = Some (Inr (p2, s2))"
    using emits [of None] emits [of "Some ?e"] by auto
  obtain st where st: "parse_fast_state sample_output (Some 0x7E00) 32 = Inr st" "passed st"
    "st ''r'' = Some (VInts (replicate 8 0))" "st ''s'' = Some (VInts (replicate 8 0))" "st ''mem'' = Some (VInts (replicate 32 0))"
    using sample_parse by (auto split: sum.splits)
  obtain chk where chk: "parse_fast_state sample_output None 0 = Inr chk" "passed chk"
    using sample_parse_check by (auto split: sum.splits)
  have args: "\<exists>a. sim_base_args ''rc16'' ''min'' img ''sim'' = Inr a" for img
    using cfg by (simp add: sim_base_args_def)
  have "drop_bit 1 WIN = 0x7E00" "nat WIN_WORDS = 32" by (simp_all add: WIN_def WIN_WORDS_def drop_bit_div)
  then have sim: "\<exists>st'. rc16_state (\<lambda>_. sample_proc) (Inr ''sim'') img ''min'' True = Inr st' \<and> finished st' \<and>
      state_ints st' ''r'' = Inr (replicate 8 0) \<and> state_ints st' ''s'' = Inr (replicate 8 0) \<and>
      state_ints st' ''mem'' = Inr (replicate 32 0)" for img
    using st args [of img] by (auto simp: rc16_state_def run_const sample_proc_def finished_def passed_def state_ints_def)
  have chk': "\<exists>st'. rc16_state (\<lambda>_. sample_proc) (Inr ''sim'') img ''min'' False = Inr st' \<and> passed st'" for img
    using chk args [of img] by (auto simp: rc16_state_def run_const sample_proc_def finished_def passed_def)
  have pw: "probe_words sample_random 7 WIN_WORDS () = Some (Inr [0, 1, 2, 3], ())"
    using sample_probes by (auto simp: probe_words_def split: option.splits sum.splits prod.splits)
  let ?p = "case_stem ''out'' ''fuzz_'' ''min'' 7 @ ''_probe.bin''" and ?b = "case_stem ''out'' ''fuzz_'' ''min'' 7 @ ''.bin''"
  obtain s1 where s1: "rc16_state (\<lambda>_. sample_proc) (Inr ''sim'') ?p ''min'' True = Inr s1" "finished s1"
    "state_ints s1 ''r'' = Inr (replicate 8 0)" "state_ints s1 ''s'' = Inr (replicate 8 0)"
    "state_ints s1 ''mem'' = Inr (replicate 32 0)"
    using sim by blast
  obtain s2 where s2: "rc16_state (\<lambda>_. sample_proc) (Inr ''sim'') ?b ''min'' False = Inr s2" "passed s2"
    using chk' by blast
  have iss: "tl_iss sample_tools = Inr ''sim''" by (simp add: sample_tools_def)
  have nth: "py_nth (replicate 8 (0::int)) 4 = Inr 0" by code_simp
  have fam: "make_case sample_world sample_tools sample_random 7 ''rc16'' ''min'' ''out'' =
    make_rc16_case sample_world sample_tools sample_random 7 ''min'' ''out''"
    by (simp add: make_case_def)
  have gen: "genA (emit sample_random cfg 7 ''min'' None) () = Some (Inr p1, ())"
    "genA (emit sample_random cfg 7 ''min'' (Some ?e)) () = Some (Inr p2, ())"
    by (simp_all add: genA_def p1 p2)
  note steps = sample_acts iss cfg gen s1 s2 nth pw retA_def
  show ?thesis
    by (rule exI [of _ ?b]) (simp only: fam make_rc16_case_def Let_def bindA_def steps option.case sum.case prod.case not_True_eq_False if_False)
qed

lemma sample_config_clean:
  "config_clean sample_world sample_tools ''.'' ''fuzz'' sample_random (\<lambda>_ lo _. lo) ''rc16'' ''out'' [''rc16-1''] [7] ''min'' () ()"
proof -
  obtain img where img: "make_case sample_world sample_tools sample_random 7 ''rc16'' ''min'' ''out'' () = Some (Inr img, ())"
    using sample_case by blast
  have cmp: "\<exists>d out rtl. compare_item (\<lambda>_ lo _. lo) (tl_iss sample_tools) (\<lambda>cmd. fst (w_exec sample_world cmd ()))
      ''rc16-1'' ''rc16'' ''min'' 7 img tb = Inr (True, d, out, rtl)" for tb
    using sample_compare [of img tb] by (auto simp: sample_tools_def sample_world_def split: sum.splits)
  show ?thesis
    unfolding config_clean_def
    by (rule exI [of _ "[img]"], rule exI [of _ "[''out/v_trace_rc16-1_min/tb'']"], rule exI [of _ "()"])
      (simp add: bindA_def retA_def img sample_build cmp)
qed

theorem campaign_exit_status_witness:
  "\<exists>lines. campaign sample_world sample_tools ''.'' ''fuzz'' sample_random (\<lambda>_ lo _. lo) 0 sample_args 1 () =
    Some (Inr (0, lines), ())"
proof -
  have cores: "campaign_cores sample_args config = [''rc16-1'']" for config
    unfolding campaign_cores_def by code_simp
  have seeds: "campaign_seeds 0 sample_args 1 = [7]" by code_simp
  have configs: "campaign_configs sample_args = [''min'']" by code_simp
  have args: "cl_family sample_args = ''rc16''" "cl_outdir sample_args = ''out''" by (simp_all add: sample_args_def)
  obtain results where "run_config sample_world sample_tools ''.'' ''fuzz'' sample_random (\<lambda>_ lo _. lo) ''rc16'' ''out'' ''min''
      [''rc16-1''] [7] () = Some (Inr (Inr results), ())"
    using run_config_passes sample_config_clean by metis
  then obtain code lines where run: "campaign sample_world sample_tools ''.'' ''fuzz'' sample_random (\<lambda>_ lo _. lo) 0
      sample_args 1 () = Some (Inr (code, lines), ())"
    by (auto simp: campaign_def Let_def configs cores seeds args bindA_def retA_def)
  have "code = 0"
    using campaign_exit_status [OF run] sample_config_clean by (simp add: configs cores seeds args)
  then show ?thesis using run by blast
qed

end
