(* ===== verification/HexText.thy ===== *)
theory HexText
  imports FuzzLines
begin

text \<open>
  Lower-case hexadecimal text: the conversions \<open>%0*x\<close> and \<open>:03x\<close>, \<open>int(s, 16)\<close> on a string of
  digits, and the fact that reading a printed number gives the number back.
\<close>

section \<open>Conversions\<close>

definition is_hex :: "char \<Rightarrow> bool" where
  "is_hex c \<longleftrightarrow> hex_val c \<noteq> None"

text \<open>\<open>'%0*x' % (w, v)\<close>: the magnitude padded with zeros to width \<open>w\<close> (the sign counts).\<close>

definition fmt_0x :: "nat \<Rightarrow> int \<Rightarrow> string" where
  "fmt_0x w v = py_lower (fmt_0X w v)"

text \<open>\<open>int(s, 16)\<close> on a nonempty string of hexadecimal digits.\<close>

definition py_int16 :: "string \<Rightarrow> int" where
  "py_int16 s = number_of 16 (map (\<lambda>c. the (hex_val c)) s)"

section \<open>Printing and reading\<close>

lemma length_hex_str: "n < 16 ^ w \<Longrightarrow> 0 < w \<Longrightarrow> length (hex_str n) \<le> w"
proof (induction w arbitrary: n)
  case (Suc w)
  show ?case
  proof (cases "n < 16")
    case True
    then show ?thesis by (subst hex_str.simps) simp
  next
    case False
    then have "0 < w" using Suc.prems by (cases w) auto
    moreover have "n div 16 < 16 ^ w" using Suc.prems by (simp add: less_mult_imp_div_less)
    ultimately show ?thesis using False Suc.IH [of "n div 16"] by (subst hex_str.simps) simp
  qed
qed simp

lemma hex_val_lower_digit: "n < 16 \<Longrightarrow> hex_val (lower_char (hex_digit n)) = Some n"
proof -
  assume n: "n < 16"
  have "ccode (hex_digit n) = (if n < 10 then 48 + n else 55 + n)"
    using n by (simp add: hex_digit_def ccode_cchr)
  then show ?thesis
    using n by (auto simp: hex_val_def lower_char_def char_class_defs ccode_cchr)
qed

lemma fmt_0x_length: "0 \<le> v \<Longrightarrow> v < 16 ^ w \<Longrightarrow> 0 < w \<Longrightarrow> length (fmt_0x w v) = w"
  using length_hex_str [of "nat v" w] by (simp add: fmt_0x_def fmt_0X_def py_lower_def Let_def nat_less_iff)

lemma fmt_0x_digits:
  assumes "0 \<le> v"
  shows "fmt_0x w v \<noteq> []" "list_all is_hex (fmt_0x w v)" "py_int16 (fmt_0x w v) = v"
proof -
  obtain ns where ns: "fmt_0X w v = map hex_digit ns" "ns \<noteq> []" "list_all (\<lambda>d. d < 16) ns"
    "number_of 16 ns = v" using fmt_0X_digits [OF assms] by blast
  have form: "fmt_0x w v = map (\<lambda>d. lower_char (hex_digit d)) ns" by (simp add: fmt_0x_def py_lower_def ns(1))
  show "fmt_0x w v \<noteq> []" using ns(2) form by simp
  show "list_all is_hex (fmt_0x w v)"
    using ns(3) hex_val_lower_digit by (auto simp: form list_all_iff is_hex_def)
  have "map (\<lambda>c. the (hex_val c)) (fmt_0x w v) = ns"
    using ns(3) hex_val_lower_digit by (auto simp: form list_all_iff intro!: map_idI)
  then show "py_int16 (fmt_0x w v) = v" using ns(4) by (simp add: py_int16_def)
qed

lemma is_hex_plain:
  assumes "is_hex c"
  shows "\<not> py_space c" "\<not> line_end c" "c \<noteq> CHR 0x0A" "c \<noteq> CHR 0x0D" "c \<noteq> CHR ''.''" "ccode c < 128"
  using assms by (auto simp: is_hex_def hex_val_def char_class_defs line_end_def ccode_def split: if_splits)

text \<open>Lines without a line boundary, each ended by a line feed, are what \<open>splitlines\<close> gives back.\<close>

lemma splitlines_text:
  assumes "list_all (list_all (\<lambda>c. \<not> line_end c)) ls"
  shows "splitlines (concat (map (\<lambda>l. l @ [CHR 0x0A]) ls)) = ls"
proof -
  have line: "list_all (\<lambda>c. \<not> line_end c) l \<Longrightarrow>
      splitlines_acc cur (l @ CHR 0x0A # s) = (cur @ l) # splitlines_acc [] s" for cur l s
  proof (induction l arbitrary: cur)
    case Nil
    show ?case by (simp add: line_end_def ccode_def)
  next
    case (Cons c l)
    have "c \<noteq> CHR 0x0D" using Cons.prems by (auto simp: line_end_def ccode_def)
    then show ?case using Cons by simp
  qed
  show ?thesis using assms unfolding splitlines_def by (induction ls) (simp_all add: line)
qed

end
