(* ===== verification/BootRam.thy ===== *)
theory BootRam
  imports HexText
begin

text \<open>
  \<open>tools/update_ecp5_bootram.py\<close>: replacing the boot image in a placed ECP5 configuration.
  The image is 4096 words of 32 bits; the configuration keeps it in eight memory blocks of
  2048 entries, one per 4-bit lane, two neighbouring words per entry. The tool finds the
  blocks that hold the old image's lanes and puts the new image's lanes in their place.

  The file system is a record: what reading a path gives, how a path resolves, which paths
  are directories. A regular expression anchored at line starts and ends is a function on the
  line that it can match.
\<close>

section \<open>Constants, errors and files\<close>

definition WORDS :: nat where "WORDS = 4096"
definition LANES :: nat where "LANES = 8"
definition BANK_WORDS :: nat where "BANK_WORDS = 2048"
definition ROWS :: nat where "ROWS = 256"

type_synonym path = string

datatype boot_error =
    SameConfig | SameImage | NoDirectory path
  | CannotRead path | WrongCount path nat | BadWord path nat
  | NotLF path | BadBlock path | DuplicateId path string | BadGeometry path string
  | TooFewBlocks path nat
  | NoUniqueMatch nat "string list" | LanesCoincide

type_synonym 'a boot = "(boot_error, 'a) result"

record files =
  fs_bytes :: "path \<Rightarrow> string option"
  fs_resolve :: "path \<Rightarrow> path"
  fs_parent :: "path \<Rightarrow> path"
  fs_is_dir :: "path \<Rightarrow> bool"

text \<open>\<open>path.read_bytes().decode("ascii")\<close>, the two exceptions turned into the tool's error.\<close>

definition read_ascii :: "files \<Rightarrow> path \<Rightarrow> string boot" where
  "read_ascii fs p = (case fs_bytes fs p of
       None \<Rightarrow> Inl (CannotRead p)
     | Some s \<Rightarrow> if list_all (\<lambda>c. ccode c < 128) s then Inr s else Inl (CannotRead p))"

section \<open>The image\<close>

definition image_word :: "string \<Rightarrow> bool" where
  "image_word l \<longleftrightarrow> length l = 8 \<and> list_all is_hex l"

fun first_bad :: "nat \<Rightarrow> string list \<Rightarrow> nat option" where
  "first_bad i [] = None"
| "first_bad i (l # ls) = (if image_word l then first_bad (Suc i) ls else Some i)"

definition image_of :: "files \<Rightarrow> path \<Rightarrow> int list boot" where
  "image_of fs p = bindE (read_ascii fs p) (\<lambda>s.
     let ls = splitlines s in
     if length ls \<noteq> WORDS then Inl (WrongCount p (length ls))
     else (case first_bad 1 ls of
             Some i \<Rightarrow> Inl (BadWord p i)
           | None \<Rightarrow> Inr (map py_int16 ls)))"

definition bank_entry :: "int list \<Rightarrow> nat \<Rightarrow> nat \<Rightarrow> int" where
  "bank_entry words lane address =
     (drop_bit (4 * lane) (words ! (2 * address)) AND 0xF)
     OR push_bit 4 (drop_bit (4 * lane) (words ! (2 * address + 1)) AND 0xF)"

definition banks :: "int list \<Rightarrow> int list list" where
  "banks words = map (\<lambda>lane. map (bank_entry words lane) [0..<BANK_WORDS]) [0..<LANES]"

section \<open>The configuration\<close>

text \<open>The lines of a text: the pieces between its line feeds.\<close>

fun lf_lines_acc :: "string \<Rightarrow> string \<Rightarrow> string list" where
  "lf_lines_acc cur [] = [cur]"
| "lf_lines_acc cur (c # cs) =
     (if c = CHR 0x0A then cur # lf_lines_acc [] cs else lf_lines_acc (cur @ [c]) cs)"

definition lf_lines :: "string \<Rightarrow> string list" where
  "lf_lines s = lf_lines_acc [] s"

definition tab_blank :: "char \<Rightarrow> bool" where
  "tab_blank c \<longleftrightarrow> c = CHR '' '' \<or> c = CHR 0x09"

text \<open>\<open>^\.bram_init[ \t]+(\S+)[ \t]*$\<close> on a line: the identifier.\<close>

definition match_header :: "string \<Rightarrow> string option" where
  "match_header l =
     (if startswith l ''.bram_init'' then
        let r = drop 10 l; s = dropWhile tab_blank r;
            i = takeWhile (\<lambda>c. \<not> py_space c) s;
            rest = dropWhile tab_blank (dropWhile (\<lambda>c. \<not> py_space c) s)
        in if r \<noteq> [] \<and> tab_blank (hd r) \<and> i \<noteq> [] \<and> rest = [] then Some i else None
      else None)"

text \<open>One row of a block: eight words of three hexadecimal digits, blanks between them.\<close>

definition match_word :: "string \<Rightarrow> (string \<times> string) option" where
  "match_word s = (if 3 \<le> length s \<and> list_all is_hex (take 3 s) then Some (take 3 s, drop 3 s) else None)"

fun match_more :: "nat \<Rightarrow> string \<Rightarrow> string list option" where
  "match_more 0 s = (if s = [] then Some [] else None)"
| "match_more (Suc n) s =
     (if s \<noteq> [] \<and> tab_blank (hd s) then
        (case match_word (dropWhile tab_blank s) of
           None \<Rightarrow> None
         | Some (w, r) \<Rightarrow> map_option ((#) w) (match_more n r))
      else None)"

definition match_row :: "string \<Rightarrow> string list option" where
  "match_row l = (case match_word l of
       None \<Rightarrow> None
     | Some (w, r) \<Rightarrow> map_option ((#) w) (match_more 7 r))"

definition text_len :: "string list \<Rightarrow> nat" where
  "text_len ls = sum_list (map (\<lambda>l. length l + 1) ls)"

text \<open>A match of \<open>BLOCK\<close>: where it starts, its groups, the span and the words of its data.\<close>

record bmatch =
  m_start :: nat
  m_id :: string
  m_data :: nat
  m_end :: nat
  m_words :: "string list"

text \<open>Where \<open>HEADER\<close> matches; \<open>o\<close> is the offset of the first line of the list.\<close>

fun header_starts :: "nat \<Rightarrow> string list \<Rightarrow> nat list" where
  "header_starts k [] = []"
| "header_starts k (l # ls) =
     (if match_header l \<noteq> None then k # header_starts (k + length l + 1) ls
      else header_starts (k + length l + 1) ls)"

text \<open>
  \<open>BLOCK.finditer\<close>: a header line and then 256 rows, each ended by a line feed (so a line
  follows them); the search goes on after the match.
\<close>

definition rows_follow :: "string list \<Rightarrow> bool" where
  "rows_follow ls \<longleftrightarrow> ROWS < length ls \<and> list_all (\<lambda>l. match_row l \<noteq> None) (take ROWS ls)"

function block_matches :: "nat \<Rightarrow> string list \<Rightarrow> bmatch list" where
  "block_matches k [] = []"
| "block_matches k (l # ls) =
     (let d = k + length l + 1 in
      case match_header l of
        Some i \<Rightarrow>
          if rows_follow ls then
            let rows = take ROWS ls; e = d + text_len rows in
            \<lparr>m_start = k, m_id = i, m_data = d, m_end = e,
             m_words = concat (map (\<lambda>r. the (match_row r)) rows)\<rparr> # block_matches e (drop ROWS ls)
          else block_matches d ls
      | None \<Rightarrow> block_matches d ls)"
  by pat_completeness auto
termination by (relation "measure (\<lambda>(k, ls). length ls)") auto

record block =
  bl_id :: string
  bl_start :: nat
  bl_end :: nat
  bl_values :: "int list"

text \<open>The loop over the matches; \<open>ids\<close> are the identifiers seen so far.\<close>

fun check_blocks :: "path \<Rightarrow> string list \<Rightarrow> bmatch list \<Rightarrow> block list boot" where
  "check_blocks p ids [] = Inr []"
| "check_blocks p ids (m # ms) =
     (if m_id m \<in> set ids then Inl (DuplicateId p (m_id m))
      else
        let values = map py_int16 (m_words m) in
        if length values \<noteq> BANK_WORDS \<or> list_ex (\<lambda>v. v > 0x1FF) values
        then Inl (BadGeometry p (m_id m))
        else bindE (check_blocks p (m_id m # ids) ms) (\<lambda>bs.
          Inr (\<lparr>bl_id = m_id m, bl_start = m_data m, bl_end = m_end m, bl_values = values\<rparr> # bs)))"

definition parse_blocks :: "path \<Rightarrow> string \<Rightarrow> block list boot" where
  "parse_blocks p config =
     (if CHR 0x0D \<in> set config then Inl (NotLF p)
      else
        let ls = lf_lines config; matches = block_matches 0 ls in
        if set (header_starts 0 ls) \<noteq> set (map m_start matches) then Inl (BadBlock p)
        else bindE (check_blocks p [] matches) (\<lambda>blocks.
          if length blocks < LANES then Inl (TooFewBlocks p (length blocks)) else Inr blocks))"

definition config_blocks :: "files \<Rightarrow> path \<Rightarrow> (string \<times> block list) boot" where
  "config_blocks fs p =
     bindE (read_ascii fs p) (\<lambda>config. bindE (parse_blocks p config) (\<lambda>blocks. Inr (config, blocks)))"

section \<open>The update\<close>

definition replacement_row :: "int list \<Rightarrow> nat \<Rightarrow> string" where
  "replacement_row values k = py_join '' '' (map (fmt_0x 3) (take 8 (drop k values)))"

text \<open>\<open>range(0, BANK_WORDS, 8)\<close> has \<open>BANK_WORDS div 8\<close> elements.\<close>

definition replacement :: "int list \<Rightarrow> string" where
  "replacement values =
     concat (map (\<lambda>k. replacement_row values (8 * k) @ [CHR 0x0A]) [0..<BANK_WORDS div 8])"

fun select_lanes :: "block list \<Rightarrow> nat \<Rightarrow> int list list \<Rightarrow> nat list boot" where
  "select_lanes blocks lane [] = Inr []"
| "select_lanes blocks lane (bank # old) =
     (let found = filter (\<lambda>i. bl_values (blocks ! i) = bank) [0..<length blocks] in
      if length found \<noteq> 1 then Inl (NoUniqueMatch lane (map (\<lambda>i. bl_id (blocks ! i)) found))
      else bindE (select_lanes blocks (Suc lane) old) (\<lambda>r. Inr (hd found # r)))"

text \<open>
  \<open>sorted(enumerate(selected), key=..., reverse=True)\<close>: descending, equal keys in their
  original order.
\<close>

definition edit_order :: "block list \<Rightarrow> nat list \<Rightarrow> (nat \<times> nat) list" where
  "edit_order blocks selected =
     rev (sort_key (\<lambda>(lane, index). bl_start (blocks ! index)) (rev (enumerate 0 selected)))"

definition splice_bank :: "block list \<Rightarrow> int list list \<Rightarrow> string \<Rightarrow> nat \<times> nat \<Rightarrow> string" where
  "splice_bank blocks new config item = (case item of (lane, index) \<Rightarrow>
     take (bl_start (blocks ! index)) config @ replacement (new ! lane)
     @ drop (bl_end (blocks ! index)) config)"

definition update :: "files \<Rightarrow> path \<Rightarrow> path \<Rightarrow> path \<Rightarrow> path \<Rightarrow> (files \<times> string list) boot" where
  "update fs input_path output_path from_path to_path =
     (if fs_resolve fs input_path = fs_resolve fs output_path then Inl SameConfig
      else if fs_resolve fs from_path = fs_resolve fs to_path then Inl SameImage
      else if \<not> fs_is_dir fs (fs_parent fs output_path) then Inl (NoDirectory (fs_parent fs output_path))
      else
        bindE (image_of fs from_path) (\<lambda>w_old.
        bindE (image_of fs to_path) (\<lambda>w_new.
        bindE (config_blocks fs input_path) (\<lambda>(config, blocks).
        bindE (select_lanes blocks 0 (banks w_old)) (\<lambda>selected.
          if length (remdups selected) \<noteq> LANES then Inl LanesCoincide
          else
            let config' = foldl (splice_bank blocks (banks w_new)) config (edit_order blocks selected) in
            Inr (fs\<lparr>fs_bytes := (fs_bytes fs)(output_path \<mapsto> config')\<rparr>,
                 map (\<lambda>index. bl_id (blocks ! index)) selected))))))"

end
