(* ===== verification/BootLayout.thy ===== *)
theory BootLayout
  imports BootRam
begin

text \<open>
  The structure behind the matches of \<open>BootRam\<close>: a configuration whose headers all start
  blocks is a list of items, plain lines and memory blocks. The offsets the tool computes are
  those of the items, and putting new rows into a block changes nothing else.
\<close>

section \<open>Lines\<close>

abbreviation lf :: char where "lf \<equiv> CHR 0x0A"

definition no_lf :: "string \<Rightarrow> bool" where
  "no_lf l \<longleftrightarrow> lf \<notin> set l"

definition text_of :: "string list \<Rightarrow> string" where
  "text_of ls = concat (map (\<lambda>l. l @ [lf]) ls)"

lemma text_of_simps [simp]:
  "text_of [] = []" "text_of (l # ls) = l @ lf # text_of ls" "text_of (ls @ ms) = text_of ls @ text_of ms"
  by (simp_all add: text_of_def)

lemma length_text_of: "length (text_of ls) = text_len ls"
  by (induction ls) (simp_all add: text_len_def)

lemma text_len_simps [simp]:
  "text_len [] = 0" "text_len (l # ls) = length l + 1 + text_len ls"
  "text_len (ls @ ms) = text_len ls + text_len ms"
  by (simp_all add: text_len_def)

lemma lf_lines_acc_line: "no_lf l \<Longrightarrow> lf_lines_acc cur (l @ lf # s) = (cur @ l) # lf_lines_acc [] s"
  by (induction l arbitrary: cur) (auto simp: no_lf_def)

lemma lf_lines_acc_rest: "no_lf l \<Longrightarrow> lf_lines_acc cur l = [cur @ l]"
  by (induction l arbitrary: cur) (auto simp: no_lf_def)

lemma lf_lines_text: "list_all no_lf ls \<Longrightarrow> no_lf r \<Longrightarrow> lf_lines (text_of ls @ r) = ls @ [r]"
  unfolding lf_lines_def by (induction ls) (simp_all add: lf_lines_acc_line lf_lines_acc_rest)

lemma lf_lines_acc_inv:
  "no_lf cur \<Longrightarrow> \<exists>ls r. lf_lines_acc cur s = ls @ [r] \<and> list_all no_lf (ls @ [r]) \<and> cur @ s = text_of ls @ r"
proof (induction cur s rule: lf_lines_acc.induct)
  case (1 cur)
  then show ?case by (intro exI [of _ "[]"] exI [of _ cur]) simp
next
  case (2 cur c cs)
  show ?case
  proof (cases "c = lf")
    case True
    have "no_lf []" by (simp add: no_lf_def)
    then obtain ls r where "lf_lines_acc [] cs = ls @ [r]" "list_all no_lf (ls @ [r])" "cs = text_of ls @ r"
      using 2(1) [OF True] unfolding append_Nil by blast
    then show ?thesis using True 2(3) by (intro exI [of _ "cur # ls"] exI [of _ r]) simp
  next
    case False
    then show ?thesis using 2 by (auto simp: no_lf_def)
  qed
qed

lemma lf_lines_inv:
  obtains ls r where "lf_lines s = ls @ [r]" "list_all no_lf ls" "no_lf r" "s = text_of ls @ r"
  using lf_lines_acc_inv [of "[]" s] by (auto simp: lf_lines_def no_lf_def)

section \<open>Rows\<close>

lemma tab_blank_facts: "tab_blank c \<Longrightarrow> c \<noteq> lf" "tab_blank c \<Longrightarrow> ccode c < 128"
  by (auto simp: tab_blank_def ccode_def)

lemma match_word_chars: "match_word s = Some (w, r) \<Longrightarrow> s = w @ r \<and> length w = 3 \<and> list_all is_hex w"
  by (auto simp: match_word_def split: if_splits)

lemma match_more_facts:
  "match_more n s = Some ws \<Longrightarrow>
   list_all (\<lambda>c. is_hex c \<or> tab_blank c) s \<and> length ws = n \<and> list_all (\<lambda>w. length w = 3 \<and> list_all is_hex w) ws"
proof (induction n s arbitrary: ws rule: match_more.induct)
  case (2 n s)
  from "2.prems" obtain w r vs where s: "s \<noteq> []" "tab_blank (hd s)"
    and w: "match_word (dropWhile tab_blank s) = Some (w, r)" and vs: "match_more n r = Some vs" "ws = w # vs"
    by (auto split: if_splits option.splits)
  note IH = "2.IH" [OF _ w _ vs(1), simplified]
  note mw = match_word_chars [OF w]
  have "s = takeWhile tab_blank s @ w @ r" using mw by (metis takeWhile_dropWhile_id)
  moreover have "list_all (\<lambda>c. is_hex c \<or> tab_blank c) (takeWhile tab_blank s @ w @ r)"
    using IH s mw by (auto simp: list_all_iff dest: set_takeWhileD)
  ultimately show ?case using IH s mw vs by simp
qed (auto split: if_splits)

lemma match_row_facts:
  assumes "match_row l = Some ws"
  shows "list_all (\<lambda>c. is_hex c \<or> tab_blank c) l" "length ws = 8"
    "list_all (\<lambda>w. length w = 3 \<and> list_all is_hex w) ws" "no_lf l" "match_header l = None"
proof -
  from assms obtain w r vs where w: "match_word l = Some (w, r)" and vs: "match_more 7 r = Some vs" "ws = w # vs"
    by (auto simp: match_row_def split: option.splits)
  note mw = match_word_chars [OF w] and mm = match_more_facts [OF vs(1)]
  show chars: "list_all (\<lambda>c. is_hex c \<or> tab_blank c) l" using mw mm by (auto simp: list_all_iff)
  show "length ws = 8" "list_all (\<lambda>w. length w = 3 \<and> list_all is_hex w) ws" using mw mm vs by simp_all
  show "no_lf l" unfolding no_lf_def
  proof
    assume "lf \<in> set l"
    then have "is_hex lf \<or> tab_blank lf" using chars by (simp add: list_all_iff)
    then show False using is_hex_plain(3) tab_blank_facts(1) by blast
  qed
  obtain c cs where "l = c # cs" "is_hex c" using mw by (cases w) auto
  then show "match_header l = None" using is_hex_plain(5) [of c] by (auto simp: match_header_def startswith_def)
qed

section \<open>Items\<close>

datatype item = Line string | Bram string "string list"

fun item_lines :: "item \<Rightarrow> string list" where
  "item_lines (Line l) = [l]"
| "item_lines (Bram h rows) = h # rows"

definition items_lines :: "item list \<Rightarrow> string list" where
  "items_lines its = concat (map item_lines its)"

lemma items_lines_simps [simp]:
  "items_lines [] = []" "items_lines (it # its) = item_lines it @ items_lines its"
  by (simp_all add: items_lines_def)

definition rows_ok :: "string list \<Rightarrow> bool" where
  "rows_ok rows \<longleftrightarrow> length rows = ROWS \<and> list_all (\<lambda>l. match_row l \<noteq> None) rows"

fun item_ok :: "item \<Rightarrow> bool" where
  "item_ok (Line l) \<longleftrightarrow> no_lf l \<and> match_header l = None"
| "item_ok (Bram h rows) \<longleftrightarrow> no_lf h \<and> match_header h \<noteq> None \<and> rows_ok rows"

definition row_words :: "string list \<Rightarrow> string list" where
  "row_words rows = concat (map (\<lambda>r. the (match_row r)) rows)"

text \<open>The matches an item list has, by its offsets.\<close>

fun item_matches :: "nat \<Rightarrow> item list \<Rightarrow> bmatch list" where
  "item_matches k [] = []"
| "item_matches k (Line l # its) = item_matches (k + length l + 1) its"
| "item_matches k (Bram h rows # its) =
     (let d = k + length h + 1; e = d + text_len rows in
      \<lparr>m_start = k, m_id = the (match_header h), m_data = d, m_end = e, m_words = row_words rows\<rparr>
      # item_matches e its)"

lemma rows_ok_no_header: "rows_ok rows \<Longrightarrow> list_all (\<lambda>l. match_header l = None \<and> no_lf l) rows"
  using match_row_facts(4,5) by (fastforce simp: rows_ok_def list_all_iff)

lemma header_starts_skip:
  "list_all (\<lambda>l. match_header l = None) rows \<Longrightarrow>
   header_starts k (rows @ ls) = header_starts (k + text_len rows) ls"
  by (induction rows arbitrary: k) (simp_all add: add.assoc)

lemma block_matches_items:
  "list_all item_ok its \<Longrightarrow> match_header r = None \<Longrightarrow>
   block_matches k (items_lines its @ [r]) = item_matches k its"
proof (induction k its rule: item_matches.induct)
  case (3 k h rows its)
  then have rows: "length rows = ROWS" "list_all (\<lambda>l. match_row l \<noteq> None) rows" by (auto simp: rows_ok_def)
  then have "rows_follow (rows @ items_lines its @ [r])" by (simp add: rows_follow_def)
  then show ?case using 3 rows by (auto simp: Let_def row_words_def)
qed (simp_all add: Let_def)

lemma header_starts_items:
  "list_all item_ok its \<Longrightarrow> match_header r = None \<Longrightarrow>
   header_starts k (items_lines its @ [r]) = map m_start (item_matches k its)"
proof (induction k its rule: item_matches.induct)
  case (3 k h rows its)
  then have "list_all (\<lambda>l. match_header l = None) rows"
    using rows_ok_no_header [of rows] by (simp add: list_all_iff)
  then show ?case using 3 header_starts_skip [of rows "k + length h + 1" "items_lines its @ [r]"]
    by (auto simp: Let_def)
qed simp_all

lemma item_lines_no_lf: "list_all item_ok its \<Longrightarrow> list_all no_lf (items_lines its)"
proof (induction its)
  case (Cons it its)
  then show ?case using rows_ok_no_header by (cases it) (auto simp: list_all_iff)
qed simp

section \<open>A configuration that is accepted is a list of items\<close>

lemma header_starts_ge: "x \<in> set (header_starts k ls) \<Longrightarrow> k \<le> x"
  by (induction k ls rule: header_starts.induct) (auto split: if_splits)

lemma match_starts_ge: "m \<in> set (block_matches k ls) \<Longrightarrow> k \<le> m_start m"
proof (induction k ls rule: block_matches.induct)
  case (2 k l ls)
  show ?case
    using "2.prems" "2.IH" by (fastforce simp: Let_def split: option.splits if_splits)
qed simp

lemma items_exist:
  "set (header_starts k (ls @ [r])) = set (map m_start (block_matches k (ls @ [r]))) \<Longrightarrow>
   list_all no_lf ls \<Longrightarrow> \<exists>its. ls = items_lines its \<and> list_all item_ok its \<and> match_header r = None"
proof (induction "length ls" arbitrary: k ls rule: less_induct)
  case less
  show ?case
  proof (cases ls)
    case Nil
    have "match_header r = None"
      using less.prems(1) by (auto simp: Nil Let_def rows_follow_def split: option.splits if_splits)
    then show ?thesis by (intro exI [of _ "[]"]) (simp add: Nil)
  next
    case (Cons l ls')
    show ?thesis
    proof (cases "match_header l")
      case None
      then obtain its where "ls' = items_lines its" "list_all item_ok its" "match_header r = None"
        using less.prems less.hyps [of ls' "k + length l + 1"] by (auto simp: Cons Let_def)
      then show ?thesis using None less.prems(2) by (intro exI [of _ "Line l # its"]) (simp add: Cons)
    next
      case (Some i)
      define d where "d = k + length l + 1"
      have follow: "rows_follow (ls' @ [r])"
      proof (rule ccontr)
        assume "\<not> rows_follow (ls' @ [r])"
        then have "k \<in> set (map m_start (block_matches d (ls' @ [r])))"
          using less.prems(1) Some by (auto simp: Cons Let_def d_def)
        then obtain m where m: "m \<in> set (block_matches d (ls' @ [r]))" "m_start m = k" by auto
        show False using match_starts_ge [OF m(1)] m(2) by (simp add: d_def)
      qed
      define rows where "rows = take ROWS ls'"
      define rest where "rest = drop ROWS ls'"
      have len: "ROWS \<le> length ls'" using follow by (simp add: rows_follow_def)
      have ok: "rows_ok rows" using follow len by (simp add: rows_follow_def rows_ok_def rows_def)
      have ls': "ls' = rows @ rest" by (simp add: rows_def rest_def)
      define e where "e = d + text_len rows"
      have hs: "header_starts k (ls @ [r]) = k # header_starts e (rest @ [r])"
        using Some header_starts_skip [of rows d "rest @ [r]"] rows_ok_no_header [OF ok]
        by (auto simp: Cons ls' d_def e_def list_all_iff)
      have bs: "\<exists>m. block_matches k (ls @ [r]) = m # block_matches e (rest @ [r]) \<and> m_start m = k"
        using Some follow len by (simp add: Cons Let_def d_def e_def rows_def rest_def)
      have gt: "k < e" by (simp add: e_def d_def)
      have "set (header_starts e (rest @ [r])) = set (map m_start (block_matches e (rest @ [r])))"
      proof -
        have "k \<notin> set (header_starts e (rest @ [r]))" using header_starts_ge gt by fastforce
        moreover have "k \<notin> set (map m_start (block_matches e (rest @ [r])))"
          using match_starts_ge [of _ e "rest @ [r]"] gt by fastforce
        moreover have "insert k (set (header_starts e (rest @ [r])))
            = insert k (set (map m_start (block_matches e (rest @ [r]))))"
          using less.prems(1) hs bs by auto
        ultimately show ?thesis by (metis insert_ident)
      qed
      moreover have "length rest < length ls" by (simp add: Cons ls')
      moreover have "list_all no_lf rest" using less.prems(2) by (simp add: Cons ls')
      ultimately obtain its where "rest = items_lines its" "list_all item_ok its" "match_header r = None"
        using less.hyps by blast
      then show ?thesis using Some ok less.prems(2)
        by (intro exI [of _ "Bram l rows # its"]) (simp add: Cons ls')
    qed
  qed
qed

end
