(* ===== verification/BootEdit.thy ===== *)
theory BootEdit
  imports BootLayout
begin

text \<open>
  Editing a configuration: replacing a block's rows by splicing text at its offsets is putting
  the rows into its item. Splices made in descending order of their offsets do not disturb each
  other, whatever the lengths of the new rows.
\<close>

section \<open>What an item list holds\<close>

fun item_ids :: "item list \<Rightarrow> string list" where
  "item_ids [] = []"
| "item_ids (Line l # its) = item_ids its"
| "item_ids (Bram h rows # its) = the (match_header h) # item_ids its"

fun item_rows :: "item list \<Rightarrow> string list list" where
  "item_rows [] = []"
| "item_rows (Line l # its) = item_rows its"
| "item_rows (Bram h rows # its) = rows # item_rows its"

lemma item_matches_parts:
  "map m_id (item_matches k its) = item_ids its"
  "map m_words (item_matches k its) = map row_words (item_rows its)"
  "length (item_matches k its) = length (item_rows its)"
  by (induction k its rule: item_matches.induct) (simp_all add: Let_def)

lemma item_matches_sorted:
  "sorted_wrt (<) (map m_data (item_matches k its)) \<and> (\<forall>m \<in> set (item_matches k its). k < m_data m)"
proof (induction k its rule: item_matches.induct)
  case (3 k h rows its)
  define d where "d = k + length h + 1"
  then show ?case using 3 by (fastforce simp: Let_def)
qed (auto simp: Let_def)

section \<open>Putting rows into a block\<close>

fun put :: "nat \<Rightarrow> string list \<Rightarrow> item list \<Rightarrow> item list" where
  "put j rows [] = []"
| "put j rows (Line l # its) = Line l # put j rows its"
| "put j rows (Bram h old # its) =
     (if j = 0 then Bram h rows # its else Bram h old # put (j - 1) rows its)"

lemma put_ids: "item_ids (put j rows its) = item_ids its"
  by (induction j rows its rule: put.induct) simp_all

lemma put_rows: "item_rows (put j rows its) = (item_rows its)[j := rows]"
  by (induction j rows its rule: put.induct) (simp_all split: nat.split)

lemma put_ok: "list_all item_ok its \<Longrightarrow> rows_ok rows \<Longrightarrow> list_all item_ok (put j rows its)"
  by (induction j rows its rule: put.induct) simp_all

lemma put_before:
  "i < j \<Longrightarrow> i < length (item_rows its) \<Longrightarrow> item_matches k (put j rows its) ! i = item_matches k its ! i"
proof (induction j rows its arbitrary: i k rule: put.induct)
  case (3 j rows h old its)
  then show ?case by (cases i) (auto simp: Let_def)
qed simp_all

text \<open>The splice of the tool, at the offsets of block \<open>j\<close>.\<close>

lemma splice_put:
  assumes "j < length (item_rows its)"
  shows "take (m_data (item_matches (length pre) its ! j)) (pre @ text_of (items_lines its) @ r) @ text_of rows
      @ drop (m_end (item_matches (length pre) its ! j)) (pre @ text_of (items_lines its) @ r)
    = pre @ text_of (items_lines (put j rows its)) @ r"
  using assms
proof (induction j rows its arbitrary: pre rule: put.induct)
  case (2 j rows l its)
  then show ?case using "2.IH" [of "pre @ l @ [lf]"] by simp
next
  case (3 j rows h old its)
  let ?pre = "pre @ h @ [lf] @ text_of old"
  show ?case
  proof (cases j)
    case 0
    have "take (length pre + length h + 1) (pre @ text_of (h # old @ items_lines its) @ r) = pre @ h @ [lf]"
      by simp
    moreover have "drop (length pre + length h + 1 + text_len old) (pre @ text_of (h # old @ items_lines its) @ r)
        = text_of (items_lines its) @ r"
      using length_text_of [of old] by simp
    ultimately show ?thesis using 0 by (simp add: Let_def)
  next
    case (Suc i)
    have k: "length pre + length h + 1 + text_len old = length ?pre" by (simp add: length_text_of)
    have "item_matches (length pre) (Bram h old # its) ! j = item_matches (length ?pre) its ! i"
      using k by (simp add: Suc Let_def add.assoc)
    then show ?thesis using "3.IH" [of ?pre] "3.prems" by (simp add: Suc)
  qed
qed simp

section \<open>The text outside the blocks\<close>

text \<open>The pieces of a text between the given spans.\<close>

fun gaps :: "nat \<Rightarrow> string \<Rightarrow> (nat \<times> nat) list \<Rightarrow> string list" where
  "gaps pos s [] = [drop pos s]"
| "gaps pos s ((a, b) # spans) = take (a - pos) (drop pos s) # gaps b s spans"

fun item_gaps :: "string \<Rightarrow> item list \<Rightarrow> string \<Rightarrow> string list" where
  "item_gaps acc [] r = [acc @ r]"
| "item_gaps acc (Line l # its) r = item_gaps (acc @ l @ [lf]) its r"
| "item_gaps acc (Bram h rows # its) r = (acc @ h @ [lf]) # item_gaps [] its r"

definition spans :: "bmatch list \<Rightarrow> (nat \<times> nat) list" where
  "spans ms = map (\<lambda>m. (m_data m, m_end m)) ms"

lemma gaps_items:
  "gaps (length pre) (pre @ acc @ text_of (items_lines its) @ r)
     (spans (item_matches (length (pre @ acc)) its)) = item_gaps acc its r"
proof (induction acc its r arbitrary: pre rule: item_gaps.induct)
  case (2 acc l its r)
  then show ?case using "2" [of pre] by (simp add: add.assoc)
next
  case (3 acc h rows its r)
  let ?pre = "pre @ acc @ h @ [lf] @ text_of rows"
  have k: "length pre + length acc + length h + 1 + text_len rows = length ?pre"
    by (simp add: length_text_of)
  then show ?case using 3 [of ?pre] by (simp add: spans_def Let_def add.assoc)
qed (simp add: spans_def)

lemma item_gaps_put: "item_gaps acc (put j rows its) r = item_gaps acc its r"
  by (induction j rows its arbitrary: acc rule: put.induct) simp_all

section \<open>New rows\<close>

definition new_rows :: "int list \<Rightarrow> string list" where
  "new_rows values = map (\<lambda>k. replacement_row values (8 * k)) [0..<BANK_WORDS div 8]"

lemma replacement_text: "replacement values = text_of (new_rows values)"
  by (simp add: replacement_def text_of_def new_rows_def comp_def)

definition entry_ok :: "int \<Rightarrow> bool" where
  "entry_ok v \<longleftrightarrow> 0 \<le> v \<and> v < 4096"

lemma entry_word: "entry_ok v \<Longrightarrow> length (fmt_0x 3 v) = 3 \<and> list_all is_hex (fmt_0x 3 v) \<and> py_int16 (fmt_0x 3 v) = v"
  using fmt_0x_length [of v 3] fmt_0x_digits [of v 3] by (simp add: entry_ok_def)

lemma match_word_append: "length w = 3 \<Longrightarrow> list_all is_hex w \<Longrightarrow> match_word (w @ s) = Some (w, s)"
  by (simp add: match_word_def)

lemma hex_not_blank: "is_hex c \<Longrightarrow> \<not> tab_blank c"
  by (auto simp: tab_blank_def is_hex_def hex_val_def is_digit_def ccode_def)

lemma match_more_words:
  "list_all (\<lambda>w. length w = 3 \<and> list_all is_hex w) ws \<Longrightarrow>
   match_more (length ws) (concat (map (\<lambda>w. '' '' @ w) ws)) = Some ws"
proof (induction ws)
  case (Cons w ws)
  obtain c cs where w: "w = c # cs" "is_hex c" using Cons.prems by (cases w) auto
  have "dropWhile tab_blank ('' '' @ w @ s) = w @ s" for s
    using hex_not_blank [OF w(2)] by (simp add: w tab_blank_def)
  moreover have "tab_blank CHR '' ''" by (simp add: tab_blank_def)
  ultimately show ?case using Cons match_word_append [of w] by simp
qed simp

lemma join_words: "py_join sep (w # ws) = w @ concat (map (\<lambda>w. sep @ w) ws)"
  by (induction ws arbitrary: w) simp_all

lemma match_replacement_row:
  assumes "list_all entry_ok vs" "length vs = 8"
  shows "match_row (py_join '' '' (map (fmt_0x 3) vs)) = Some (map (fmt_0x 3) vs)"
proof -
  obtain v us where vs: "vs = v # us" "length us = 7" using assms(2) by (cases vs) auto
  have words: "list_all (\<lambda>w. length w = 3 \<and> list_all is_hex w) (map (fmt_0x 3) vs)"
    using assms(1) entry_word by (auto simp: list_all_iff)
  show ?thesis
    using match_more_words [of "map (fmt_0x 3) us"] words vs(2) match_word_append [of "fmt_0x 3 v"]
    by (simp add: match_row_def vs(1) join_words)
qed

lemma concat_chunks: "concat (map (\<lambda>k. take 8 (drop (8 * k) xs)) [0..<n]) = take (8 * n) xs"
  by (induction n) (simp_all add: take_add [symmetric] add.commute)

lemma new_rows_ok:
  assumes "length values = BANK_WORDS" "list_all entry_ok values"
  shows "rows_ok (new_rows values)" "map py_int16 (row_words (new_rows values)) = values"
proof -
  define part where "part k = take 8 (drop (8 * k) values)" for k
  have row: "match_row (replacement_row values (8 * k)) = Some (map (fmt_0x 3) (part k))" if "k < ROWS" for k
  proof -
    have "length (part k) = 8" using that assms(1) by (simp add: part_def [abs_def] BANK_WORDS_def ROWS_def)
    moreover have "list_all entry_ok (part k)"
      using assms(2) by (auto simp: part_def list_all_iff dest: in_set_takeD in_set_dropD)
    ultimately show ?thesis using match_replacement_row [of "part k"]
      by (simp add: replacement_row_def part_def)
  qed
  have n: "BANK_WORDS div 8 = ROWS" by (simp add: BANK_WORDS_def ROWS_def)
  show "rows_ok (new_rows values)" using row by (simp add: rows_ok_def new_rows_def list_all_iff n)
  have "row_words (new_rows values) = concat (map (\<lambda>k. map (fmt_0x 3) (part k)) [0..<ROWS])"
    unfolding row_words_def new_rows_def n map_map comp_def
    by (intro arg_cong [of _ _ concat] map_cong refl) (simp add: row)
  also have "\<dots> = map (fmt_0x 3) (concat (map part [0..<ROWS]))" by (simp add: map_concat comp_def)
  also have "concat (map part [0..<ROWS]) = values"
    using assms(1) concat_chunks [of "values" ROWS] by (simp add: part_def [abs_def] BANK_WORDS_def ROWS_def)
  finally show "map py_int16 (row_words (new_rows values)) = values"
    using assms(2) entry_word by (auto simp: list_all_iff intro!: map_idI)
qed

section \<open>A sequence of splices\<close>

definition put_all :: "(nat \<Rightarrow> string list) \<Rightarrow> (nat \<times> nat) list \<Rightarrow> item list \<Rightarrow> item list" where
  "put_all f ps its = foldl (\<lambda>its (lane, j). put j (f lane) its) its ps"

lemma put_all_simps [simp]:
  "put_all f [] its = its" "put_all f (p # ps) its = put_all f ps (put (snd p) (f (fst p)) its)"
  by (simp_all add: put_all_def split_def)

lemma put_all_same:
  "item_ids (put_all f ps its) = item_ids its" "length (item_rows (put_all f ps its)) = length (item_rows its)"
  "item_gaps acc (put_all f ps its) r = item_gaps acc its r"
  by (induction ps arbitrary: its) (simp_all add: put_ids put_rows item_gaps_put)

lemma put_all_ok:
  "list_all item_ok its \<Longrightarrow> \<forall>p \<in> set ps. rows_ok (f (fst p)) \<Longrightarrow> list_all item_ok (put_all f ps its)"
  by (induction ps arbitrary: its) (simp_all add: put_ok)

lemma put_all_other: "i \<notin> snd ` set ps \<Longrightarrow> item_rows (put_all f ps its) ! i = item_rows its ! i"
  by (induction ps arbitrary: its) (simp_all add: put_rows)

lemma put_all_rows:
  "distinct (map snd ps) \<Longrightarrow> (lane, i) \<in> set ps \<Longrightarrow> i < length (item_rows its) \<Longrightarrow>
   item_rows (put_all f ps its) ! i = f lane"
proof (induction ps arbitrary: its)
  case (Cons p ps)
  show ?case
  proof (cases "p = (lane, i)")
    case True
    then show ?thesis using Cons.prems put_all_other [of i ps] by (simp add: put_rows)
  next
    case False
    then show ?thesis using Cons by (simp add: put_rows)
  qed
qed simp

lemma splices_put:
  assumes "sorted_wrt (\<lambda>p q. snd q < snd p) ps"
    and "\<forall>p \<in> set ps. snd p < length (item_rows its) \<and>
      bl_start (bs ! snd p) = m_data (item_matches 0 its ! snd p) \<and>
      bl_end (bs ! snd p) = m_end (item_matches 0 its ! snd p)"
  shows "foldl (splice_bank bs new) (text_of (items_lines its) @ r) ps
    = text_of (items_lines (put_all (\<lambda>lane. new_rows (new ! lane)) ps its)) @ r"
  using assms
proof (induction ps arbitrary: its)
  case (Cons p ps)
  let ?its = "put (snd p) (new_rows (new ! fst p)) its"
  have "splice_bank bs new (text_of (items_lines its) @ r) p = text_of (items_lines ?its) @ r"
    using Cons.prems(2) splice_put [of "snd p" its "[]" r "new_rows (new ! fst p)"]
    by (simp add: splice_bank_def split_def replacement_text)
  moreover have "\<forall>q \<in> set ps. snd q < length (item_rows ?its) \<and>
      bl_start (bs ! snd q) = m_data (item_matches 0 ?its ! snd q) \<and>
      bl_end (bs ! snd q) = m_end (item_matches 0 ?its ! snd q)"
    using Cons.prems by (simp add: put_rows put_before)
  ultimately show ?case using Cons.IH [of ?its] Cons.prems(1) by simp
qed simp

end
