(* ===== verification/BootUpdate.thy ===== *)
theory BootUpdate
  imports BootEdit "HOL-Library.Multiset"
begin

text \<open>
  What \<open>update\<close> does to a configuration: read back, the eight blocks that held the old image
  hold the new one, every other block and all text outside the blocks is as it was.
\<close>

section \<open>Banks and words\<close>

text \<open>The word the eight banks hold at an address, each lane in its four bits.\<close>

definition bank_word :: "int list list \<Rightarrow> nat \<Rightarrow> int" where
  "bank_word bs i =
     (\<Sum>lane \<leftarrow> [0..<LANES]. (drop_bit (4 * (i mod 2)) (bs ! lane ! (i div 2)) AND 0xF) * 16 ^ lane)"

definition unbanks :: "int list list \<Rightarrow> int list" where
  "unbanks bs = map (bank_word bs) [0..<WORDS]"

lemma and_15_take: "x AND 15 = take_bit 4 x" for x :: int
  by (simp add: and_15 take_bit_eq_mod)

lemma push_4: "take_bit 4 (push_bit 4 x) = 0" "drop_bit 4 (push_bit 4 x) = x" for x :: int
  by (simp_all add: take_bit_push_bit) (simp add: drop_bit_div push_bit_mult)

lemma bank_entry_halves:
  "take_bit 4 (bank_entry ws lane a) = take_bit 4 (drop_bit (4 * lane) (ws ! (2 * a)))"
  "drop_bit 4 (bank_entry ws lane a) = take_bit 4 (drop_bit (4 * lane) (ws ! (2 * a + 1)))"
  unfolding bank_entry_def and_15_take take_bit_or drop_bit_or push_4 by (simp_all add: drop_bit_take_bit)

lemma bank_entry_nibble:
  "drop_bit (4 * (i mod 2)) (bank_entry ws lane (i div 2)) AND 0xF = take_bit 4 (drop_bit (4 * lane) (ws ! i))"
proof (cases "even i")
  case True
  then show ?thesis by (simp add: and_15_take bank_entry_halves)
next
  case False
  then have "2 * (i div 2) + 1 = i" "i mod 2 = 1" by presburger+
  then show ?thesis by (simp add: and_15_take bank_entry_halves del: One_nat_def)
qed

lemma bank_entry_range: "0 \<le> bank_entry ws lane a \<and> bank_entry ws lane a < 256"
proof -
  have "fits 4 (x AND 0xF)" for x :: int by (simp add: fits_def and_15)
  moreover have "fits 8 x" if "fits 4 x" for x using that by (auto simp: fits_def)
  moreover have "fits 8 (push_bit 4 x)" if "fits 4 x" for x using that by (auto simp: fits_def push_bit_mult)
  ultimately have "fits 8 (bank_entry ws lane a)" unfolding bank_entry_def by (intro fits_or) blast+
  then show ?thesis by (simp add: fits_def)
qed

lemma nibble_sum: "(\<Sum>lane \<leftarrow> [0..<n]. take_bit 4 (drop_bit (4 * lane) x) * 16 ^ lane) = take_bit (4 * n) x"
  for x :: int
proof (induction n)
  case (Suc n)
  have p: "(2::int) ^ (n * 4) = 16 ^ n" "(2::int) ^ (4 * n) = 16 ^ n" by (simp_all add: power_mult mult.commute [of n])
  have "take_bit (4 * n + 4) x = take_bit (4 * n) x + take_bit 4 (drop_bit (4 * n) x) * 16 ^ n"
    using zmod_zmult2_eq [of "16" x "16 ^ n"]
    by (simp add: take_bit_eq_mod drop_bit_eq_div power_add p mult.commute)
  then show ?case using Suc by (simp add: add.commute)
qed simp

lemma unbanks_banks:
  assumes "length ws = WORDS" "\<forall>w \<in> set ws. fits 32 w"
  shows "unbanks (banks ws) = ws"
proof (rule nth_equalityI)
  show len: "length (unbanks (banks ws)) = length ws" by (simp add: unbanks_def assms(1))
  fix i assume "i < length (unbanks (banks ws))"
  then have i: "i < WORDS" "i < length ws" "i div 2 < BANK_WORDS"
    by (auto simp: unbanks_def assms(1) WORDS_def BANK_WORDS_def)
  have "unbanks (banks ws) ! i = bank_word (banks ws) i" using i by (simp add: unbanks_def)
  also have "\<dots> = (\<Sum>lane \<leftarrow> [0..<LANES]. take_bit 4 (drop_bit (4 * lane) (ws ! i)) * 16 ^ lane)"
    unfolding bank_word_def using i(3)
    by (intro arg_cong [of _ _ sum_list] map_cong refl) (simp add: banks_def bank_entry_nibble)
  also have "\<dots> = ws ! i" using nibble_sum [of "ws ! i" LANES] assms(2) i(2)
    by (simp add: LANES_def fits_take_bit)
  finally show "unbanks (banks ws) ! i = ws ! i" .
qed

lemma banks_shape:
  "length (banks ws) = LANES"
  "lane < LANES \<Longrightarrow> length (banks ws ! lane) = BANK_WORDS"
  "lane < LANES \<Longrightarrow> list_all (\<lambda>v. 0 \<le> v \<and> v < 256) (banks ws ! lane)"
  using bank_entry_range by (auto simp: banks_def list_all_iff)

lemma image_of_words:
  assumes "image_of fs p = Inr ws"
  shows "length ws = WORDS" "\<forall>w \<in> set ws. fits 32 w"
proof -
  obtain s where s: "read_ascii fs p = Inr s" "length (splitlines s) = WORDS" "first_bad 1 (splitlines s) = None"
    "ws = map py_int16 (splitlines s)"
    using assms by (auto simp: image_of_def bindE_Inr_iff Let_def split: if_splits option.splits)
  show "length ws = WORDS" using s by simp
  have good: "first_bad i ls = None \<Longrightarrow> \<forall>l \<in> set ls. image_word l" for i ls
    by (induction i ls rule: first_bad.induct) (auto split: if_splits)
  have bound: "fits (4 * length l) (py_int16 l)" if "list_all is_hex l" for l
    using that
  proof (induction l rule: rev_induct)
    case (snoc c l)
    obtain d where d: "hex_val c = Some d" using snoc.prems by (auto simp: is_hex_def)
    then have "d < 16" by (auto simp: hex_val_def is_digit_def split: if_splits)
    moreover have "py_int16 (l @ [c]) = 16 * py_int16 l + int d"
      using d by (simp add: py_int16_def number_of_snoc)
    ultimately show ?case using snoc by (auto simp: fits_def power_add)
  qed (simp add: py_int16_def number_of_def fits_def)
  show "\<forall>w \<in> set ws. fits 32 w"
    using good [OF s(3)] bound by (force simp: s(4) image_word_def)
qed

section \<open>Parsing, both ways\<close>

definition block_of :: "bmatch \<Rightarrow> block" where
  "block_of m = \<lparr>bl_id = m_id m, bl_start = m_data m, bl_end = m_end m, bl_values = map py_int16 (m_words m)\<rparr>"

definition values_ok :: "int list \<Rightarrow> bool" where
  "values_ok vs \<longleftrightarrow> length vs = BANK_WORDS \<and> list_all (\<lambda>v. v \<le> 0x1FF) vs"

lemma check_blocks_iff:
  "check_blocks p ids ms = Inr bs \<longleftrightarrow>
   bs = map block_of ms \<and> distinct (map m_id ms) \<and> set ids \<inter> set (map m_id ms) = {} \<and>
   (\<forall>m \<in> set ms. values_ok (map py_int16 (m_words m)))"
proof (induction p ids ms arbitrary: bs rule: check_blocks.induct)
  case (2 p ids m ms)
  let ?vs = "map py_int16 (m_words m)"
  have ok: "(length ?vs \<noteq> BANK_WORDS \<or> list_ex (\<lambda>v. v > 0x1FF) ?vs) \<longleftrightarrow> \<not> values_ok ?vs"
    unfolding values_ok_def list_all_iff list_ex_iff by (metis not_less)
  show ?case
  proof (cases "m_id m \<notin> set ids \<and> values_ok ?vs")
    case True
    note IH = "2.IH" [OF _ refl, unfolded ok, OF conjunct1 [OF True]]
    show ?thesis using True IH unfolding check_blocks.simps Let_def ok
      by (auto simp: bindE_Inr_iff block_of_def)
  next
    case False
    then show ?thesis unfolding check_blocks.simps Let_def ok by auto
  qed
qed auto

lemma parse_blocks_items:
  assumes "parse_blocks p config = Inr blocks"
  obtains its r where "config = text_of (items_lines its) @ r" "list_all item_ok its" "no_lf r"
    "match_header r = None" "check_blocks p [] (item_matches 0 its) = Inr blocks" "LANES \<le> length blocks"
    "CHR 0x0D \<notin> set config"
proof -
  obtain ls r where ls: "lf_lines config = ls @ [r]" "list_all no_lf ls" "no_lf r" "config = text_of ls @ r"
    by (rule lf_lines_inv)
  have starts: "set (header_starts 0 (ls @ [r])) = set (map m_start (block_matches 0 (ls @ [r])))"
    and checked: "check_blocks p [] (block_matches 0 (ls @ [r])) = Inr blocks"
    and n: "LANES \<le> length blocks" "CHR 0x0D \<notin> set config"
    using assms by (auto simp: parse_blocks_def ls(1) Let_def bindE_Inr_iff split: if_splits)
  obtain its where its: "ls = items_lines its" "list_all item_ok its" "match_header r = None"
    using items_exist [OF starts ls(2)] by blast
  show thesis
    using that [of its r] ls its checked n block_matches_items [OF its(2,3)] by simp
qed

lemma parse_items_blocks:
  assumes "list_all item_ok its" "no_lf r" "match_header r = None"
    and "CHR 0x0D \<notin> set (text_of (items_lines its) @ r)"
    and "check_blocks p [] (item_matches 0 its) = Inr blocks" "LANES \<le> length blocks"
  shows "parse_blocks p (text_of (items_lines its) @ r) = Inr blocks"
  using assms block_matches_items [OF assms(1,3)] header_starts_items [OF assms(1,3)]
    lf_lines_text [OF item_lines_no_lf [OF assms(1)] assms(2)]
  by (simp add: parse_blocks_def Let_def del: set_append)

section \<open>The order of the edits\<close>

lemma select_lanes_facts:
  "select_lanes blocks lane old = Inr sel \<Longrightarrow>
   length sel = length old \<and>
   (\<forall>k < length old. sel ! k < length blocks \<and> bl_values (blocks ! (sel ! k)) = old ! k)"
proof (induction blocks lane old arbitrary: sel rule: select_lanes.induct)
  case (2 blocks lane bank old)
  define found where "found = filter (\<lambda>i. bl_values (blocks ! i) = bank) [0..<length blocks]"
  from "2.prems" obtain r where r: "length found = 1" "select_lanes blocks (Suc lane) old = Inr r"
    "sel = hd found # r"
    by (auto simp: found_def Let_def bindE_Inr_iff split: if_splits)
  then have "hd found \<in> set found" by (cases found) auto
  then have "hd found < length blocks \<and> bl_values (blocks ! hd found) = bank" by (simp add: found_def)
  moreover have "length r = length old \<and>
    (\<forall>k < length old. r ! k < length blocks \<and> bl_values (blocks ! (r ! k)) = old ! k)"
    using "2.IH" [OF refl _ r(2)] r(1) by (simp add: found_def)
  ultimately show ?case using r(3) by (auto simp: nth_Cons split: nat.split)
qed simp

lemma edit_order_facts:
  assumes "distinct sel" "\<forall>i \<in> set sel. i < length blocks" "sorted_wrt (<) (map bl_start blocks)"
  shows "set (edit_order blocks sel) = set (enumerate 0 sel)" "distinct (map snd (edit_order blocks sel))"
    "sorted_wrt (\<lambda>p q. snd q < snd p) (edit_order blocks sel)"
proof -
  define key where "key = (\<lambda>(lane :: nat, i). bl_start (blocks ! i))"
  define ps where "ps = edit_order blocks sel"
  have ps: "ps = rev (sort_key key (rev (enumerate 0 sel)))" by (simp add: ps_def edit_order_def key_def)
  show set: "set (edit_order blocks sel) = set (enumerate 0 sel)" by (simp add: edit_order_def)
  have "mset (map snd ps) = image_mset snd (mset (enumerate 0 sel))" by (simp add: ps)
  then have "mset (map snd ps) = mset sel" by (simp only: map_snd_enumerate flip: mset_map)
  then have dist: "distinct (map snd ps)" using assms(1) by (metis mset_eq_imp_distinct_iff)
  then show "distinct (map snd (edit_order blocks sel))" by (simp add: ps_def)
  have "sorted (map key (sort_key key (rev (enumerate 0 sel))))" by simp
  then have desc: "sorted_wrt (\<lambda>p q. key q \<le> key p) ps"
    by (simp add: ps sorted_wrt_rev sorted_wrt_map)
  have mono: "i < j \<Longrightarrow> j < length blocks \<Longrightarrow> bl_start (blocks ! i) < bl_start (blocks ! j)" for i j
    using assms(3) by (simp add: sorted_wrt_iff_nth_less)
  have snd_in: "snd p < length blocks" if "p \<in> set ps" for p
  proof -
    have "p \<in> set (enumerate 0 sel)" using that set by (simp add: ps_def)
    then have "fst p < length sel" "sel ! fst p = snd p" by (simp_all add: in_set_enumerate_eq)
    then have "snd p \<in> set sel" using nth_mem by fastforce
    then show ?thesis using assms(2) by blast
  qed
  have "sorted_wrt (\<lambda>p q. snd q < snd p) ps"
    unfolding sorted_wrt_iff_nth_less
  proof (intro allI impI)
    fix a b assume ab: "a < b" "b < length ps"
    have "key (ps ! b) \<le> key (ps ! a)" using desc ab by (simp add: sorted_wrt_iff_nth_less)
    moreover have "snd (ps ! b) \<noteq> snd (ps ! a)"
      using dist ab nth_eq_iff_index_eq [of "map snd ps" b a] by simp
    ultimately show "snd (ps ! b) < snd (ps ! a)"
      using mono [of "snd (ps ! a)" "snd (ps ! b)"] snd_in [of "ps ! b"] ab
      by (auto simp: key_def split_def not_less nat_neq_iff)
  qed
  then show "sorted_wrt (\<lambda>p q. snd q < snd p) (edit_order blocks sel)" by (simp add: ps_def)
qed

section \<open>The characters of an edited configuration\<close>

lemma put_all_chars:
  "set (text_of (items_lines (put_all f ps its))) \<subseteq>
   set (text_of (items_lines its)) \<union> (\<Union>p \<in> set ps. set (text_of (f (fst p))))"
proof (induction ps arbitrary: its)
  case (Cons p ps)
  have put: "set (text_of (items_lines (put j rows its))) \<subseteq> set (text_of (items_lines its)) \<union> set (text_of rows)"
    for j rows its by (induction j rows its rule: put.induct) auto
  show ?case using Cons [of "put (snd p) (f (fst p)) its"] put by fastforce
qed simp

lemma rows_ok_chars:
  assumes "rows_ok rows" "c \<in> set (text_of rows)"
  shows "c \<noteq> CHR 0x0D" "ccode c < 128"
proof -
  have "c = lf \<or> (\<exists>l \<in> set rows. c \<in> set l)" using assms(2) by (auto simp: text_of_def split: if_splits)
  then have "c = lf \<or> is_hex c \<or> tab_blank c"
    using assms(1) match_row_facts(1) by (fastforce simp: rows_ok_def list_all_iff)
  then show "c \<noteq> CHR 0x0D" "ccode c < 128"
    using is_hex_plain(4,6) [of c] by (auto simp: tab_blank_def ccode_def)
qed

section \<open>A whole update\<close>

definition block_spans :: "block list \<Rightarrow> (nat \<times> nat) list" where
  "block_spans bs = map (\<lambda>b. (bl_start b, bl_end b)) bs"

text \<open>The contents of the block with an identifier, and the image the eight named blocks hold.\<close>

definition block_values :: "block list \<Rightarrow> string \<Rightarrow> int list" where
  "block_values bs i = (case find (\<lambda>b. bl_id b = i) bs of Some b \<Rightarrow> bl_values b | None \<Rightarrow> [])"

definition held_image :: "block list \<Rightarrow> string list \<Rightarrow> int list" where
  "held_image bs ids = unbanks (map (block_values bs) ids)"

lemma block_values_nth:
  assumes "distinct (map bl_id bs)" "k < length bs"
  shows "block_values bs (bl_id (bs ! k)) = bl_values (bs ! k)"
proof -
  have "find (\<lambda>b. bl_id b = bl_id (bs ! k)) bs = Some (bs ! k)"
    unfolding find_Some_iff
  proof (intro exI [of _ k] conjI allI impI)
    fix j assume "j < k"
    then show "bl_id (bs ! j) \<noteq> bl_id (bs ! k)"
      using assms nth_eq_iff_index_eq [of "map bl_id bs" j k] by simp
  qed (use assms in simp_all)
  then show ?thesis by (simp add: block_values_def)
qed

lemma block_spans_matches: "block_spans (map block_of ms) = spans ms"
  by (simp add: block_spans_def spans_def block_of_def)

end
