(* ===== verification/BootFiles.thy ===== *)
theory BootFiles
  imports BootUpdate
begin

text \<open>
  Files the boot-image tool accepts: the text of an image reads back as the image, and a
  configuration with one block per lane is updated without an error.
\<close>

section \<open>Images\<close>

definition image_text :: "int list \<Rightarrow> string" where
  "image_text ws = text_of (map (fmt_0x 8) ws)"

lemma image_of_text:
  assumes "fs_bytes fs p = Some (image_text ws)" "length ws = WORDS" "\<forall>w \<in> set ws. fits 32 w"
  shows "image_of fs p = Inr ws"
proof -
  have word: "length (fmt_0x 8 w) = 8 \<and> list_all is_hex (fmt_0x 8 w) \<and> py_int16 (fmt_0x 8 w) = w"
    if "w \<in> set ws" for w
    using that assms(3) fmt_0x_length [of w 8] fmt_0x_digits [of w 8] by (simp add: fits_def)
  then have "list_all (list_all (\<lambda>c. \<not> line_end c)) (map (fmt_0x 8) ws)"
    using is_hex_plain(2) by (auto simp: list_all_iff)
  then have lines: "splitlines (image_text ws) = map (fmt_0x 8) ws"
    unfolding image_text_def text_of_def by (rule splitlines_text)
  have good: "\<forall>l \<in> set ls. image_word l \<Longrightarrow> first_bad k ls = None" for k ls
    by (induction k ls rule: first_bad.induct) auto
  have "list_all (\<lambda>c. ccode c < 128) (image_text ws)"
    using word is_hex_plain(6) by (auto simp: image_text_def text_of_def list_all_iff ccode_def)
  moreover have "first_bad 1 (map (fmt_0x 8) ws) = None"
    by (rule good) (use word in \<open>auto simp: image_word_def\<close>)
  moreover have "map py_int16 (map (fmt_0x 8) ws) = ws" using word by (auto intro!: map_idI)
  ultimately show ?thesis
    using assms(1,2) by (simp add: image_of_def read_ascii_def lines)
qed

lemma select_lanes_all:
  assumes "distinct (map bl_values blocks)" "lane \<le> length blocks"
  shows "select_lanes blocks lane (drop lane (map bl_values blocks)) = Inr [lane..<length blocks]"
  using assms(2)
proof (induction "length blocks - lane" arbitrary: lane)
  case (Suc n)
  then have lane: "lane < length blocks" by simp
  then have "filter (\<lambda>i. bl_values (blocks ! i) = bl_values (blocks ! lane)) [0..<length blocks] = [lane]"
  proof -
    have "bl_values (blocks ! i) = bl_values (blocks ! lane) \<longleftrightarrow> i = lane" if "i < length blocks" for i
      using nth_eq_iff_index_eq [OF assms(1), of i lane] that lane by simp
    then have "filter (\<lambda>i. bl_values (blocks ! i) = bl_values (blocks ! lane)) [0..<length blocks]
      = filter (\<lambda>i. i = lane) [0..<length blocks]" by (intro filter_cong) auto
    moreover have "[0..<length blocks] = [0..<lane] @ lane # [Suc lane..<length blocks]"
      using lane upt_add_eq_append [of 0 lane "length blocks - lane"] by (simp add: upt_conv_Cons)
    then have "filter (\<lambda>i. i = lane) [0..<length blocks] = [lane]" by (simp add: filter_empty_conv)
    ultimately show ?thesis by simp
  qed
  moreover have "drop lane (map bl_values blocks) = bl_values (blocks ! lane) # drop (Suc lane) (map bl_values blocks)"
    using lane by (simp add: Cons_nth_drop_Suc [symmetric])
  moreover have "select_lanes blocks (Suc lane) (drop (Suc lane) (map bl_values blocks)) = Inr [Suc lane..<length blocks]"
    using Suc.hyps Suc.prems lane by simp
  ultimately show ?case using lane by (simp add: upt_conv_Cons)
qed simp

text \<open>A configuration that holds an image in eight blocks, named by their lanes.\<close>

definition boot_head :: "nat \<Rightarrow> string" where
  "boot_head lane = ''.bram_init '' @ dec_str lane"

definition boot_items :: "int list \<Rightarrow> item list" where
  "boot_items ws = map (\<lambda>lane. Bram (boot_head lane) (new_rows (banks ws ! lane))) [0..<LANES]"

definition boot_config :: "int list \<Rightarrow> string" where
  "boot_config ws = text_of (items_lines (boot_items ws))"

lemma boot_header:
  assumes "lane < LANES"
  shows "match_header (boot_head lane) = Some (dec_str lane)" "no_lf (boot_head lane)"
    "list_all (\<lambda>c. c \<noteq> CHR 0x0D \<and> ccode c < 128) (boot_head lane)"
proof -
  have "\<forall>n \<in> set [0..<8]. match_header (boot_head n) = Some (dec_str n) \<and>
    no_lf (boot_head n) \<and>
    list_all (\<lambda>c. c \<noteq> CHR 0x0D \<and> ccode c < 128) (boot_head n)" by code_simp
  then show "match_header (boot_head lane) = Some (dec_str lane)"
    "no_lf (boot_head lane)"
    "list_all (\<lambda>c. c \<noteq> CHR 0x0D \<and> ccode c < 128) (boot_head lane)"
    using assms by (simp_all add: LANES_def)
qed

lemma bank_rows:
  assumes "lane < LANES"
  shows "rows_ok (new_rows (banks ws ! lane))"
    "map py_int16 (row_words (new_rows (banks ws ! lane))) = banks ws ! lane"
  using new_rows_ok [of "banks ws ! lane"] banks_shape(2,3) [OF assms, of ws]
  unfolding list_all_iff entry_ok_def by fastforce+

lemma map_items:
  "item_ids (map (\<lambda>k. Bram (h k) (f k)) ks) = map (\<lambda>k. the (match_header (h k))) ks"
  "item_rows (map (\<lambda>k. Bram (h k) (f k)) ks) = map f ks"
  by (induction ks) simp_all

lemma boot_items_facts:
  "list_all item_ok (boot_items ws)" "item_ids (boot_items ws) = map dec_str [0..<LANES]"
  "item_rows (boot_items ws) = map (\<lambda>lane. new_rows (banks ws ! lane)) [0..<LANES]"
  using boot_header bank_rows(1) by (auto simp: boot_items_def list_all_iff map_items)

lemma boot_config_chars: "list_all (\<lambda>c. c \<noteq> CHR 0x0D \<and> ccode c < 128) (boot_config ws)"
proof -
  have "c \<noteq> CHR 0x0D \<and> ccode c < 128"
    if c: "c \<in> set (text_of (items_lines (map (\<lambda>lane. Bram (boot_head lane) (new_rows (banks ws ! lane))) ks)))"
      and ks: "\<forall>lane \<in> set ks. lane < LANES" for c ks
    using c ks
  proof (induction ks)
    case (Cons lane ks)
    have lf: "lf \<noteq> CHR 0x0D \<and> ccode lf < 128" by (simp add: ccode_def)
    from Cons.prems(1) consider "c \<in> set (boot_head lane)" | "c = lf"
      | "c \<in> set (text_of (new_rows (banks ws ! lane)))"
      | "c \<in> set (text_of (items_lines (map (\<lambda>lane. Bram (boot_head lane) (new_rows (banks ws ! lane))) ks)))"
      by auto
    then show ?case
    proof cases
      case 1
      then show ?thesis using boot_header(3) [of lane] Cons.prems(2) unfolding list_all_iff by auto
    next
      case 3
      then show ?thesis using rows_ok_chars [OF bank_rows(1)] Cons.prems(2) by auto
    qed (use lf Cons in auto)
  qed simp
  then show ?thesis unfolding boot_config_def boot_items_def list_all_iff by simp
qed

lemma boot_config_parses:
  obtains blocks where "parse_blocks p (boot_config ws) = Inr blocks"
    "map bl_values blocks = banks ws" "map bl_id blocks = map dec_str [0..<LANES]"
proof -
  let ?ms = "item_matches 0 (boot_items ws)"
  note its = boot_items_facts [of ws]
  have ids: "map m_id ?ms = map dec_str [0..<LANES]" by (simp add: item_matches_parts its)
  have "map (\<lambda>m. map py_int16 (m_words m)) ?ms = map (map py_int16) (map m_words ?ms)" by simp
  also have "\<dots> = map (\<lambda>lane. banks ws ! lane) [0..<LANES]"
    unfolding item_matches_parts(2) by (simp add: its bank_rows)
  also have "\<dots> = banks ws" using map_nth [of "banks ws"] by (simp add: banks_shape)
  finally have vals: "map (\<lambda>m. map py_int16 (m_words m)) ?ms = banks ws" .
  have "values_ok (map py_int16 (m_words m))" if "m \<in> set ?ms" for m
  proof -
    have "map py_int16 (m_words m) \<in> set (banks ws)" using that vals by (metis image_eqI list.set_map)
    then obtain lane where "lane < LANES" "map py_int16 (m_words m) = banks ws ! lane"
      by (metis banks_shape(1) in_set_conv_nth)
    then show ?thesis using banks_shape(2,3) [of lane ws] by (fastforce simp: values_ok_def list_all_iff)
  qed
  moreover have "distinct (map dec_str [0..<LANES])" unfolding LANES_def by code_simp
  ultimately have chk: "check_blocks p [] ?ms = Inr (map block_of ?ms)"
    using ids by (simp add: check_blocks_iff)
  have "parse_blocks p (text_of (items_lines (boot_items ws)) @ []) = Inr (map block_of ?ms)"
  proof (rule parse_items_blocks [OF its(1) _ _ _ chk])
    show "CHR 0x0D \<notin> set (text_of (items_lines (boot_items ws)) @ [])"
      using boot_config_chars [of ws] by (auto simp: boot_config_def list_all_iff)
    show "LANES \<le> length (map block_of ?ms)" by (simp add: item_matches_parts its)
  qed (simp_all add: no_lf_def match_header_def startswith_def)
  then show thesis
    using that [of "map block_of ?ms"] vals ids by (simp add: boot_config_def block_of_def comp_def)
qed

text \<open>Such a configuration is updated, whatever the new image.\<close>

lemma boot_config_updates:
  assumes "fs_bytes fs i = Some (boot_config old)" "fs_bytes fs f = Some (image_text old)"
    "fs_bytes fs t = Some (image_text new)" "fs_resolve fs i \<noteq> fs_resolve fs q"
    "fs_resolve fs f \<noteq> fs_resolve fs t" "fs_is_dir fs (fs_parent fs q)"
    and "length old = WORDS" "\<forall>w \<in> set old. fits 32 w" "length new = WORDS" "\<forall>w \<in> set new. fits 32 w"
    and "distinct (banks old)"
  shows "\<exists>fs'. update fs i q f t = Inr (fs', map dec_str [0..<LANES])"
proof -
  obtain blocks where blocks: "parse_blocks i (boot_config old) = Inr blocks"
    "map bl_values blocks = banks old" "map bl_id blocks = map dec_str [0..<LANES]" by (rule boot_config_parses)
  have n: "length blocks = LANES" using blocks(2) banks_shape(1) by (metis length_map)
  have "list_all (\<lambda>c. ccode c < 128) (boot_config old)"
    using boot_config_chars [of old] by (simp add: list_all_iff)
  then have config: "config_blocks fs i = Inr (boot_config old, blocks)"
    using assms(1) blocks(1) by (simp add: config_blocks_def read_ascii_def)
  have sel: "select_lanes blocks 0 (banks old) = Inr [0..<LANES]"
    using select_lanes_all [of blocks 0] assms(11) by (simp add: blocks(2) n)
  have "map (\<lambda>k. bl_id (blocks ! k)) [0..<LANES] = map bl_id blocks"
    using n by (intro nth_equalityI) simp_all
  then show ?thesis
    using image_of_text [OF assms(2,7,8)] image_of_text [OF assms(3,9,10)] config sel assms(4-6)
    by (simp add: update_def blocks(3))
qed

section \<open>A sample\<close>

definition sample_old :: "int list" where
  "sample_old = 0x76543210 # replicate 4095 0"

definition sample_new :: "int list" where
  "sample_new = replicate 4096 0x0BADF00D"

definition sample_files :: files where
  "sample_files = \<lparr>fs_bytes = [''in'' \<mapsto> boot_config sample_old, ''old'' \<mapsto> image_text sample_old,
     ''new'' \<mapsto> image_text sample_new], fs_resolve = (\<lambda>p. p), fs_parent = (\<lambda>p. ''.''), fs_is_dir = (\<lambda>p. p = ''.'')\<rparr>"

lemma sample_banks: "distinct (banks sample_old)"
proof -
  have "map (\<lambda>b. take_bit 4 (b ! 0)) (banks sample_old) = map (\<lambda>lane. take_bit 4 (drop_bit (4 * lane) 0x76543210)) [0..<LANES]"
    by (simp add: banks_def bank_entry_halves sample_old_def BANK_WORDS_def)
  moreover have "distinct (map (\<lambda>lane. take_bit 4 (drop_bit (4 * lane) (0x76543210 :: int))) [0..<LANES])"
    by (simp add: LANES_def upt_rec take_bit_eq_mod drop_bit_div)
  ultimately show ?thesis by (metis distinct_map)
qed

lemma sample_updates: "\<exists>fs'. update sample_files ''in'' ''out'' ''old'' ''new'' = Inr (fs', map dec_str [0..<LANES])"
  by (rule boot_config_updates [where old = sample_old and new = sample_new])
    (simp_all add: sample_files_def sample_banks, simp_all add: sample_old_def sample_new_def WORDS_def fits_def)

end
