(* ===== verification/BootProps.thy ===== *)
theory BootProps
  imports BootFiles
begin

text \<open>The property of the boot-image tool: the edited configuration, read back.\<close>

lemma read_ascii_text: "read_ascii fs p = Inr s \<Longrightarrow> fs_bytes fs p = Some s \<and> list_all (\<lambda>c. ccode c < 128) s"
  by (auto simp: read_ascii_def split: option.splits if_splits)

lemma update_parts:
  assumes "update fs i q f t = Inr (fs', ids)"
  obtains w_old w_new config blocks sel where
    "image_of fs f = Inr w_old" "image_of fs t = Inr w_new" "config_blocks fs i = Inr (config, blocks)"
    "select_lanes blocks 0 (banks w_old) = Inr sel" "distinct sel"
    "ids = map (\<lambda>k. bl_id (blocks ! k)) sel"
    "fs' = fs\<lparr>fs_bytes := (fs_bytes fs)(q \<mapsto>
      foldl (splice_bank blocks (banks w_new)) config (edit_order blocks sel))\<rparr>"
proof -
  have dist: "distinct xs" if "length (remdups xs) = LANES" "length xs = LANES" for xs :: "nat list"
    using that by (metis length_remdups_eq remdups_id_iff_distinct)
  show thesis
    using assms that dist select_lanes_facts banks_shape(1)
    by (auto simp: update_def bindE_Inr_iff Let_def split: if_splits)
qed

text \<open>The edits on the items: which item list the edited text is, and what its blocks hold.\<close>

lemma edited_items:
  assumes blocks: "blocks = map block_of (item_matches 0 its)" and ok: "list_all item_ok its"
    and sel: "distinct sel" "\<forall>k \<in> set sel. k < length blocks"
    and new: "\<forall>lane < length sel. length (new ! lane) = BANK_WORDS \<and> list_all (\<lambda>v. 0 \<le> v \<and> v < 256) (new ! lane)"
  obtains its' where
    "foldl (splice_bank blocks new) (text_of (items_lines its) @ r) (edit_order blocks sel) = text_of (items_lines its') @ r"
    "list_all item_ok its'" "item_ids its' = item_ids its" "length (item_rows its') = length (item_rows its)"
    "item_gaps [] its' r = item_gaps [] its r"
    "\<forall>c \<in> set (text_of (items_lines its')). c \<in> set (text_of (items_lines its)) \<or> c \<noteq> CHR 0x0D \<and> ccode c < 128"
    "\<forall>lane < length sel. map py_int16 (row_words (item_rows its' ! (sel ! lane))) = new ! lane"
    "\<forall>k. k \<notin> set sel \<longrightarrow> item_rows its' ! k = item_rows its ! k"
proof -
  define f where "f lane = new_rows (new ! lane)" for lane
  define ps where "ps = edit_order blocks sel"
  have n: "length blocks = length (item_rows its)" by (simp add: blocks item_matches_parts)
  have "sorted_wrt (<) (map bl_start blocks)"
    using item_matches_sorted [of 0 its] by (simp add: blocks block_of_def comp_def)
  note order = edit_order_facts [OF sel this, folded ps_def]
  have lanes: "fst x < length sel \<and> snd x = sel ! fst x" if "x \<in> set ps" for x
    using that order(1) by (auto simp: in_set_enumerate_eq)
  have rows: "rows_ok (f lane) \<and> map py_int16 (row_words (f lane)) = new ! lane" if "lane < length sel" for lane
    using new_rows_ok [of "new ! lane"] new that unfolding f_def list_all_iff entry_ok_def by fastforce
  have at: "\<forall>x \<in> set ps. snd x < length (item_rows its) \<and>
      bl_start (blocks ! snd x) = m_data (item_matches 0 its ! snd x) \<and>
      bl_end (blocks ! snd x) = m_end (item_matches 0 its ! snd x)"
    using lanes sel(2) n by (auto simp: blocks block_of_def item_matches_parts)
  have "\<forall>k. k \<notin> set sel \<longrightarrow> item_rows (put_all f ps its) ! k = item_rows its ! k"
    using lanes nth_mem by (fastforce intro!: put_all_other)
  moreover have "item_rows (put_all f ps its) ! (sel ! lane) = f lane" if "lane < length sel" for lane
    by (rule put_all_rows [OF order(2)])
      (use that order(1) sel(2) n in \<open>auto simp: in_set_enumerate_eq\<close>)
  moreover have "foldl (splice_bank blocks new) (text_of (items_lines its) @ r) ps = text_of (items_lines (put_all f ps its)) @ r"
    using splices_put [OF order(3) at, of new] by (simp only: f_def [abs_def])
  moreover have "list_all item_ok (put_all f ps its)"
    by (rule put_all_ok [OF ok]) (use lanes rows in blast)
  moreover have "\<forall>c \<in> set (text_of (items_lines (put_all f ps its))).
      c \<in> set (text_of (items_lines its)) \<or> c \<noteq> CHR 0x0D \<and> ccode c < 128"
    using put_all_chars [of f ps its] lanes rows rows_ok_chars by blast
  ultimately show thesis
    using rows by (intro that [of "put_all f ps its"]) (simp_all add: ps_def put_all_same)
qed

lemma block_values_items:
  assumes "k < length (item_rows its)"
  shows "bl_values (map block_of (item_matches 0 its) ! k) = map py_int16 (row_words (item_rows its ! k))"
proof -
  have "m_words (item_matches 0 its ! k) = row_words (item_rows its ! k)"
    using assms item_matches_parts(2) [of 0 its] item_matches_parts(3) [of 0 its] by (metis nth_map)
  then show ?thesis using assms by (simp add: item_matches_parts block_of_def)
qed

text \<open>The edited text of a configuration that parsed parses again, with the new contents.\<close>

lemma edited_blocks:
  assumes parse: "parse_blocks p config = Inr blocks" and ascii: "list_all (\<lambda>c. ccode c < 128) config"
    and sel: "distinct sel" "\<forall>k \<in> set sel. k < length blocks"
    and new: "\<forall>lane < length sel. length (new ! lane) = BANK_WORDS \<and> list_all (\<lambda>v. 0 \<le> v \<and> v < 256) (new ! lane)"
  defines "config' \<equiv> foldl (splice_bank blocks new) config (edit_order blocks sel)"
  obtains blocks' where "parse_blocks q config' = Inr blocks'" "list_all (\<lambda>c. ccode c < 128) config'"
    "map bl_id blocks' = map bl_id blocks" "distinct (map bl_id blocks)"
    "gaps 0 config' (block_spans blocks') = gaps 0 config (block_spans blocks)"
    "\<forall>lane < length sel. bl_values (blocks' ! (sel ! lane)) = new ! lane"
    "\<forall>k < length blocks. k \<notin> set sel \<longrightarrow> bl_values (blocks' ! k) = bl_values (blocks ! k)"
proof -
  from parse_blocks_items [OF parse] obtain its r where its: "config = text_of (items_lines its) @ r"
    "list_all item_ok its" "no_lf r" "match_header r = None" "check_blocks p [] (item_matches 0 its) = Inr blocks"
    "LANES \<le> length blocks" "CHR 0x0D \<notin> set config" by blast
  note chk = its(5) [unfolded check_blocks_iff]
  have blocks: "blocks = map block_of (item_matches 0 its)" using chk by blast
  from edited_items [OF blocks its(2) sel new, of r] obtain its' where
    config': "config' = text_of (items_lines its') @ r"
    and ok': "list_all item_ok its'" and same: "item_ids its' = item_ids its"
      "length (item_rows its') = length (item_rows its)" "item_gaps [] its' r = item_gaps [] its r"
    and chars: "\<forall>c \<in> set (text_of (items_lines its')). c \<in> set (text_of (items_lines its)) \<or> c \<noteq> CHR 0x0D \<and> ccode c < 128"
    and changed: "\<forall>lane < length sel. map py_int16 (row_words (item_rows its' ! (sel ! lane))) = new ! lane"
    and kept: "\<forall>k. k \<notin> set sel \<longrightarrow> item_rows its' ! k = item_rows its ! k"
    unfolding config'_def its(1) by blast
  define blocks' where "blocks' = map block_of (item_matches 0 its')"
  have n: "length blocks = length (item_rows its)" "length blocks' = length blocks"
    by (simp_all add: blocks blocks'_def item_matches_parts same)
  have vals: "bl_values (blocks' ! k) = map py_int16 (row_words (item_rows its' ! k))" if "k < length blocks" for k
    using that n same block_values_items [of k its'] by (simp only: blocks'_def)
  have sel': "\<forall>lane < length sel. bl_values (blocks' ! (sel ! lane)) = new ! lane"
    using vals changed sel(2) by simp
  have rest: "\<forall>k < length blocks. k \<notin> set sel \<longrightarrow> bl_values (blocks' ! k) = bl_values (blocks ! k)"
    using vals kept block_values_items [of _ its] n by (simp add: blocks)
  have vok: "values_ok (bl_values (blocks' ! k))" if k: "k < length blocks" for k
  proof (cases "k \<in> set sel")
    case True
    then obtain lane where lane: "lane < length sel" "k = sel ! lane" by (auto simp: in_set_conv_nth)
    have "v \<le> 511" if "v < 256" for v :: int using that by simp
    then show ?thesis using sel' new lane by (fastforce simp: values_ok_def list_all_iff)
  next
    case False
    then show ?thesis using rest k chk by (simp add: blocks block_of_def)
  qed
  have "values_ok (map py_int16 (m_words m))" if "m \<in> set (item_matches 0 its')" for m
  proof -
    have "block_of m \<in> set blocks'" using that by (simp add: blocks'_def)
    then have "values_ok (bl_values (block_of m))" using vok n(2) by (metis in_set_conv_nth)
    then show ?thesis by (simp add: block_of_def)
  qed
  then have chk': "check_blocks q [] (item_matches 0 its') = Inr blocks'"
    using chk unfolding check_blocks_iff by (simp add: blocks'_def item_matches_parts same)
  have "parse_blocks q config' = Inr blocks'"
    unfolding config' by (rule parse_items_blocks [OF ok' its(3,4) _ chk'])
      (use chars its(1,6,7) n(2) in auto)
  moreover have "list_all (\<lambda>c. ccode c < 128) config'"
    using chars ascii unfolding config' its(1) list_all_iff by auto
  moreover have ids: "map bl_id blocks' = map bl_id blocks" "distinct (map bl_id blocks)"
    using chk item_matches_parts(1) [of 0] same(1) by (simp_all add: blocks'_def blocks block_of_def comp_def)
  moreover have "gaps 0 config' (block_spans blocks') = gaps 0 config (block_spans blocks)"
    using gaps_items [of "[]" "[]" its' r] gaps_items [of "[]" "[]" its r]
    unfolding blocks'_def blocks block_spans_matches config' its(1) by (simp add: same)
  ultimately show thesis using that sel' rest by blast
qed

text \<open>
  C7. A boot-image update is exactly that: when \<open>update\<close> returns, the file it wrote parses
  again, the eight blocks it reports held the old image and now hold the new one, every block
  with another identifier has its old contents, the identifiers and their order and all the
  text outside the blocks' data are unchanged, and no other file is touched.
\<close>

theorem update_replaces_image:
  assumes "update fs i q f t = Inr (fs', ids)"
  shows "\<exists>w_old w_new config blocks config' blocks'.
    image_of fs f = Inr w_old \<and> image_of fs t = Inr w_new \<and>
    config_blocks fs i = Inr (config, blocks) \<and> config_blocks fs' q = Inr (config', blocks') \<and>
    held_image blocks ids = w_old \<and> held_image blocks' ids = w_new \<and>
    map bl_id blocks' = map bl_id blocks \<and>
    (\<forall>name. name \<notin> set ids \<longrightarrow> block_values blocks' name = block_values blocks name) \<and>
    gaps 0 config' (block_spans blocks') = gaps 0 config (block_spans blocks) \<and>
    fs' = fs\<lparr>fs_bytes := (fs_bytes fs)(q \<mapsto> config')\<rparr>"
proof -
  from update_parts [OF assms] obtain w_old w_new config blocks sel where
    images: "image_of fs f = Inr w_old" "image_of fs t = Inr w_new" "config_blocks fs i = Inr (config, blocks)"
    and sel: "select_lanes blocks 0 (banks w_old) = Inr sel" "distinct sel"
    and ids: "ids = map (\<lambda>k. bl_id (blocks ! k)) sel"
    and fs': "fs' = fs\<lparr>fs_bytes := (fs_bytes fs)(q \<mapsto>
      foldl (splice_bank blocks (banks w_new)) config (edit_order blocks sel))\<rparr>" by blast
  from images(3) have parse: "parse_blocks i config = Inr blocks" and ascii: "list_all (\<lambda>c. ccode c < 128) config"
    using read_ascii_text by (auto simp: config_blocks_def bindE_Inr_iff)
  note picked = select_lanes_facts [OF sel(1)]
  have len: "length sel = LANES" using picked by (simp add: banks_shape)
  have inside: "\<forall>k \<in> set sel. k < length blocks" using picked by (metis in_set_conv_nth)
  let ?config' = "foldl (splice_bank blocks (banks w_new)) config (edit_order blocks sel)"
  have "\<forall>lane < length sel. length (banks w_new ! lane) = BANK_WORDS \<and> list_all (\<lambda>v. 0 \<le> v \<and> v < 256) (banks w_new ! lane)"
    using banks_shape len by simp
  from edited_blocks [OF parse ascii sel(2) inside this, of q] obtain blocks' where
    new: "parse_blocks q ?config' = Inr blocks'" "list_all (\<lambda>c. ccode c < 128) ?config'"
    "map bl_id blocks' = map bl_id blocks" "distinct (map bl_id blocks)"
    "gaps 0 ?config' (block_spans blocks') = gaps 0 config (block_spans blocks)"
    "\<forall>lane < length sel. bl_values (blocks' ! (sel ! lane)) = banks w_new ! lane"
    "\<forall>k < length blocks. k \<notin> set sel \<longrightarrow> bl_values (blocks' ! k) = bl_values (blocks ! k)" by blast
  have config': "config_blocks fs' q = Inr (?config', blocks')"
    using new(1,2) by (simp add: config_blocks_def read_ascii_def fs')
  have dist': "distinct (map bl_id blocks')" using new(3,4) by simp
  have n: "length blocks' = length blocks" using new(3) by (metis length_map)
  have id: "bl_id (blocks' ! k) = bl_id (blocks ! k)" if "k < length blocks" for k
    using that new(3) n by (metis nth_map)
  have "map (block_values blocks) ids = banks w_old"
    using picked inside new(4) by (auto simp: ids block_values_nth banks_shape intro!: nth_equalityI)
  then have old: "held_image blocks ids = w_old"
    using unbanks_banks [OF image_of_words [OF images(1)]] by (simp add: held_image_def)
  have "map (block_values blocks') ids = banks w_new"
    using new(6) inside id n block_values_nth [OF dist'] len
    by (auto simp: ids banks_shape intro!: nth_equalityI)
  then have held: "held_image blocks' ids = w_new"
    using unbanks_banks [OF image_of_words [OF images(2)]] by (simp add: held_image_def)
  have rest: "block_values blocks' name = block_values blocks name" if "name \<notin> set ids" for name
  proof (cases "name \<in> set (map bl_id blocks)")
    case True
    then obtain k where k: "k < length blocks" "name = bl_id (blocks ! k)" by (auto simp: in_set_conv_nth)
    then have "k \<notin> set sel" using that by (auto simp: ids)
    then show ?thesis
      using k new(7) id [OF k(1)] block_values_nth [OF new(4) k(1)] block_values_nth [OF dist', of k] n by simp
  next
    case False
    have "block_values bs name = []" if "name \<notin> set (map bl_id bs)" for bs
      using that find_None_iff [of "\<lambda>b. bl_id b = name" bs] by (auto simp: block_values_def split: option.split)
    then show ?thesis using False new(3) by metis
  qed
  show ?thesis using images config' old held new(3,5) rest fs' by blast
qed

theorem update_replaces_image_witness:
  "\<exists>fs' ids config' blocks'. update sample_files ''in'' ''out'' ''old'' ''new'' = Inr (fs', ids) \<and>
     ids = map dec_str [0..<LANES] \<and>
     config_blocks fs' ''out'' = Inr (config', blocks') \<and> held_image blocks' ids = sample_new"
proof -
  obtain fs' where fs': "update sample_files ''in'' ''out'' ''old'' ''new'' = Inr (fs', map dec_str [0..<LANES])"
    using sample_updates by blast
  have "image_of sample_files ''new'' = Inr sample_new"
    by (rule image_of_text) (simp_all add: sample_files_def sample_new_def WORDS_def fits_def)
  then show ?thesis using update_replaces_image [OF fs'] fs' by auto
qed

end
