(* ===== verification/BinMem.thy ===== *)
theory BinMem
  imports HexText
begin

text \<open>
  \<open>tools/bin_to_memh.py\<close>: a little-endian binary image as the text of a memory file, one word
  per line (\<open>memh\<close>) or one per address (\<open>mif\<close>), padded with zero words to a depth. The
  options are the arguments the command line accepts: a width of 16 or 32, and an optional depth.
\<close>

section \<open>The conversion\<close>

datatype mem_format = Memh | Mif

datatype memh_error = DepthTooSmall int nat

text \<open>The word at byte \<open>i\<close>; a byte past the end of the image contributes nothing.\<close>

definition memh_word :: "int list \<Rightarrow> nat \<Rightarrow> nat \<Rightarrow> int" where
  "memh_word data n i =
     foldl (\<lambda>word byte. if i + byte < length data then word OR push_bit (byte * 8) (data ! (i + byte)) else word)
       0 [0..<n]"

definition memh_count :: "int list \<Rightarrow> nat \<Rightarrow> nat" where
  "memh_count data n = (length data + n - 1) div n"

definition memh_image :: "int list \<Rightarrow> nat \<Rightarrow> int list" where
  "memh_image data n = map (\<lambda>k. memh_word data n (n * k)) [0..<memh_count data n]"

definition memh_padded :: "int list \<Rightarrow> nat \<Rightarrow> int option \<Rightarrow> (memh_error, int list) result" where
  "memh_padded data n depth =
     (let words = memh_count data n; mem = memh_image data n in
      case depth of
        None \<Rightarrow> Inr mem
      | Some d \<Rightarrow> if d < int words then Inl (DepthTooSmall d words)
                  else Inr (mem @ replicate (nat (d - int words)) 0))"

definition memh_text :: "mem_format \<Rightarrow> nat \<Rightarrow> int list \<Rightarrow> string" where
  "memh_text fmt width mem =
     (case fmt of
        Mif \<Rightarrow>
          ''WIDTH='' @ fmt_d (int width) @ '';'' @ [CHR 0x0A] @ ''DEPTH='' @ fmt_d (int (length mem)) @ '';''
          @ [CHR 0x0A, CHR 0x0A]
          @ ''ADDRESS_RADIX=UNS;'' @ [CHR 0x0A] @ ''DATA_RADIX=HEX;'' @ [CHR 0x0A, CHR 0x0A]
          @ ''CONTENT BEGIN'' @ [CHR 0x0A]
          @ concat (map (\<lambda>(address, word).
              ''    '' @ fmt_d (int address) @ '' : '' @ fmt_0x (width div 4) word @ '';'' @ [CHR 0x0A])
              (enumerate 0 mem))
          @ ''END;'' @ [CHR 0x0A]
      | Memh \<Rightarrow> concat (map (\<lambda>word. fmt_0x (width div 4) word @ [CHR 0x0A]) mem))"

definition bin_to_memh :: "int list \<Rightarrow> int option \<Rightarrow> nat \<Rightarrow> mem_format \<Rightarrow> (memh_error, string) result" where
  "bin_to_memh data depth width fmt =
     bindE (memh_padded data (width div 8) depth) (\<lambda>mem. Inr (memh_text fmt width mem))"

section \<open>Reading a memory file\<close>

text \<open>What a memory loaded from the text holds: its words, and their bytes in order.\<close>

definition memh_words :: "string \<Rightarrow> int list" where
  "memh_words s = map py_int16 (splitlines s)"

definition word_bytes :: "nat \<Rightarrow> int \<Rightarrow> int list" where
  "word_bytes n w = map (\<lambda>b. take_bit 8 (drop_bit (8 * b) w)) [0..<n]"

definition memh_bytes :: "nat \<Rightarrow> string \<Rightarrow> int list" where
  "memh_bytes n s = concat (map (word_bytes n) (memh_words s))"

section \<open>Facts\<close>

definition byte_at :: "int list \<Rightarrow> nat \<Rightarrow> int" where
  "byte_at data i = (if i < length data then data ! i else 0)"

definition bytes_ok :: "int list \<Rightarrow> bool" where
  "bytes_ok data \<longleftrightarrow> list_all (\<lambda>b. 0 \<le> b \<and> b < 256) data"

lemma byte_at_range: "bytes_ok data \<Longrightarrow> take_bit 8 (byte_at data i) = byte_at data i"
  by (simp add: byte_at_def bytes_ok_def list_all_length take_bit_int_eq_self)

lemma memh_word_bits:
  assumes "bytes_ok data"
  shows "bit (memh_word data n i) j \<longleftrightarrow> j div 8 < n \<and> bit (byte_at data (i + j div 8)) (j mod 8)"
proof (induction n)
  case (Suc n)
  have step: "memh_word data (Suc n) i = memh_word data n i OR push_bit (n * 8) (byte_at data (i + n))"
    by (simp add: memh_word_def byte_at_def)
  have high: "\<not> bit (byte_at data (i + n)) m" if "8 \<le> m" for m
    using that byte_at_range [OF assms, of "i + n"] by (metis bit_take_bit_iff not_less)
  have "bit (push_bit (n * 8) (byte_at data (i + n))) j \<longleftrightarrow> j div 8 = n \<and> bit (byte_at data (i + n)) (j mod 8)"
  proof (cases "j div 8 = n")
    case True
    then have "n * 8 \<le> j" "j - n * 8 = j mod 8" by (auto simp: minus_div_mult_eq_mod)
    then show ?thesis using True by (simp add: bit_push_bit_iff)
  next
    case False
    then consider "j div 8 < n" | "n + 1 \<le> j div 8" by linarith
    then have "j < n * 8 \<or> 8 \<le> j - n * 8"
      by cases (simp_all add: div_less_iff_less_mult less_eq_div_iff_mult_less_eq)
    then show ?thesis using False high by (auto simp: bit_push_bit_iff)
  qed
  then show ?case using Suc by (auto simp: step bit_or_iff less_Suc_eq)
qed (simp add: memh_word_def)

lemma memh_word_bytes:
  assumes "bytes_ok data"
  shows "word_bytes n (memh_word data n i) = map (\<lambda>b. byte_at data (i + b)) [0..<n]"
proof -
  have "take_bit 8 (drop_bit (8 * b) (memh_word data n i)) = byte_at data (i + b)" if "b < n" for b
  proof (rule bit_eqI)
    fix j
    have "bit (byte_at data (i + b)) j \<longleftrightarrow> j < 8 \<and> bit (byte_at data (i + b)) j"
      using byte_at_range [OF assms, of "i + b"] by (metis bit_take_bit_iff)
    then show "bit (take_bit 8 (drop_bit (8 * b) (memh_word data n i))) j \<longleftrightarrow> bit (byte_at data (i + b)) j"
      using that by (auto simp: bit_take_bit_iff bit_drop_bit_eq memh_word_bits [OF assms])
  qed
  then show ?thesis by (simp add: word_bytes_def)
qed

lemma memh_word_range:
  assumes "bytes_ok data"
  shows "0 \<le> memh_word data n i \<and> memh_word data n i < 16 ^ (2 * n)"
proof -
  have "take_bit (8 * n) (memh_word data n i) = memh_word data n i"
    by (rule bit_eqI) (auto simp: bit_take_bit_iff memh_word_bits [OF assms] div_less_iff_less_mult mult.commute)
  then have "fits (8 * n) (memh_word data n i)" by (simp add: fits_take_bit)
  moreover have "(16::int) ^ (2 * n) = 2 ^ (8 * n)" by (simp add: power_mult)
  ultimately show ?thesis by (simp add: fits_def)
qed

text \<open>The bytes of the words are the image, with zeros up to a whole word.\<close>

lemma concat_indexed: "concat (map (\<lambda>k. map (\<lambda>b. f (n * k + b)) [0..<n]) [0..<m]) = map f [0..<n * m]"
proof (induction m)
  case (Suc m)
  have "map (\<lambda>b. f (n * m + b)) [0..<n] = map f [n * m..<n * m + n]"
    by (rule nth_equalityI) simp_all
  then show ?case using Suc by (simp add: upt_add_eq_append [of 0] add.commute [of n])
qed simp

lemma padded_bytes: "length data \<le> m \<Longrightarrow> map (byte_at data) [0..<m] = data @ replicate (m - length data) 0"
  by (rule nth_equalityI) (auto simp: byte_at_def nth_append)

lemma memh_count_bound: "0 < n \<Longrightarrow> length data \<le> n * memh_count data n"
  using dividend_less_div_times [of n "length data + n - 1"] by (simp add: memh_count_def mult.commute)

lemma memh_image_bytes:
  assumes "bytes_ok data" "0 < n"
  shows "concat (map (word_bytes n) (memh_image data n)) = data @ replicate (n * memh_count data n - length data) 0"
proof -
  have "concat (map (word_bytes n) (memh_image data n))
    = concat (map (\<lambda>k. map (\<lambda>b. byte_at data (n * k + b)) [0..<n]) [0..<memh_count data n])"
    by (simp add: memh_image_def comp_def memh_word_bytes [OF assms(1)])
  also have "\<dots> = map (byte_at data) [0..<n * memh_count data n]" by (rule concat_indexed)
  finally show ?thesis using padded_bytes memh_count_bound [OF assms(2)] by simp
qed

section \<open>Round trip\<close>

lemma memh_words_text:
  assumes "\<forall>w \<in> set ws. 0 \<le> w"
  shows "memh_words (memh_text Memh width ws) = ws"
proof -
  have "list_all (list_all (\<lambda>c. \<not> line_end c)) (map (fmt_0x (width div 4)) ws)"
    using assms fmt_0x_digits(2) is_hex_plain(2) by (fastforce simp: list_all_iff)
  then have "splitlines (memh_text Memh width ws) = map (fmt_0x (width div 4)) ws"
    using splitlines_text [of "map (fmt_0x (width div 4)) ws"] by (simp add: memh_text_def comp_def)
  then show ?thesis using assms fmt_0x_digits(3) by (auto simp: memh_words_def intro!: map_idI)
qed

lemma zero_bytes: "concat (replicate k (word_bytes n 0)) = replicate (n * k) 0"
  by (induction k) (simp_all add: word_bytes_def map_replicate_const replicate_add)

text \<open>
  C9. Loading what \<open>bin_to_memh\<close> writes gives the binary back. For an image of bytes and a width
  of 16 or 32, the conversion fails exactly when a depth is given that is below the number of
  words; otherwise the bytes of the written words are the image followed by zeros, as many
  words as the depth says (or as the image needs).
\<close>

theorem memh_loads_back:
  assumes "list_all (\<lambda>b. 0 \<le> b \<and> b < 256) data" "width \<in> {16, 32}"
  shows "case bin_to_memh data depth width Memh of
      Inl e \<Rightarrow> (\<exists>d. depth = Some d \<and> d * int (width div 8) < int (length data) \<and>
        e = DepthTooSmall d (memh_count data (width div 8)))
    | Inr s \<Rightarrow> (\<exists>k. memh_bytes (width div 8) s = data @ replicate k 0 \<and>
        (case depth of
           None \<Rightarrow> k < width div 8
         | Some d \<Rightarrow> int (length data + k) = d * int (width div 8)))"
proof -
  define n where "n = width div 8"
  define c where "c = memh_count data n"
  have n: "0 < n" using assms(2) by (auto simp: n_def)
  have ok: "bytes_ok data" using assms(1) by (simp add: bytes_ok_def)
  have len: "length data \<le> n * c" "n * c < length data + n"
  proof -
    have "n * c \<le> length data + n - 1" by (simp add: c_def memh_count_def)
    then show "length data \<le> n * c" "n * c < length data + n"
      using memh_count_bound [OF n, of data] n by (simp_all add: c_def)
  qed
  have nonneg: "\<forall>w \<in> set (memh_image data n @ replicate k 0). 0 \<le> w" for k
    using memh_word_range [OF ok] by (auto simp: memh_image_def)
  have bytes: "memh_bytes n (memh_text Memh width (memh_image data n @ replicate k 0))
      = data @ replicate (n * c - length data + n * k) 0" for k
    using memh_words_text [OF nonneg] memh_image_bytes [OF ok n]
    by (simp add: memh_bytes_def zero_bytes c_def replicate_add)
  show ?thesis
  proof (cases depth)
    case None
    have "bin_to_memh data depth width Memh = Inr (memh_text Memh width (memh_image data n @ replicate 0 0))"
      by (simp add: None bin_to_memh_def memh_padded_def Let_def n_def)
    then show ?thesis using bytes [of 0] len None n by (auto simp flip: n_def)
  next
    case (Some d)
    show ?thesis
    proof (cases "d < int c")
      case True
      then have "d \<le> int c - 1" by simp
      then have "d * int n \<le> (int c - 1) * int n" by (rule mult_right_mono) simp
      also have "(int c - 1) * int n = int (n * c) - int n" by (simp add: algebra_simps)
      also have "\<dots> < int (length data)" using len(2) by linarith
      finally show ?thesis
        using True by (simp add: Some bin_to_memh_def memh_padded_def Let_def c_def n_def)
    next
      case False
      define k where "k = nat (d - int c)"
      have r: "bin_to_memh data depth width Memh = Inr (memh_text Memh width (memh_image data n @ replicate k 0))"
        using False by (simp add: Some bin_to_memh_def memh_padded_def Let_def c_def k_def flip: n_def)
      have "int (length data + (n * c - length data + n * k)) = int n * int c + int n * int k" using len(1) by simp
      also have "int k = d - int c" using False by (simp add: k_def)
      also have "int n * int c + int n * (d - int c) = d * int n" by (simp add: algebra_simps)
      finally show ?thesis using bytes [of k] unfolding r by (auto simp: Some simp flip: n_def)
    qed
  qed
qed

theorem memh_loads_back_witness:
  "\<exists>s. bin_to_memh [10, 0, 3] (Some 3) 16 Memh = Inr s \<and> memh_bytes 2 s = [10, 0, 3, 0, 0, 0]"
proof -
  have "bin_to_memh [10, 0, 3] (Some 3) 16 Memh
      = Inr (''000a'' @ [CHR 0x0A] @ ''0003'' @ [CHR 0x0A] @ ''0000'' @ [CHR 0x0A])"
    by code_simp
  then obtain s where s: "bin_to_memh [10, 0, 3] (Some 3) 16 Memh = Inr s" by blast
  then obtain k where "memh_bytes 2 s = [10, 0, 3] @ replicate k 0" "int (3 + k) = 6"
    using memh_loads_back [of "[10, 0, 3]" 16 "Some 3"] by auto
  then show ?thesis using s by (intro exI [of _ s]) (simp add: numeral_eq_Suc)
qed

end
