(* ===== verification/FuzzReport.thy ===== *)
theory FuzzReport
  imports FuzzState HexText SimInv
begin

text \<open>
  The state a simulator prints is the state the fuzzer reads. The printer is the one of the C++
  simulator (\<open>main\<close> in \<open>tools/riscc_sim.cpp\<close>, with \<open>--state\<close> and \<open>--dump\<close>), over the machine
  state of \<open>SimMachine\<close>; the texts \<open>ipc3\<close> and \<open>ipc6\<close> are the printed instructions per cycle.
\<close>

section \<open>The printer\<close>

definition hex_word :: "int \<Rightarrow> string" where
  "hex_word v = ''0x'' @ fmt_0X 4 v"

definition summary_line :: "string \<Rightarrow> int \<Rightarrow> string \<Rightarrow> bool \<Rightarrow> sim \<Rightarrow> string" where
  "summary_line outcome cycles ipc3 pass m =
     outcome @ '' after '' @ fmt_d (sim_insns m) @ '' insns, '' @ fmt_d cycles @ '' cycles, IPC='' @ ipc3
     @ '', result='' @ hex_word (sim_mem m ! 0x7FFF) @ '': '' @ (if pass then ''PASS'' else ''FAIL'')"

definition state_text :: "string \<Rightarrow> int \<Rightarrow> string \<Rightarrow> sim \<Rightarrow> string" where
  "state_text outcome cycles ipc6 m =
     py_join '' '' [''STATE'', ''outcome='' @ outcome, ''insns='' @ fmt_d (sim_insns m),
       ''cycles='' @ fmt_d cycles, ''ipc='' @ ipc6, ''timing=modeled'',
       ''result='' @ hex_word (sim_mem m ! 0x7FFF)]"

definition regs_text :: "string \<Rightarrow> int list \<Rightarrow> string" where
  "regs_text name vs = py_join '' '' (name # map hex_word vs)"

definition dump_text :: "sim \<Rightarrow> int \<Rightarrow> nat \<Rightarrow> string" where
  "dump_text m base i =
     (let addr = base + int i in
      ''  ['' @ hex_word (addr AND 0xFFFF) @ ''] = '' @ hex_word (sim_mem m ! nat (addr AND 0x7FFF)))"

definition iss_report :: "string \<Rightarrow> int \<Rightarrow> string \<Rightarrow> string \<Rightarrow> bool \<Rightarrow> int \<Rightarrow> nat \<Rightarrow> sim \<Rightarrow> string" where
  "iss_report outcome cycles ipc3 ipc6 pass base len m =
     concat (map (\<lambda>l. l @ [CHR 0x0A])
       ([summary_line outcome cycles ipc3 pass m, state_text outcome cycles ipc6 m,
         regs_text ''R'' (sim_r m), regs_text ''S'' (sim_s m)]
        @ map (dump_text m base) [0..<len]))"

section \<open>Fields\<close>

definition field :: "string \<Rightarrow> bool" where
  "field w \<longleftrightarrow> w \<noteq> [] \<and> list_all (\<lambda>c. \<not> py_space c) w"

lemma field_strip: "field w \<Longrightarrow> py_strip w = w"
  by (intro py_strip_trimmed_id) (metis field_def hd_in_set last_in_set list_all_iff trimmed_def)

lemma fields_acc_word: "list_all (\<lambda>c. \<not> py_space c) w \<Longrightarrow> fields_acc cur (w @ s) = fields_acc (cur @ w) s"
  by (induction w arbitrary: cur) simp_all

lemma blank_space: "py_space CHR '' ''"
  by (simp add: py_space_def ccode_def)

lemma py_fields_join: "list_all field ws \<Longrightarrow> py_fields (py_join '' '' ws) = ws"
  unfolding py_fields_def
proof (induction "'' '' :: string" ws rule: py_join.induct)
  case (2 x)
  then show ?case using fields_acc_word [of x "[]" "[]"] by (simp add: field_def)
next
  case (3 x y ys)
  have "fields_acc [] (py_join '' '' (x # y # ys)) = x # fields_acc [] (py_join '' '' (y # ys))"
    using 3 fields_acc_word [of x "[]" "CHR '' '' # py_join '' '' (y # ys)"] by (simp add: field_def blank_space)
  then show ?case using 3 by simp
qed simp

lemma py_fields_two: "field a \<Longrightarrow> field b \<Longrightarrow> py_fields (a @ CHR '' '' # CHR '' '' # b) = [a, b]"
  unfolding py_fields_def
  using fields_acc_word [of a "[]" "CHR '' '' # CHR '' '' # b"] fields_acc_word [of b "[]" "[]"]
  by (simp add: field_def blank_space)

section \<open>Numbers\<close>

lemma underscores_plain: "CHR ''_'' \<notin> set s \<Longrightarrow> underscores_ok b s \<longleftrightarrow> b \<or> s \<noteq> []"
proof (induction s arbitrary: b)
  case (Cons c s)
  then show ?case by (cases s) auto
qed simp

lemma grouped_plain: "s \<noteq> [] \<Longrightarrow> CHR ''_'' \<notin> set s \<Longrightarrow> grouped b p s = map_option (number_of b) (digits_of b s)"
proof -
  assume s: "s \<noteq> []" "CHR ''_'' \<notin> set s"
  then have "filter (\<lambda>c. c \<noteq> CHR ''_'') s = s" by (intro filter_True) auto
  then show ?thesis using s by (simp add: grouped_def underscores_plain)
qed

lemma hex_word_digits:
  assumes "0 \<le> v"
  obtains ds where "hex_word v = ''0x'' @ ds" "ds \<noteq> []" "list_all (\<lambda>c. ident_char c \<and> c \<noteq> CHR ''_'') ds"
    "map_option (number_of 16) (digits_of 16 ds) = Some v"
proof -
  obtain ns where ns: "fmt_0X 4 v = map hex_digit ns" "ns \<noteq> []" "list_all (\<lambda>d. d < 16) ns" "number_of 16 ns = v"
    using fmt_0X_digits [OF assms] by blast
  have "hex_digit n \<noteq> CHR ''_''" if "n < 16" for n
    using that by (auto simp: hex_digit_def cchr_def ccode_def dest: arg_cong [of _ _ "of_char :: char \<Rightarrow> nat"])
  then have "list_all (\<lambda>c. ident_char c \<and> c \<noteq> CHR ''_'') (map hex_digit ns)"
    using ns(3) hex_digit_val by (auto simp: list_all_iff)
  moreover have "digits_of 16 (map hex_digit ns) = Some ns"
    using ns(2,3) hex_digit_val by (auto simp: digits_of_def list_all_iff intro!: map_idI)
  ultimately show thesis using that [of "map hex_digit ns"] ns by (simp add: hex_word_def)
qed

lemma ident_not_space: "ident_char c \<Longrightarrow> \<not> py_space c \<and> \<not> line_end c"
  by (auto simp: char_class_defs line_end_def ccode_def)

lemma field_ident: "w \<noteq> [] \<Longrightarrow> list_all ident_char w \<Longrightarrow> field w"
  using ident_not_space by (auto simp: field_def list_all_iff)

lemma hex_word_ident: "0 \<le> v \<Longrightarrow> hex_word v \<noteq> [] \<and> list_all ident_char (hex_word v)"
  by (rule hex_word_digits [of v]) (auto simp: list_all_iff char_class_defs ccode_def)

lemma py_int0_hex: "0 \<le> v \<Longrightarrow> py_int0 (hex_word v) = Inr v"
proof -
  assume v: "0 \<le> v"
  then obtain ds where ds: "hex_word v = ''0x'' @ ds" "ds \<noteq> []" "list_all (\<lambda>c. ident_char c \<and> c \<noteq> CHR ''_'') ds"
    "map_option (number_of 16) (digits_of 16 ds) = Some v" by (rule hex_word_digits)
  have "py_strip (hex_word v) = hex_word v" using hex_word_ident [OF v] field_ident field_strip by blast
  moreover have "CHR ''_'' \<notin> set ds" using ds(3) by (auto simp: list_all_iff)
  ultimately show ?thesis
    using ds grouped_plain [OF ds(2), of 16 True] by (auto simp: py_int0_def magnitude_def)
qed

lemma py_int0_dec: "0 \<le> n \<Longrightarrow> py_int0 (fmt_d n) = Inr n"
proof -
  assume n: "0 \<le> n"
  define s where "s = dec_str (nat n)"
  have s: "fmt_d n = s" "s \<noteq> []" "list_all is_digit s"
    using n dec_str_digits digits_of_dec [of "nat n"] by (auto simp: fmt_d_def s_def digits_of_def split: if_splits)
  have hd: "is_digit (hd s)" using s by (cases s) auto
  have "field s" using s by (auto simp: field_def list_all_iff is_digit_def py_space_def)
  then have "py_strip s = s" by (rule field_strip)
  moreover have "hd s \<noteq> CHR ''-''" "hd s \<noteq> CHR ''+''" using hd by (auto simp: is_digit_def ccode_def)
  moreover have "magnitude s = Some n"
  proof -
    have none: "(case s of c # x # ds \<Rightarrow>
        if c \<noteq> CHR ''0'' then None
        else if x = CHR ''x'' \<or> x = CHR ''X'' then Some (16, ds)
        else if x = CHR ''b'' \<or> x = CHR ''B'' then Some (2, ds)
        else if x = CHR ''o'' \<or> x = CHR ''O'' then Some (8, ds) else None
      | _ \<Rightarrow> None) = (None :: (nat \<times> string) option)"
      using s(3) by (auto simp: is_digit_def ccode_def split: list.splits)
    have "\<not> (hd s = CHR ''0'' \<and> list_ex (\<lambda>c. c \<noteq> CHR ''0'' \<and> c \<noteq> CHR ''_'') s)"
      using dec_str_lead [of "nat n"] by (auto simp: s_def list_all_iff list_ex_iff)
    moreover have "CHR ''_'' \<notin> set s" using s(3) by (auto simp: list_all_iff is_digit_def ccode_def)
    moreover have "map_option (number_of 10) (digits_of 10 s) = Some n"
      using n by (simp add: s_def digits_of_dec number_of_dec)
    ultimately show ?thesis using grouped_plain [OF s(2)] none by (simp add: magnitude_def)
  qed
  ultimately show ?thesis using s by (simp add: py_int0_def)
qed

section \<open>Lines\<close>

lemma state_item_text:
  "CHR ''='' \<notin> set key \<Longrightarrow> key \<notin> {''insns'', ''cycles'', ''result''} \<Longrightarrow>
   state_item (key @ CHR ''='' # val) st = Inr (st(key \<mapsto> VText val))"
  "CHR ''='' \<notin> set key \<Longrightarrow> key \<in> {''insns'', ''cycles'', ''result''} \<Longrightarrow> py_int0 val = Inr v \<Longrightarrow>
   state_item (key @ CHR ''='' # val) st = Inr (st(key \<mapsto> VInt v))"
proof -
  assume key: "CHR ''='' \<notin> set key"
  then have "takeWhile (\<lambda>c. c \<noteq> CHR ''='') (key @ CHR ''='' # val) = key"
    "dropWhile (\<lambda>c. c \<noteq> CHR ''='') (key @ CHR ''='' # val) = CHR ''='' # val"
    by (induction key) auto
  then show "key \<notin> {''insns'', ''cycles'', ''result''} \<Longrightarrow> state_item (key @ CHR ''='' # val) st = Inr (st(key \<mapsto> VText val))"
    and "key \<in> {''insns'', ''cycles'', ''result''} \<Longrightarrow> py_int0 val = Inr v \<Longrightarrow>
      state_item (key @ CHR ''='' # val) st = Inr (st(key \<mapsto> VInt v))"
    by (simp_all add: state_item_def Let_def)
qed

lemma fmt_d_ident: "0 \<le> n \<Longrightarrow> fmt_d n \<noteq> [] \<and> list_all ident_char (fmt_d n)"
  using dec_ident digits_of_dec [of "nat n"] by (auto simp: fmt_d_def digits_of_def split: if_splits)

definition ipc_text :: "string \<Rightarrow> bool" where
  "ipc_text s \<longleftrightarrow> s \<noteq> [] \<and> list_all (\<lambda>c. is_digit c \<or> c = CHR ''.'') s"

lemma field_prefix: "list_all (\<lambda>c. \<not> py_space c) k \<Longrightarrow> field w \<Longrightarrow> field (k @ w)"
  by (auto simp: field_def)

text \<open>The \<open>STATE\<close> line.\<close>

lemma state_line_state:
  assumes "field outcome" "ipc_text ipc6" "0 \<le> cycles" "0 \<le> sim_insns m" "0 \<le> sim_mem m ! 0x7FFF"
  shows "state_line (state_text outcome cycles ipc6 m) (st, dumped) =
    Inr (st(''outcome'' \<mapsto> VText outcome, ''insns'' \<mapsto> VInt (sim_insns m), ''cycles'' \<mapsto> VInt cycles,
       ''ipc'' \<mapsto> VText ipc6, ''timing'' \<mapsto> VText ''modeled'', ''result'' \<mapsto> VInt (sim_mem m ! 0x7FFF)), dumped)"
proof -
  let ?ws = "[''STATE'', ''outcome'' @ CHR ''='' # outcome, ''insns'' @ CHR ''='' # fmt_d (sim_insns m),
    ''cycles'' @ CHR ''='' # fmt_d cycles, ''ipc'' @ CHR ''='' # ipc6, ''timing'' @ CHR ''='' # ''modeled'',
    ''result'' @ CHR ''='' # hex_word (sim_mem m ! 0x7FFF)]"
  have form: "state_text outcome cycles ipc6 m = py_join '' '' ?ws" by (simp add: state_text_def)
  have keys: "field ''STATE'' \<and> list_all (\<lambda>c. \<not> py_space c) ''outcome='' \<and> list_all (\<lambda>c. \<not> py_space c) ''insns='' \<and>
    list_all (\<lambda>c. \<not> py_space c) ''cycles='' \<and> list_all (\<lambda>c. \<not> py_space c) ''ipc='' \<and>
    field ''timing=modeled'' \<and> list_all (\<lambda>c. \<not> py_space c) ''result=''" by code_simp
  have "field ipc6" using assms(2) by (auto simp: ipc_text_def field_def list_all_iff is_digit_def py_space_def ccode_def)
  moreover have "field (fmt_d (sim_insns m))" "field (fmt_d cycles)" "field (hex_word (sim_mem m ! 0x7FFF))"
    using fmt_d_ident hex_word_ident assms field_ident by blast+
  ultimately have "list_all field ?ws"
    using keys assms(1) field_prefix [of "''outcome=''" outcome] field_prefix [of "''insns=''" "fmt_d (sim_insns m)"]
      field_prefix [of "''cycles=''" "fmt_d cycles"] field_prefix [of "''ipc=''" ipc6]
      field_prefix [of "''result=''" "hex_word (sim_mem m ! 0x7FFF)"]
    by simp
  then have fields: "py_fields (state_text outcome cycles ipc6 m) = ?ws" unfolding form by (rule py_fields_join)
  have start: "startswith (state_text outcome cycles ipc6 m) ''STATE ''" by (simp add: form startswith_def)
  note item = state_item_text [of "''outcome''"] state_item_text [of "''insns''"] state_item_text [of "''cycles''"]
    state_item_text [of "''ipc''"] state_item_text [of "''timing''"] state_item_text [of "''result''"]
  have items: "state_items (drop 1 ?ws) st = Inr (st(''outcome'' \<mapsto> VText outcome, ''insns'' \<mapsto> VInt (sim_insns m),
    ''cycles'' \<mapsto> VInt cycles, ''ipc'' \<mapsto> VText ipc6, ''timing'' \<mapsto> VText ''modeled'',
    ''result'' \<mapsto> VInt (sim_mem m ! 0x7FFF)))"
    using item py_int0_dec [OF assms(4)] py_int0_dec [OF assms(3)] py_int0_hex [OF assms(5)] by simp
  show ?thesis using start by (simp only: state_line_def fields items prod.case if_True bindE_simps)
qed

text \<open>The register lines.\<close>

lemma regs_line_words:
  assumes "list_all (fits 16) vs" "vs \<noteq> []"
  shows "regs_text [c] vs = c # CHR '' '' # py_join '' '' (map hex_word vs)"
    "\<not> py_space c \<Longrightarrow> mapE py_int0 (drop 1 (py_fields (regs_text [c] vs))) = Inr vs"
proof -
  show "regs_text [c] vs = c # CHR '' '' # py_join '' '' (map hex_word vs)"
    using assms(2) by (cases vs) (simp_all add: regs_text_def)
  assume c: "\<not> py_space c"
  have nonneg: "0 \<le> v" if "v \<in> set vs" for v using assms(1) that by (auto simp: list_all_iff fits_def)
  then have "field (hex_word v)" if "v \<in> set vs" for v using that hex_word_ident field_ident by blast
  then have "list_all field ([c] # map hex_word vs)" using c by (auto simp: list_all_iff field_def)
  then have "py_fields (regs_text [c] vs) = [c] # map hex_word vs" unfolding regs_text_def by (rule py_fields_join)
  moreover have "mapE py_int0 (map hex_word vs) = Inr vs"
    using nonneg by (induction vs) (simp_all add: py_int0_hex)
  ultimately show "mapE py_int0 (drop 1 (py_fields (regs_text [c] vs))) = Inr vs" by simp
qed

lemma state_line_regs:
  assumes "list_all (fits 16) vs" "vs \<noteq> []"
  shows "state_line (regs_text ''R'' vs) (st, dumped) = Inr (st(''r'' \<mapsto> VInts vs), dumped)"
    "state_line (regs_text ''S'' vs) (st, dumped) = Inr (st(''s'' \<mapsto> VInts vs), dumped)"
proof -
  have sp: "\<not> py_space CHR ''R''" "\<not> py_space CHR ''S''" by (simp_all add: py_space_def ccode_def)
  have start: "\<not> startswith (regs_text ''R'' vs) ''STATE ''" "startswith (regs_text ''R'' vs) ''R ''"
    "\<not> startswith (regs_text ''S'' vs) ''STATE ''" "\<not> startswith (regs_text ''S'' vs) ''R ''"
    "startswith (regs_text ''S'' vs) ''S ''"
    unfolding regs_line_words(1) [OF assms] by (simp_all add: startswith_def)
  note r = regs_line_words(2) [OF assms sp(1)] regs_line_words(2) [OF assms sp(2)]
  show "state_line (regs_text ''R'' vs) (st, dumped) = Inr (st(''r'' \<mapsto> VInts vs), dumped)"
    using start(1,2) by (simp only: state_line_def prod.case r if_True if_False bindE_simps)
  show "state_line (regs_text ''S'' vs) (st, dumped) = Inr (st(''s'' \<mapsto> VInts vs), dumped)"
    using start(3-5) by (simp only: state_line_def prod.case r if_True if_False bindE_simps)
qed

text \<open>A line of the memory dump.\<close>

lemma strip_keeps_start:
  assumes "c # cs = l" "\<not> py_space c"
  shows "\<exists>ds. py_strip l = c # ds"
proof -
  have "lstrip l = l" by (rule lstrip_id) (use assms in auto)
  moreover have "dropWhile py_space (rev cs @ [c]) = dropWhile py_space (rev cs) @ [c]"
    using assms(2) by (simp add: dropWhile_append)
  ultimately show ?thesis using assms(1)
    by (intro exI [of _ "rev (dropWhile py_space (rev cs))"]) (auto simp: py_strip_def rstrip_def)
qed

lemma state_line_dump:
  assumes "0 \<le> a" "0 \<le> v"
  shows "state_line (''  ['' @ hex_word a @ ''] = '' @ hex_word v) (st, dumped) =
    Inr (st, dumped(a AND 0x7fff \<mapsto> v))"
proof -
  let ?b = "''['' @ hex_word a @ ''] = '' @ hex_word v"
  define l where "l = ''  ['' @ hex_word a @ ''] = '' @ hex_word v"
  note wa = hex_word_ident [OF assms(1)] and wv = hex_word_ident [OF assms(2)]
  have fields: "field (hex_word a)" "field (hex_word v)" using wa wv field_ident by blast+
  have "\<not> py_space (last (hex_word v))" using fields(2) by (auto simp: field_def list_all_iff)
  then have strip: "py_strip l = ?b"
    using strip_indented [of ?b 2] wv by (simp add: l_def numeral_2_eq_2 py_space_def ccode_def)
  have start: "\<not> startswith l ''STATE ''" "\<not> startswith l ''R ''" "\<not> startswith l ''S ''"
    by (simp_all add: l_def startswith_def)
  obtain ds where "hex_word a = ''0x'' @ ds" by (rule hex_word_digits [OF assms(1)])
  then have bracket: "startswith ?b ''[0x''" by (simp add: startswith_def)
  have keep: "filter (\<lambda>c. c \<noteq> CHR ''['' \<and> c \<noteq> CHR '']'' \<and> c \<noteq> CHR ''='') (hex_word w) = hex_word w" if "0 \<le> w" for w
    using hex_word_ident [OF that] by (intro filter_True) (auto simp: list_all_iff char_class_defs ccode_def)
  have "filter (\<lambda>c. c \<noteq> CHR ''['' \<and> c \<noteq> CHR '']'' \<and> c \<noteq> CHR ''='') ?b = hex_word a @ CHR '' '' # CHR '' '' # hex_word v"
    using keep [OF assms(1)] keep [OF assms(2)] by simp
  then have two: "py_fields (filter (\<lambda>c. c \<noteq> CHR ''['' \<and> c \<noteq> CHR '']'' \<and> c \<noteq> CHR ''='') ?b) = [hex_word a, hex_word v]"
    using py_fields_two [OF fields] by simp
  show ?thesis
    unfolding l_def [symmetric] using start bracket
    by (simp only: state_line_def prod.case strip two if_True if_False list.case py_int0_hex assms bindE_simps)
qed

lemma state_line_other:
  assumes "l \<noteq> []" "\<not> py_space (hd l)" "hd l \<notin> {CHR ''S'', CHR ''R'', CHR ''[''}"
  shows "state_line l acc = Inr acc"
proof -
  obtain c cs where l: "l = c # cs" using assms(1) by (cases l) auto
  then obtain ds where "py_strip l = c # ds" using strip_keeps_start [of c cs l] assms(2) by auto
  then show ?thesis using assms l by (auto simp: state_line_def startswith_def split: prod.split)
qed

lemma state_lines_append:
  "state_lines (ls @ ms) acc = bindE (state_lines ls acc) (\<lambda>acc'. state_lines ms acc')"
  by (induction ls arbitrary: acc) (auto simp: bindE_def split: sum.splits)

section \<open>The dump\<close>

lemma dump_address: "(x AND 0xFFFF) AND 0x7fff = x AND 0x7fff" for x :: int
  by (simp add: and.assoc)

lemma word_nonneg: "words16 n xs \<Longrightarrow> i < n \<Longrightarrow> 0 \<le> xs ! i"
  by (simp add: words16_def list_all_length fits_def)

lemma state_lines_dump:
  assumes "words16 32768 (sim_mem m)"
  shows "state_lines (map (dump_text m base) [0..<n]) (st, dumped) =
    Inr (st, \<lambda>a. if \<exists>i < n. a = (base + int i) AND 0x7fff then Some (sim_mem m ! nat a) else dumped a)"
proof (induction n)
  case (Suc n)
  let ?a = "base + int n"
  have "?a AND 0x7fff < 32768" "0 \<le> ?a AND 0x7fff" by (simp_all add: and_32767)
  then have "nat (?a AND 0x7fff) < 32768" by (simp add: nat_less_iff)
  then have v: "0 \<le> sim_mem m ! nat (?a AND 0x7fff)" by (rule word_nonneg [OF assms])
  have line: "state_line (dump_text m base n) (st, d) = Inr (st, d(?a AND 0x7fff \<mapsto> sim_mem m ! nat (?a AND 0x7fff)))" for d
    using state_line_dump [OF _ v, of "?a AND 0xFFFF" st d]
    unfolding dump_text_def Let_def dump_address by simp
  have "(\<lambda>a. if \<exists>i < n. a = (base + int i) AND 0x7fff then Some (sim_mem m ! nat a) else dumped a)
      (?a AND 0x7fff \<mapsto> sim_mem m ! nat (?a AND 0x7fff)) =
    (\<lambda>a. if \<exists>i < Suc n. a = (base + int i) AND 0x7fff then Some (sim_mem m ! nat a) else dumped a)"
    by (rule ext) (auto simp: less_Suc_eq)
  then show ?case using Suc by (simp add: state_lines_append line)
qed simp

lemma dump_words_all:
  assumes "\<forall>i < n. dumped ((base + int i) AND 0x7fff) = Some (f i)"
  shows "dump_words dumped base n = Inr (map f [0..<n])"
  unfolding dump_words_def by (rule mapE_all_Inr) (use assms in simp)

section \<open>The report\<close>

lemma field_no_line_end: "list_all (\<lambda>c. \<not> py_space c) w \<Longrightarrow> list_all (\<lambda>c. \<not> line_end c) w"
  by (auto simp: list_all_iff line_end_def py_space_def)

lemma report_lines_plain:
  assumes "field outcome" "ipc_text ipc3" "ipc_text ipc6" "0 \<le> cycles" "wf_sim m"
  shows "list_all (list_all (\<lambda>c. \<not> line_end c))
    ([summary_line outcome cycles ipc3 pass m, state_text outcome cycles ipc6 m,
      regs_text ''R'' (sim_r m), regs_text ''S'' (sim_s m)] @ map (dump_text m base) [0..<len])"
proof -
  let ?P = "list_all (\<lambda>c. \<not> line_end c)"
  have mem: "words16 32768 (sim_mem m)" "words16 8 (sim_r m)" "words16 8 (sim_s m)" "0 \<le> sim_insns m"
    using assms(5) by (simp_all add: wf_sim_def)
  have hex: "?P (hex_word v)" if "0 \<le> v" for v
    using hex_word_ident [OF that] ident_not_space by (auto simp: list_all_iff)
  have dec: "?P (fmt_d n)" if "0 \<le> n" for n
    using fmt_d_ident [OF that] ident_not_space by (auto simp: list_all_iff)
  have ipc: "?P s" if "ipc_text s" for s
    using that by (auto simp: ipc_text_def list_all_iff is_digit_def line_end_def ccode_def)
  have out: "?P outcome" using assms(1) field_no_line_end by (simp add: field_def)
  have join: "?P (py_join '' '' ws)" if "list_all ?P ws" for ws
    using that by (induction "'' '' :: string" ws rule: py_join.induct) (auto simp: line_end_def ccode_def)
  have regs: "list_all ?P (map hex_word vs)" if "words16 8 vs" for vs
    using that hex by (auto simp: words16_def list_all_iff fits_def)
  have dump: "?P (dump_text m base i)" for i
  proof -
    have "nat ((base + int i) AND 0x7fff) < 32768" by (simp add: and_32767 nat_less_iff)
    then have "0 \<le> sim_mem m ! nat ((base + int i) AND 0x7fff)" by (rule word_nonneg [OF mem(1)])
    then have "?P (hex_word ((base + int i) AND 0xFFFF))" "?P (hex_word (sim_mem m ! nat ((base + int i) AND 0x7fff)))"
      using hex by simp_all
    then show ?thesis by (simp add: dump_text_def Let_def line_end_def ccode_def)
  qed
  have result: "?P (hex_word (sim_mem m ! 0x7FFF))" by (rule hex [OF word_nonneg [OF mem(1)]]) simp
  have "?P (summary_line outcome cycles ipc3 pass m)"
    using out result dec [OF mem(4)] dec [OF assms(4)] ipc [OF assms(2)]
    by (simp add: summary_line_def line_end_def ccode_def)
  moreover have "?P (state_text outcome cycles ipc6 m)"
    unfolding state_text_def
    by (rule join) (use out result dec [OF mem(4)] dec [OF assms(4)] ipc [OF assms(3)] in
        \<open>simp add: line_end_def ccode_def\<close>)
  moreover have "?P (regs_text ''R'' (sim_r m))" "?P (regs_text ''S'' (sim_s m))"
    unfolding regs_text_def by (rule join, use regs mem(2,3) in \<open>simp add: line_end_def ccode_def\<close>)+
  ultimately show ?thesis using dump by (simp add: list_all_iff)
qed

text \<open>
  C8. The fuzzer reads the state the simulator printed. For a machine state \<open>m\<close> of the simulator,
  a run's outcome and a window of memory, parsing the report gives the outcome, the counters,
  the sixteen registers, the result word and the memory words of the window, addresses wrapping
  at the end of memory.
\<close>

theorem report_is_read_back:
  assumes "wf_sim m" "outcome \<in> {''DONE'', ''HALT'', ''TIMEOUT''}" "0 \<le> cycles" "ipc_text ipc3" "ipc_text ipc6"
  shows "\<exists>st. parse_fast_state (iss_report outcome cycles ipc3 ipc6 pass base len m) (Some base) len = Inr st \<and>
    st ''outcome'' = Some (VText outcome) \<and> st ''insns'' = Some (VInt (sim_insns m)) \<and>
    st ''cycles'' = Some (VInt cycles) \<and> st ''result'' = Some (VInt (sim_mem m ! nat RESULT_W)) \<and>
    st ''r'' = Some (VInts (sim_r m)) \<and> st ''s'' = Some (VInts (sim_s m)) \<and>
    st ''mem'' = Some (VInts (map (\<lambda>i. sim_mem m ! nat ((base + int i) AND 0x7fff)) [0..<len]))"
proof -
  have mem: "words16 32768 (sim_mem m)" "list_all (fits 16) (sim_r m)" "list_all (fits 16) (sim_s m)"
    "sim_r m \<noteq> []" "sim_s m \<noteq> []" "0 \<le> sim_insns m" "0 \<le> sim_mem m ! 0x7FFF"
    using assms(1) word_nonneg [where n = 32768 and xs = "sim_mem m" and i = 32767] by (auto simp: wf_sim_def words16_def)
  have "list_all (\<lambda>s. field s \<and> \<not> py_space (hd s) \<and> hd s \<notin> {CHR ''S'', CHR ''R'', CHR ''[''})
    [''DONE'', ''HALT'', ''TIMEOUT'']" by code_simp
  then have out: "field outcome" and c: "\<not> py_space (hd outcome)" "hd outcome \<notin> {CHR ''S'', CHR ''R'', CHR ''[''}"
    using assms(2) by auto
  have lines: "splitlines (iss_report outcome cycles ipc3 ipc6 pass base len m) =
      [summary_line outcome cycles ipc3 pass m, state_text outcome cycles ipc6 m,
       regs_text ''R'' (sim_r m), regs_text ''S'' (sim_s m)] @ map (dump_text m base) [0..<len]"
    unfolding iss_report_def by (rule splitlines_text [OF report_lines_plain [OF out assms(4,5,3,1)]])
  have summary: "state_line (summary_line outcome cycles ipc3 pass m) acc = Inr acc" for acc
    by (rule state_line_other) (use out c in \<open>simp_all add: summary_line_def field_def\<close>)
  let ?st = "Map.empty(''outcome'' \<mapsto> VText outcome, ''insns'' \<mapsto> VInt (sim_insns m), ''cycles'' \<mapsto> VInt cycles,
    ''ipc'' \<mapsto> VText ipc6, ''timing'' \<mapsto> VText ''modeled'', ''result'' \<mapsto> VInt (sim_mem m ! 0x7FFF),
    ''r'' \<mapsto> VInts (sim_r m), ''s'' \<mapsto> VInts (sim_s m))"
  let ?d = "\<lambda>a. if \<exists>i < len. a = (base + int i) AND 0x7fff then Some (sim_mem m ! nat a) else None"
  have read: "state_lines (splitlines (iss_report outcome cycles ipc3 ipc6 pass base len m)) (Map.empty, Map.empty)
      = Inr (?st, ?d)"
    unfolding lines append_Cons append_Nil state_lines.simps summary bindE_simps
      state_line_state [OF out assms(5,3) mem(6,7)] state_line_regs(1) [OF mem(2,4)] state_line_regs(2) [OF mem(3,5)]
      state_lines_dump [OF mem(1)] by simp
  have "dump_words ?d base len = Inr (map (\<lambda>i. sim_mem m ! nat ((base + int i) AND 0x7fff)) [0..<len])"
    by (rule dump_words_all) auto
  then show ?thesis unfolding parse_fast_state_def read by (simp add: RESULT_W_def)
qed

theorem report_is_read_back_witness:
  "\<exists>st. parse_fast_state (iss_report ''DONE'' 7 ''0.000'' ''0.000000'' True 0x7FFF 2
      (sim_init [0xFF, 0x07] default_opts)) (Some 0x7FFF) 2 = Inr st \<and>
    st ''r'' = Some (VInts (replicate 8 0)) \<and> st ''mem'' = Some (VInts [0, 0x7FF])"
proof -
  let ?m = "sim_init [0xFF, 0x07] default_opts"
  have wf: "wf_sim ?m" by (rule wf_sim_init) (simp_all add: default_opts_def fits_def)
  have ipc: "ipc_text ''0.000''" "ipc_text ''0.000000''" by code_simp+
  have mem: "map (\<lambda>i. sim_mem ?m ! nat ((0x7FFF + int i) AND 0x7fff)) [0..<2] = [0, 0x7FF]"
    by (simp add: sim_init_def Let_def upt_rec nth_list_update mask_simps load_image_eval)
  have regs: "sim_r ?m = replicate 8 0" by (simp add: sim_init_def Let_def)
  have side: "''DONE'' \<in> {''DONE'', ''HALT'', ''TIMEOUT''}" "(0::int) \<le> 7" by simp_all
  show ?thesis
    using report_is_read_back [OF wf side ipc, of True 32767 2] unfolding mem regs by blast
qed

end
