(* ===== verification/SimVideo.thy ===== *)
theory SimVideo
  imports SimMachine Checksum HexText
begin

text \<open>
  The framebuffer of the simulator \<open>tools/riscc_sim.py\<close>: the pixels it reads from memory, the
  PNG file it writes, and the geometry and texts of its window. The window toolkit is not
  modelled: an operation gives the values the code passes to it. The compressor of \<open>zlib\<close> is a
  parameter.
\<close>

section \<open>Pixels\<close>

definition FB_BASE_W :: nat where "FB_BASE_W = 0x4000"
definition FB_WIDTH :: nat where "FB_WIDTH = 160"
definition FB_HEIGHT :: nat where "FB_HEIGHT = 120"

type_synonym rgb = "int \<times> int \<times> int"

definition FB_PALETTE :: "rgb list" where
  "FB_PALETTE =
     [(0x02, 0x04, 0x0a), (0x06, 0x11, 0x2b), (0x0a, 0x1f, 0x4d), (0x0d, 0x32, 0x74),
      (0x10, 0x49, 0x9c), (0x14, 0x64, 0xc4), (0x1a, 0x82, 0xe6), (0x25, 0xa4, 0xff),
      (0x45, 0xbd, 0xff), (0x6d, 0xd3, 0xff), (0x98, 0xe5, 0xff), (0xbd, 0xf1, 0xff),
      (0xd8, 0xf8, 0xff), (0xea, 0xfc, 0xff), (0xf6, 0xfe, 0xff), (0xff, 0xff, 0xff)]"

definition fb_pixel :: "int list \<Rightarrow> nat \<Rightarrow> rgb" where
  "fb_pixel mem pix =
     (let word = mem ! (FB_BASE_W + drop_bit 2 pix) in
      FB_PALETTE ! nat (drop_bit ((pix AND 3) * 4) word AND 0xF))"

definition framebuffer_pixels :: "int list \<Rightarrow> rgb list list" where
  "framebuffer_pixels mem =
     map (\<lambda>y. map (\<lambda>x. fb_pixel mem (y * FB_WIDTH + x)) [0..<FB_WIDTH]) [0..<FB_HEIGHT]"

section \<open>The PNG file\<close>

text \<open>\<open>struct.pack(">I", n)\<close> for a number below $2^{32}$.\<close>

definition be32 :: "int \<Rightarrow> int list" where
  "be32 n = map (\<lambda>k. drop_bit k n AND 0xFF) [24, 16, 8, 0]"

definition png_chunk :: "int list \<Rightarrow> int list \<Rightarrow> int list" where
  "png_chunk kind data =
     be32 (int (length data)) @ kind @ data @ be32 (crc32 (kind @ data) AND 0xFFFFFFFF)"

definition png_raw :: "int list \<Rightarrow> int list" where
  "png_raw mem = concat (map (\<lambda>row. 0 # concat (map (\<lambda>(r, g, b). [r, g, b]) row)) (framebuffer_pixels mem))"

definition PNG_SIGNATURE :: "int list" where
  "PNG_SIGNATURE = [0x89, 0x50, 0x4E, 0x47, 0x0D, 0x0A, 0x1A, 0x0A]"

definition IHDR :: "int list" where "IHDR = [0x49, 0x48, 0x44, 0x52]"
definition IDAT :: "int list" where "IDAT = [0x49, 0x44, 0x41, 0x54]"
definition IEND :: "int list" where "IEND = [0x49, 0x45, 0x4E, 0x44]"

text \<open>The bytes \<open>write_framebuffer_png\<close> writes.\<close>

definition framebuffer_png :: "(int list \<Rightarrow> int list) \<Rightarrow> int list \<Rightarrow> int list" where
  "framebuffer_png compress mem =
     PNG_SIGNATURE @
     png_chunk IHDR (be32 (int FB_WIDTH) @ be32 (int FB_HEIGHT) @ [8, 2, 0, 0, 0]) @
     png_chunk IDAT (compress (png_raw mem)) @
     png_chunk IEND []"

section \<open>The window\<close>

text \<open>\<open>wn_zoomed\<close> is the scale the shown image was made with, \<open>wn_at\<close> the place of the image.\<close>

record window =
  wn_scale :: int
  wn_closed :: bool
  wn_zoomed :: int
  wn_at :: "int \<times> int"

text \<open>\<open>place_image\<close>: \<open>dim\<close> is the size of the canvas.\<close>

definition place_image :: "int \<times> int \<Rightarrow> window \<Rightarrow> window" where
  "place_image dim w = (case dim of (cw, ch) \<Rightarrow>
     w\<lparr>wn_at := (max 0 ((max 1 cw - int FB_WIDTH * wn_scale w) div 2),
                 max 0 ((max 1 ch - int FB_HEIGHT * wn_scale w) div 2))\<rparr>)"

definition redraw_zoom :: "int \<times> int \<Rightarrow> window \<Rightarrow> window" where
  "redraw_zoom dim w = place_image dim (w\<lparr>wn_zoomed := wn_scale w\<rparr>)"

definition open_window :: "int \<times> int \<Rightarrow> int \<Rightarrow> window" where
  "open_window dim scale =
     redraw_zoom dim \<lparr>wn_scale = max 1 scale, wn_closed = False, wn_zoomed = 0, wn_at = (0, 0)\<rparr>"

text \<open>The event of a canvas that has got the size \<open>dim\<close>.\<close>

definition resize :: "int \<times> int \<Rightarrow> window \<Rightarrow> window" where
  "resize dim w = (case dim of (ew, eh) \<Rightarrow>
     let scale = max 1 (min (max 1 ew div int FB_WIDTH) (max 1 eh div int FB_HEIGHT)) in
     if scale \<noteq> wn_scale w then redraw_zoom dim (w\<lparr>wn_scale := scale\<rparr>) else place_image dim w)"

definition close_window :: "window \<Rightarrow> window" where
  "close_window w = w\<lparr>wn_closed := True\<rparr>"

definition row_text :: "rgb list \<Rightarrow> string" where
  "row_text row =
     ''{'' @ py_join '' '' (map (\<lambda>(r, g, b). ''#'' @ fmt_0x 2 r @ fmt_0x 2 g @ fmt_0x 2 b) row) @ ''}''"

definition window_status :: "sim \<Rightarrow> string" where
  "window_status m =
     ''insns='' @ fmt_d (sim_insns m) @ '' uart-rx='' @ (if sim_uart_rx_ready m then ''ready'' else ''idle'') @
     '' uart-tx='' @ fmt_d (int (length (sim_uart_out m)))"

text \<open>
  \<open>update\<close>: nothing when the window is closed, otherwise the text of the image, the status line
  and the window with the image redrawn.
\<close>

definition update_window :: "int \<times> int \<Rightarrow> sim \<Rightarrow> window \<Rightarrow> (string \<times> string) option \<times> window" where
  "update_window dim m w =
     (if wn_closed w then (None, w)
      else (Some (py_join '' '' (map row_text (framebuffer_pixels (sim_mem m))), window_status m),
            redraw_zoom dim w))"

section \<open>Placement\<close>

text \<open>
  After a resize the image is the largest whole multiple that fits, shown at that scale and
  centred, provided the canvas holds the unscaled image.
\<close>

lemma resize_fits:
  assumes "int FB_WIDTH \<le> cw" "int FB_HEIGHT \<le> ch" "wn_zoomed w = wn_scale w" "resize (cw, ch) w = w'"
  shows "wn_zoomed w' = wn_scale w' \<and> 1 \<le> wn_scale w' \<and>
    int FB_WIDTH * wn_scale w' \<le> cw \<and> int FB_HEIGHT * wn_scale w' \<le> ch \<and>
    (cw < int FB_WIDTH * (wn_scale w' + 1) \<or> ch < int FB_HEIGHT * (wn_scale w' + 1)) \<and>
    wn_at w' = ((cw - int FB_WIDTH * wn_scale w') div 2, (ch - int FB_HEIGHT * wn_scale w') div 2)"
proof -
  define k where "k = min (cw div 160) (ch div 120)"
  have "160 \<le> cw" "120 \<le> ch" using assms(1,2) by (simp_all add: FB_WIDTH_def FB_HEIGHT_def)
  then have "1 \<le> cw div 160" "1 \<le> ch div 120" by presburger+
  then have one: "1 \<le> k" by (simp add: k_def)
  have fit: "160 * k \<le> cw" "120 * k \<le> ch" "cw < 160 * (k + 1) \<or> ch < 120 * (k + 1)"
  proof -
    have k: "k \<le> cw div 160" "k \<le> ch div 120" "k = cw div 160 \<or> k = ch div 120" by (auto simp: k_def min_def)
    have "160 * (cw div 160) \<le> cw" "120 * (ch div 120) \<le> ch" by simp_all
    moreover have "cw < 160 * (cw div 160 + 1)" "ch < 120 * (ch div 120 + 1)"
      using pos_mod_bound [of 160 cw] pos_mod_bound [of 120 ch] mult_div_mod_eq [of 160 cw] mult_div_mod_eq [of 120 ch]
      by (simp_all only: distrib_left)
    ultimately show "160 * k \<le> cw" "120 * k \<le> ch" "cw < 160 * (k + 1) \<or> ch < 120 * (k + 1)"
      using k by (linarith, linarith, metis)
  qed
  have id: "max 1 cw = cw" "max 1 ch = ch" using assms(1,2) by (auto simp: FB_WIDTH_def FB_HEIGHT_def max_def)
  have scale: "max 1 (min (cw div 160) (ch div 120)) = k"
    using one by (simp only: k_def [symmetric] max_def if_True)
  have w': "w' = (if k \<noteq> wn_scale w then redraw_zoom (cw, ch) (w\<lparr>wn_scale := k\<rparr>) else place_image (cw, ch) w)"
    using assms(4) unfolding resize_def Let_def FB_WIDTH_def FB_HEIGHT_def prod.case of_nat_numeral id scale by (rule sym)
  have at: "max 0 ((cw - 160 * k) div 2) = (cw - 160 * k) div 2" "max 0 ((ch - 120 * k) div 2) = (ch - 120 * k) div 2"
    using fit(1,2) by (simp_all add: max_def)
  have place: "wn_at (place_image (cw, ch) v) = ((cw - 160 * k) div 2, (ch - 120 * k) div 2)" if "wn_scale v = k" for v
    using that unfolding place_image_def prod.case FB_WIDTH_def FB_HEIGHT_def of_nat_numeral id by (simp add: at)
  have same: "wn_scale (place_image (cw, ch) v) = wn_scale v" "wn_zoomed (place_image (cw, ch) v) = wn_zoomed v" for v
    by (simp_all add: place_image_def)
  have "wn_scale w' = k" "wn_zoomed w' = k" "wn_at w' = ((cw - 160 * k) div 2, (ch - 120 * k) div 2)"
    using assms(3) place [of w] place by (auto simp: w' redraw_zoom_def same)
  then show ?thesis using one fit by (simp add: FB_WIDTH_def FB_HEIGHT_def)
qed

end
