(* ===== verification/SimPng.thy ===== *)
theory SimPng
  imports SimVideo SimInv
begin

text \<open>
  The PNG file the simulator writes, read back by a decoder written from the PNG standard: the
  image it shows is the framebuffer in memory, two pixels a byte, the left one in the low half.
\<close>

section \<open>A decoder\<close>

definition read_be32 :: "int list \<Rightarrow> int" where
  "read_be32 bs = foldl (\<lambda>n b. n * 256 + b) 0 bs"

text \<open>A chunk is a length, a name, the data and the checksum of name and data.\<close>

definition read_chunk :: "int list \<Rightarrow> ((int list \<times> int list) \<times> int list) option" where
  "read_chunk bs =
     (let n = nat (read_be32 (take 4 bs)); kind = take 4 (drop 4 bs); data = take n (drop 8 bs);
          crc = take 4 (drop (8 + n) bs) in
      if length bs < 12 + n \<or> read_be32 crc \<noteq> crc32 (kind @ data) then None
      else Some ((kind, data), drop (12 + n) bs))"

lemma read_chunk_shorter: "read_chunk bs = Some (c, rest) \<Longrightarrow> length rest < length bs"
  by (auto simp: read_chunk_def Let_def split: if_splits)

function read_chunks :: "int list \<Rightarrow> (int list \<times> int list) list option" where
  "read_chunks bs =
     (if bs = [] then Some []
      else case read_chunk bs of
             None \<Rightarrow> None
           | Some (c, rest) \<Rightarrow> map_option ((#) c) (read_chunks rest))"
  by pat_completeness auto
termination by (relation "measure length") (auto dest: read_chunk_shorter)

declare read_chunks.simps [simp del]

fun triples :: "int list \<Rightarrow> rgb list" where
  "triples (r # g # b # bs) = (r, g, b) # triples bs"
| "triples _ = []"

text \<open>Rows of 24-bit pixels, each behind a filter byte 0.\<close>

fun png_rows :: "nat \<Rightarrow> nat \<Rightarrow> int list \<Rightarrow> rgb list list option" where
  "png_rows w 0 bs = (if bs = [] then Some [] else None)"
| "png_rows w (Suc h) bs =
     (if length bs < 1 + 3 * w \<or> hd bs \<noteq> 0 then None
      else map_option ((#) (triples (take (3 * w) (tl bs)))) (png_rows w h (drop (3 * w) (tl bs))))"

definition decode_png :: "(int list \<Rightarrow> int list option) \<Rightarrow> int list \<Rightarrow> rgb list list option" where
  "decode_png decompress bs =
     (if take 8 bs \<noteq> PNG_SIGNATURE then None
      else case read_chunks (drop 8 bs) of
        Some [(k1, hdr), (k2, dat), (k3, end)] \<Rightarrow>
          if k1 = IHDR \<and> length hdr = 13 \<and> drop 8 hdr = [8, 2, 0, 0, 0] \<and> k2 = IDAT \<and> k3 = IEND \<and> end = [] then
            case decompress dat of
              None \<Rightarrow> None
            | Some raw \<Rightarrow> png_rows (nat (read_be32 (take 4 hdr))) (nat (read_be32 (take 4 (drop 4 hdr)))) raw
          else None
      | _ \<Rightarrow> None)"

section \<open>Chunks\<close>

lemma length_be32 [simp]: "length (be32 n) = 4"
  by (simp add: be32_def)

lemma read_be32_be32:
  assumes "fits 32 n"
  shows "read_be32 (be32 n) = n"
proof -
  have n: "n div 16777216 mod 256 = n div 16777216"
    using assms by (intro mod_pos_pos_trivial) (auto simp: fits_def)
  have q: "n div 65536 div 256 = n div 16777216" "n div 256 div 256 = n div 65536"
    using zdiv_zmult2_eq [of 256 n 65536] zdiv_zmult2_eq [of 256 n 256] by simp_all
  have steps: "n div 16777216 * 256 + n div 65536 mod 256 = n div 65536"
    "n div 65536 * 256 + n div 256 mod 256 = n div 256" "n div 256 * 256 + n mod 256 = n"
    using div_mult_mod_eq [of "n div 65536" 256] div_mult_mod_eq [of "n div 256" 256] div_mult_mod_eq [of n 256]
    by (simp_all only: q)
  have "read_be32 (be32 n) =
      ((n div 16777216 * 256 + n div 65536 mod 256) * 256 + n div 256 mod 256) * 256 + n mod 256"
    by (simp add: read_be32_def be32_def and_255 drop_bit_div n)
  then show ?thesis by (simp only: steps)
qed

lemma be32_bytes: "list_all (fits 8) (be32 n)"
  by (simp add: be32_def fits_def and_255)

lemma read_chunk_png:
  assumes "length kind = 4" "list_all (fits 8) (kind @ data)" "fits 32 (int (length data))"
  shows "read_chunk (png_chunk kind data @ rest) = Some ((kind, data), rest)"
proof -
  have crc: "fits 32 (crc32 (kind @ data))" by (rule fits_crc32 [OF assms(2)])
  then have mask: "crc32 (kind @ data) AND 0xFFFFFFFF = crc32 (kind @ data)"
    using take_bit_int_eq_self_iff [of 32 "crc32 (kind @ data)"] and.commute
    by (simp add: fits_def take_bit_eq_mask mask_eq_exp_minus_1)
  show ?thesis
    using assms(1) crc mask read_be32_be32 [OF assms(3)] read_be32_be32 [OF crc]
    by (simp add: read_chunk_def png_chunk_def)
qed

lemma read_chunks_png:
  assumes "length kind = 4" "list_all (fits 8) (kind @ data)" "fits 32 (int (length data))"
  shows "read_chunks (png_chunk kind data @ rest) = map_option ((#) (kind, data)) (read_chunks rest)"
proof -
  have "png_chunk kind data \<noteq> []" by (simp add: png_chunk_def be32_def)
  then show ?thesis by (subst read_chunks.simps) (simp add: read_chunk_png [OF assms])
qed

section \<open>Rows\<close>

lemma triples_row: "triples (concat (map (\<lambda>(r, g, b). [r, g, b]) row)) = row"
  by (induction row) auto

lemma length_row: "length (concat (map (\<lambda>(r, g, b). [r, g, b]) row)) = 3 * length row"
  by (induction row) auto

lemma png_rows_raw:
  assumes "\<forall>row \<in> set rows. length row = w"
  shows "png_rows w (length rows) (concat (map (\<lambda>row. 0 # concat (map (\<lambda>(r, g, b). [r, g, b]) row)) rows)) = Some rows"
  using assms by (induction rows) (auto simp: length_row triples_row)

lemma framebuffer_shape:
  "length (framebuffer_pixels mem) = FB_HEIGHT" "row \<in> set (framebuffer_pixels mem) \<Longrightarrow> length row = FB_WIDTH"
  by (auto simp: framebuffer_pixels_def)

lemma length_png_raw: "length (png_raw mem) = FB_HEIGHT * (1 + 3 * FB_WIDTH)"
proof -
  have "length (concat (map (\<lambda>row. 0 # concat (map (\<lambda>(r, g, b). [r, g, b]) row)) rows)) = length rows * (1 + 3 * w)"
    if "\<forall>row \<in> set rows. length row = w" for rows :: "rgb list list" and w
    using that by (induction rows) (auto simp: length_row)
  then show ?thesis using framebuffer_shape [where mem = mem] unfolding png_raw_def by metis
qed

lemma fb_pixel_bytes:
  assumes "fb_pixel mem pix = (r, g, b)"
  shows "fits 8 r \<and> fits 8 g \<and> fits 8 b"
proof -
  have "\<forall>(r, g, b) \<in> set FB_PALETTE. fits 8 r \<and> fits 8 g \<and> fits 8 b"
    by (simp add: FB_PALETTE_def fits_def)
  moreover have "fb_pixel mem pix \<in> set FB_PALETTE"
    unfolding fb_pixel_def Let_def
    by (rule nth_mem) (simp add: FB_PALETTE_def and_15 nat_less_iff)
  ultimately show ?thesis using assms by auto
qed

lemma png_raw_bytes: "list_all (fits 8) (png_raw mem)"
proof -
  have all: "list_all (fits 8) (0 # concat (map (\<lambda>(r, g, b). [r, g, b]) (map (fb_pixel mem) ps)))" for ps
    using fb_pixel_bytes by (induction ps) (fastforce simp: fits_def split: prod.splits)+
  have "list_all (fits 8) (0 # concat (map (\<lambda>(r, g, b). [r, g, b]) row))"
    if row: "row \<in> set (framebuffer_pixels mem)" for row
  proof -
    obtain y where "row = map (\<lambda>x. fb_pixel mem (y * FB_WIDTH + x)) [0..<FB_WIDTH]"
      using row by (auto simp: framebuffer_pixels_def)
    then have "row = map (fb_pixel mem) (map (\<lambda>x. y * FB_WIDTH + x) [0..<FB_WIDTH])"
      by (simp only: map_map comp_def)
    then show ?thesis using all by (simp only:)
  qed
  then show ?thesis unfolding png_raw_def list_all_iff by (auto simp: fits_def)
qed

section \<open>Pixels as nibbles of bytes\<close>

lemma nibbles:
  fixes w :: int
  shows "w mod 256 mod 16 = w mod 16" "w mod 256 div 16 = w div 16 mod 16"
    "w div 256 div 16 = w div 4096"
proof -
  show "w mod 256 mod 16 = w mod 16" by (rule mod_mod_cancel) simp
  show "w mod 256 div 16 = w div 16 mod 16"
    using zmod_zmult2_eq [of 16 w 16] by simp
  show "w div 256 div 16 = w div 4096" using zdiv_zmult2_eq [of 16 w 256] by simp
qed

lemma fb_pixel_nibble:
  assumes "wf_sim m" "pix < 19200"
  shows "fb_pixel (sim_mem m) pix =
    FB_PALETTE ! nat (let b = ldb (0x8000 + int (pix div 2)) False m in if even pix then b mod 16 else b div 16)"
proof -
  define q where "q = pix div 4"
  define w where "w = sim_mem m ! (0x4000 + q)"
  have q: "q < 4800" using assms(2) by (simp add: q_def)
  have w: "0 \<le> w" "w < 65536"
    using assms(1) q unfolding w_def wf_sim_def words16_def by (auto simp: fits_def list_all_length)
  have k: "pix = 4 * q + pix mod 4" by (simp add: q_def)
  have index: "nat (word_index (0x8000 + int (pix div 2))) = 0x4000 + q"
  proof -
    have "(0x8000 + int (pix div 2)) div 2 = 0x4000 + int q"
      unfolding q_def by (simp add: zdiv_int div_mult2_eq [symmetric])
    then show ?thesis using q by (simp add: word_index_def drop_bit_div and_32767)
  qed
  have and3: "pix AND 3 = pix mod 4"
    using take_bit_eq_mask [of 2 pix] by (simp add: take_bit_eq_mod mask_eq_exp_minus_1)
  have pixw: "fb_pixel (sim_mem m) pix = FB_PALETTE ! nat (w div 2 ^ (pix mod 4 * 4) mod 16)"
    by (simp add: fb_pixel_def w_def q_def FB_BASE_W_def drop_bit_div drop_bit_eq_div and_15 and3)
  have odd_addr: "(0x8000 + int (pix div 2)) AND 1 \<noteq> 0 \<longleftrightarrow> 2 \<le> pix mod 4"
  proof -
    have "(0x8000 + int (pix div 2)) AND 1 \<noteq> 0 \<longleftrightarrow> odd (pix div 2)"
      by (simp add: and_one_eq odd_iff_mod_2_eq_one) presburger
    also have "\<dots> \<longleftrightarrow> 2 \<le> pix mod 4" by presburger
    finally show ?thesis .
  qed
  have b: "ldb (0x8000 + int (pix div 2)) False m = (if 2 \<le> pix mod 4 then w div 256 mod 256 else w mod 256)"
    unfolding ldb_def Let_def index odd_addr w_def [symmetric] by (simp add: drop_bit_div and_255)
  consider "pix mod 4 = 0" | "pix mod 4 = 1" | "pix mod 4 = 2" | "pix mod 4 = 3" by linarith
  then show ?thesis
  proof cases
    case 1
    then have "even pix" by presburger
    then show ?thesis using 1 by (simp add: pixw b nibbles)
  next
    case 2
    then have "odd pix" by presburger
    then show ?thesis using 2 by (simp add: pixw b nibbles)
  next
    case 3
    then have "even pix" by presburger
    then show ?thesis using 3 by (simp add: pixw b nibbles)
  next
    case 4
    then have "odd pix" by presburger
    then show ?thesis using 4 by (simp add: pixw b nibbles)
  qed
qed

section \<open>The picture\<close>

text \<open>
  C31. The PNG file \<open>write_framebuffer_png\<close> writes shows the framebuffer: a decoder of the PNG
  format finds an image of 160 by 120 pixels, and the pixel in column \<open>x\<close> of row \<open>y\<close> has the
  palette's colour for half of the byte at \<open>0x8000 + (160 * y + x) / 2\<close>, the low half for an
  even column. The compressor is any function into bytes that the decoder's decompressor
  inverts.
\<close>

theorem png_shows_framebuffer:
  assumes "wf_sim m" "decompress (compress (png_raw (sim_mem m))) = Some (png_raw (sim_mem m))"
    "list_all (fits 8) (compress (png_raw (sim_mem m)))" "length (compress (png_raw (sim_mem m))) < 2 ^ 32"
  shows "\<exists>rows. decode_png decompress (framebuffer_png compress (sim_mem m)) = Some rows \<and>
    length rows = 120 \<and> (\<forall>y < 120. length (rows ! y) = 160 \<and> (\<forall>x < 160. rows ! y ! x =
      FB_PALETTE ! nat (let b = ldb (0x8000 + int ((160 * y + x) div 2)) False m in
        if even x then b mod 16 else b div 16)))"
proof (intro exI conjI)
  let ?rows = "framebuffer_pixels (sim_mem m)" and ?raw = "png_raw (sim_mem m)"
  let ?hdr = "be32 (int FB_WIDTH) @ be32 (int FB_HEIGHT) @ [8, 2, 0, 0, 0]"
  have kinds: "length IHDR = 4" "length IDAT = 4" "length IEND = 4"
    "list_all (fits 8) IHDR" "list_all (fits 8) IDAT" "list_all (fits 8) IEND"
    by (simp_all add: IHDR_def IDAT_def IEND_def fits_def)
  have hdr: "list_all (fits 8) (IHDR @ ?hdr)" "fits 32 (int (length ?hdr))"
    using kinds(4) be32_bytes by (simp_all add: fits_def)
  have dat: "list_all (fits 8) (IDAT @ compress ?raw)" "fits 32 (int (length (compress ?raw)))"
    using kinds(5) assms(3,4) by (simp_all add: fits_def)
  have iend: "read_chunks (png_chunk IEND []) = Some [(IEND, [])]"
    using read_chunks_png [of IEND "[]" "[]"] kinds(3,6) by (simp add: fits_def read_chunks.simps [of "[]"])
  have "read_chunks (png_chunk IHDR ?hdr @ png_chunk IDAT (compress ?raw) @ png_chunk IEND []) =
      Some [(IHDR, ?hdr), (IDAT, compress ?raw), (IEND, [])]"
    by (simp only: read_chunks_png [OF kinds(1) hdr] read_chunks_png [OF kinds(2) dat] iend option.map)
  then have chunks: "read_chunks (drop 8 (framebuffer_png compress (sim_mem m))) =
      Some [(IHDR, ?hdr), (IDAT, compress ?raw), (IEND, [])]" "take 8 (framebuffer_png compress (sim_mem m)) = PNG_SIGNATURE"
    by (simp_all add: framebuffer_png_def PNG_SIGNATURE_def)
  have wh: "read_be32 (be32 (int FB_WIDTH)) = int FB_WIDTH" "read_be32 (be32 (int FB_HEIGHT)) = int FB_HEIGHT"
    by (intro read_be32_be32; simp add: fits_def FB_WIDTH_def FB_HEIGHT_def)+
  have "png_rows FB_WIDTH FB_HEIGHT ?raw = Some ?rows"
    using png_rows_raw [of ?rows FB_WIDTH] framebuffer_shape unfolding png_raw_def by metis
  then show "decode_png decompress (framebuffer_png compress (sim_mem m)) = Some ?rows"
    unfolding decode_png_def chunks by (simp add: assms(2) wh)
  show "length ?rows = 120" by (simp add: framebuffer_shape FB_HEIGHT_def)
  show "\<forall>y < 120. length (?rows ! y) = 160 \<and> (\<forall>x < 160. ?rows ! y ! x =
      FB_PALETTE ! nat (let b = ldb (0x8000 + int ((160 * y + x) div 2)) False m in
        if even x then b mod 16 else b div 16))"
  proof (intro allI impI conjI)
    fix y x :: nat assume y: "y < 120"
    then show "length (?rows ! y) = 160" by (simp add: framebuffer_pixels_def FB_WIDTH_def FB_HEIGHT_def)
    assume x: "x < 160"
    have "?rows ! y ! x = fb_pixel (sim_mem m) (160 * y + x)"
      using x y by (simp add: framebuffer_pixels_def FB_WIDTH_def FB_HEIGHT_def mult.commute)
    moreover have "160 * y + x < 19200" "even (160 * y + x) = even x" using x y by simp_all
    ultimately show "?rows ! y ! x = FB_PALETTE ! nat (let b = ldb (0x8000 + int ((160 * y + x) div 2)) False m in
        if even x then b mod 16 else b div 16)"
      using fb_pixel_nibble [OF assms(1)] by simp
  qed
qed

text \<open>The machine just started, and the compressor that changes nothing.\<close>

theorem png_shows_framebuffer_witness:
  "\<exists>rows. decode_png Some (framebuffer_png (\<lambda>raw. raw) (sim_mem (sim_init [] default_opts))) = Some rows \<and>
     length rows = 120 \<and> rows ! 7 ! 9 = (0x02, 0x04, 0x0a)"
proof -
  let ?m = "sim_init [] default_opts"
  have wf: "wf_sim ?m" by (rule wf_sim_init) (simp_all add: default_opts_def)
  obtain rows where rows: "decode_png Some (framebuffer_png (\<lambda>raw. raw) (sim_mem ?m)) = Some rows" "length rows = 120"
    and px: "\<forall>y < 120. length (rows ! y) = 160 \<and> (\<forall>x < 160. rows ! y ! x =
      FB_PALETTE ! nat (let b = ldb (0x8000 + int ((160 * y + x) div 2)) False ?m in
        if even x then b mod 16 else b div 16))"
    using png_shows_framebuffer [OF wf, of Some "\<lambda>raw. raw"] png_raw_bytes
    by (auto simp: length_png_raw FB_WIDTH_def FB_HEIGHT_def)
  have zero: "ldb (0x8000 + int ((160 * 7 + 9) div 2)) False ?m = 0"
    by (simp add: ldb_def Let_def word_index_def drop_bit_div and_32767 sim_init_def load_image_eval)
  have "rows ! 7 ! 9 = FB_PALETTE ! nat (let b = ldb (0x8000 + int ((160 * 7 + 9) div 2)) False ?m in
        if even (9 :: nat) then b mod 16 else b div 16)"
    using px by simp
  then have "rows ! 7 ! 9 = (0x02, 0x04, 0x0a)" unfolding zero by (simp add: FB_PALETTE_def)
  then show ?thesis using rows by blast
qed

end
