(* ===== verification/SimMain.thy ===== *)
theory SimMain
  imports SimProps SimPng FuzzCompare FuzzRng
begin

text \<open>
  The program around the simulator (\<open>main\<close> of \<open>tools/riscc_sim.py\<close>): the checks of its options,
  the machine it makes of them, the report it prints of the final state and its exit status.
  Reading a file is a parameter; the text of an option has characters up to code 255, the ones
  \<open>latin1\<close> encodes.
\<close>

section \<open>The command line\<close>

record sim_cli =
  sc_image :: string
  sc_min :: bool
  sc_full :: bool
  sc_mdu :: bool
  sc_iflush :: bool
  sc_nano :: bool
  sc_max_insns :: int
  sc_trace :: bool
  sc_dump :: "(int \<times> int) option"
  sc_dump_written :: bool
  sc_uart :: bool
  sc_uart_in :: "string option"
  sc_uart_in_text :: "string option"
  sc_uart_out :: "string option"
  sc_uart_expect :: "string option"
  sc_fb_window :: bool
  sc_fb_update_insns :: int
  sc_fb_dump_png :: "string option"

definition check_sim_args :: "sim_cli \<Rightarrow> string option" where
  "check_sim_args a =
     (if sc_min a \<and> sc_full a then Some ''--min and --full are mutually exclusive''
      else if sc_nano a \<and> (sc_min a \<or> sc_full a) then Some ''--nano cannot be combined with an RC16 profile''
      else if sc_mdu a \<and> \<not> sc_full a then Some ''--mdu requires --full''
      else if sc_iflush a \<and> (sc_min a \<or> sc_nano a) then Some ''--iflush requires a sys/full profile''
      else None)"

text \<open>An option with a value counts as given unless the value is empty.\<close>

definition given :: "string option \<Rightarrow> bool" where
  "given x \<longleftrightarrow> x \<noteq> None \<and> x \<noteq> Some []"

definition latin1_bytes :: "string \<Rightarrow> int list" where
  "latin1_bytes s = map (\<lambda>c. int (ccode c)) s"

definition uart_input :: "(string \<Rightarrow> int list) \<Rightarrow> sim_cli \<Rightarrow> int list" where
  "uart_input read a =
     (if given (sc_uart_in a) then read (the (sc_uart_in a)) else []) @
     (case sc_uart_in_text a of Some t \<Rightarrow> latin1_bytes t | None \<Rightarrow> [])"

definition sim_options :: "(string \<Rightarrow> int list) \<Rightarrow> sim_cli \<Rightarrow> sim_opts" where
  "sim_options read a =
     \<lparr>opt_sys_tier = \<not> sc_min a, opt_full = sc_full a, opt_mdu = sc_mdu a, opt_nano = sc_nano a,
      opt_trace = sc_trace a,
      opt_uart = (sc_uart a \<or> given (sc_uart_in a) \<or> sc_uart_in_text a \<noteq> None \<or> given (sc_uart_out a) \<or>
        sc_uart_expect a \<noteq> None),
      opt_uart_in = uart_input read a, opt_iflush = sc_iflush a\<rparr>"

section \<open>The report\<close>

text \<open>\<open>repr\<close> of a text of such characters.\<close>

definition repr_char :: "char \<Rightarrow> char \<Rightarrow> string" where
  "repr_char q c =
     (if c = q \<or> c = CHR 0x5C then [CHR 0x5C, c]
      else if c = CHR 0x09 then [CHR 0x5C, CHR ''t'']
      else if c = CHR 0x0A then [CHR 0x5C, CHR ''n'']
      else if c = CHR 0x0D then [CHR 0x5C, CHR ''r'']
      else if ccode c < 0x20 \<or> 0x7F \<le> ccode c \<and> ccode c \<le> 0xA0 \<or> ccode c = 0xAD
      then [CHR 0x5C, CHR ''x''] @ fmt_0x 2 (int (ccode c))
      else [c])"

definition py_repr :: "string \<Rightarrow> string" where
  "py_repr s =
     (let q = (if squote \<in> set s \<and> dquote \<notin> set s then dquote else squote) in
      [q] @ concat (map (repr_char q) s) @ [q])"

record report =
  rp_exit :: int
  rp_lines :: "string list"
  rp_uart :: "(string \<times> int list) option"
  rp_png :: "(string \<times> int list) option"

definition written_lines :: "sim \<Rightarrow> string list" where
  "written_lines m =
     map (\<lambda>i. ''MEM 0x'' @ fmt_0X 4 (int i) @ '' 0x'' @ fmt_0X 4 (sim_mem m ! i))
       (filter (\<lambda>i. sim_mem_written m ! i) [0..<length (sim_mem_written m)])"

definition dump_lines :: "sim \<Rightarrow> int \<Rightarrow> int \<Rightarrow> string list py" where
  "dump_lines m base ln =
     mapE (\<lambda>i. bindE (py_nth (sim_mem m) (base + int i)) (\<lambda>v.
       Inr (''  [0x'' @ fmt_0X 4 (base + int i) @ ''] = 0x'' @ fmt_0X 4 v))) [0..<nat ln]"

definition result_ok :: "string \<Rightarrow> sim \<Rightarrow> bool" where
  "result_ok outcome m \<longleftrightarrow>
     sim_mem m ! nat RESULT_W = 0x600D \<or> outcome = ''HALT'' \<and> sim_mem m ! nat RESULT_W = 0"

definition verdict_text :: "bool \<Rightarrow> string" where
  "verdict_text ok = (if ok then ''PASS'' else ''FAIL'')"

definition sim_report :: "(int list \<Rightarrow> int list) \<Rightarrow> sim_cli \<Rightarrow> sim \<Rightarrow> string \<Rightarrow> report py" where
  "sim_report compress a m outcome =
     (let ok = result_ok outcome m;
          found = (\<lambda>t. py_in t (map (\<lambda>b. cchr (nat b)) (sim_uart_out m)));
          head = outcome @ '' after '' @ fmt_d (sim_insns m) @ '' insns, result=0x'' @
                 fmt_0X 4 (sim_mem m ! nat RESULT_W);
          verdict = (case sc_uart_expect a of
              Some t \<Rightarrow> head @ '', UART expect '' @ py_repr t @ '': '' @ verdict_text (found t)
            | None \<Rightarrow> head @ '': '' @ verdict_text ok);
          uart = (if sim_uart m \<and> \<not> given (sc_uart_out a)
            then [''UART-TX: '' @ py_repr (map (\<lambda>b. cchr (nat b)) (sim_uart_out m))] else []);
          written = (if sc_dump_written a then written_lines m else []) in
      bindE (case sc_dump a of Some (base, ln) \<Rightarrow> dump_lines m base ln | None \<Rightarrow> Inr []) (\<lambda>dump.
      Inr \<lparr>rp_exit = (if (case sc_uart_expect a of Some t \<Rightarrow> found t | None \<Rightarrow> ok) then 0 else 1),
        rp_lines = sim_stdout m @ [verdict] @ uart @ written @ dump,
        rp_uart = (if sim_uart m \<and> given (sc_uart_out a)
          then Some (the (sc_uart_out a), sim_uart_out m) else None),
        rp_png = (if given (sc_fb_dump_png a)
          then Some (the (sc_fb_dump_png a), framebuffer_png compress (sim_mem m)) else None)\<rparr>))"

text \<open>
  \<open>main\<close>: a rejected command line has status 2; an undefined instruction and a dump outside the
  memory end the program with the exception. \<open>window k\<close> says whether the window is still open
  at its \<open>k\<close>-th update.
\<close>

datatype main_error = Machine sim_error | Lookup py_error

definition sim_main ::
  "(string \<Rightarrow> int list) \<Rightarrow> (int list \<Rightarrow> int list) \<Rightarrow> (nat \<Rightarrow> bool) \<Rightarrow> sim_cli \<Rightarrow> (main_error, report) result option"
where
  "sim_main read compress window a =
     (case check_sim_args a of
        Some msg \<Rightarrow> Some (Inr \<lparr>rp_exit = 2, rp_lines = [msg], rp_uart = None, rp_png = None\<rparr>)
      | None \<Rightarrow>
          (case run (sc_max_insns a) (if sc_fb_window a then Some window else None) (sc_fb_update_insns a)
                  (sim_init (read (sc_image a)) (sim_options read a)) of
             None \<Rightarrow> None
           | Some (Inl e) \<Rightarrow> Some (Inl (Machine e))
           | Some (Inr (m, outcome)) \<Rightarrow>
               Some (case sim_report compress a m outcome of Inl e \<Rightarrow> Inl (Lookup e) | Inr r \<Rightarrow> Inr r)))"

section \<open>The exit status\<close>

lemma load_image_above: "w + (length bs + 1) div 2 \<le> i \<Longrightarrow> load_image bs w xs ! i = xs ! i"
  by (induction bs w xs rule: load_image.induct) (auto simp: load_image.simps nth_list_update)

lemma sim_main_runs:
  assumes "check_sim_args a = None" "sim_main read compress window a = Some (Inr rp)"
  obtains m outcome where
    "run (sc_max_insns a) (if sc_fb_window a then Some window else None) (sc_fb_update_insns a)
       (sim_init (read (sc_image a)) (sim_options read a)) = Some (Inr (m, outcome))"
    "sim_report compress a m outcome = Inr rp"
  using assms by (auto simp: sim_main_def split: option.splits sum.splits prod.splits)

lemma sim_report_fields:
  assumes "sim_report compress a m outcome = Inr rp"
  shows "sc_uart_expect a = None \<Longrightarrow> rp_exit rp = (if result_ok outcome m then 0 else 1)"
    "sc_dump_written a \<Longrightarrow> set (written_lines m) \<subseteq> set (rp_lines rp)"
  using assms by (auto simp: sim_report_def Let_def bindE_Inr_iff)

text \<open>
  C29. The exit status follows the result-word protocol: without \<open>--uart-expect\<close>, and with an
  image that does not reach the result word, the program exits with 0 exactly when the run
  halted without writing the result word, or ended by writing 0x600D there. A run stopped by
  the instruction limit or by closing the window exits with 1.
\<close>

theorem exit_status_protocol:
  assumes "check_sim_args a = None" "sim_main read compress window a = Some (Inr rp)"
    "list_all (fits 8) (read (sc_image a))" "list_all (fits 8) (uart_input read a)"
    "length (read (sc_image a)) < 65535" "sc_uart_expect a = None"
  shows "\<exists>m outcome.
    run (sc_max_insns a) (if sc_fb_window a then Some window else None) (sc_fb_update_insns a)
      (sim_init (read (sc_image a)) (sim_options read a)) = Some (Inr (m, outcome)) \<and>
    rp_exit rp \<in> {0, 1} \<and>
    (rp_exit rp = 0 \<longleftrightarrow> outcome = ''HALT'' \<or> outcome = ''DONE'' \<and> sim_mem m ! nat RESULT_W = 0x600D) \<and>
    (outcome = ''DONE'' \<longleftrightarrow> sim_mem_written m ! nat RESULT_W)"
proof -
  obtain m outcome where run: "run (sc_max_insns a) (if sc_fb_window a then Some window else None) (sc_fb_update_insns a)
       (sim_init (read (sc_image a)) (sim_options read a)) = Some (Inr (m, outcome))"
    and rp: "sim_report compress a m outcome = Inr rp"
    by (rule sim_main_runs [OF assms(1,2)])
  have opts: "list_all (fits 8) (opt_uart_in (sim_options read a))"
    using assms(4) by (simp add: sim_options_def)
  note st = run_loop_state [OF _ boot_consistent [OF assms(3) opts]]
  have loop: "run_loop (sc_max_insns a) (if sc_fb_window a then Some window else None) (sc_fb_update_insns a) 0
      (sc_fb_update_insns a) (sim_init (read (sc_image a)) (sim_options read a)) = Some (Inr m)"
    and oc: "outcome = outcome_of m"
    using run unfolding run_loop_of_run by blast+
  have outcomes: "outcome = ''DONE'' \<or> outcome = ''HALT'' \<or> outcome = ''TIMEOUT''"
    by (simp add: oc outcome_of_def)
  have fin: "outcome = ''DONE'' \<longleftrightarrow> sim_mem_written m ! nat RESULT_W"
    using st [OF loop] by (simp add: oc outcome_of_def done_consistent_def)
  have "length (sim_mem (sim_init (read (sc_image a)) (sim_options read a))) = 32768"
    using boot_consistent(1) [OF assms(3) opts] by (simp add: wf_sim_def words16_def)
  moreover have "sim_mem (sim_init (read (sc_image a)) (sim_options read a)) ! nat RESULT_W = 0"
    using load_image_above [of 0 "read (sc_image a)" "nat RESULT_W"] assms(5)
    by (simp add: sim_init_def Let_def RESULT_W_def)
  moreover have result_word: "nat RESULT_W < 32768" by (simp add: RESULT_W_def)
  ultimately have zero: "sim_mem m ! nat RESULT_W = 0" if "\<not> sim_mem_written m ! nat RESULT_W"
    using st(2) [OF loop] that unfolding mem_frame_def by (metis result_word)
  have ok: "result_ok outcome m \<longleftrightarrow> outcome = ''HALT'' \<or> outcome = ''DONE'' \<and> sim_mem m ! nat RESULT_W = 0x600D"
    using outcomes zero fin by (auto simp: result_ok_def)
  show ?thesis
    using run ok fin sim_report_fields(1) [OF rp assms(6)] by auto
qed

text \<open>
  C30. What \<open>--dump-written\<close> prints accounts for the memory: every word whose final value is not
  the one the image put there has its line, with its final value, in the output.
\<close>

theorem dump_shows_changes:
  assumes "check_sim_args a = None" "sim_main read compress window a = Some (Inr rp)"
    "list_all (fits 8) (read (sc_image a))" "list_all (fits 8) (uart_input read a)"
    "sc_dump_written a"
  shows "\<exists>m outcome.
    run (sc_max_insns a) (if sc_fb_window a then Some window else None) (sc_fb_update_insns a)
      (sim_init (read (sc_image a)) (sim_options read a)) = Some (Inr (m, outcome)) \<and>
    (\<forall>w < 32768. sim_mem m ! w \<noteq> load_image (read (sc_image a)) 0 (replicate 32768 0) ! w \<longrightarrow>
      ''MEM 0x'' @ fmt_0X 4 (int w) @ '' 0x'' @ fmt_0X 4 (sim_mem m ! w) \<in> set (rp_lines rp))"
proof -
  obtain m outcome where run: "run (sc_max_insns a) (if sc_fb_window a then Some window else None) (sc_fb_update_insns a)
       (sim_init (read (sc_image a)) (sim_options read a)) = Some (Inr (m, outcome))"
    and rp: "sim_report compress a m outcome = Inr rp"
    by (rule sim_main_runs [OF assms(1,2)])
  have opts: "list_all (fits 8) (opt_uart_in (sim_options read a))"
    using assms(4) by (simp add: sim_options_def)
  have loop: "run_loop (sc_max_insns a) (if sc_fb_window a then Some window else None) (sc_fb_update_insns a) 0
      (sc_fb_update_insns a) (sim_init (read (sc_image a)) (sim_options read a)) = Some (Inr m)"
    using run unfolding run_loop_of_run by blast
  note st = run_loop_state [OF loop boot_consistent [OF assms(3) opts]]
  have len: "length (sim_mem (sim_init (read (sc_image a)) (sim_options read a))) = 32768"
    using boot_consistent(1) [OF assms(3) opts] by (simp add: wf_sim_def words16_def)
  have init: "sim_mem (sim_init (read (sc_image a)) (sim_options read a)) = load_image (read (sc_image a)) 0 (replicate 32768 0)"
    by (simp add: sim_init_def Let_def)
  have written: "length (sim_mem_written m) = 32768" using st(1) by (simp add: wf_sim_def)
  show ?thesis
  proof (intro exI conjI allI impI)
    fix w :: nat assume w: "w < 32768" and changed: "sim_mem m ! w \<noteq> load_image (read (sc_image a)) 0 (replicate 32768 0) ! w"
    then have "sim_mem_written m ! w" using st(2) len init unfolding mem_frame_def by metis
    then have "''MEM 0x'' @ fmt_0X 4 (int w) @ '' 0x'' @ fmt_0X 4 (sim_mem m ! w) \<in> set (written_lines m)"
      using w written by (auto simp: written_lines_def)
    then show "''MEM 0x'' @ fmt_0X 4 (int w) @ '' 0x'' @ fmt_0X 4 (sim_mem m ! w) \<in> set (rp_lines rp)"
      using sim_report_fields(2) [OF rp assms(5)] by blast
  qed (rule run)
qed

text \<open>The image that halts at once, with every written word dumped.\<close>

definition halt_args :: sim_cli where
  "halt_args = \<lparr>sc_image = ''halt.bin'', sc_min = False, sc_full = False, sc_mdu = False, sc_iflush = False,
     sc_nano = False, sc_max_insns = 3, sc_trace = False, sc_dump = None, sc_dump_written = True, sc_uart = False,
     sc_uart_in = None, sc_uart_in_text = None, sc_uart_out = None, sc_uart_expect = None, sc_fb_window = False,
     sc_fb_update_insns = 20000, sc_fb_dump_png = None\<rparr>"

lemma sim_report_returns: "sc_dump a = None \<Longrightarrow> \<exists>rp. sim_report compress a m outcome = Inr rp"
  unfolding sim_report_def Let_def by simp

lemma halt_args_main:
  "\<exists>m rp. run 3 None 20000 (sim_init halt_image default_opts) = Some (Inr (m, ''HALT'')) \<and>
     sim_main (\<lambda>_. halt_image) (\<lambda>raw. raw) (\<lambda>_. True) halt_args = Some (Inr rp)"
proof -
  have opts: "sim_options (\<lambda>_. halt_image) halt_args = default_opts"
    by (simp add: sim_options_def default_opts_def halt_args_def uart_input_def given_def)
  obtain m where m: "run 3 None 20000 (sim_init halt_image default_opts) = Some (Inr (m, ''HALT''))"
    using halt_image_run by blast
  have "\<exists>rp. sim_report (\<lambda>raw. raw) halt_args m ''HALT'' = Inr rp"
    by (rule sim_report_returns) (simp add: halt_args_def)
  moreover have "check_sim_args halt_args = None" by (simp add: check_sim_args_def halt_args_def)
  ultimately have "\<exists>rp. sim_main (\<lambda>_. halt_image) (\<lambda>raw. raw) (\<lambda>_. True) halt_args = Some (Inr rp)"
    using m by (auto simp: sim_main_def opts) (auto simp: halt_args_def)
  then show ?thesis using m by blast
qed

lemma halt_args_ok:
  "check_sim_args halt_args = None" "list_all (fits 8) (uart_input (\<lambda>_. halt_image) halt_args)"
  "sc_dump_written halt_args" "sc_uart_expect halt_args = None" "length halt_image < 65535"
  by (simp_all add: check_sim_args_def halt_args_def uart_input_def given_def halt_image_def)

theorem exit_status_protocol_witness:
  "\<exists>rp. sim_main (\<lambda>_. halt_image) (\<lambda>raw. raw) (\<lambda>_. True) halt_args = Some (Inr rp) \<and> rp_exit rp = 0"
proof -
  obtain m rp where m: "run 3 None 20000 (sim_init halt_image default_opts) = Some (Inr (m, ''HALT''))"
    and rp: "sim_main (\<lambda>_. halt_image) (\<lambda>raw. raw) (\<lambda>_. True) halt_args = Some (Inr rp)"
    using halt_args_main by blast
  have args: "sim_options (\<lambda>_. halt_image) halt_args = default_opts" "sc_max_insns halt_args = 3"
    "\<not> sc_fb_window halt_args" "sc_fb_update_insns halt_args = 20000"
    by (simp_all add: sim_options_def default_opts_def halt_args_def uart_input_def given_def)
  have "rp_exit rp = 0"
    using exit_status_protocol [OF halt_args_ok(1) rp halt_image_bytes(1) halt_args_ok(2,5,4)] m
    by (auto simp: args)
  then show ?thesis using rp by blast
qed

text \<open>A store over the only instruction, and the line that shows it.\<close>

definition store_image :: "int list" where
  "store_image = [0x01, 0x40]"

lemma store_image_run:
  "\<exists>m. run 1 None 20000 (sim_init store_image default_opts) = Some (Inr (m, ''TIMEOUT'')) \<and> sim_mem m ! 0 = 0"
proof -
  obtain m where m: "step (sim_init store_image default_opts) = Inr m"
      "sim_insns m = 1" "\<not> sim_halted m" "\<not> sim_done m" "sim_mem m ! 0 = 0"
    by (simp add: store_image_def sim_eval)
  have k: "keeps_running 1 (sim_init store_image default_opts)" "\<not> keeps_running 1 m"
    using m(2) by (simp_all add: keeps_running_def sim_init_def Let_def)
  show ?thesis
    using m k by (simp add: run_def run_loop.simps [of _ _ _ _ _ "sim_init store_image default_opts"]
        run_loop.simps [of _ _ _ _ _ m] outcome_of_def)
qed

theorem dump_shows_changes_witness:
  "\<exists>rp. sim_main (\<lambda>_. store_image) (\<lambda>raw. raw) (\<lambda>_. True) (halt_args\<lparr>sc_max_insns := 1\<rparr>) = Some (Inr rp) \<and>
     ''MEM 0x'' @ fmt_0X 4 0 @ '' 0x'' @ fmt_0X 4 0 \<in> set (rp_lines rp)"
proof -
  let ?a = "halt_args\<lparr>sc_max_insns := 1\<rparr>"
  have args: "sim_options (\<lambda>_. store_image) ?a = default_opts" "sc_max_insns ?a = 1"
    "sc_fb_window ?a = False" "sc_fb_update_insns ?a = 20000" "sc_image ?a = ''halt.bin''"
    by (simp_all add: sim_options_def default_opts_def halt_args_def uart_input_def given_def)
  have dump_none: "sc_dump ?a = None" by (simp add: halt_args_def)
  have ok: "check_sim_args ?a = None" "list_all (fits 8) (uart_input (\<lambda>_. store_image) ?a)" "sc_dump_written ?a"
    "list_all (fits 8) store_image"
    by (simp_all add: check_sim_args_def halt_args_def uart_input_def given_def store_image_def fits_def)
  obtain m where m: "run 1 None 20000 (sim_init store_image default_opts) = Some (Inr (m, ''TIMEOUT''))"
    and zero: "sim_mem m ! 0 = 0" using store_image_run by blast
  obtain rp where "sim_report (\<lambda>raw. raw) ?a m ''TIMEOUT'' = Inr rp"
    using sim_report_returns [of ?a "\<lambda>raw. raw" m "''TIMEOUT''", OF dump_none] by blast
  then have rp: "sim_main (\<lambda>_. store_image) (\<lambda>raw. raw) (\<lambda>_. True) ?a = Some (Inr rp)"
    unfolding sim_main_def ok(1) args if_False by (simp add: m)
  have load: "load_image store_image 0 (replicate 32768 0) ! 0 \<noteq> 0"
    by (simp add: store_image_def load_image_eval)
  obtain m' outcome where r: "run 1 None 20000 (sim_init store_image default_opts) = Some (Inr (m', outcome))"
    and all: "\<forall>w < 32768. sim_mem m' ! w \<noteq> load_image store_image 0 (replicate 32768 0) ! w \<longrightarrow>
      ''MEM 0x'' @ fmt_0X 4 (int w) @ '' 0x'' @ fmt_0X 4 (sim_mem m' ! w) \<in> set (rp_lines rp)"
    using dump_shows_changes [OF ok(1) rp ok(4,2,3)] unfolding args if_False by blast
  have "m' = m" using r m by simp
  have changed: "sim_mem m' ! 0 \<noteq> load_image store_image 0 (replicate 32768 0) ! 0"
    unfolding \<open>m' = m\<close> zero using load by (rule not_sym)
  have "''MEM 0x'' @ fmt_0X 4 (int 0) @ '' 0x'' @ fmt_0X 4 (sim_mem m' ! 0) \<in> set (rp_lines rp)"
    by (rule all [rule_format, OF _ changed]) simp
  then have "''MEM 0x'' @ fmt_0X 4 0 @ '' 0x'' @ fmt_0X 4 0 \<in> set (rp_lines rp)"
    unfolding \<open>m' = m\<close> zero by simp
  then show ?thesis using rp by (intro exI conjI)
qed

end
