(* ===== verification/FetchCoremark.thy ===== *)
theory FetchCoremark
  imports PyText
begin

text \<open>
  Fetching the pinned CoreMark sources (\<open>tools/fetch_coremark.py\<close>): which files are missing, the
  archive from the cache or the network, its checksum and those of the files, and the exclusive
  creation of the missing files. The hash, the network, the archive reader and what other
  processes do meanwhile are parameters.
\<close>

section \<open>The directory and the manifest\<close>

datatype entry = File "int list" | Directory | Symlink

record manifest =
  mf_files :: "(string \<times> string) list"
  mf_commit :: string
  mf_sha256 :: string
  mf_url :: string

text \<open>The source directory, by name, and the cached archive.\<close>

record site =
  st_at :: "string \<rightharpoonup> entry"
  st_cache :: "int list option"

datatype fetch_error =
    ChecksumMismatch string
  | InvalidName string
  | SymlinkSource string
  | CannotRead string
  | Download
  | NoMember string
  | NotRegular string
  | AlreadyExists string

text \<open>What the rest of the world does: the hash, the download, the members of an archive.\<close>

record outside =
  ou_sha256 :: "int list \<Rightarrow> string"
  ou_get :: "string \<Rightarrow> int list option"
  ou_member :: "int list \<Rightarrow> string \<Rightarrow> (bool \<times> int list) option"

section \<open>Checks\<close>

definition verify :: "outside \<Rightarrow> int list \<Rightarrow> string \<Rightarrow> string \<Rightarrow> (fetch_error, unit) result" where
  "verify W data expected name =
     (if ou_sha256 W data \<noteq> expected then Inl (ChecksumMismatch name) else Inr ())"

text \<open>\<open>Path(name).name\<close>: the last component, after empty ones and dots are dropped.\<close>

fun path_parts :: "string \<Rightarrow> string \<Rightarrow> string list" where
  "path_parts cur [] = [rev cur]"
| "path_parts cur (c # cs) =
     (if c = CHR ''/'' then rev cur # path_parts [] cs else path_parts (c # cur) cs)"

definition path_name :: "string \<Rightarrow> string" where
  "path_name p =
     (let parts = filter (\<lambda>x. x \<noteq> [] \<and> x \<noteq> ''.'') (path_parts [] p) in
      if parts = [] then [] else last parts)"

text \<open>The first loop: the files already there are verified, the names of the others collected.\<close>

fun find_missing :: "outside \<Rightarrow> (string \<rightharpoonup> entry) \<Rightarrow> (string \<times> string) list \<Rightarrow> (fetch_error, string list) result" where
  "find_missing W at [] = Inr []"
| "find_missing W at ((name, digest) # files) =
     (if path_name name \<noteq> name then Inl (InvalidName name)
      else case at name of
        Some Symlink \<Rightarrow> Inl (SymlinkSource name)
      | Some Directory \<Rightarrow> Inl (CannotRead name)
      | Some (File data) \<Rightarrow>
          bindE (verify W data digest name) (\<lambda>_. find_missing W at files)
      | None \<Rightarrow> bindE (find_missing W at files) (\<lambda>missing. Inr (name # missing)))"

section \<open>The archive\<close>

text \<open>
  The archive's bytes and the site: a cached archive is verified and used, a downloaded one is
  verified and then cached.
\<close>

definition get_archive :: "outside \<Rightarrow> manifest \<Rightarrow> site \<Rightarrow> (fetch_error, int list) result \<times> site" where
  "get_archive W m s =
     (case st_cache s of
        Some data \<Rightarrow> (bindE (verify W data (mf_sha256 m) ''cache'') (\<lambda>_. Inr data), s)
      | None \<Rightarrow>
          (case ou_get W (mf_url m) of
             None \<Rightarrow> (Inl Download, s)
           | Some data \<Rightarrow>
               (case verify W data (mf_sha256 m) (mf_url m) of
                  Inl e \<Rightarrow> (Inl e, s)
                | Inr _ \<Rightarrow> (Inr data, s\<lparr>st_cache := Some data\<rparr>))))"

text \<open>\<open>manifest["files"][name]\<close>; the names come from the same dictionary.\<close>

definition digest_of :: "manifest \<Rightarrow> string \<Rightarrow> string" where
  "digest_of m name = (case map_of (mf_files m) name of Some d \<Rightarrow> d | None \<Rightarrow> [])"

definition read_member :: "outside \<Rightarrow> manifest \<Rightarrow> int list \<Rightarrow> string \<Rightarrow> (fetch_error, string \<times> int list) result" where
  "read_member W m data name =
     (case ou_member W data (''coremark-'' @ mf_commit m @ ''/'' @ name) of
        None \<Rightarrow> Inl (NoMember name)
      | Some (regular, payload) \<Rightarrow>
          if \<not> regular then Inl (NotRegular name)
          else bindE (verify W payload (digest_of m name) name) (\<lambda>_. Inr (name, payload)))"

text \<open>\<open>open("xb")\<close> one after the other: a name that exists stops the loop.\<close>

fun create_all :: "(string \<times> int list) list \<Rightarrow> site \<Rightarrow> (fetch_error, unit) result \<times> site" where
  "create_all [] s = (Inr (), s)"
| "create_all ((name, payload) # rest) s =
     (if st_at s name \<noteq> None then (Inl (AlreadyExists name), s)
      else create_all rest (s\<lparr>st_at := (st_at s)(name \<mapsto> File payload)\<rparr>))"

text \<open>
  \<open>fetch_sources\<close>; \<open>meanwhile\<close> is what other processes do to the directory until the files are
  created.
\<close>

definition fetch_sources ::
  "outside \<Rightarrow> ((string \<rightharpoonup> entry) \<Rightarrow> (string \<rightharpoonup> entry)) \<Rightarrow> manifest \<Rightarrow> site \<Rightarrow> (fetch_error, unit) result \<times> site"
where
  "fetch_sources W meanwhile m s =
     (case find_missing W (st_at s) (mf_files m) of
        Inl e \<Rightarrow> (Inl e, s)
      | Inr missing \<Rightarrow>
          if missing = [] then (Inr (), s)
          else case get_archive W m s of
            (Inl e, s1) \<Rightarrow> (Inl e, s1)
          | (Inr data, s1) \<Rightarrow>
              (case mapE (read_member W m data) missing of
                 Inl e \<Rightarrow> (Inl e, s1)
               | Inr contents \<Rightarrow> create_all contents (s1\<lparr>st_at := meanwhile (st_at s1)\<rparr>)))"

section \<open>What a fetch does to the directory\<close>

lemma find_missing_files:
  assumes "find_missing W at files = Inr missing" "(name, digest) \<in> set files"
  shows "path_name name = name"
    "name \<in> set missing \<and> at name = None \<or>
     (\<exists>data. at name = Some (File data) \<and> ou_sha256 W data = digest)"
  using assms
  by (induction files arbitrary: missing)
    (auto simp: bindE_Inr_iff verify_def split: if_splits option.splits entry.splits)

lemma find_missing_subset:
  "find_missing W at files = Inr missing \<Longrightarrow> n \<in> set missing \<Longrightarrow> \<exists>digest. (n, digest) \<in> set files"
proof (induction files arbitrary: missing)
  case (Cons f files)
  then show ?case
    by (cases f) (fastforce simp: bindE_Inr_iff split: if_splits option.splits entry.splits)
qed simp

lemma read_members:
  assumes "mapE (read_member W m data) names = Inr contents"
  shows "map fst contents = names"
    "(name, payload) \<in> set contents \<Longrightarrow> ou_sha256 W payload = digest_of m name"
  using assms
  by (induction names arbitrary: contents)
    (auto simp: bindE_Inr_iff read_member_def verify_def split: option.splits if_splits)

lemma create_all_effect:
  assumes "create_all contents s = (res, s')"
  shows "st_at s n \<noteq> None \<Longrightarrow> st_at s' n = st_at s n"
    "st_at s' n \<noteq> st_at s n \<Longrightarrow> \<exists>payload. st_at s' n = Some (File payload) \<and> (n, payload) \<in> set contents"
    "res = Inr () \<Longrightarrow> (n, payload) \<in> set contents \<Longrightarrow> st_at s' n = Some (File payload)"
    "st_cache s' = st_cache s"
  using assms
proof (induction contents arbitrary: s)
  case (Cons c contents)
  obtain k p where c: "c = (k, p)" by (cases c)
  have step: "st_at s k \<noteq> None \<and> res = Inl (AlreadyExists k) \<and> s' = s \<or>
      st_at s k = None \<and> create_all contents (s\<lparr>st_at := (st_at s)(k \<mapsto> File p)\<rparr>) = (res, s')"
    if "create_all (c # contents) s = (res, s')" for s
    using that by (auto simp: c split: if_splits)
  {
    case 1
    then have run: "create_all (c # contents) s = (res, s')" by blast
    show ?case using step [OF run] 1 Cons.IH(1) [of "s\<lparr>st_at := (st_at s)(k \<mapsto> File p)\<rparr>"] by (cases "n = k") auto
  next
    case 2
    then have run: "create_all (c # contents) s = (res, s')" by blast
    show ?case using step [OF run] 2 Cons.IH(1,2) [of "s\<lparr>st_at := (st_at s)(k \<mapsto> File p)\<rparr>"] by (cases "n = k") (auto simp: c)
  next
    case 3
    then have run: "create_all (c # contents) s = (res, s')" by blast
    show ?case using step [OF run] 3 Cons.IH(1,3) [of "s\<lparr>st_at := (st_at s)(k \<mapsto> File p)\<rparr>"] by (auto simp: c)
  next
    case 4
    then have run: "create_all (c # contents) s = (res, s')" by blast
    show ?case using step [OF run] Cons.IH(4) [of "s\<lparr>st_at := (st_at s)(k \<mapsto> File p)\<rparr>"] by auto
  }
qed auto

text \<open>
  C32. A fetch never overwrites a file and never leaves one unchecked: whatever other processes
  do meanwhile, what is in the directory when the files are created stays as it is, every file
  added is one of the manifest's plain names with the digest the manifest pins, and when the
  fetch succeeds every file of the manifest was there with its digest or has been created with
  it. An archive is only cached with the pinned digest.
\<close>

theorem fetch_is_safe:
  assumes "fetch_sources W meanwhile m s = (res, s')" "distinct (map fst (mf_files m))"
  shows "\<exists>before. before \<in> {st_at s, meanwhile (st_at s)} \<and>
    (\<forall>n. before n \<noteq> None \<longrightarrow> st_at s' n = before n) \<and>
    (\<forall>n. st_at s' n \<noteq> before n \<longrightarrow> (\<exists>data digest. st_at s' n = Some (File data) \<and>
       (n, digest) \<in> set (mf_files m) \<and> ou_sha256 W data = digest \<and> path_name n = n)) \<and>
    (res = Inr () \<longrightarrow> (\<forall>(n, digest) \<in> set (mf_files m). \<exists>data. ou_sha256 W data = digest \<and>
       (st_at s n = Some (File data) \<or> st_at s' n = Some (File data)))) \<and>
    (st_cache s' = st_cache s \<or> (\<exists>data. st_cache s' = Some data \<and> ou_sha256 W data = mf_sha256 m))"
proof (cases "find_missing W (st_at s) (mf_files m)")
  case (Inl e)
  then show ?thesis using assms(1) by (intro exI [of _ "st_at s"]) (auto simp: fetch_sources_def)
next
  case (Inr missing)
  note found = find_missing_files [OF Inr]
  show ?thesis
  proof (cases "missing = []")
    case True
    then show ?thesis using assms(1) Inr found(2)
      by (intro exI [of _ "st_at s"]) (fastforce simp: fetch_sources_def)
  next
    case False
    obtain ar s1 where ar: "get_archive W m s = (ar, s1)" by (cases "get_archive W m s")
    have s1: "st_at s1 = st_at s" "st_cache s1 = st_cache s \<or> (\<exists>data. st_cache s1 = Some data \<and> ou_sha256 W data = mf_sha256 m)"
      using ar by (auto simp: get_archive_def verify_def split: option.splits sum.splits if_splits)
    show ?thesis
    proof (cases "\<exists>data contents. ar = Inr data \<and> mapE (read_member W m data) missing = Inr contents")
      case False
      then have "st_at s' = st_at s" "st_cache s' = st_cache s1" "\<exists>e. res = Inl e"
        using assms(1) Inr \<open>missing \<noteq> []\<close> ar s1(1)
        by (auto simp: fetch_sources_def split: sum.splits)
      then show ?thesis using s1(2) by (intro exI [of _ "st_at s"]) auto
    next
      case True
      then obtain data contents where data: "ar = Inr data" "mapE (read_member W m data) missing = Inr contents"
        by blast
      let ?s2 = "s1\<lparr>st_at := meanwhile (st_at s1)\<rparr>"
      have run: "create_all contents ?s2 = (res, s')"
        using assms(1) Inr \<open>missing \<noteq> []\<close> ar data by (simp add: fetch_sources_def)
      note eff = create_all_effect [OF run] and mem = read_members [OF data(2)]
      have digest: "(n, digest_of m n) \<in> set (mf_files m)" if n: "n \<in> set missing" for n
      proof -
        obtain d where "(n, d) \<in> set (mf_files m)" using find_missing_subset [OF Inr n] by blast
        then show ?thesis using assms(2) by (simp add: digest_of_def)
      qed
      have pinned: "n \<in> set missing" "ou_sha256 W payload = digest_of m n" if "(n, payload) \<in> set contents" for n payload
        using that mem(1) mem(2) [OF that] by force+
      have changed: "\<exists>payload digest. st_at s' n = Some (File payload) \<and> (n, digest) \<in> set (mf_files m) \<and>
          ou_sha256 W payload = digest \<and> path_name n = n" if "st_at s' n \<noteq> meanwhile (st_at s) n" for n
        using eff(2) [of n] that pinned digest found(1) s1(1) by fastforce
      have all: "\<exists>payload. ou_sha256 W payload = d \<and> (st_at s n = Some (File payload) \<or> st_at s' n = Some (File payload))"
        if "res = Inr ()" "(n, d) \<in> set (mf_files m)" for n d
      proof (cases "n \<in> set missing")
        case True
        then obtain payload where "(n, payload) \<in> set contents" using mem(1) by (metis fst_conv imageE list.set_map prod.collapse)
        moreover have "digest_of m n = d" using that(2) assms(2) by (simp add: digest_of_def)
        ultimately show ?thesis using eff(3) [OF that(1)] pinned(2) by blast
      qed (use found(2) [OF that(2)] in blast)
      show ?thesis
        using eff(1,4) changed all s1 by (intro exI [of _ "meanwhile (st_at s)"]) auto
    qed
  qed
qed

text \<open>
  One file is there, one is missing and comes from a downloaded archive, while another process
  creates a third. The hash knows the three texts.
\<close>

definition sample_outside :: outside where
  "sample_outside = \<lparr>ou_sha256 = (\<lambda>b. if b = [97, 114] then ''ar'' else if b = [108] then ''l'' else if b = [109] then ''m'' else []), ou_get = (\<lambda>_. Some [97, 114]),
     ou_member = (\<lambda>_ name. if name = ''coremark-v1/main.c'' then Some (True, [109]) else None)\<rparr>"

definition sample_manifest :: manifest where
  "sample_manifest = \<lparr>mf_files = [(''list.c'', ''l''), (''main.c'', ''m'')], mf_commit = ''v1'', mf_sha256 = ''ar'',
     mf_url = ''url''\<rparr>"

definition sample_site :: site where
  "sample_site = \<lparr>st_at = [''list.c'' \<mapsto> File [108]], st_cache = None\<rparr>"

definition sample_meanwhile :: "(string \<rightharpoonup> entry) \<Rightarrow> (string \<rightharpoonup> entry)" where
  "sample_meanwhile at = at(''notes'' \<mapsto> File [])"

lemma sample_fetch:
  "fetch_sources sample_outside sample_meanwhile sample_manifest sample_site =
    (Inr (), \<lparr>st_at = [''list.c'' \<mapsto> File [108], ''notes'' \<mapsto> File [], ''main.c'' \<mapsto> File [109]],
      st_cache = Some [97, 114]\<rparr>)"
  by (simp add: fetch_sources_def sample_outside_def sample_meanwhile_def sample_manifest_def sample_site_def
      get_archive_def verify_def path_name_def read_member_def digest_of_def)

theorem fetch_is_safe_witness:
  "\<exists>s'. fetch_sources sample_outside sample_meanwhile sample_manifest sample_site = (Inr (), s') \<and>
     (\<forall>(n, digest) \<in> set (mf_files sample_manifest). \<exists>data. ou_sha256 sample_outside data = digest \<and>
       (st_at sample_site n = Some (File data) \<or> st_at s' n = Some (File data)))"
proof -
  have "distinct (map fst (mf_files sample_manifest))" by (simp add: sample_manifest_def)
  from fetch_is_safe [OF sample_fetch this] show ?thesis using sample_fetch by (elim exE conjE) blast
qed

end
