(* ===== verification/PyFloat.thy ===== *)
theory PyFloat
  imports AsmParse Complex_Main
begin

text \<open>
  Python's floating-point numbers as the rational numbers they are: rounding to 53 significant
  bits, to the nearest and to even in a tie, reading decimal text and printing it with a fixed
  number of decimals. Numbers too large or too small for the exponent range, infinities and
  not-a-number are left out; the tools only measure clock rates and areas with them.
\<close>

section \<open>Rounding\<close>

definition round_even :: "rat \<Rightarrow> int" where
  "round_even x =
     (let f = \<lfloor>x\<rfloor>; d = x - of_int f in
      if d < 1 / 2 then f else if 1 / 2 < d then f + 1 else if even f then f else f + 1)"

definition pow2 :: "int \<Rightarrow> rat" where
  "pow2 e = (if 0 \<le> e then 2 ^ nat e else 1 / 2 ^ nat (- e))"

function bit_count :: "int \<Rightarrow> nat" where
  "bit_count n = (if n \<le> 0 then 0 else Suc (bit_count (n div 2)))"
  by pat_completeness auto
termination by (relation "measure nat") auto

declare bit_count.simps [simp del]

text \<open>The exponent of the last of 53 bits of a positive number.\<close>

definition last_place :: "rat \<Rightarrow> int" where
  "last_place x =
     (case quotient_of x of (n, d) \<Rightarrow>
        let k = int (bit_count n) - int (bit_count d) in
        (if of_int d * pow2 k \<le> of_int n then k else k - 1) - 52)"

definition fl :: "rat \<Rightarrow> rat" where
  "fl x =
     (if x = 0 then 0
      else let e = last_place \<bar>x\<bar> in of_int (round_even (x / pow2 e)) * pow2 e)"

lemma round_even_near: "\<bar>of_int (round_even x) - x\<bar> \<le> 1 / 2"
proof -
  have "of_int \<lfloor>x\<rfloor> \<le> x" "x < of_int \<lfloor>x\<rfloor> + 1" by (simp, linarith)
  then show ?thesis by (auto simp: round_even_def Let_def abs_le_iff)
qed

lemma round_even_int [simp]: "round_even (of_int n) = n"
  by (simp add: round_even_def)

lemma pow2_pos [simp]: "0 < pow2 e"
  by (simp add: pow2_def)

lemma pow2_add_one: "pow2 (e + 1) = 2 * pow2 e"
proof (cases "0 \<le> e")
  case True
  then have "nat (e + 1) = Suc (nat e)" by simp
  then show ?thesis using True by (simp add: pow2_def)
next
  case False
  then have "nat (- e) = Suc (nat (- (e + 1)))" by simp
  then show ?thesis using False by (auto simp: pow2_def)
qed

lemma pow2_add_nat: "pow2 (e + int n) = 2 ^ n * pow2 e"
  by (induction n) (use pow2_add_one [of "e + int _"] in \<open>simp_all add: algebra_simps\<close>)

lemma pow2_diff_nat: "pow2 (e - int n) = pow2 e / 2 ^ n"
  using pow2_add_nat [of "e - int n" n] by (simp add: field_simps)

lemma bit_count_bounds: "0 < n \<Longrightarrow> 2 ^ (bit_count n - 1) \<le> n \<and> n < 2 ^ bit_count n"
proof (induction n rule: bit_count.induct)
  case (1 n)
  show ?case
  proof (cases "n = 1")
    case True
    then show ?thesis by (simp add: bit_count.simps)
  next
    case False
    then have "0 < n div 2" using 1(2) by (simp add: zdiv_mono1 pos_imp_zdiv_pos_iff)
    then have half: "2 ^ (bit_count (n div 2) - 1) \<le> n div 2" "n div 2 < 2 ^ bit_count (n div 2)" "0 < bit_count (n div 2)"
      using 1 by (auto simp: bit_count.simps [of "n div 2"])
    have "bit_count n = Suc (bit_count (n div 2))" using 1(2) by (subst bit_count.simps) simp
    then show ?thesis using half by (cases "bit_count (n div 2)") auto
  qed
qed

text \<open>The last place has 52 bits above it, so rounding moves a number by at most a $2^{-53}$th.\<close>

lemma last_place_bound:
  assumes "0 < x"
  shows "2 ^ 52 * pow2 (last_place x) \<le> x"
proof -
  obtain n d where q: "quotient_of x = (n, d)" by fastforce
  have d: "0 < d" and x: "x = of_int n / of_int d"
    using quotient_of_denom_pos [OF q] quotient_of_div [OF q] by auto
  then have n: "0 < n" using assms by (simp add: zero_less_divide_iff)
  let ?k = "int (bit_count n) - int (bit_count d)"
  have e: "2 ^ 52 * pow2 (e - 52) = pow2 e" for e using pow2_diff_nat [of e 52] by simp
  show ?thesis
  proof (cases "of_int d * pow2 ?k \<le> of_int n")
    case True
    then have "2 ^ 52 * pow2 (last_place x) = pow2 ?k" by (simp only: last_place_def q prod.case Let_def if_True e)
    also have "\<dots> \<le> x" using True d by (simp add: x field_simps)
    finally show ?thesis .
  next
    case False
    then have l: "2 ^ 52 * pow2 (last_place x) = pow2 (?k - 1)" by (simp only: last_place_def q prod.case Let_def if_False e)
    have bn: "2 ^ (bit_count n - 1) \<le> n" "1 \<le> bit_count n" and bd: "d < 2 ^ bit_count d"
      using bit_count_bounds [OF n] bit_count_bounds [OF d] n by (auto simp: bit_count.simps [of n])
    have "pow2 (?k - 1) * of_int d \<le> pow2 (?k - 1) * 2 ^ bit_count d"
    proof (rule mult_left_mono)
      show "rat_of_int d \<le> 2 ^ bit_count d" using bd by (metis less_imp_le of_int_le_iff of_int_numeral of_int_power)
    qed (simp add: less_imp_le)
    also have "\<dots> = pow2 (?k - 1 + int (bit_count d))" unfolding pow2_add_nat by (rule mult.commute)
    also have "\<dots> = pow2 (int (bit_count n - 1))" using bn(2) by (simp add: of_nat_diff)
    also have "\<dots> = 2 ^ (bit_count n - 1)" by (simp add: pow2_def)
    also have "\<dots> \<le> of_int n" using bn(1) by (metis of_int_le_iff of_int_numeral of_int_power)
    finally have "pow2 (?k - 1) \<le> of_int n / of_int d" using d by (simp only: pos_le_divide_eq of_int_0_less_iff)
    then show ?thesis unfolding l by (simp only: x)
  qed
qed

lemma fl_near: "\<bar>fl x - x\<bar> \<le> \<bar>x\<bar> / 2 ^ 53"
proof (cases "x = 0")
  case False
  define u where "u = pow2 (last_place \<bar>x\<bar>)"
  have u: "0 < u" "2 ^ 52 * u \<le> \<bar>x\<bar>" using last_place_bound [of "\<bar>x\<bar>"] False by (simp_all add: u_def)
  have "fl x - x = (of_int (round_even (x / u)) - x / u) * u"
    using False u(1) by (simp add: fl_def flip: u_def) (simp add: algebra_simps)
  then have "\<bar>fl x - x\<bar> = \<bar>of_int (round_even (x / u)) - x / u\<bar> * u" using u(1) by (simp add: abs_mult)
  also have "\<dots> \<le> 1 / 2 * u" using round_even_near u(1) by (intro mult_right_mono) auto
  also have "\<dots> \<le> \<bar>x\<bar> / 2 ^ 53" using u(2) by simp
  finally show ?thesis .
qed (simp add: fl_def)

lemma fl_zero [simp]: "fl 0 = 0"
  by (simp add: fl_def)

section \<open>Decimal text\<close>

text \<open>\<open>'%.nf'\<close>: the nearest multiple of $10^{-n}$, the even one in a tie.\<close>

definition pad_digits :: "nat \<Rightarrow> nat \<Rightarrow> string" where
  "pad_digits w n = (let s = dec_str n in replicate (w - length s) (CHR ''0'') @ s)"

definition fmt_fixed :: "nat \<Rightarrow> rat \<Rightarrow> string" where
  "fmt_fixed n x =
     (let k = nat (round_even (\<bar>x\<bar> * 10 ^ n)) in
      (if x < 0 then [CHR ''-''] else []) @ dec_str (k div 10 ^ n) @
      (if n = 0 then [] else CHR ''.'' # pad_digits n (k mod 10 ^ n)))"

text \<open>
  \<open>float(s)\<close> for text with digits, at most one point, a sign, and space around it; exponents,
  underscores, \<open>inf\<close> and \<open>nan\<close> are left out.
\<close>

definition py_decimal :: "string \<Rightarrow> rat option" where
  "py_decimal s =
     (let whole = takeWhile (\<lambda>c. c \<noteq> CHR ''.'') s; part = drop 1 (dropWhile (\<lambda>c. c \<noteq> CHR ''.'') s) in
      map_option (\<lambda>ns. of_int (number_of 10 ns) / 10 ^ length part) (digits_of 10 (whole @ part)))"

definition py_float :: "string \<Rightarrow> rat option" where
  "py_float s =
     (let t = py_strip s in
      map_option fl
        (if t \<noteq> [] \<and> hd t = CHR ''-'' then map_option uminus (py_decimal (tl t))
         else if t \<noteq> [] \<and> hd t = CHR ''+'' then py_decimal (tl t)
         else py_decimal t))"

section \<open>Printing and reading\<close>

lemma round_even_unique: "\<bar>x - of_int n\<bar> < 1 / 2 \<Longrightarrow> round_even x = n"
proof -
  assume "\<bar>x - of_int n\<bar> < 1 / 2"
  then have "\<bar>rat_of_int (round_even x) - rat_of_int n\<bar> < 1" using round_even_near [of x] by linarith
  then have "\<bar>round_even x - n\<bar> < 1" by (metis of_int_abs of_int_diff of_int_less_1_iff)
  then show ?thesis by simp
qed

lemma number_of_append: "number_of 10 (xs @ ys) = number_of 10 xs * 10 ^ length ys + number_of 10 ys"
proof -
  have "foldl (\<lambda>v d. int 10 * v + int d) a ys = a * 10 ^ length ys + foldl (\<lambda>v d. int 10 * v + int d) 0 ys" for a
  proof (induction ys arbitrary: a)
    case (Cons y ys)
    show ?case
      using Cons.IH [of "int 10 * a + int y"] Cons.IH [of "int y"] by (simp add: algebra_simps)
  qed simp
  then show ?thesis unfolding number_of_def foldl_append by blast
qed

lemma number_of_leading_zeros: "number_of 10 (replicate n 0 @ xs) = number_of 10 xs"
  by (induction n) (simp_all add: number_of_def)

definition digit_codes :: "string \<Rightarrow> nat list" where
  "digit_codes s = map (\<lambda>c. the (hex_val c)) s"

lemma length_dec_str: "k < 10 ^ w \<Longrightarrow> 0 < w \<Longrightarrow> length (dec_str k) \<le> w"
proof (induction w arbitrary: k)
  case (Suc w)
  show ?case
  proof (cases "k < 10")
    case False
    then have "k div 10 < 10 ^ w" "0 < w" using Suc.prems by (auto simp: less_mult_imp_div_less mult.commute intro: gr0I)
    then show ?thesis using Suc.IH False by (simp add: dec_str.simps [of k])
  qed (simp add: dec_str.simps)
qed simp

lemma pad_digits_facts:
  assumes "k < 10 ^ w" "0 < w"
  shows "length (pad_digits w k) = w" "list_all is_digit (pad_digits w k)" "number_of 10 (digit_codes (pad_digits w k)) = int k"
proof -
  have zero: "is_digit CHR ''0''" "the (hex_val CHR ''0'') = 0" by (simp_all add: is_digit_def hex_val_def ccode_def)
  show "length (pad_digits w k) = w" using length_dec_str [OF assms] by (simp add: pad_digits_def Let_def)
  show "list_all is_digit (pad_digits w k)"
    using dec_str_digits [of k] zero(1) by (auto simp: pad_digits_def Let_def list_all_iff)
  show "number_of 10 (digit_codes (pad_digits w k)) = int k"
    using number_of_dec [of k] number_of_leading_zeros by (simp add: pad_digits_def Let_def digit_codes_def zero(2))
qed

lemma py_decimal_fixed:
  assumes "0 < n"
  shows "py_decimal (dec_str (k div 10 ^ n) @ CHR ''.'' # pad_digits n (k mod 10 ^ n)) = Some (of_nat k / 10 ^ n)"
proof -
  let ?a = "dec_str (k div 10 ^ n)" and ?b = "pad_digits n (k mod 10 ^ n)"
  have b: "length ?b = n" "list_all is_digit ?b" "number_of 10 (digit_codes ?b) = int (k mod 10 ^ n)"
    using pad_digits_facts [of "k mod 10 ^ n" n] assms by simp_all
  have a: "list_all is_digit ?a" "?a \<noteq> []" "number_of 10 (digit_codes ?a) = int (k div 10 ^ n)"
    using dec_str_digits number_of_dec dec_str_nonempty by (simp_all add: digit_codes_def)
  have "\<forall>c \<in> set ?a. c \<noteq> CHR ''.''" using a(1) by (auto simp: list_all_iff is_digit_def ccode_def)
  then have split: "takeWhile (\<lambda>c. c \<noteq> CHR ''.'') (?a @ CHR ''.'' # ?b) = ?a" "dropWhile (\<lambda>c. c \<noteq> CHR ''.'') (?a @ CHR ''.'' # ?b) = CHR ''.'' # ?b"
    by (simp_all add: takeWhile_append2 dropWhile_append2)
  have "digits_of 10 (?a @ ?b) = Some (digit_codes (?a @ ?b))"
    using a(1,2) b(2) digit_value by (fastforce simp: digits_of_def digit_codes_def list_all_iff)
  moreover have "number_of 10 (digit_codes (?a @ ?b)) = int k"
  proof -
    have "int (k div 10 ^ n * 10 ^ n + k mod 10 ^ n) = int k" by (simp only: div_mult_mod_eq)
    then have "int (k div 10 ^ n) * 10 ^ n + int (k mod 10 ^ n) = int k"
      by (simp only: of_nat_add of_nat_mult of_nat_power of_nat_numeral)
    then show ?thesis
      using a(3) b(1,3) number_of_append [of "digit_codes ?a" "digit_codes ?b"] by (simp add: digit_codes_def)
  qed
  ultimately show ?thesis by (simp add: py_decimal_def split b(1))
qed

text \<open>Reading a printed number gives the nearest double of what was printed.\<close>

lemma py_float_fixed:
  assumes "0 < n" "0 \<le> x"
  shows "py_float (fmt_fixed n x) = Some (fl (of_int (round_even (x * 10 ^ n)) / 10 ^ n))"
proof -
  define k where "k = nat (round_even (x * 10 ^ n))"
  have "0 \<le> round_even (x * 10 ^ n)"
    using assms(2) by (auto simp: round_even_def Let_def)
  then have k: "of_int (round_even (x * 10 ^ n)) = rat_of_nat k" by (simp add: k_def)
  let ?s = "dec_str (k div 10 ^ n) @ CHR ''.'' # pad_digits n (k mod 10 ^ n)"
  have s: "fmt_fixed n x = ?s" using assms by (simp add: fmt_fixed_def k_def Let_def)
  have ends: "?s \<noteq> []" "is_digit (hd ?s)" "is_digit (last ?s)"
    using pad_digits_facts [of "k mod 10 ^ n" n] dec_str_digits [of "k div 10 ^ n"] assms(1)
      dec_str_nonempty [of "k div 10 ^ n"]
    by (auto simp: list_all_iff hd_append)
  then have "py_strip ?s = ?s"
    by (intro py_strip_trimmed_id) (auto simp: trimmed_def py_space_def is_digit_def)
  moreover have "hd ?s \<noteq> CHR ''-''" "hd ?s \<noteq> CHR ''+''" using ends(2) by (auto simp: is_digit_def ccode_def)
  ultimately show ?thesis
    using py_decimal_fixed [OF assms(1), of k] ends(1) by (simp add: s py_float_def Let_def k)
qed

text \<open>Printing what was read back prints the same text.\<close>

lemma fmt_fixed_stable:
  assumes "0 < n" "0 \<le> x" "x * 10 ^ n < 2 ^ 51"
  shows "fmt_fixed n (fl (of_int (round_even (x * 10 ^ n)) / 10 ^ n)) = fmt_fixed n x"
proof -
  define k where "k = round_even (x * 10 ^ n)"
  have k0: "0 \<le> k" using assms(2) by (auto simp: k_def round_even_def Let_def)
  have "rat_of_int k \<le> x * 10 ^ n + 1 / 2" using round_even_near [of "x * 10 ^ n"] unfolding k_def by linarith
  then have k1: "rat_of_int k < 2 ^ 52" using assms(3) by simp
  let ?y = "rat_of_int k / 10 ^ n"
  have y: "0 \<le> ?y" using k0 by simp
  have near: "\<bar>fl ?y - ?y\<bar> \<le> ?y / 2 ^ 53" using fl_near [of ?y] y by simp
  then have "0 \<le> fl ?y" using y by (simp add: abs_le_iff)
  moreover have "\<bar>fl ?y * 10 ^ n - of_int k\<bar> = \<bar>fl ?y - ?y\<bar> * 10 ^ n"
  proof -
    have "fl ?y * 10 ^ n - of_int k = (fl ?y - ?y) * 10 ^ n" by (simp add: left_diff_distrib)
    then show ?thesis by (simp only: abs_mult power_abs abs_numeral)
  qed
  moreover have "\<bar>fl ?y - ?y\<bar> * 10 ^ n \<le> ?y / 2 ^ 53 * 10 ^ n" using near by (intro mult_right_mono) simp_all
  moreover have "?y / 2 ^ 53 * 10 ^ n < 1 / 2" using k1 by simp
  ultimately have "round_even (fl ?y * 10 ^ n) = k" "0 \<le> fl ?y" by (auto intro: round_even_unique)
  then show ?thesis using assms(2) by (simp add: fmt_fixed_def k_def [symmetric])
qed

end
