(* ===== verification/CheckLimits.thy ===== *)
theory CheckLimits
  imports FuzzState PyFloat
begin

text \<open>
  The regression limits (\<open>tools/check_regression_limits.py\<close>): file sizes, cycle counts of
  benchmark runs and numbers in result files, each against an optional minimum and maximum. A
  printed line is a constructor with the values it shows; the file system and the testbench runs
  are parameters, the parsed JSON document a record.
\<close>

section \<open>The limits\<close>

record bound =
  bd_name :: string
  bd_min :: "rat option"
  bd_max :: "rat option"

record size_item =
  sz_bound :: bound
  sz_path :: string

record cycle_item =
  cy_name :: string
  cy_min :: "int option"
  cy_max :: "int option"
  cy_tb :: string
  cy_image :: string

record number_item =
  nu_bound :: bound
  nu_path :: string
  nu_field :: nat

record limits =
  lm_sizes :: "size_item list"
  lm_cycles :: "cycle_item list"
  lm_numbers :: "number_item list"

datatype check_line =
    TooSmall string rat rat
  | TooLarge string rat rat
  | Within string rat "rat option" "rat option"
  | NotPassed string string

section \<open>One bound\<close>

definition check_bound :: "string \<Rightarrow> rat \<Rightarrow> bound \<Rightarrow> bool \<times> check_line list" where
  "check_bound name v b =
     (let low = (case bd_min b of Some m \<Rightarrow> if v < m then [TooSmall name v m] else [] | None \<Rightarrow> []);
          high = (case bd_max b of Some m \<Rightarrow> if m < v then [TooLarge name v m] else [] | None \<Rightarrow> []);
          failed = (low @ high \<noteq> []) in
      (\<not> failed, low @ high @ (if failed then [] else [Within name v (bd_min b) (bd_max b)])))"

definition in_bounds :: "bound \<Rightarrow> rat \<Rightarrow> bool" where
  "in_bounds b v \<longleftrightarrow> (\<forall>m. bd_min b = Some m \<longrightarrow> m \<le> v) \<and> (\<forall>m. bd_max b = Some m \<longrightarrow> v \<le> m)"

lemma check_bound_within: "fst (check_bound name v b) \<longleftrightarrow> in_bounds b v"
  by (auto simp: check_bound_def in_bounds_def Let_def split: option.splits)

section \<open>The checks\<close>

text \<open>The search for \<open>done after (\d+) cycles, result=0x600D: PASS\<close>.\<close>

definition cycles_here :: "string \<Rightarrow> int option" where
  "cycles_here s =
     (let rest = drop (length ''done after '') s; ds = takeWhile is_digit rest in
      if startswith s ''done after '' \<and> ds \<noteq> [] \<and>
         startswith (drop (length ds) rest) '' cycles, result=0x600D: PASS''
      then Some (number_of 10 (map (\<lambda>c. the (hex_val c)) ds)) else None)"

fun find_cycles :: "string \<Rightarrow> int option" where
  "find_cycles [] = None"
| "find_cycles (c # cs) = (case cycles_here (c # cs) of Some n \<Rightarrow> Some n | None \<Rightarrow> find_cycles cs)"

datatype limit_error = NoFile string | NoMaximum string | NoField string | NotANumber string

type_synonym check = "(limit_error, bool \<times> check_line list) result"

definition check_size :: "(string \<Rightarrow> int option) \<Rightarrow> size_item \<Rightarrow> check" where
  "check_size file_size it =
     (case file_size (sz_path it) of
        None \<Rightarrow> Inl (NoFile (sz_path it))
      | Some n \<Rightarrow> Inr (check_bound (bd_name (sz_bound it)) (of_int n) (sz_bound it)))"

definition cycle_bound :: "cycle_item \<Rightarrow> bound" where
  "cycle_bound it = \<lparr>bd_name = cy_name it, bd_min = map_option of_int (cy_min it), bd_max = map_option of_int (cy_max it)\<rparr>"

definition bench_run :: "exec \<Rightarrow> cycle_item \<Rightarrow> int \<Rightarrow> proc" where
  "bench_run exec it mx = exec [cy_tb it, cy_image it, ''--max-cycles'', fmt_d (max 2000000 (mx * 2))]"

definition check_cycles :: "exec \<Rightarrow> cycle_item \<Rightarrow> check" where
  "check_cycles exec it =
     (case cy_max it of
        None \<Rightarrow> Inl (NoMaximum (cy_name it))
      | Some mx \<Rightarrow>
          let r = bench_run exec it mx; output = p_stdout r @ p_stderr r in
          (case find_cycles output of
             Some n \<Rightarrow>
               if p_returncode r \<noteq> 0 then Inr (False, [NotPassed (cy_name it) output])
               else Inr (check_bound (cy_name it @ '' cycles'') (of_int n) (cycle_bound it))
           | None \<Rightarrow> Inr (False, [NotPassed (cy_name it) output])))"

definition file_number :: "(string \<Rightarrow> string option) \<Rightarrow> number_item \<Rightarrow> (limit_error, rat) result" where
  "file_number file_text it =
     (case file_text (nu_path it) of
        None \<Rightarrow> Inl (NoFile (nu_path it))
      | Some s \<Rightarrow>
          (let fields = py_fields s in
           if length fields \<le> nu_field it then Inl (NoField (nu_path it))
           else case py_float (fields ! nu_field it) of
             None \<Rightarrow> Inl (NotANumber (fields ! nu_field it))
           | Some v \<Rightarrow> Inr v))"

definition check_number :: "(string \<Rightarrow> string option) \<Rightarrow> number_item \<Rightarrow> check" where
  "check_number file_text it =
     bindE (file_number file_text it) (\<lambda>v. Inr (check_bound (bd_name (nu_bound it)) v (nu_bound it)))"

text \<open>A loop of \<open>main\<close>: the verdicts are combined, the lines follow each other.\<close>

fun check_all :: "('a \<Rightarrow> check) \<Rightarrow> 'a list \<Rightarrow> bool \<times> check_line list \<Rightarrow> check" where
  "check_all f [] acc = Inr acc"
| "check_all f (it # its) acc =
     bindE (f it) (\<lambda>(ok, ls). check_all f its (fst acc \<and> ok, snd acc @ ls))"

definition limits_main ::
  "(string \<Rightarrow> int option) \<Rightarrow> exec \<Rightarrow> (string \<Rightarrow> string option) \<Rightarrow> limits \<Rightarrow> (limit_error, int \<times> check_line list) result"
where
  "limits_main file_size exec file_text l =
     bindE (check_all (check_size file_size) (lm_sizes l) (True, [])) (\<lambda>acc1.
     bindE (check_all (check_cycles exec) (lm_cycles l) acc1) (\<lambda>acc2.
     bindE (check_all (check_number file_text) (lm_numbers l) acc2) (\<lambda>(passed, ls).
     Inr (if passed then 0 else 1, ls))))"

section \<open>The exit status\<close>

lemma check_all_verdict:
  assumes "check_all f its acc = Inr (ok, ls)"
  shows "ok \<longleftrightarrow> fst acc \<and> (\<forall>it \<in> set its. \<exists>ls. f it = Inr (True, ls))"
  using assms
proof (induction its arbitrary: acc)
  case (Cons it its)
  then show ?case by (fastforce simp: bindE_Inr_iff split: prod.splits)
qed auto

lemma check_size_ok:
  "(\<exists>ls. check_size file_size it = Inr (True, ls)) \<longleftrightarrow>
   (\<exists>n. file_size (sz_path it) = Some n \<and> in_bounds (sz_bound it) (of_int n))"
  unfolding check_bound_within [symmetric, where name = "bd_name (sz_bound it)"]
  by (auto simp: check_size_def split: option.split) (metis prod.collapse)

lemma check_number_ok:
  "(\<exists>ls. check_number file_text it = Inr (True, ls)) \<longleftrightarrow>
   (\<exists>v. file_number file_text it = Inr v \<and> in_bounds (nu_bound it) v)"
  unfolding check_bound_within [symmetric, where name = "bd_name (nu_bound it)"]
  by (auto simp: check_number_def bindE_Inr_iff) (metis prod.collapse)

lemma check_cycles_ok:
  "(\<exists>ls. check_cycles exec it = Inr (True, ls)) \<longleftrightarrow>
   (\<exists>mx n. cy_max it = Some mx \<and> p_returncode (bench_run exec it mx) = 0 \<and>
      find_cycles (p_stdout (bench_run exec it mx) @ p_stderr (bench_run exec it mx)) = Some n \<and>
      in_bounds (cycle_bound it) (of_int n))"
  unfolding check_bound_within [symmetric, where name = "cy_name it @ '' cycles''"]
  by (auto simp: check_cycles_def Let_def split: option.split) (metis prod.collapse)

text \<open>
  C33. The check of the regression limits succeeds exactly when every limit holds: every file's
  size is within its bounds, every benchmark ended with status 0 and a passing result after a
  number of cycles within its bounds, and every number of a result file is within its bounds.
\<close>

theorem limits_exit_status:
  assumes "limits_main file_size exec file_text l = Inr (code, ls)"
  shows "code = 0 \<longleftrightarrow>
    (\<forall>it \<in> set (lm_sizes l). \<exists>n. file_size (sz_path it) = Some n \<and> in_bounds (sz_bound it) (of_int n)) \<and>
    (\<forall>it \<in> set (lm_cycles l). \<exists>mx n. cy_max it = Some mx \<and> p_returncode (bench_run exec it mx) = 0 \<and>
      find_cycles (p_stdout (bench_run exec it mx) @ p_stderr (bench_run exec it mx)) = Some n \<and>
      in_bounds (cycle_bound it) (of_int n)) \<and>
    (\<forall>it \<in> set (lm_numbers l). \<exists>v. file_number file_text it = Inr v \<and> in_bounds (nu_bound it) v)"
proof -
  obtain a1 a2 passed where runs: "check_all (check_size file_size) (lm_sizes l) (True, []) = Inr a1"
      "check_all (check_cycles exec) (lm_cycles l) a1 = Inr a2"
      "check_all (check_number file_text) (lm_numbers l) a2 = Inr (passed, ls)"
    and code: "code = (if passed then 0 else 1)"
    using assms by (auto simp: limits_main_def bindE_Inr_iff)
  have "passed \<longleftrightarrow> (\<forall>it \<in> set (lm_sizes l). \<exists>ls. check_size file_size it = Inr (True, ls)) \<and>
      (\<forall>it \<in> set (lm_cycles l). \<exists>ls. check_cycles exec it = Inr (True, ls)) \<and>
      (\<forall>it \<in> set (lm_numbers l). \<exists>ls. check_number file_text it = Inr (True, ls))"
    using check_all_verdict [of "check_size file_size" _ _ "fst a1" "snd a1"]
      check_all_verdict [of "check_cycles exec" _ _ "fst a2" "snd a2"] check_all_verdict [OF runs(3)] runs(1,2)
    by simp
  then show ?thesis
    unfolding check_size_ok check_cycles_ok check_number_ok using code by simp
qed

text \<open>A size, a benchmark and a number, the number too large.\<close>

definition sample_limits :: limits where
  "sample_limits = \<lparr>lm_sizes = [\<lparr>sz_bound = \<lparr>bd_name = ''rom'', bd_min = None, bd_max = Some 100\<rparr>, sz_path = ''a.bin''\<rparr>],
     lm_cycles = [\<lparr>cy_name = ''bench'', cy_min = Some 10, cy_max = Some 20, cy_tb = ''tb'', cy_image = ''b.bin''\<rparr>],
     lm_numbers = [\<lparr>nu_bound = \<lparr>bd_name = ''alms'', bd_min = None, bd_max = Some (25 / 2)\<rparr>, nu_path = ''n'', nu_field = 1\<rparr>]\<rparr>"

lemma sample_limits_run:
  "case limits_main (\<lambda>_. Some 64)
     (\<lambda>_. \<lparr>p_returncode = 0, p_stdout = ''done after 15 cycles, result=0x600D: PASS'', p_stderr = []\<rparr>)
     (\<lambda>_. Some ''alms 12.75'') sample_limits of
   Inl _ \<Rightarrow> False
 | Inr (code, ls) \<Rightarrow> code = 1 \<and> ls = [Within ''rom'' 64 None (Some 100), Within ''bench cycles'' 15 (Some 10) (Some 20),
     TooLarge ''alms'' (51 / 4) (25 / 2)]"
  by code_simp

theorem limits_exit_status_witness:
  "\<exists>ls. limits_main (\<lambda>_. Some 64)
     (\<lambda>_. \<lparr>p_returncode = 0, p_stdout = ''done after 15 cycles, result=0x600D: PASS'', p_stderr = []\<rparr>)
     (\<lambda>_. Some ''alms 12.75'') sample_limits = Inr (1, ls) \<and>
   \<not> (\<forall>it \<in> set (lm_numbers sample_limits). \<exists>v. file_number (\<lambda>_. Some ''alms 12.75'') it = Inr v \<and> in_bounds (nu_bound it) v) "
proof -
  let ?r = "\<lambda>_ :: string list. \<lparr>p_returncode = 0, p_stdout = ''done after 15 cycles, result=0x600D: PASS'', p_stderr = []\<rparr>"
  obtain ls where run: "limits_main (\<lambda>_. Some 64) ?r (\<lambda>_. Some ''alms 12.75'') sample_limits = Inr (1, ls)"
    using sample_limits_run by (auto split: sum.splits)
  have size: "\<exists>n. Some 64 = Some n \<and> in_bounds (sz_bound it) (of_int n)" if "it \<in> set (lm_sizes sample_limits)" for it
    using that by (simp add: sample_limits_def in_bounds_def)
  have found: "find_cycles ''done after 15 cycles, result=0x600D: PASS'' = Some 15" by code_simp
  have cycles: "\<exists>mx n. cy_max it = Some mx \<and> p_returncode (bench_run ?r it mx) = 0 \<and>
      find_cycles (p_stdout (bench_run ?r it mx) @ p_stderr (bench_run ?r it mx)) = Some n \<and>
      in_bounds (cycle_bound it) (of_int n)" if "it \<in> set (lm_cycles sample_limits)" for it
    using that found by (simp add: sample_limits_def in_bounds_def bench_run_def cycle_bound_def)
  have "\<not> (\<forall>it \<in> set (lm_numbers sample_limits). \<exists>v. file_number (\<lambda>_. Some ''alms 12.75'') it = Inr v \<and> in_bounds (nu_bound it) v)"
  proof
    assume numbers: "\<forall>it \<in> set (lm_numbers sample_limits). \<exists>v. file_number (\<lambda>_. Some ''alms 12.75'') it = Inr v \<and> in_bounds (nu_bound it) v"
    have "(1 :: int) = 0"
      by (rule iffD2 [OF limits_exit_status [OF run]]) (intro conjI ballI size cycles numbers [rule_format]; assumption)
    then show False by simp
  qed
  then show ?thesis using run by blast
qed

end
