(* ===== verification/PyRegex.thy ===== *)
theory PyRegex
  imports HexText
begin

text \<open>
  The part of Python's \<open>re\<close> the tools use: concatenations of character classes, greedy and lazy
  repetitions of a class, options, alternatives, groups and the anchors of \<open>MULTILINE\<close>. The
  backtracking of \<open>re\<close> is the order in which \<open>re_alts\<close> lists the ways to match.
\<close>

section \<open>Expressions\<close>

datatype regex =
    Empty
  | Cls "char \<Rightarrow> bool"
  | Star "char \<Rightarrow> bool"
  | Lazy "char \<Rightarrow> bool"
  | Cat regex regex
  | Opt regex
  | Alt regex regex
  | Cap regex
  | Bol
  | Eol

fun cats :: "regex list \<Rightarrow> regex" where
  "cats [] = Empty"
| "cats (r # rs) = Cat r (cats rs)"

definition lit :: "string \<Rightarrow> regex" where
  "lit s = cats (map (\<lambda>c. Cls (\<lambda>d. d = c)) s)"

text \<open>A literal under \<open>IGNORECASE\<close>.\<close>

definition lit_i :: "string \<Rightarrow> regex" where
  "lit_i s = cats (map (\<lambda>c. Cls (\<lambda>d. lower_char d = lower_char c)) s)"

definition many1 :: "(char \<Rightarrow> bool) \<Rightarrow> regex" where
  "many1 p = Cat (Cls p) (Star p)"

definition spaces :: regex where "spaces = Star py_space"

section \<open>Matching\<close>

text \<open>A place in the text: the character before it and what follows.\<close>

type_synonym place = "char option \<times> string"

fun star_ends :: "(char \<Rightarrow> bool) \<Rightarrow> char option \<Rightarrow> string \<Rightarrow> place list" where
  "star_ends p b [] = [(b, [])]"
| "star_ends p b (c # cs) = (if p c then star_ends p (Some c) cs @ [(b, c # cs)] else [(b, c # cs)])"

text \<open>The ways to match at a place, the preferred one first, each with its groups.\<close>

fun re_alts :: "regex \<Rightarrow> place \<Rightarrow> (place \<times> string list) list" where
  "re_alts Empty s = [(s, [])]"
| "re_alts (Cls p) s = (case snd s of [] \<Rightarrow> [] | c # cs \<Rightarrow> if p c then [((Some c, cs), [])] else [])"
| "re_alts (Star p) s = map (\<lambda>e. (e, [])) (star_ends p (fst s) (snd s))"
| "re_alts (Lazy p) s = map (\<lambda>e. (e, [])) (rev (star_ends p (fst s) (snd s)))"
| "re_alts (Cat r1 r2) s =
     concat (map (\<lambda>(s1, g1). map (\<lambda>(s2, g2). (s2, g1 @ g2)) (re_alts r2 s1)) (re_alts r1 s))"
| "re_alts (Opt r) s = re_alts r s @ [(s, [])]"
| "re_alts (Alt r1 r2) s = re_alts r1 s @ re_alts r2 s"
| "re_alts (Cap r) s =
     map (\<lambda>(e, g). (e, take (length (snd s) - length (snd e)) (snd s) # g)) (re_alts r s)"
| "re_alts Bol s = (if fst s = None \<or> fst s = Some CHR 0x0A then [(s, [])] else [])"
| "re_alts Eol s = (case snd s of [] \<Rightarrow> [(s, [])] | c # _ \<Rightarrow> if c = CHR 0x0A then [(s, [])] else [])"

text \<open>\<open>re.search\<close>: the groups of the first match.\<close>

fun re_search_from :: "regex \<Rightarrow> char option \<Rightarrow> string \<Rightarrow> string list option" where
  "re_search_from r b [] = (case re_alts r (b, []) of [] \<Rightarrow> None | (_, g) # _ \<Rightarrow> Some g)"
| "re_search_from r b (c # cs) =
     (case re_alts r (b, c # cs) of [] \<Rightarrow> re_search_from r (Some c) cs | (_, g) # _ \<Rightarrow> Some g)"

definition re_search :: "regex \<Rightarrow> string \<Rightarrow> string list option" where
  "re_search r s = re_search_from r None s"

text \<open>
  \<open>re.findall\<close> and \<open>re.finditer\<close> for an expression that matches no empty text: the groups of the
  successive matches.
\<close>

function re_findall_from :: "regex \<Rightarrow> char option \<Rightarrow> string \<Rightarrow> string list list" where
  "re_findall_from r b s =
     (case s of
        [] \<Rightarrow> []
      | c # cs \<Rightarrow>
          (case re_alts r (b, s) of
             [] \<Rightarrow> re_findall_from r (Some c) cs
           | ((b', s'), g) # _ \<Rightarrow>
               if length s' < length s then g # re_findall_from r b' s' else re_findall_from r (Some c) cs))"
  by pat_completeness auto
termination by (relation "measure (\<lambda>(r, b, s). length s)") auto

declare re_findall_from.simps [simp del]

definition re_findall :: "regex \<Rightarrow> string \<Rightarrow> string list list" where
  "re_findall r s = re_findall_from r None s"

text \<open>\<open>int\<close> of a group of digits in a base.\<close>

definition group_int :: "nat \<Rightarrow> string \<Rightarrow> int" where
  "group_int b ds = number_of b (map (\<lambda>c. the (hex_val c)) ds)"

section \<open>The preferred match\<close>

definition re_first :: "regex \<Rightarrow> place \<Rightarrow> (place \<times> string list) option" where
  "re_first r s = (case re_alts r s of [] \<Rightarrow> None | m # _ \<Rightarrow> Some m)"

lemma re_first_None: "re_first r s = None \<longleftrightarrow> re_alts r s = []"
  by (simp add: re_first_def split: list.split)

lemma re_first_Cat:
  assumes "re_first r1 s = Some (s1, g1)" "re_first r2 s1 = Some (e, g2)"
  shows "re_first (Cat r1 r2) s = Some (e, g1 @ g2)"
  using assms by (auto simp: re_first_def split: list.splits)

lemma re_first_Cat_none: "re_first r1 s = None \<Longrightarrow> re_first (Cat r1 r2) s = None"
  by (simp add: re_first_None)

lemma re_first_Empty: "re_first Empty s = Some (s, [])"
  by (simp add: re_first_def)

lemma re_first_Cap:
  assumes "re_first r (b, x @ t) = Some ((b', t), g)"
  shows "re_first (Cap r) (b, x @ t) = Some ((b', t), x # g)"
  using assms by (auto simp: re_first_def split: list.splits)

lemma re_first_Opt:
  "re_first (Opt r) s = (case re_first r s of None \<Rightarrow> Some (s, []) | Some m \<Rightarrow> Some m)"
  by (auto simp: re_first_def split: list.splits)

lemma re_first_Bol: "b = None \<or> b = Some CHR 0x0A \<Longrightarrow> re_first Bol (b, s) = Some ((b, s), [])"
  by (auto simp: re_first_def)

lemma re_first_Eol: "s = [] \<or> hd s = CHR 0x0A \<Longrightarrow> re_first Eol (b, s) = Some ((b, s), [])"
  by (cases s) (auto simp: re_first_def)

lemma re_first_Cls: "p c \<Longrightarrow> re_first (Cls p) (b, c # s) = Some ((Some c, s), [])"
  by (simp add: re_first_def)

text \<open>A literal matches where the text starts with it.\<close>

lemma re_alts_lit:
  "re_alts (lit p) (b, s) =
     (if startswith s p then [((if p = [] then b else Some (last p), drop (length p) s), [])] else [])"
proof (induction p arbitrary: b s)
  case (Cons c p)
  then show ?case by (cases s) (auto simp: lit_def startswith_def)
qed (simp add: lit_def startswith_def)

lemma re_first_lit:
  "re_first (lit p) (b, s) =
     (if startswith s p then Some ((if p = [] then b else Some (last p), drop (length p) s), []) else None)"
  by (simp add: re_first_def re_alts_lit)

lemma startswith_append [simp]: "startswith (p @ s) p"
  by (simp add: startswith_def)

lemma re_first_lit_append: "re_first (lit p) (b, p @ s) = Some ((if p = [] then b else Some (last p), s), [])"
  by (simp add: re_first_lit)

text \<open>A class repeated up to a character outside it: the greedy match takes the whole run.\<close>

lemma star_ends_run:
  assumes "list_all p xs" "s = [] \<or> \<not> p (hd s)"
  shows "\<exists>es. star_ends p b (xs @ s) = (if xs = [] then b else Some (last xs), s) # es"
  using assms
proof (induction xs arbitrary: b)
  case Nil
  then show ?case by (cases s) auto
next
  case (Cons x xs)
  then obtain es where "star_ends p (Some x) (xs @ s) = (if xs = [] then Some x else Some (last xs), s) # es" by auto
  then show ?case using Cons.prems by simp
qed

lemma re_first_Star:
  assumes "list_all p xs" "s = [] \<or> \<not> p (hd s)"
  shows "re_first (Star p) (b, xs @ s) = Some ((if xs = [] then b else Some (last xs), s), [])"
  using star_ends_run [OF assms, of b] by (auto simp: re_first_def)

lemma re_first_many1:
  assumes "list_all p xs" "xs \<noteq> []" "s = [] \<or> \<not> p (hd s)"
  shows "re_first (many1 p) (b, xs @ s) = Some ((Some (last xs), s), [])"
proof -
  obtain x ys where xs: "xs = x # ys" using assms(2) by (cases xs) auto
  have "re_first (Cat (Cls p) (Star p)) (b, x # ys @ s) = Some ((if ys = [] then Some x else Some (last ys), s), [] @ [])"
    by (rule re_first_Cat [OF re_first_Cls re_first_Star]) (use assms xs in auto)
  then show ?thesis by (simp add: many1_def xs)
qed

section \<open>Expressions anchored at the start of a line\<close>

definition at_line_start :: "char option \<Rightarrow> bool" where
  "at_line_start b \<longleftrightarrow> b = None \<or> b = Some CHR 0x0A"

lemma re_first_anchored:
  "re_first (Cat Bol r) (b, s) = (if at_line_start b then re_first r (b, s) else None)"
  by (auto simp: re_first_def at_line_start_def)

lemma re_findall_step:
  "re_findall_from r b (c # cs) =
     (case re_first r (b, c # cs) of
        None \<Rightarrow> re_findall_from r (Some c) cs
      | Some ((b', s'), g) \<Rightarrow>
          if length s' < length (c # cs) then g # re_findall_from r b' s' else re_findall_from r (Some c) cs)"
  by (subst re_findall_from.simps) (auto simp: re_first_def split: list.split)

lemma re_findall_Nil [simp]: "re_findall_from r b [] = []"
  by (subst re_findall_from.simps) simp

text \<open>Within a line nothing is found.\<close>

lemma findall_skip:
  assumes "\<not> at_line_start b"
  shows "re_findall_from (Cat Bol r) b (c # s) = re_findall_from (Cat Bol r) (Some c) s"
proof -
  have "re_first (Cat Bol r) (b, c # s) = None" using assms by (simp add: re_first_anchored)
  then show ?thesis by (simp only: re_findall_step option.case)
qed

lemma findall_in_line:
  assumes "CHR 0x0A \<notin> set l" "\<not> at_line_start b"
  shows "re_findall_from (Cat Bol r) b (l @ CHR 0x0A # s) = re_findall_from (Cat Bol r) (Some CHR 0x0A) s"
  using assms
proof (induction l arbitrary: b)
  case (Cons c l)
  then have "\<not> at_line_start (Some c)" by (auto simp: at_line_start_def)
  then show ?case using Cons findall_skip [of b r c] by simp
qed (simp add: findall_skip)

text \<open>
  How an anchored expression meets a line: not at all, or with groups, up to the end of the line
  or into the next.
\<close>

definition line_match :: "regex \<Rightarrow> string \<Rightarrow> string list option \<Rightarrow> bool" where
  "line_match r l m \<longleftrightarrow>
     (\<forall>b s. at_line_start b \<longrightarrow> s = [] \<or> \<not> py_space (hd s) \<longrightarrow>
        (case m of
           None \<Rightarrow> re_first r (b, l @ CHR 0x0A # s) = None
         | Some g \<Rightarrow> \<exists>c. re_first r (b, l @ CHR 0x0A # s) = Some ((Some CHR 0x0A, s), g) \<or>
             c \<noteq> CHR 0x0A \<and> re_first r (b, l @ CHR 0x0A # s) = Some ((Some c, CHR 0x0A # s), g)))"

definition text_line :: "string \<Rightarrow> bool" where
  "text_line l \<longleftrightarrow> l \<noteq> [] \<and> CHR 0x0A \<notin> set l \<and> \<not> py_space (hd l)"

abbreviation unlines :: "string list \<Rightarrow> string" where
  "unlines ls \<equiv> concat (map (\<lambda>l. l @ [CHR 0x0A]) ls)"

lemma unlines_start: "list_all text_line ls \<Longrightarrow> unlines ls = [] \<or> \<not> py_space (hd (unlines ls))"
  by (cases ls) (auto simp: text_line_def)

lemma findall_lines:
  assumes "list_all text_line ls" "list_all2 (line_match (Cat Bol r)) ls ms" "at_line_start b"
  shows "re_findall_from (Cat Bol r) b (unlines ls) = concat (map (\<lambda>m. case m of None \<Rightarrow> [] | Some g \<Rightarrow> [g]) ms)"
  using assms
proof (induction ls arbitrary: b ms)
  case (Cons l ls)
  obtain m ms' where ms: "ms = m # ms'" "line_match (Cat Bol r) l m" "list_all2 (line_match (Cat Bol r)) ls ms'"
    using Cons.prems(2) by (auto simp: list_all2_Cons1)
  let ?s = "unlines ls" and ?r = "Cat Bol r"
  obtain c t where l: "l = c # t" "c \<noteq> CHR 0x0A" "CHR 0x0A \<notin> set t"
    using Cons.prems(1) by (cases l) (auto simp: text_line_def)
  have ls: "re_findall_from ?r (Some CHR 0x0A) ?s = concat (map (\<lambda>m. case m of None \<Rightarrow> [] | Some g \<Rightarrow> [g]) ms')"
    using Cons.IH [OF _ ms(3)] Cons.prems(1) by (simp add: at_line_start_def)
  have start: "?s = [] \<or> \<not> py_space (hd ?s)" using Cons.prems(1) unlines_start by simp
  have one: "re_findall_from ?r (Some d) (CHR 0x0A # ?s) = re_findall_from ?r (Some CHR 0x0A) ?s" if "d \<noteq> CHR 0x0A" for d
    using findall_in_line [of "[]" "Some d" r ?s] that by (simp add: at_line_start_def)
  have skip: "re_findall_from ?r (Some c) (t @ CHR 0x0A # ?s) = re_findall_from ?r (Some CHR 0x0A) ?s"
    using findall_in_line [of t "Some c" r ?s] l by (simp add: at_line_start_def)
  note lm = ms(2)
  show ?case
  proof (cases m)
    case None
    then have "re_first ?r (b, c # t @ CHR 0x0A # ?s) = None"
      using lm [unfolded line_match_def None option.case, rule_format, OF Cons.prems(3) start] by (simp add: l(1))
    then show ?thesis using skip ls None by (simp add: l(1) ms(1) re_findall_step)
  next
    case (Some g)
    then obtain d where "re_first ?r (b, c # t @ CHR 0x0A # ?s) = Some ((Some CHR 0x0A, ?s), g) \<or>
        d \<noteq> CHR 0x0A \<and> re_first ?r (b, c # t @ CHR 0x0A # ?s) = Some ((Some d, CHR 0x0A # ?s), g)"
      using lm [unfolded line_match_def Some option.case, rule_format, OF Cons.prems(3) start] by (auto simp: l(1))
    then have "re_findall_from ?r b (c # t @ CHR 0x0A # ?s) = g # re_findall_from ?r (Some CHR 0x0A) ?s"
      using one [of d] by (auto simp: re_findall_step)
    then show ?thesis using ls Some by (simp add: l(1) ms(1))
  qed
qed simp

text \<open>A match at the start of a line is found.\<close>

lemma search_suffix:
  "re_search_from r b (x @ s) = None \<Longrightarrow> re_first r (if x = [] then b else Some (last x), s) = None"
proof (induction x arbitrary: b)
  case Nil
  then show ?case by (cases s) (auto simp: re_first_None split: list.splits)
next
  case (Cons c x)
  then show ?case using Cons.IH [of "Some c"] by (auto split: list.splits if_splits)
qed

lemma search_line:
  assumes "\<And>b. at_line_start b \<Longrightarrow> re_first r (b, l @ CHR 0x0A # unlines ls2) \<noteq> None"
  shows "re_search r (unlines (ls1 @ l # ls2)) \<noteq> None"
proof
  assume "re_search r (unlines (ls1 @ l # ls2)) = None"
  then have "re_search_from r None (unlines ls1 @ l @ CHR 0x0A # unlines ls2) = None" by (simp add: re_search_def)
  then have "re_first r (if unlines ls1 = [] then None else Some (last (unlines ls1)), l @ CHR 0x0A # unlines ls2) = None"
    by (rule search_suffix)
  moreover have "at_line_start (if unlines ls1 = [] then None else Some (last (unlines ls1)))"
    by (cases ls1 rule: rev_cases) (auto simp: at_line_start_def)
  ultimately show False using assms by blast
qed

text \<open>Blank space up to the end of a line.\<close>

lemma re_first_line_end:
  assumes "c \<noteq> CHR 0x0A" "s = [] \<or> \<not> py_space (hd s)"
  shows "\<exists>e. re_first (cats [spaces, Eol]) (Some c, CHR 0x0A # s) = Some (e, []) \<and>
    (e = (Some CHR 0x0A, s) \<or> e = (Some c, CHR 0x0A # s))"
proof -
  have nl: "py_space CHR 0x0A" by (simp add: py_space_def ccode_def)
  show ?thesis using assms(2)
  proof
    assume "s = []"
    then show ?thesis using nl by (simp add: re_first_def spaces_def)
  next
    assume s: "\<not> py_space (hd s)"
    then have "s = [] \<or> hd s \<noteq> CHR 0x0A" using nl by auto
    then show ?thesis using s nl by (cases s) (auto simp: re_first_def spaces_def)
  qed
qed

end
