(* ===== verification/CoremarkRun.thy ===== *)
theory CoremarkRun
  imports FetchCoremark FuzzBuild PyRegex BinMem PyFloat
begin

text \<open>
  Running CoreMark (\<open>tools/run_coremark.py\<close>): what is read from a run's output and when the
  output is accepted, the jobs of a workload, the report of all runs and the exit status. Files,
  the hash, the tools and the simulators are a parameter. Every \<open>ValueError\<close> the script raises
  is a constructor with what its message shows.
\<close>

section \<open>The output of a run\<close>

definition CRCS :: "(string \<times> (string \<times> int) list) list" where
  "CRCS =
     [(''performance'', [(''seedcrc'', 0xe9f5), (''crclist'', 0xe714), (''crcmatrix'', 0x1fd7), (''crcstate'', 0x8e3a)]),
      (''validation'', [(''seedcrc'', 0x18f2), (''crclist'', 0xe3c1), (''crcmatrix'', 0x0747), (''crcstate'', 0x8d84)])]"

definition SHORT_WARNING :: string where
  "SHORT_WARNING = ''ERROR! Must execute for at least 10 secs for a valid result!''"

text \<open>A field \<open>name=\<close> and its digits.\<close>

definition number_field :: "string \<Rightarrow> regex" where
  "number_field name = Cat (lit name) (Cap (many1 is_digit))"

definition TICKS_RE :: regex where
  "TICKS_RE = cats [Bol, number_field ''RISCC_COREMARK ticks_hi='', number_field '' ticks_lo='',
     number_field '' iterations='', number_field '' hz='', number_field '' short='', number_field '' errors='', Eol]"

definition crc_re :: "string \<Rightarrow> regex" where
  "crc_re name = cats [Bol, Opt (lit ''[0]''), lit name, spaces, lit '':'', spaces, lit ''0x'', Cap (many1 is_hex), spaces, Eol]"

definition final_crc_re :: regex where
  "final_crc_re = cats [Bol, lit ''[0]crcfinal'', spaces, lit '':'', spaces, lit ''0x'', many1 is_hex, spaces, Eol]"

definition iterations_re :: "int \<Rightarrow> regex" where
  "iterations_re iterations = cats [Bol, lit ''Iterations'', spaces, lit '':'', spaces, lit (fmt_d iterations), spaces, Eol]"

datatype coremark_error =
    UpstreamError string
  | BadCrc string "string list" int
  | NoFinalCrc
  | BadIterationCount
  | NoTimingSummary
  | BadTimingSummary
  | TimerStopped
  | DurationDisagrees
  | NotValidated
  | BadConfiguration
  | NoTerminalResult
  | ModifiedSource string
  | ImageTooLarge string
  | JobTimeout string string string
  | JobFailed string string string
  | BadTerminalResult string string
  | ToolFailed "string list"
  | MissingFile string
  | NoCompilerVersion

text \<open>The first line that reports an error other than the short run.\<close>

fun reported_error :: "string list \<Rightarrow> string option" where
  "reported_error [] = None"
| "reported_error (line # ls) =
     (if py_in ''ERROR'' line \<and> line \<noteq> SHORT_WARNING \<or> py_in ''Cannot validate'' line then Some line
      else reported_error ls)"

definition read_crc :: "string \<Rightarrow> string \<times> int \<Rightarrow> (coremark_error, string \<times> string) result" where
  "read_crc output = (\<lambda>(name, expected).
     let found = map hd (re_findall (crc_re name) output) in
     if length found \<noteq> 1 \<or> group_int 16 (hd found) \<noteq> expected then Inl (BadCrc name found expected)
     else Inr (name, ''0x'' @ fmt_0x 4 expected))"

record run_result =
  rr_crcs :: "(string \<times> string) list"
  rr_iterations :: int
  rr_cycles :: int
  rr_per_iteration :: rat
  rr_clock_hz :: int
  rr_seconds :: rat
  rr_compliant :: bool
  rr_score :: "rat option"

text \<open>
  The checks of the timing summary, in order, and the result. \<open>a / b\<close> of two integers is the
  double nearest to the quotient.
\<close>

definition timing_result :: "string \<Rightarrow> string \<Rightarrow> int \<Rightarrow> int \<Rightarrow> (string \<times> string) list \<Rightarrow> int list \<Rightarrow> (coremark_error, run_result) result" where
  "timing_result output mode iterations clock_hz crcs numbers =
     (case numbers of
        [high, low, count, hz, short, errors] \<Rightarrow>
          if count \<noteq> iterations \<or> hz \<noteq> clock_hz \<or> errors \<noteq> 0 \<or> 2 ^ 32 \<le> high \<or> 2 ^ 32 \<le> low then Inl BadTimingSummary
          else
            let cycles = push_bit 32 high OR low; compliant = (10 * clock_hz \<le> cycles) in
            if cycles \<le> 0 then Inl TimerStopped
            else if short \<noteq> of_bool (\<not> compliant) \<or> py_in SHORT_WARNING output \<noteq> (short \<noteq> 0) then Inl DurationDisagrees
            else if compliant \<and> \<not> py_in ''Correct operation validated.'' output then Inl NotValidated
            else Inr \<lparr>rr_crcs = crcs, rr_iterations = iterations, rr_cycles = cycles,
              rr_per_iteration = fl (of_int cycles / of_int iterations), rr_clock_hz = clock_hz,
              rr_seconds = fl (of_int cycles / of_int clock_hz), rr_compliant = compliant,
              rr_score = (if compliant \<and> mode = ''performance'' then Some (fl (of_int (iterations * 1000000) / of_int cycles)) else None)\<rparr>
      | _ \<Rightarrow> Inl NoTimingSummary)"

definition parse_output :: "string \<Rightarrow> string \<Rightarrow> int \<Rightarrow> int \<Rightarrow> (coremark_error, run_result) result" where
  "parse_output output mode iterations clock_hz =
     (case reported_error (splitlines output) of
        Some line \<Rightarrow> Inl (UpstreamError line)
      | None \<Rightarrow>
          bindE (mapE (read_crc output) (the (map_of CRCS mode))) (\<lambda>crcs.
          if re_search final_crc_re output = None then Inl NoFinalCrc
          else if re_search (iterations_re iterations) output = None then Inl BadIterationCount
          else
            let found = re_findall TICKS_RE output in
            if length found \<noteq> 1 then Inl NoTimingSummary
            else timing_result output mode iterations clock_hz crcs (map (group_int 10) (hd found))))"

text \<open>\<open>name=PATH\<close> of an RTL core.\<close>

definition parse_rtl_core :: "(string \<Rightarrow> string) \<Rightarrow> string \<Rightarrow> (string \<times> string) option" where
  "parse_rtl_core resolve v =
     (let name = takeWhile (\<lambda>c. c \<noteq> CHR ''='') v; path = drop (length name + 1) v in
      if CHR ''='' \<notin> set v \<or> name \<notin> {''sram'', ''cached''} \<or> path = [] then None else Some (name, resolve path))"

definition CONFIG_RE :: regex where
  "CONFIG_RE = cats [Bol, number_field ''COREMARK_CONFIG cached='', number_field '' btb_entries='', Eol]"

definition done_re :: "bool \<Rightarrow> regex" where
  "done_re cached = cats [Bol, lit (''COREMARK_DONE cached='' @ fmt_d (of_bool cached) @ '' cycles=''), many1 is_digit, Eol]"

text \<open>Of an RTL run; the report notes its 32 BTB entries.\<close>

definition parse_rtl_output :: "string \<Rightarrow> string \<Rightarrow> int \<Rightarrow> int \<Rightarrow> bool \<Rightarrow> (coremark_error, run_result) result" where
  "parse_rtl_output output mode iterations clock_hz cached =
     (if re_findall CONFIG_RE output \<noteq> [[fmt_d (of_bool cached), ''32'']] then Inl BadConfiguration
      else if re_search (done_re cached) output = None then Inl NoTerminalResult
      else parse_output output mode iterations clock_hz)"

section \<open>Jobs\<close>

datatype sim_end = Completed int string | TimedOut string

record coremark_world =
  cw_read :: "string \<Rightarrow> int list option"
  cw_sha256 :: "int list \<Rightarrow> string"
  cw_tool :: "string list \<Rightarrow> string option"
  cw_sim :: "string list \<Rightarrow> sim_end"
  cw_resolve :: "string \<Rightarrow> string"

record coremark_args =
  ca_root :: string
  ca_build_dir :: string
  ca_compiler :: string
  ca_size_tool :: string
  ca_iterations :: int
  ca_clock_hz :: int
  ca_iss :: "string option"
  ca_rtl :: "(string \<times> string) list"
  ca_max_insns :: int
  ca_max_cycles :: int
  ca_cycle_base :: int

fun check_sources :: "coremark_world \<Rightarrow> string \<Rightarrow> (string \<times> string) list \<Rightarrow> (coremark_error, unit) result" where
  "check_sources W source [] = Inr ()"
| "check_sources W source ((name, expected) # files) =
     (case cw_read W (path_join source name) of
        None \<Rightarrow> Inl (MissingFile name)
      | Some data \<Rightarrow>
          if cw_sha256 W data \<noteq> expected then Inl (ModifiedSource name) else check_sources W source files)"

definition sections_re :: regex where
  "sections_re = cats [Bol, Cap (Cat (lit ''.'') (many1 (\<lambda>c. \<not> py_space c))), many1 py_space, Cap (many1 is_digit),
     many1 py_space, many1 is_digit, Eol]"

definition size_sections :: "string \<Rightarrow> (string \<times> int) list" where
  "size_sections sizes = map (\<lambda>g. (hd g, group_int 10 (g ! 1))) (re_findall sections_re sizes)"

definition ISS_PASS_RE :: regex where
  "ISS_PASS_RE = cats [lit_i ''result=0x600d:'', many1 py_space, lit_i ''PASS'']"

definition workload_path :: "coremark_args \<Rightarrow> string \<Rightarrow> string \<Rightarrow> string" where
  "workload_path a mode file = path_join (path_join (ca_build_dir a) mode) file"

definition jobs :: "coremark_world \<Rightarrow> coremark_args \<Rightarrow> string \<Rightarrow> (string \<times> string list) list" where
  "jobs W a mode =
     (case ca_iss a of
        Some iss \<Rightarrow> [(''iss'', [cw_resolve W iss, cw_resolve W (workload_path a mode ''coremark.bin''),
          ''--rc32-full'', ''--max-insns'', fmt_d (ca_max_insns a)])]
      | None \<Rightarrow> []) @
     map (\<lambda>(name, binary). (name, [binary, ''+IMAGE='' @ cw_resolve W (workload_path a mode ''coremark.memh''),
       ''+MAX_CYCLES='' @ fmt_d (ca_max_cycles a), ''+CYCLE_BASE='' @ fmt_d (ca_cycle_base a)])) (ca_rtl a)"

text \<open>What a run contributes to the report; an ISS run has no timing.\<close>

record run_entry =
  re_mode :: string
  re_core :: string
  re_bytes :: nat
  re_sections :: "(string \<times> int) list"
  re_timing :: "run_result option"

type_synonym texts = "string \<rightharpoonup> string"

definition job_log :: "coremark_args \<Rightarrow> string \<Rightarrow> string \<Rightarrow> string" where
  "job_log a mode name = path_join (ca_build_dir a) (mode @ ''-'' @ name @ ''.log'')"

text \<open>The verdict on a job that ended.\<close>

definition judge :: "coremark_args \<Rightarrow> string \<Rightarrow> string \<Rightarrow> int \<Rightarrow> string \<Rightarrow> (coremark_error, run_result option) result" where
  "judge a mode name returncode output =
     (if returncode \<noteq> 0 then Inl (JobFailed mode name (job_log a mode name))
      else if name = ''iss'' then
        if re_search ISS_PASS_RE output = None then Inl (BadTerminalResult mode (job_log a mode name)) else Inr None
      else bindE (parse_rtl_output output mode (ca_iterations a) (ca_clock_hz a) (name = ''cached'')) (\<lambda>r. Inr (Some r)))"

definition run_job ::
  "coremark_world \<Rightarrow> coremark_args \<Rightarrow> string \<Rightarrow> string \<times> string list \<Rightarrow> texts \<Rightarrow> (coremark_error, run_result option) result \<times> texts"
where
  "run_job W a mode = (\<lambda>(name, command) files.
     case cw_sim W command of
       TimedOut partial \<Rightarrow>
         (Inl (JobTimeout mode name (job_log a mode name)),
          files(job_log a mode name \<mapsto> partial @ ''\<newline>CoreMark simulator timed out\<newline>''))
     | Completed returncode output \<Rightarrow>
         (judge a mode name returncode output, files(job_log a mode name \<mapsto> output)))"

fun run_jobs ::
  "coremark_world \<Rightarrow> coremark_args \<Rightarrow> string \<Rightarrow> nat \<Rightarrow> (string \<times> int) list \<Rightarrow> (string \<times> string list) list \<Rightarrow> texts \<Rightarrow>
   (coremark_error, run_entry list) result \<times> texts"
where
  "run_jobs W a mode bytes sections [] files = (Inr [], files)"
| "run_jobs W a mode bytes sections (job # js) files =
     (case run_job W a mode job files of
        (Inl e, files1) \<Rightarrow> (Inl e, files1)
      | (Inr timing, files1) \<Rightarrow>
          (case run_jobs W a mode bytes sections js files1 of
             (Inl e, files2) \<Rightarrow> (Inl e, files2)
           | (Inr entries, files2) \<Rightarrow>
               (Inr (\<lparr>re_mode = mode, re_core = fst job, re_bytes = bytes, re_sections = sections, re_timing = timing\<rparr> # entries),
                files2)))"

text \<open>A workload: its image is checked and converted, then its jobs run.\<close>

definition run_workload ::
  "coremark_world \<Rightarrow> coremark_args \<Rightarrow> string \<Rightarrow> texts \<Rightarrow> (coremark_error, run_entry list) result \<times> texts"
where
  "run_workload W a mode files =
     (let image = workload_path a mode ''coremark.bin'' in
      case cw_read W image of
        None \<Rightarrow> (Inl (MissingFile image), files)
      | Some data \<Rightarrow>
          if 0xfff0 < int (length data) then (Inl (ImageTooLarge image), files)
          else
            let files1 = files(workload_path a mode ''coremark.memh'' \<mapsto> memh_text Memh 16 (memh_image data 2));
                size_command = [ca_size_tool a, ''-A'', workload_path a mode ''coremark.elf''] in
            (case cw_tool W size_command of
               None \<Rightarrow> (Inl (ToolFailed size_command), files1)
             | Some sizes \<Rightarrow> run_jobs W a mode (length data) (size_sections sizes) (jobs W a mode) files1))"

fun run_workloads ::
  "coremark_world \<Rightarrow> coremark_args \<Rightarrow> string list \<Rightarrow> texts \<Rightarrow> (coremark_error, run_entry list) result \<times> texts"
where
  "run_workloads W a [] files = (Inr [], files)"
| "run_workloads W a (mode # modes) files =
     (case run_workload W a mode files of
        (Inl e, files1) \<Rightarrow> (Inl e, files1)
      | (Inr entries, files1) \<Rightarrow>
          (case run_workloads W a modes files1 of
             (Inl e, files2) \<Rightarrow> (Inl e, files2)
           | (Inr es, files2) \<Rightarrow> (Inr (entries @ es), files2)))"

section \<open>The report\<close>

record coremark_report =
  rp_commit :: string
  rp_compiler :: string
  rp_sources :: "(string \<times> string) list"
  rp_runs :: "run_entry list"

definition REPORTED_SOURCES :: "string list" where
  "REPORTED_SOURCES = [''rtl/riscc_cached.v'', ''rtl/riscc_pipeline_shared.v'', ''rtl/riscc_rf.vh'',
     ''test/riscc_coremark_tb.v'', ''test/compiler/coremark/core_portme.c'', ''test/compiler/coremark/core_portme.h'',
     ''test/compiler/coremark/link.ld'']"

definition source_hash :: "coremark_world \<Rightarrow> coremark_args \<Rightarrow> string \<Rightarrow> (coremark_error, string \<times> string) result" where
  "source_hash W a name =
     (case cw_read W (path_join (ca_root a) name) of
        None \<Rightarrow> Inl (MissingFile name)
      | Some data \<Rightarrow> Inr (name, cw_sha256 W data))"

definition run_coremark ::
  "coremark_world \<Rightarrow> coremark_args \<Rightarrow> manifest \<Rightarrow> texts \<Rightarrow> (coremark_error, coremark_report) result \<times> texts"
where
  "run_coremark W a m files =
     (case bindE (check_sources W (path_join (ca_root a) ''external/coremark'') (mf_files m)) (\<lambda>_.
        case cw_tool W [ca_compiler a, ''--version''] of
          None \<Rightarrow> Inl (ToolFailed [ca_compiler a, ''--version''])
        | Some s \<Rightarrow>
            if splitlines s = [] then Inl NoCompilerVersion
            else bindE (mapE (source_hash W a) REPORTED_SOURCES) (\<lambda>hashes. Inr (hd (splitlines s), hashes))) of
        Inl e \<Rightarrow> (Inl e, files)
      | Inr (compiler, hashes) \<Rightarrow>
          (case run_workloads W a (map fst CRCS) files of
             (Inl e, files1) \<Rightarrow> (Inl e, files1)
           | (Inr entries, files1) \<Rightarrow>
               (Inr \<lparr>rp_commit = mf_commit m, rp_compiler = compiler, rp_sources = hashes, rp_runs = entries\<rparr>, files1)))"

text \<open>
  What \<open>main\<close> leaves in the output file, and how it ends. An \<open>IndexError\<close> is not among the
  exceptions it catches.
\<close>

datatype output_doc = Passed coremark_report | Failed coremark_error

datatype ending = Exit int | Usage | Uncaught coremark_error

definition caught :: "coremark_error \<Rightarrow> bool" where
  "caught e \<longleftrightarrow> e \<noteq> NoCompilerVersion"

definition coremark_main ::
  "coremark_world \<Rightarrow> coremark_args \<Rightarrow> manifest \<Rightarrow> texts \<Rightarrow> output_doc option \<Rightarrow> ending \<times> output_doc option \<times> texts"
where
  "coremark_main W a m files old =
     (if ca_iss a = None \<and> ca_rtl a = [] \<or> ca_iterations a \<le> 0 \<or> ca_clock_hz a \<le> 0 then (Usage, old, files)
      else case run_coremark W a m files of
        (Inr r, files1) \<Rightarrow> (Exit 0, Some (Passed r), files1)
      | (Inl e, files1) \<Rightarrow>
          if caught e then (Exit 1, Some (Failed e), files1) else (Uncaught e, old, files1))"

section \<open>The exit status\<close>

definition sources_ok :: "coremark_world \<Rightarrow> string \<Rightarrow> (string \<times> string) list \<Rightarrow> bool" where
  "sources_ok W source files \<longleftrightarrow>
     (\<forall>(name, expected) \<in> set files. \<exists>data. cw_read W (path_join source name) = Some data \<and> cw_sha256 W data = expected)"

definition job_ok :: "coremark_world \<Rightarrow> coremark_args \<Rightarrow> string \<Rightarrow> string \<times> string list \<Rightarrow> bool" where
  "job_ok W a mode job \<longleftrightarrow>
     (\<exists>output. cw_sim W (snd job) = Completed 0 output \<and>
        (if fst job = ''iss'' then re_search ISS_PASS_RE output \<noteq> None
         else \<exists>r. parse_rtl_output output mode (ca_iterations a) (ca_clock_hz a) (fst job = ''cached'') = Inr r))"

definition workload_ok :: "coremark_world \<Rightarrow> coremark_args \<Rightarrow> string \<Rightarrow> bool" where
  "workload_ok W a mode \<longleftrightarrow>
     (\<exists>data. cw_read W (workload_path a mode ''coremark.bin'') = Some data \<and> int (length data) \<le> 0xfff0) \<and>
     cw_tool W [ca_size_tool a, ''-A'', workload_path a mode ''coremark.elf''] \<noteq> None \<and>
     (\<forall>job \<in> set (jobs W a mode). job_ok W a mode job)"

lemma check_sources_iff: "check_sources W source files = Inr () \<longleftrightarrow> sources_ok W source files"
  by (induction files) (auto simp: sources_ok_def split: option.splits if_splits)

lemma run_job_iff: "(\<exists>r files'. run_job W a mode job files = (Inr r, files')) \<longleftrightarrow> job_ok W a mode job"
  by (cases job) (auto simp: run_job_def job_ok_def judge_def bindE_Inr_iff split: sim_end.splits)

lemma run_jobs_iff:
  "(\<exists>es files'. run_jobs W a mode n secs js files = (Inr es, files')) \<longleftrightarrow> (\<forall>job \<in> set js. job_ok W a mode job)"
proof (induction js arbitrary: files)
  case (Cons job js)
  obtain r files1 where job: "run_job W a mode job files = (r, files1)" by fastforce
  obtain rs files2 where rest: "run_jobs W a mode n secs js files1 = (rs, files2)" by fastforce
  show ?case
    using run_job_iff [of W a mode job files] Cons.IH [of files1] job rest
    by (cases r; cases rs) auto
qed simp

lemma run_workload_iff:
  "(\<exists>es files'. run_workload W a mode files = (Inr es, files')) \<longleftrightarrow> workload_ok W a mode"
proof (cases "cw_read W (workload_path a mode ''coremark.bin'')")
  case (Some data)
  show ?thesis
    by (cases "cw_tool W [ca_size_tool a, ''-A'', workload_path a mode ''coremark.elf'']")
      (auto simp: run_workload_def workload_ok_def Some Let_def run_jobs_iff)
qed (simp add: run_workload_def workload_ok_def)

lemma run_workloads_iff:
  "(\<exists>es files'. run_workloads W a modes files = (Inr es, files')) \<longleftrightarrow> (\<forall>mode \<in> set modes. workload_ok W a mode)"
proof (induction modes arbitrary: files)
  case (Cons mode modes)
  obtain r files1 where one: "run_workload W a mode files = (r, files1)" by fastforce
  obtain rs files2 where rest: "run_workloads W a modes files1 = (rs, files2)" by fastforce
  show ?case
    using run_workload_iff [of W a mode files] Cons.IH [of files1] one rest
    by (cases r; cases rs) auto
qed simp

lemma source_hashes_iff:
  "(\<exists>hs. mapE (source_hash W a) names = Inr hs) \<longleftrightarrow> (\<forall>name \<in> set names. cw_read W (path_join (ca_root a) name) \<noteq> None)"
  by (induction names) (auto simp: bindE_Inr_iff source_hash_def split: option.split)

lemma run_coremark_iff:
  "(\<exists>r files'. run_coremark W a m files = (Inr r, files')) \<longleftrightarrow>
     sources_ok W (path_join (ca_root a) ''external/coremark'') (mf_files m) \<and>
     (\<exists>s. cw_tool W [ca_compiler a, ''--version''] = Some s \<and> splitlines s \<noteq> []) \<and>
     (\<forall>name \<in> set REPORTED_SOURCES. cw_read W (path_join (ca_root a) name) \<noteq> None) \<and>
     (\<forall>mode \<in> set (map fst CRCS). workload_ok W a mode)"
  (is "_ \<longleftrightarrow> ?sources \<and> ?tool \<and> ?hashes \<and> ?runs")
proof -
  let ?head = "bindE (check_sources W (path_join (ca_root a) ''external/coremark'') (mf_files m)) (\<lambda>_.
      case cw_tool W [ca_compiler a, ''--version''] of
        None \<Rightarrow> Inl (ToolFailed [ca_compiler a, ''--version''])
      | Some s \<Rightarrow>
          if splitlines s = [] then Inl NoCompilerVersion
          else bindE (mapE (source_hash W a) REPORTED_SOURCES) (\<lambda>hashes. Inr (hd (splitlines s), hashes)))"
  have head: "(\<exists>x. ?head = Inr x) \<longleftrightarrow> ?sources \<and> ?tool \<and> ?hashes"
    unfolding source_hashes_iff [symmetric] check_sources_iff [symmetric]
    by (auto simp: bindE_Inr_iff split: option.splits)
  obtain rs files1 where runs: "run_workloads W a (map fst CRCS) files = (rs, files1)" by fastforce
  show ?thesis
    using head run_workloads_iff [of W a "map fst CRCS" files] runs
    by (cases ?head; cases rs) (auto simp: run_coremark_def)
qed

lemma run_coremark_uncaught:
  assumes "run_coremark W a m files = (Inl e, files')" "caught e"
    "cw_tool W [ca_compiler a, ''--version''] = Some s"
    "sources_ok W (path_join (ca_root a) ''external/coremark'') (mf_files m)"
  shows "splitlines s \<noteq> []"
  using assms check_sources_iff [of W "path_join (ca_root a) ''external/coremark''" "mf_files m"]
  by (auto simp: run_coremark_def bindE_def caught_def)

text \<open>
  C35. A CoreMark run exits with status 0 exactly when the upstream sources are unchanged, the
  files the report names are there, both workloads' images fit and were measured, and every job
  ended with status 0 and an output that is accepted; the output file then holds the passing
  report. Whenever the script exits by itself with a failure, the output file says so, so no
  earlier passing report is left in place.
\<close>

theorem coremark_exit_status:
  assumes "coremark_main W a m files old = (Exit code, doc, files')"
  shows "(code = 0 \<longleftrightarrow>
      sources_ok W (path_join (ca_root a) ''external/coremark'') (mf_files m) \<and>
      cw_tool W [ca_compiler a, ''--version''] \<noteq> None \<and>
      (\<forall>name \<in> set REPORTED_SOURCES. cw_read W (path_join (ca_root a) name) \<noteq> None) \<and>
      workload_ok W a ''performance'' \<and> workload_ok W a ''validation'') \<and>
    (if code = 0 then \<exists>r. doc = Some (Passed r) else \<exists>e. doc = Some (Failed e))"
proof -
  have modes: "set (map fst CRCS) = {''performance'', ''validation''}" by (simp add: CRCS_def)
  obtain res files1 where run: "run_coremark W a m files = (res, files1)" by fastforce
  show ?thesis
  proof (cases res)
    case (Inl e)
    then have main: "caught e" "code = 1" "doc = Some (Failed e)"
      using assms run by (auto simp: coremark_main_def split: if_splits)
    have "\<not> (\<exists>r files'. run_coremark W a m files = (Inr r, files'))" using run Inl by simp
    then show ?thesis
      using main run_coremark_uncaught [of W a m files e files1] run Inl
      unfolding run_coremark_iff modes by auto
  next
    case (Inr r)
    then have main: "code = 0" "doc = Some (Passed r)"
      using assms run by (auto simp: coremark_main_def split: if_splits)
    have "\<exists>r files'. run_coremark W a m files = (Inr r, files')" using run Inr by blast
    then show ?thesis using main unfolding run_coremark_iff modes by auto
  qed
qed

text \<open>A run on the instruction-set simulator.\<close>

definition iss_args :: coremark_args where
  "iss_args = \<lparr>ca_root = ''r'', ca_build_dir = ''b'', ca_compiler = ''cc'', ca_size_tool = ''size'', ca_iterations = 1,
     ca_clock_hz = 1, ca_iss = Some ''iss'', ca_rtl = [], ca_max_insns = 5, ca_max_cycles = 5, ca_cycle_base = 0\<rparr>"

definition iss_world :: coremark_world where
  "iss_world = \<lparr>cw_read = (\<lambda>_. Some []), cw_sha256 = (\<lambda>_. ''0''), cw_tool = (\<lambda>_. Some ''clang''),
     cw_sim = (\<lambda>_. Completed 0 ''result=0x600D: PASS''), cw_resolve = (\<lambda>p. p)\<rparr>"

lemma iss_run:
  "fst (coremark_main iss_world iss_args \<lparr>mf_files = [(''a.c'', ''0'')], mf_commit = ''c'', mf_sha256 = [], mf_url = []\<rparr>
      Map.empty None) = Exit 0"
  by code_simp

theorem coremark_exit_status_witness:
  "workload_ok iss_world iss_args ''performance'' \<and> workload_ok iss_world iss_args ''validation'' \<and>
   sources_ok iss_world ''r/external/coremark'' [(''a.c'', ''0'')]"
proof -
  obtain doc files where "coremark_main iss_world iss_args \<lparr>mf_files = [(''a.c'', ''0'')], mf_commit = ''c'', mf_sha256 = [], mf_url = []\<rparr>
      Map.empty None = (Exit 0, doc, files)"
    using iss_run by (metis prod.collapse)
  from coremark_exit_status [OF this] show ?thesis by (simp add: iss_args_def path_join_def)
qed

end
