(* ===== verification/CoremarkOutput.thy ===== *)
theory CoremarkOutput
  imports CoremarkRun
begin

text \<open>
  What a CoreMark run prints (the port's summary, and the lines around it as
  \<open>tools/test_coremark.py\<close> writes them), and the proof that \<open>parse_output\<close> accepts it with the
  measured cycles, iterations and score.
\<close>

section \<open>The printed output\<close>

definition crc_line :: "string \<times> int \<Rightarrow> string" where
  "crc_line = (\<lambda>(name, v). (if name = ''seedcrc'' then name else ''[0]'' @ name) @ '' : 0x'' @ fmt_0x 4 v)"

definition summary :: "int \<Rightarrow> int \<Rightarrow> int \<Rightarrow> string" where
  "summary cycles iterations hz =
     ''RISCC_COREMARK ticks_hi='' @ fmt_d (drop_bit 32 cycles) @ '' ticks_lo='' @ fmt_d (cycles AND 0xffffffff) @
     '' iterations='' @ fmt_d iterations @ '' hz='' @ fmt_d hz @
     '' short='' @ fmt_d (of_bool (cycles < 10 * hz)) @ '' errors='' @ fmt_d 0"

definition coremark_lines :: "string \<Rightarrow> int \<Rightarrow> int \<Rightarrow> int \<Rightarrow> int \<Rightarrow> string list" where
  "coremark_lines mode final cycles iterations hz =
     map crc_line (the (map_of CRCS mode)) @
     [''[0]crcfinal : 0x'' @ fmt_0x 4 final, ''Iterations : '' @ fmt_d iterations] @
     (if cycles < 10 * hz then [SHORT_WARNING, ''Errors detected'']
      else [''Correct operation validated. See README.md for run and reporting rules.'']) @
     [summary cycles iterations hz]"

definition coremark_output :: "string \<Rightarrow> int \<Rightarrow> int \<Rightarrow> int \<Rightarrow> int \<Rightarrow> string" where
  "coremark_output mode final cycles iterations hz = unlines (coremark_lines mode final cycles iterations hz)"

section \<open>Matching its lines\<close>

lemma re_first_Cat_lit:
  "re_first (Cat (lit p) r) (b, s) =
     (if startswith s p then re_first r (if p = [] then b else Some (last p), drop (length p) s) else None)"
proof -
  have "concat (map (\<lambda>(s1, g1). map (\<lambda>(s2, g2). (s2, g1 @ g2)) (re_alts r s1)) [(s', [])]) = re_alts r s'" for s'
    by (simp add: case_prod_beta)
  then show ?thesis by (simp add: re_first_def re_alts_lit)
qed

lemma concat_pairs: "concat (map (\<lambda>(x, y). [(x, y)]) ps) = ps"
  by (induction ps) auto

lemma re_first_Cat_Empty: "re_first (Cat r Empty) s = re_first r s"
  using concat_pairs [of "re_alts r s"] by (simp add: re_first_def)

lemma re_first_spaces:
  assumes "list_all py_space xs" "s = [] \<or> \<not> py_space (hd s)"
    "re_first r (if xs = [] then b else Some (last xs), s) = Some m"
  shows "re_first (Cat spaces r) (b, xs @ s) = Some m"
  using re_first_Cat [OF re_first_Star [OF assms(1,2)]] assms(3) by (cases m) (simp add: spaces_def)

lemma re_first_group:
  assumes "list_all p ds" "ds \<noteq> []" "s = [] \<or> \<not> p (hd s)" "re_first r (Some (last ds), s) = Some (e, g)"
  shows "re_first (Cat (Cap (many1 p)) r) (b, ds @ s) = Some (e, ds # g)"
  using re_first_Cat [OF re_first_Cap [OF re_first_many1 [OF assms(1-3)]] assms(4)] by simp

lemma re_first_number:
  assumes "list_all is_digit ds" "ds \<noteq> []" "s = [] \<or> \<not> is_digit (hd s)" "name \<noteq> []"
    "re_first r (Some (last ds), s) = Some (e, g)"
  shows "re_first (Cat (number_field name) r) (b, name @ ds @ s) = Some (e, ds # g)"
proof -
  have "re_first (number_field name) (b, name @ ds @ s) = Some ((Some (last ds), s), [ds])"
    using re_first_Cap [OF re_first_many1 [OF assms(1-3)]] assms(4)
    by (simp add: number_field_def re_first_Cat_lit)
  then show ?thesis using re_first_Cat [OF _ assms(5)] by simp
qed

lemma line_match_none:
  "(\<And>b s. re_first r (b, l @ CHR 0x0A # s) = None) \<Longrightarrow> line_match (Cat Bol r) l None"
  by (simp add: line_match_def re_first_anchored)

lemma line_match_some:
  assumes "\<And>b s. s = [] \<or> \<not> py_space (hd s) \<Longrightarrow>
      \<exists>e. re_first r (b, l @ CHR 0x0A # s) = Some (e, g) \<and> (e = (Some CHR 0x0A, s) \<or> (\<exists>c. c \<noteq> CHR 0x0A \<and> e = (Some c, CHR 0x0A # s)))"
  shows "line_match (Cat Bol r) l (Some g)"
  unfolding line_match_def option.case
  using assms by (auto simp: re_first_anchored)

text \<open>A cyclic redundancy check.\<close>

lemma crc_re_parts:
  "crc_re name = Cat Bol (Cat (Opt (lit ''[0]'')) (Cat (lit name) (Cat spaces (Cat (lit '':'') (Cat spaces (Cat (lit ''0x'')
     (Cat (Cap (many1 is_hex)) (cats [spaces, Eol]))))))))"
  by (simp add: crc_re_def)

lemma opt_then_lit:
  assumes "\<not> startswith s (p @ q)" "\<not> startswith s q"
  shows "re_first (Cat (Opt (lit p)) (Cat (lit q) r)) (b, s) = None"
proof -
  have q: "re_alts (Cat (lit q) r) (b', s') = []" if "\<not> startswith s' q" for b' s'
    by (rule iffD1 [OF re_first_None]) (simp only: re_first_Cat_lit that if_False)
  have "\<not> startswith (drop (length p) s) q" if "startswith s p"
    using that assms(1) by (simp add: startswith_def) (metis append_take_drop_id take_add)
  then show ?thesis
    using q assms(2) by (simp add: re_first_None re_alts_lit re_alts.simps(5) [of "Opt (lit p)"] del: re_alts.simps(5))
qed

lemma re_first_colon:
  assumes "re_first r (Some CHR '' '', s) = Some m" "s \<noteq> []" "\<not> py_space (hd s)"
  shows "re_first (Cat spaces (Cat (lit '':'') (Cat spaces r))) (b, '' : '' @ s) = Some m"
proof -
  have colon: "\<not> py_space CHR '':''" "py_space CHR '' ''" by (simp_all add: py_space_def ccode_def)
  have "re_first (Cat spaces r) (Some CHR '':'', '' '' @ s) = Some m"
    by (rule re_first_spaces) (use assms colon in simp_all)
  then have "re_first (Cat (lit '':'') (Cat spaces r)) (Some CHR '' '', '': '' @ s) = Some m"
    by (simp add: re_first_Cat_lit startswith_def)
  then have "re_first (Cat spaces (Cat (lit '':'') (Cat spaces r))) (b, '' '' @ '': '' @ s) = Some m"
    by (intro re_first_spaces) (simp_all add: colon)
  then show ?thesis by simp
qed

lemma line_crc:
  assumes "name \<noteq> []" "\<not> startswith name ''[''" "pre = [] \<or> pre = ''[0]''" "list_all is_hex ds" "ds \<noteq> []"
  shows "line_match (crc_re name) (pre @ name @ '' : 0x'' @ ds) (Some [ds])"
proof -
  let ?eol = "cats [spaces, Eol]"
  have last: "last ds \<noteq> CHR 0x0A" using assms(4,5) is_hex_plain(3) by (metis last_in_set list_all_iff)
  have colon: "\<not> py_space CHR '':''" "\<not> py_space CHR ''0''" "py_space CHR '' ''" by (simp_all add: py_space_def ccode_def)
  show ?thesis unfolding crc_re_parts
  proof (rule line_match_some)
    fix b s assume s: "s = [] \<or> \<not> py_space (hd (s :: string))"
    obtain e where e: "re_first ?eol (Some (last ds), CHR 0x0A # s) = Some (e, [])"
        "e = (Some CHR 0x0A, s) \<or> e = (Some (last ds), CHR 0x0A # s)"
      using re_first_line_end [OF last s] by blast
    have "re_first (Cat (Cap (many1 is_hex)) ?eol) (Some CHR ''x'', ds @ CHR 0x0A # s) = Some (e, [ds])"
      by (rule re_first_group [OF assms(4,5)]) (use e(1) is_hex_plain(3) in auto)
    then have "re_first (Cat (lit ''0x'') (Cat (Cap (many1 is_hex)) ?eol)) (Some CHR '' '', ''0x'' @ ds @ CHR 0x0A # s) = Some (e, [ds])"
      by (simp add: re_first_Cat_lit startswith_def)
    then have "re_first (Cat spaces (Cat (lit '':'') (Cat spaces (Cat (lit ''0x'') (Cat (Cap (many1 is_hex)) ?eol))))) (Some (last name), '' : '' @ ''0x'' @ ds @ CHR 0x0A # s) = Some (e, [ds])"
      by (rule re_first_colon) (simp_all add: colon)
    then have named: "re_first (Cat (lit name) (Cat spaces (Cat (lit '':'') (Cat spaces (Cat (lit ''0x'') (Cat (Cap (many1 is_hex)) ?eol)))))) (b', name @ '' : 0x'' @ ds @ CHR 0x0A # s) = Some (e, [ds])" for b'
      using assms(1) by (simp add: re_first_Cat_lit)
    have "re_first (Cat (Opt (lit ''[0]'')) r) (b, pre @ name @ t) = Some (e, g)"
      if "\<And>b. re_first r (b, name @ t) = Some (e, g)" for r t g
    proof (rule re_first_Cat [where ?g1.0 = "[]", simplified])
      show "re_first (Opt (lit ''[0]'')) (b, pre @ name @ t) = Some ((if pre = [] then b else Some CHR '']'', name @ t), [])"
        using assms(1-3) by (cases name) (auto simp: re_first_Opt re_first_lit startswith_def)
    qed (rule that)
    then show "\<exists>e. re_first (Cat (Opt (lit ''[0]'')) (Cat (lit name) (Cat spaces (Cat (lit '':'') (Cat spaces (Cat (lit ''0x'')
          (Cat (Cap (many1 is_hex)) ?eol))))))) (b, (pre @ name @ '' : 0x'' @ ds) @ CHR 0x0A # s) = Some (e, [ds]) \<and>
        (e = (Some CHR 0x0A, s) \<or> (\<exists>c. c \<noteq> CHR 0x0A \<and> e = (Some c, CHR 0x0A # s)))"
      using named e(2) last by fastforce
  qed
qed

lemma startswith_long: "length p \<le> length a \<Longrightarrow> startswith (a @ s) p = startswith a p"
  by (simp add: startswith_def)

text \<open>A line that starts differently.\<close>

definition other_head :: "string \<Rightarrow> string \<Rightarrow> bool" where
  "other_head name h \<longleftrightarrow> length name + 3 \<le> length h \<and> \<not> startswith h name \<and> \<not> startswith h (''[0]'' @ name)"

lemma line_no_crc:
  assumes "other_head name h"
  shows "line_match (crc_re name) (h @ t) None"
  unfolding crc_re_parts
proof (rule line_match_none, rule opt_then_lit)
  fix s
  show "\<not> startswith ((h @ t) @ CHR 0x0A # s) (''[0]'' @ name)" "\<not> startswith ((h @ t) @ CHR 0x0A # s) name"
    using assms startswith_long [of "''[0]'' @ name" h] startswith_long [of name h] by (simp_all add: other_head_def)
qed

text \<open>The timing summary.\<close>

lemma fmt_d_digits: "0 \<le> n \<Longrightarrow> list_all is_digit (fmt_d n)" "fmt_d n \<noteq> []"
  using dec_str_digits by (auto simp: fmt_d_def)

lemma group_int_fmt_d: "0 \<le> n \<Longrightarrow> group_int 10 (fmt_d n) = n"
  using number_of_dec by (simp add: group_int_def fmt_d_def)

lemma line_summary:
  assumes "0 \<le> cycles" "0 \<le> iterations" "0 \<le> hz"
  shows "line_match TICKS_RE (summary cycles iterations hz) (Some [fmt_d (drop_bit 32 cycles), fmt_d (cycles AND 0xffffffff),
    fmt_d iterations, fmt_d hz, fmt_d (of_bool (cycles < 10 * hz)), fmt_d 0])"
proof -
  have parts: "TICKS_RE = Cat Bol (Cat (number_field ''RISCC_COREMARK ticks_hi='') (Cat (number_field '' ticks_lo='')
      (Cat (number_field '' iterations='') (Cat (number_field '' hz='') (Cat (number_field '' short='')
      (Cat (number_field '' errors='') (Cat Eol Empty)))))))" by (simp add: TICKS_RE_def)
  have digits: "list_all is_digit (fmt_d (drop_bit 32 cycles))" "list_all is_digit (fmt_d (cycles AND 0xffffffff))"
      "list_all is_digit (fmt_d iterations)" "list_all is_digit (fmt_d hz)"
      "list_all is_digit (fmt_d (of_bool (cycles < 10 * hz)))" "list_all is_digit (fmt_d 0)"
    using assms by (intro fmt_d_digits(1); simp)+
  have blank: "\<not> is_digit CHR '' ''" "\<not> is_digit CHR 0x0A" by (simp_all add: is_digit_def ccode_def)
  show ?thesis unfolding parts
  proof (rule line_match_some)
    fix b s
    have fin: "re_first (Cat Eol Empty) (Some (last (fmt_d 0)), CHR 0x0A # s) = Some ((Some (last (fmt_d 0)), CHR 0x0A # s), [])"
      by (simp add: re_first_Cat_Empty re_first_Eol)
    have "last (fmt_d 0) \<noteq> CHR 0x0A" by code_simp
    moreover have "re_first (Cat (number_field ''RISCC_COREMARK ticks_hi='') (Cat (number_field '' ticks_lo='')
      (Cat (number_field '' iterations='') (Cat (number_field '' hz='') (Cat (number_field '' short='')
      (Cat (number_field '' errors='') (Cat Eol Empty)))))))
      (b, ''RISCC_COREMARK ticks_hi='' @ fmt_d (drop_bit 32 cycles) @ '' ticks_lo='' @ fmt_d (cycles AND 0xffffffff) @
        '' iterations='' @ fmt_d iterations @ '' hz='' @ fmt_d hz @
        '' short='' @ fmt_d (of_bool (cycles < 10 * hz)) @ '' errors='' @ fmt_d 0 @ CHR 0x0A # s) =
      Some ((Some (last (fmt_d 0)), CHR 0x0A # s), [fmt_d (drop_bit 32 cycles), fmt_d (cycles AND 0xffffffff),
        fmt_d iterations, fmt_d hz, fmt_d (of_bool (cycles < 10 * hz)), fmt_d 0])"
      by (intro re_first_number digits fmt_d_digits(2) fin) (simp_all add: blank)
    ultimately show "\<exists>e. re_first (Cat (number_field ''RISCC_COREMARK ticks_hi='') (Cat (number_field '' ticks_lo='')
        (Cat (number_field '' iterations='') (Cat (number_field '' hz='') (Cat (number_field '' short='')
        (Cat (number_field '' errors='') (Cat Eol Empty))))))) (b, summary cycles iterations hz @ CHR 0x0A # s) =
        Some (e, [fmt_d (drop_bit 32 cycles), fmt_d (cycles AND 0xffffffff),
          fmt_d iterations, fmt_d hz, fmt_d (of_bool (cycles < 10 * hz)), fmt_d 0]) \<and>
        (e = (Some CHR 0x0A, s) \<or> (\<exists>c. c \<noteq> CHR 0x0A \<and> e = (Some c, CHR 0x0A # s)))"
      by (auto simp only: summary_def append_assoc)
  qed
qed

section \<open>Acceptance\<close>

definition crc_names :: "string list" where
  "crc_names = [''seedcrc'', ''crclist'', ''crcmatrix'', ''crcstate'']"

definition crc_head :: "string \<Rightarrow> string" where
  "crc_head name = (if name = ''seedcrc'' then name else ''[0]'' @ name) @ '' : 0x''"

lemma crc_line_head: "crc_line (n, v) = crc_head n @ fmt_0x 4 v"
  by (simp add: crc_line_def crc_head_def)

lemma crc_heads:
  "list_all (\<lambda>n. list_all (\<lambda>n'. n = n' \<or> other_head n (crc_head n')) crc_names \<and>
     list_all (other_head n) [''[0]crcfinal : 0x'', ''Iterations : '', SHORT_WARNING, ''Errors detected'',
       ''Correct operation validated. See README.md for run and reporting rules.'', ''RISCC_COREMARK ticks_hi='']) crc_names"
  by code_simp

lemma crc_line_match:
  assumes "n \<in> set crc_names" "n' \<in> set crc_names" "0 \<le> v"
  shows "line_match (crc_re n) (crc_line (n', v)) (if n = n' then Some [fmt_0x 4 v] else None)"
proof (cases "n = n'")
  case True
  show ?thesis
    using line_crc [of n "if n = ''seedcrc'' then [] else ''[0]''" "fmt_0x 4 v"] fmt_0x_digits(1,2) [OF assms(3), of 4] True assms(1)
    by (auto simp: crc_line_def crc_names_def startswith_def)
next
  case False
  then have "other_head n (crc_head n')" using crc_heads assms(1,2) by (auto simp: list_all_iff)
  then show ?thesis using line_no_crc False by (simp add: crc_line_head)
qed

lemma other_lines_match:
  assumes "n \<in> set crc_names"
  shows "line_match (crc_re n) (''[0]crcfinal : 0x'' @ t) None" "line_match (crc_re n) (''Iterations : '' @ t) None"
    "line_match (crc_re n) SHORT_WARNING None" "line_match (crc_re n) ''Errors detected'' None"
    "line_match (crc_re n) ''Correct operation validated. See README.md for run and reporting rules.'' None"
    "line_match (crc_re n) (summary cycles iterations hz) None"
proof -
  have heads: "list_all (other_head n) [''[0]crcfinal : 0x'', ''Iterations : '', SHORT_WARNING, ''Errors detected'',
       ''Correct operation validated. See README.md for run and reporting rules.'', ''RISCC_COREMARK ticks_hi='']"
    using crc_heads assms unfolding list_all_iff by blast
  then have m: "line_match (crc_re n) (h @ t) None" if "h \<in> set [''[0]crcfinal : 0x'', ''Iterations : '', SHORT_WARNING, ''Errors detected'',
       ''Correct operation validated. See README.md for run and reporting rules.'', ''RISCC_COREMARK ticks_hi='']" for h t
    using that line_no_crc unfolding list_all_iff by blast
  show "line_match (crc_re n) (''[0]crcfinal : 0x'' @ t) None" "line_match (crc_re n) (''Iterations : '' @ t) None"
    "line_match (crc_re n) SHORT_WARNING None" "line_match (crc_re n) ''Errors detected'' None"
    "line_match (crc_re n) ''Correct operation validated. See README.md for run and reporting rules.'' None"
    "line_match (crc_re n) (summary cycles iterations hz) None"
    using m [of "''[0]crcfinal : 0x''" t] m [of "''Iterations : ''" t] m [of SHORT_WARNING "[]"]
      m [of "''Errors detected''" "[]"] m [of "''Correct operation validated. See README.md for run and reporting rules.''" "[]"]
      m [of "''RISCC_COREMARK ticks_hi=''"]
    unfolding summary_def by (simp_all only: list.set insert_iff append_Nil2 simp_thms)
qed

lemma CRCS_names:
  assumes "mode \<in> {''performance'', ''validation''}"
  shows "\<exists>v1 v2 v3 v4. the (map_of CRCS mode) = [(''seedcrc'', v1), (''crclist'', v2), (''crcmatrix'', v3), (''crcstate'', v4)] \<and>
    0 \<le> v1 \<and> 0 \<le> v2 \<and> 0 \<le> v3 \<and> 0 \<le> v4"
  using assms by (auto simp: CRCS_def)

definition tail_lines :: "int \<Rightarrow> int \<Rightarrow> int \<Rightarrow> int \<Rightarrow> string list" where
  "tail_lines final cycles iterations hz =
     [''[0]crcfinal : 0x'' @ fmt_0x 4 final, ''Iterations : '' @ fmt_d iterations] @
     (if cycles < 10 * hz then [SHORT_WARNING, ''Errors detected'']
      else [''Correct operation validated. See README.md for run and reporting rules.'']) @
     [summary cycles iterations hz]"

lemma coremark_lines_split:
  "coremark_lines mode final cycles iterations hz = map crc_line (the (map_of CRCS mode)) @ tail_lines final cycles iterations hz"
  by (simp add: coremark_lines_def tail_lines_def)

text \<open>No line holds a line boundary, and none starts with a blank.\<close>

definition inline_char :: "char \<Rightarrow> bool" where
  "inline_char c \<longleftrightarrow> \<not> line_end c \<and> c \<noteq> CHR 0x0A"

definition plain_line :: "string \<Rightarrow> bool" where
  "plain_line l \<longleftrightarrow> l \<noteq> [] \<and> \<not> py_space (hd l) \<and> list_all inline_char l"

lemma plain_text_line: "plain_line l \<Longrightarrow> text_line l \<and> list_all (\<lambda>c. \<not> line_end c) l"
  by (auto simp: plain_line_def text_line_def inline_char_def list_all_iff)

lemma plain_line_append: "plain_line h \<Longrightarrow> list_all inline_char t \<Longrightarrow> plain_line (h @ t)"
  by (auto simp: plain_line_def)

lemma plain_hex: "0 \<le> v \<Longrightarrow> list_all inline_char (fmt_0x 4 v)"
  using fmt_0x_digits(2) is_hex_plain(2,3) by (force simp: list_all_iff inline_char_def)

lemma plain_dec: "0 \<le> v \<Longrightarrow> list_all inline_char (fmt_d v)"
  using fmt_d_digits(1) by (force simp: list_all_iff inline_char_def is_digit_def line_end_def ccode_def)

lemma plain_heads:
  "list_all (\<lambda>n. plain_line (crc_head n)) crc_names"
  "list_all plain_line [''[0]crcfinal : 0x'', ''Iterations : '', SHORT_WARNING, ''Errors detected'',
     ''Correct operation validated. See README.md for run and reporting rules.'', ''RISCC_COREMARK ticks_hi='']"
  "list_all (list_all inline_char) ['' ticks_lo='', '' iterations='', '' hz='', '' short='', '' errors='']"
  by code_simp+

lemma coremark_plain_lines:
  assumes "mode \<in> {''performance'', ''validation''}" "0 \<le> final" "0 \<le> cycles" "0 \<le> iterations" "0 \<le> hz"
  shows "list_all plain_line (coremark_lines mode final cycles iterations hz)"
proof -
  obtain v1 v2 v3 v4 where crcs: "the (map_of CRCS mode) = [(''seedcrc'', v1), (''crclist'', v2), (''crcmatrix'', v3), (''crcstate'', v4)]"
    and v: "0 \<le> v1" "0 \<le> v2" "0 \<le> v3" "0 \<le> v4"
    using CRCS_names [OF assms(1)] by blast
  have heads: "plain_line (crc_head ''seedcrc'')" "plain_line (crc_head ''crclist'')" "plain_line (crc_head ''crcmatrix'')"
      "plain_line (crc_head ''crcstate'')"
    using plain_heads(1) by (simp_all only: crc_names_def list.pred_inject)
  have crc: "list_all plain_line (map crc_line (the (map_of CRCS mode)))"
    unfolding crcs by (simp only: list.map crc_line_head list.pred_inject simp_thms plain_line_append [OF _ plain_hex] heads v)
  have lines: "plain_line ''[0]crcfinal : 0x''" "plain_line ''Iterations : ''" "plain_line SHORT_WARNING" "plain_line ''Errors detected''"
      "plain_line ''Correct operation validated. See README.md for run and reporting rules.''" "plain_line ''RISCC_COREMARK ticks_hi=''"
    using plain_heads(2) by (simp_all only: list.pred_inject)
  have parts: "list_all inline_char '' ticks_lo=''" "list_all inline_char '' iterations=''" "list_all inline_char '' hz=''"
      "list_all inline_char '' short=''" "list_all inline_char '' errors=''"
    using plain_heads(3) by (simp_all only: list.pred_inject)
  have numbers: "0 \<le> drop_bit 32 cycles" "0 \<le> cycles AND 0xffffffff" "0 \<le> (of_bool (cycles < 10 * hz) :: int)" "0 \<le> (0 :: int)"
    using assms by simp_all
  have "plain_line (summary cycles iterations hz)"
    unfolding summary_def
    by (intro plain_line_append lines list_all_append [THEN iffD2] conjI parts plain_dec numbers assms)
  then show ?thesis
    unfolding coremark_lines_split tail_lines_def
    using crc lines plain_line_append [OF lines(1) plain_hex [OF assms(2)]] plain_line_append [OF lines(2) plain_dec [OF assms(4)]]
    by (simp only: list_all_append list.pred_inject simp_thms split: if_split)
qed

lemma tail_no_crc:
  assumes "n \<in> set crc_names"
  shows "list_all2 (line_match (crc_re n)) (tail_lines final cycles iterations hz)
    (replicate (length (tail_lines final cycles iterations hz)) None)"
  using other_lines_match [OF assms] by (simp add: tail_lines_def)

lemma read_crcs:
  assumes "mode \<in> {''performance'', ''validation''}" "0 \<le> final" "0 \<le> cycles" "0 \<le> iterations" "0 \<le> hz"
  shows "\<exists>crcs. mapE (read_crc (coremark_output mode final cycles iterations hz)) (the (map_of CRCS mode)) = Inr crcs \<and>
    crcs = map (\<lambda>(n, v). (n, ''0x'' @ fmt_0x 4 v)) (the (map_of CRCS mode))"
proof -
  obtain v1 v2 v3 v4 where crcs: "the (map_of CRCS mode) = [(''seedcrc'', v1), (''crclist'', v2), (''crcmatrix'', v3), (''crcstate'', v4)]"
    and v: "0 \<le> v1" "0 \<le> v2" "0 \<le> v3" "0 \<le> v4"
    using CRCS_names [OF assms(1)] by blast
  have found: "re_findall (crc_re n) (coremark_output mode final cycles iterations hz) =
      (if n = ''seedcrc'' then [[fmt_0x 4 v1]] else []) @ (if n = ''crclist'' then [[fmt_0x 4 v2]] else []) @
      (if n = ''crcmatrix'' then [[fmt_0x 4 v3]] else []) @ (if n = ''crcstate'' then [[fmt_0x 4 v4]] else [])"
    if n: "n \<in> set crc_names" for n
  proof -
    obtain r where r: "crc_re n = Cat Bol r" using crc_re_parts by blast
    have "list_all2 (line_match (Cat Bol r)) (coremark_lines mode final cycles iterations hz)
       ([if n = ''seedcrc'' then Some [fmt_0x 4 v1] else None, if n = ''crclist'' then Some [fmt_0x 4 v2] else None,
         if n = ''crcmatrix'' then Some [fmt_0x 4 v3] else None, if n = ''crcstate'' then Some [fmt_0x 4 v4] else None] @
        replicate (length (tail_lines final cycles iterations hz)) None)"
      unfolding coremark_lines_split crcs r [symmetric]
      by (intro list_all2_appendI tail_no_crc [OF n])
        (simp add: crc_line_match [OF n] v crc_names_def del: if_splits)
    moreover have "list_all text_line (coremark_lines mode final cycles iterations hz)"
      using coremark_plain_lines [OF assms] plain_text_line by (simp add: list_all_iff)
    ultimately have "re_findall_from (Cat Bol r) None (unlines (coremark_lines mode final cycles iterations hz)) =
       concat (map (\<lambda>m. case m of None \<Rightarrow> [] | Some g \<Rightarrow> [g]) ([if n = ''seedcrc'' then Some [fmt_0x 4 v1] else None, if n = ''crclist'' then Some [fmt_0x 4 v2] else None,
         if n = ''crcmatrix'' then Some [fmt_0x 4 v3] else None, if n = ''crcstate'' then Some [fmt_0x 4 v4] else None] @
        replicate (length (tail_lines final cycles iterations hz)) None))"
      by (intro findall_lines) (simp_all add: at_line_start_def)
    then
    show ?thesis unfolding re_findall_def coremark_output_def r by (simp add: at_line_start_def)
  qed
  have names: "''seedcrc'' \<in> set crc_names" "''crclist'' \<in> set crc_names" "''crcmatrix'' \<in> set crc_names" "''crcstate'' \<in> set crc_names"
    by (simp_all add: crc_names_def)
  have hex: "group_int 16 (fmt_0x 4 v) = v" if "0 \<le> v" for v
    using fmt_0x_digits(3) [OF that, of 4] by (simp add: group_int_def py_int16_def)
  show ?thesis
    unfolding crcs by (simp add: read_crc_def found [OF names(1)] found [OF names(2)] found [OF names(3)] found [OF names(4)] hex v bindE_def)
qed

text \<open>The lines searched for.\<close>

lemma final_line_found:
  assumes "list_all is_hex ds" "ds \<noteq> []" "s = [] \<or> \<not> py_space (hd s)" "at_line_start b"
  shows "re_first final_crc_re (b, (''[0]crcfinal : 0x'' @ ds) @ CHR 0x0A # s) \<noteq> None"
proof -
  let ?eol = "cats [spaces, Eol]"
  have last: "last ds \<noteq> CHR 0x0A" using assms(1,2) is_hex_plain(3) by (metis last_in_set list_all_iff)
  obtain e where e: "re_first ?eol (Some (last ds), CHR 0x0A # s) = Some (e, [])"
    using re_first_line_end [OF last assms(3)] by blast
  have run: "re_first (many1 is_hex) (Some CHR ''x'', ds @ CHR 0x0A # s) = Some ((Some (last ds), CHR 0x0A # s), [])"
    by (rule re_first_many1) (use assms(1,2) is_hex_plain(3) in auto)
  have "re_first (Cat (many1 is_hex) ?eol) (Some CHR ''x'', ds @ CHR 0x0A # s) = Some (e, [])"
    using re_first_Cat [OF run e] by simp
  then have "re_first (Cat (lit ''0x'') (Cat (many1 is_hex) ?eol)) (Some CHR '' '', ''0x'' @ ds @ CHR 0x0A # s) = Some (e, [])"
    by (simp add: re_first_Cat_lit startswith_def)
  then have colon: "re_first (Cat spaces (Cat (lit '':'') (Cat spaces (Cat (lit ''0x'') (Cat (many1 is_hex) ?eol)))))
      (Some CHR ''l'', '' : '' @ ''0x'' @ ds @ CHR 0x0A # s) = Some (e, [])"
    by (rule re_first_colon) (simp_all add: py_space_def ccode_def)
  have parts: "final_crc_re = Cat Bol (Cat (lit ''[0]crcfinal'') (Cat spaces (Cat (lit '':'') (Cat spaces (Cat (lit ''0x'') (Cat (many1 is_hex) ?eol))))))"
    by (simp add: final_crc_re_def)
  then have "re_first final_crc_re (b, (''[0]crcfinal : 0x'' @ ds) @ CHR 0x0A # s) = Some (e, [])"
    unfolding parts re_first_anchored using colon assms(4) by (simp add: re_first_Cat_lit startswith_def)
  then show ?thesis by simp
qed

lemma iterations_line_found:
  assumes "0 \<le> iterations" "s = [] \<or> \<not> py_space (hd s)" "at_line_start b"
  shows "re_first (iterations_re iterations) (b, (''Iterations : '' @ fmt_d iterations) @ CHR 0x0A # s) \<noteq> None"
proof -
  let ?eol = "cats [spaces, Eol]" and ?ds = "fmt_d iterations"
  have ds: "list_all is_digit ?ds" "?ds \<noteq> []" using fmt_d_digits assms(1) by auto
  have blank: "\<not> is_digit CHR 0x0A" "\<And>c. is_digit c \<Longrightarrow> \<not> py_space c" by (auto simp: py_space_def is_digit_def ccode_def)
  then have last: "last ?ds \<noteq> CHR 0x0A" using ds by (metis last_in_set list_all_iff)
  obtain e where e: "re_first ?eol (Some (last ?ds), CHR 0x0A # s) = Some (e, [])"
    using re_first_line_end [OF last assms(2)] by blast
  then have "re_first (Cat (lit ?ds) ?eol) (Some CHR '' '', ?ds @ CHR 0x0A # s) = Some (e, [])"
    using ds(2) by (simp add: re_first_Cat_lit)
  then have colon: "re_first (Cat spaces (Cat (lit '':'') (Cat spaces (Cat (lit ?ds) ?eol))))
      (Some CHR ''s'', '' : '' @ ?ds @ CHR 0x0A # s) = Some (e, [])"
    by (rule re_first_colon) (use ds blank in \<open>auto simp: hd_append list_all_iff\<close>)
  have "iterations_re iterations = Cat Bol (Cat (lit ''Iterations'') (Cat spaces (Cat (lit '':'') (Cat spaces (Cat (lit ?ds) ?eol)))))"
    by (simp add: iterations_re_def)
  then show ?thesis using colon assms(3) by (simp add: re_first_anchored re_first_Cat_lit startswith_def)
qed

lemma searches_succeed:
  assumes "mode \<in> {''performance'', ''validation''}" "0 \<le> final" "0 \<le> cycles" "0 \<le> iterations" "0 \<le> hz"
  shows "re_search final_crc_re (coremark_output mode final cycles iterations hz) \<noteq> None"
    "re_search (iterations_re iterations) (coremark_output mode final cycles iterations hz) \<noteq> None"
proof -
  let ?head = "map crc_line (the (map_of CRCS mode))" and ?f = "''[0]crcfinal : 0x'' @ fmt_0x 4 final"
    and ?i = "''Iterations : '' @ fmt_d iterations"
  let ?t = "(if cycles < 10 * hz then [SHORT_WARNING, ''Errors detected'']
      else [''Correct operation validated. See README.md for run and reporting rules.'']) @ [summary cycles iterations hz]"
  have lines: "coremark_lines mode final cycles iterations hz = ?head @ ?f # ?i # ?t"
    by (simp add: coremark_lines_split tail_lines_def)
  have "list_all text_line (coremark_lines mode final cycles iterations hz)"
    using coremark_plain_lines [OF assms] plain_text_line by (simp add: list_all_iff)
  then have starts: "list_all text_line (?i # ?t)" "list_all text_line ?t" unfolding lines by simp_all
  show "re_search final_crc_re (coremark_output mode final cycles iterations hz) \<noteq> None"
    unfolding coremark_output_def lines
    by (rule search_line, rule final_line_found [OF fmt_0x_digits(2,1) [OF assms(2)] unlines_start [OF starts(1)]])
  have "re_search (iterations_re iterations) (unlines ((?head @ [?f]) @ ?i # ?t)) \<noteq> None"
    by (rule search_line, rule iterations_line_found [OF assms(4) unlines_start [OF starts(2)]])
  then show "re_search (iterations_re iterations) (coremark_output mode final cycles iterations hz) \<noteq> None"
    unfolding coremark_output_def lines by simp
qed

lemma summary_found:
  assumes "mode \<in> {''performance'', ''validation''}" "0 \<le> final" "0 \<le> cycles" "0 \<le> iterations" "0 \<le> hz"
  shows "re_findall TICKS_RE (coremark_output mode final cycles iterations hz) =
    [[fmt_d (drop_bit 32 cycles), fmt_d (cycles AND 0xffffffff), fmt_d iterations, fmt_d hz, fmt_d (of_bool (cycles < 10 * hz)), fmt_d 0]]"
proof -
  obtain r where r: "TICKS_RE = Cat Bol (Cat (number_field ''RISCC_COREMARK ticks_hi='') r)" by (simp add: TICKS_RE_def)
  have none: "line_match TICKS_RE (h @ t) None" if h: "2 \<le> length h" "take 2 h \<noteq> ''RI''" for h t
    unfolding r
  proof (rule line_match_none, rule re_first_Cat_none)
    fix b s
    have "take 2 ((h @ t) @ CHR 0x0A # s) \<noteq> ''RI''" using h by simp
    then have "\<not> startswith ((h @ t) @ CHR 0x0A # s) ''RISCC_COREMARK ticks_hi=''"
      by (cases "(h @ t) @ CHR 0x0A # s"; cases "tl ((h @ t) @ CHR 0x0A # s)") (auto simp: startswith_def)
    then show "re_first (number_field ''RISCC_COREMARK ticks_hi='') (b, (h @ t) @ CHR 0x0A # s) = None"
      by (simp only: number_field_def re_first_Cat_lit if_False)
  qed
  define g where "g = [fmt_d (drop_bit 32 cycles), fmt_d (cycles AND 0xffffffff), fmt_d iterations, fmt_d hz, fmt_d (of_bool (cycles < 10 * hz)), fmt_d 0]"
  have head: "2 \<le> length (crc_head n) \<and> take 2 (crc_head n) \<noteq> ''RI''" if "n \<in> set crc_names" for n
    using that by (auto simp: crc_names_def crc_head_def)
  obtain v1 v2 v3 v4 where crcs: "the (map_of CRCS mode) = [(''seedcrc'', v1), (''crclist'', v2), (''crcmatrix'', v3), (''crcstate'', v4)]"
    using CRCS_names [OF assms(1)] by blast
  have crc: "line_match TICKS_RE (crc_line (n, v)) None" if "n \<in> set crc_names" for n v
    using none head [OF that] by (simp add: crc_line_head)
  have others: "line_match TICKS_RE (''[0]crcfinal : 0x'' @ t) None" "line_match TICKS_RE (''Iterations : '' @ t) None"
      "line_match TICKS_RE SHORT_WARNING None" "line_match TICKS_RE ''Errors detected'' None"
      "line_match TICKS_RE ''Correct operation validated. See README.md for run and reporting rules.'' None" for t
    using none [of "''[0]crcfinal : 0x''" t] none [of "''Iterations : ''" t] none [of SHORT_WARNING "[]"]
      none [of "''Errors detected''" "[]"] none [of "''Correct operation validated. See README.md for run and reporting rules.''" "[]"]
    by (simp_all add: SHORT_WARNING_def)
  have m: "list_all2 (line_match TICKS_RE) (coremark_lines mode final cycles iterations hz)
      ([None, None, None, None, None, None] @ (if cycles < 10 * hz then [None, None] else [None]) @ [Some g])"
    using crc others line_summary [OF assms(3-5), folded g_def]
    by (simp add: coremark_lines_split tail_lines_def crcs crc_names_def)
  have t: "list_all text_line (coremark_lines mode final cycles iterations hz)"
    using coremark_plain_lines [OF assms] plain_text_line by (simp add: list_all_iff)
  show ?thesis
    using findall_lines [OF t m [unfolded r], of None]
    by (simp add: re_findall_def coremark_output_def r at_line_start_def flip: g_def)
qed

text \<open>No line reports an error.\<close>

lemma py_in_skip: "hd p \<notin> set xs \<Longrightarrow> p \<noteq> [] \<Longrightarrow> py_in p (xs @ ys) \<longleftrightarrow> py_in p ys"
  by (induction xs) (auto simp: startswith_def neq_Nil_conv)

lemma py_in_chars: "py_in p s \<Longrightarrow> set p \<subseteq> set s"
proof (induction s)
  case (Cons c s)
  then show ?case
    using set_take_subset [of "length p" "c # s"] by (auto simp: startswith_def)
qed simp

definition quiet :: "string \<Rightarrow> bool" where
  "quiet l \<longleftrightarrow> \<not> py_in ''ERROR'' l \<and> \<not> py_in ''Cannot validate'' l"

lemma lower_no_upper: "c \<in> set (py_lower s) \<Longrightarrow> \<not> is_upper c"
  by (auto simp: py_lower_def lower_char_def is_upper_def ccode_cchr)

lemma hex_chars: "0 \<le> v \<Longrightarrow> c \<in> set (fmt_0x 4 v) \<Longrightarrow> c \<notin> {CHR ''R'', CHR ''C'', CHR ''!''}"
  using fmt_0x_digits(2) [of v 4] lower_no_upper [of c "fmt_0X 4 v"]
  by (auto simp: list_all_iff fmt_0x_def is_hex_def hex_val_def char_class_defs ccode_def)

lemma dec_chars: "0 \<le> v \<Longrightarrow> c \<in> set (fmt_d v) \<Longrightarrow> c \<notin> {CHR ''R'', CHR ''C'', CHR ''!'', CHR ''v''}"
  using fmt_d_digits(1) [of v] by (auto simp: list_all_iff is_digit_def ccode_def)

lemma quiet_chars: "CHR ''R'' \<notin> set l \<Longrightarrow> CHR ''C'' \<notin> set l \<Longrightarrow> quiet l"
  using py_in_chars [of "''ERROR''" l] py_in_chars [of "''Cannot validate''" l] by (auto simp: quiet_def)

lemma reported_quiet: "list_all (\<lambda>l. quiet l \<or> l = SHORT_WARNING) ls \<Longrightarrow> reported_error ls = None"
proof (induction ls)
  case (Cons l ls)
  have "\<not> py_in ''Cannot validate'' SHORT_WARNING" by code_simp
  then show ?case using Cons by (auto simp: quiet_def)
qed simp

lemma quiet_summary:
  assumes "0 \<le> cycles" "0 \<le> iterations" "0 \<le> hz"
  shows "quiet (summary cycles iterations hz)" "CHR ''!'' \<notin> set (summary cycles iterations hz)"
proof -
  have numbers: "0 \<le> drop_bit 32 cycles" "0 \<le> cycles AND 0xffffffff" "0 \<le> (of_bool (cycles < 10 * hz) :: int)" "0 \<le> (0 :: int)"
    using assms by simp_all
  define t where "t = fmt_d (drop_bit 32 cycles) @ '' ticks_lo='' @ fmt_d (cycles AND 0xffffffff) @
     '' iterations='' @ fmt_d iterations @ '' hz='' @ fmt_d hz @
     '' short='' @ fmt_d (of_bool (cycles < 10 * hz)) @ '' errors='' @ fmt_d 0"
  have dec: "list_all (\<lambda>c. c \<notin> set ''RC!v'') (fmt_d n)" if "0 \<le> n" for n
    using dec_chars [OF that] by (auto simp: list_all_iff)
  have parts: "list_all (list_all (\<lambda>c. c \<notin> set ''RC!v'')) ['' ticks_lo='', '' iterations='', '' hz='', '' short='', '' errors='']"
    by code_simp
  have "list_all (\<lambda>c. c \<notin> set ''RC!v'') t"
    unfolding t_def
    using parts dec [OF numbers(1)] dec [OF numbers(2)] dec [OF numbers(3)] dec [OF numbers(4)] dec [OF assms(2)] dec [OF assms(3)]
    by (simp only: list_all_append list.pred_inject simp_thms)
  then have t: "c \<notin> set t" if "c \<in> {CHR ''R'', CHR ''C'', CHR ''!'', CHR ''v''}" for c
    using that by (auto simp: list_all_iff)
  have s: "summary cycles iterations hz = ''RISCC_COREMARK ticks_hi='' @ t" by (simp add: summary_def t_def)
  have "\<not> py_in ''ERROR'' t" using py_in_chars [of "''ERROR''" t] t by auto
  then have "\<not> py_in ''ERROR'' (''RISCC_COREMARK ticks_hi='' @ t)" by (simp add: startswith_def)
  moreover have "\<not> py_in ''Cannot validate'' (''RISCC_COREMARK ticks_hi='' @ t)"
    using py_in_chars [of "''Cannot validate''" "''RISCC_COREMARK ticks_hi='' @ t"] t by auto
  ultimately show "quiet (summary cycles iterations hz)" unfolding s quiet_def by blast
  show "CHR ''!'' \<notin> set (summary cycles iterations hz)" unfolding s using t by simp
qed

lemma coremark_lines_quiet:
  assumes "mode \<in> {''performance'', ''validation''}" "0 \<le> final" "0 \<le> cycles" "0 \<le> iterations" "0 \<le> hz"
  shows "list_all (\<lambda>l. quiet l \<or> l = SHORT_WARNING) (coremark_lines mode final cycles iterations hz)"
    "\<not> cycles < 10 * hz \<Longrightarrow> CHR ''!'' \<notin> set (coremark_output mode final cycles iterations hz)"
proof -
  obtain v1 v2 v3 v4 where crcs: "the (map_of CRCS mode) = [(''seedcrc'', v1), (''crclist'', v2), (''crcmatrix'', v3), (''crcstate'', v4)]"
    and v: "0 \<le> v1" "0 \<le> v2" "0 \<le> v3" "0 \<le> v4"
    using CRCS_names [OF assms(1)] by blast
  have heads: "list_all (\<lambda>n. list_all (\<lambda>c. c \<notin> set (crc_head n)) ''RC!'') crc_names" by code_simp
  have crc: "c \<notin> set (crc_line (n, v))" if "c \<in> set ''RC!''" "n \<in> set crc_names" "0 \<le> v" for c n v
    using that heads hex_chars [OF that(3)] by (auto simp: crc_line_head list_all_iff)
  have final: "c \<notin> set (''[0]crcfinal : 0x'' @ fmt_0x 4 final)" "c \<notin> set (''Iterations : '' @ fmt_d iterations)" if "c \<in> set ''RC!''" for c
    using that hex_chars [OF assms(2)] dec_chars [OF assms(4)] by auto
  have fixed: "quiet ''Errors detected''" "quiet ''Correct operation validated. See README.md for run and reporting rules.''"
    by code_simp+
  have "quiet (crc_line (n, v))" if "n \<in> set crc_names" "0 \<le> v" for n v
    using crc [OF _ that] by (intro quiet_chars) simp_all
  then show "list_all (\<lambda>l. quiet l \<or> l = SHORT_WARNING) (coremark_lines mode final cycles iterations hz)"
    using final fixed quiet_summary(1) [OF assms(3-5)] v
    by (simp add: coremark_lines_split tail_lines_def crcs crc_names_def quiet_chars)
  show "CHR ''!'' \<notin> set (coremark_output mode final cycles iterations hz)" if "\<not> cycles < 10 * hz"
    using that crc [of "CHR ''!''"] final [of "CHR ''!''"] quiet_summary(2) [OF assms(3-5)] v
    by (simp add: coremark_output_def coremark_lines_split tail_lines_def crcs crc_names_def)
qed

lemma halves_join: "0 \<le> c \<Longrightarrow> push_bit 32 (drop_bit 32 c) OR (c AND 0xffffffff) = (c :: int)"
proof -
  have "c AND 0xffffffff = take_bit 32 c" by (simp add: take_bit_eq_mask mask_numeral)
  then show ?thesis by (simp only:) (rule bit_eqI, auto simp: bit_simps)
qed



end
