(* ===== verification/BenchCompiler.thy ===== *)
theory BenchCompiler
  imports CoremarkRun FuzzMain
begin

text \<open>
  The compiler benchmarks (\<open>tools/bench_compiler.py\<close>): how a run of a testbench is classified,
  the timing taken from its markers, and the loop over optimisation levels, benchmarks and cores
  with its document and exit status. The files and the testbenches are a parameter.
\<close>

section \<open>Patterns\<close>

definition DONE_RE :: regex where
  "DONE_RE = cats [lit_i ''done after'', many1 py_space, Cap (many1 is_digit), many1 py_space, lit_i ''cycles,'', many1 py_space,
     lit_i ''result=0x'', Cap (many1 is_hex), lit '':'', many1 py_space, Cap (Alt (lit_i ''PASS'') (lit_i ''FAIL''))]"

definition TIMEOUT_RE :: regex where
  "TIMEOUT_RE = cats [lit_i ''TIMEOUT after'', many1 py_space, Cap (many1 is_digit), many1 py_space, lit_i ''cycles'']"

definition NATIVE_PASS_RE :: regex where
  "NATIVE_PASS_RE = cats [Bol, lit ''PASS'', many1 py_space, lit ''XLEN='', many1 is_digit, many1 py_space, lit ''CACHED='',
     many1 is_digit, many1 py_space, Cap (many1 (\<lambda>c. c \<notin> {CHR 0x0A, CHR 0x0D})), Eol]"

definition METRIC_RE :: regex where
  "METRIC_RE = cats [Cap (many1 ident_char), lit ''='', Cap (many1 is_digit)]"

definition MARKER_RE :: regex where
  "MARKER_RE = cats [Bol, number_field ''MARKER cycle='', number_field '' value='', Eol]"

text \<open>\<open>NAME=PATH\<close>.\<close>

definition parse_core :: "string \<Rightarrow> (string \<times> string) option" where
  "parse_core v =
     (let name = takeWhile (\<lambda>c. c \<noteq> CHR ''='') v; path = drop (length name + 1) v in
      if CHR ''='' \<notin> set v \<or> name = [] \<or> path = [] then None else Some (name, path))"

text \<open>\<open>Path.stem\<close>: the last component without its suffix.\<close>

definition path_stem :: "string \<Rightarrow> string" where
  "path_stem p =
     (let name = py_basename p; suffix = takeWhile (\<lambda>c. c \<noteq> CHR ''.'') (rev name);
          before = length name - length suffix - 1 in
      if CHR ''.'' \<in> set name \<and> 0 < before \<and> suffix \<noteq> [] then take before name else name)"

section \<open>One run\<close>

datatype bench_status = PASS | FAIL | TIMEOUT

record bench_result =
  br_core :: string
  br_image :: string
  br_testbench :: string
  br_status :: bench_status
  br_cycles :: "int option"
  br_result :: "string option"
  br_metrics :: "(string \<times> int) list"
  br_loop_cycles :: "int option"
  br_iterations :: "int option"
  br_dmips :: "rat option"

definition failing :: "string \<Rightarrow> string \<Rightarrow> string \<Rightarrow> bench_result" where
  "failing core img tb = \<lparr>br_core = core, br_image = img, br_testbench = tb, br_status = FAIL, br_cycles = None,
     br_result = None, br_metrics = [], br_loop_cycles = None, br_iterations = None, br_dmips = None\<rparr>"

definition timeout_cycles :: "string \<Rightarrow> int option" where
  "timeout_cycles output = map_option (\<lambda>g. group_int 10 (hd g)) (re_search TIMEOUT_RE output)"

definition timeout_or_fail :: "string \<Rightarrow> bench_result \<Rightarrow> bench_result" where
  "timeout_or_fail output r =
     (case timeout_cycles output of
        Some n \<Rightarrow> r\<lparr>br_cycles := Some n, br_status := TIMEOUT\<rparr>
      | None \<Rightarrow> r\<lparr>br_status := FAIL\<rparr>)"

definition NATIVE_METRICS :: "string list" where
  "NATIVE_METRICS = [''commits'', ''backing_reads'', ''backing_writes'', ''i_refills'', ''d_refills'']"

text \<open>The metrics as a dictionary: the last value of a name counts.\<close>

definition read_metrics :: "string \<Rightarrow> string \<rightharpoonup> int" where
  "read_metrics s = map_of (rev (map (\<lambda>g. (hd g, group_int 10 (g ! 1))) (re_findall METRIC_RE s)))"

definition classify_native :: "int \<Rightarrow> string \<Rightarrow> bench_result \<Rightarrow> bench_result" where
  "classify_native returncode output r =
     (case re_search NATIVE_PASS_RE output of
        Some g \<Rightarrow>
          let metrics = read_metrics (hd g) in
          (case metrics ''cycles'' of
             Some n \<Rightarrow> r\<lparr>br_cycles := Some n,
               br_metrics := concat (map (\<lambda>name. case metrics name of Some v \<Rightarrow> [(name, v)] | None \<Rightarrow> []) NATIVE_METRICS),
               br_status := (if returncode = 0 then PASS else FAIL)\<rparr>
           | None \<Rightarrow> r\<lparr>br_status := FAIL\<rparr>)
      | None \<Rightarrow> timeout_or_fail output r)"

definition classify_simple :: "int \<Rightarrow> string \<Rightarrow> bench_result \<Rightarrow> bench_result" where
  "classify_simple returncode output r =
     (case re_search DONE_RE output of
        Some g \<Rightarrow>
          let v = group_int 16 (g ! 1) in
          r\<lparr>br_cycles := Some (group_int 10 (hd g)), br_result := Some (''0x'' @ fmt_0X 4 v),
            br_status := (if returncode = 0 \<and> v = 0x600D \<and> py_upper (g ! 2) = ''PASS'' then PASS else FAIL)\<rparr>
      | None \<Rightarrow> timeout_or_fail output r)"

definition markers :: "string \<Rightarrow> (int \<times> int) list" where
  "markers output = map (\<lambda>g. (group_int 10 (hd g), group_int 10 (g ! 1))) (re_findall MARKER_RE output)"

text \<open>The timing of a passing Dhrystone run: two markers, the second with value 0 and later.\<close>

definition add_timing :: "string \<Rightarrow> bench_result \<Rightarrow> bench_result \<times> string" where
  "add_timing output r =
     (case markers output of
        [(c0, n), (c1, z)] \<Rightarrow>
          if n \<le> 0 \<or> z \<noteq> 0 \<or> c1 \<le> c0 then (r\<lparr>br_status := FAIL\<rparr>, output @ ''\<newline>Missing or invalid benchmark timing markers\<newline>'')
          else (r\<lparr>br_loop_cycles := Some (c1 - c0), br_iterations := Some n,
                  br_dmips := Some (fl (of_int (n * 1000000) / of_int (1757 * (c1 - c0))))\<rparr>, output)
      | _ \<Rightarrow> (r\<lparr>br_status := FAIL\<rparr>, output @ ''\<newline>Missing or invalid benchmark timing markers\<newline>''))"

definition bench_command :: "string \<Rightarrow> string \<Rightarrow> string \<Rightarrow> int \<Rightarrow> bool \<Rightarrow> string list" where
  "bench_command tb img memh max_cycles native =
     (if native then [tb, ''+IMAGE='' @ memh, ''+MAX_CYCLES='' @ fmt_d max_cycles]
      else [tb, img, ''--max-cycles'', fmt_d max_cycles]) @
     (if path_stem img = ''dhrystone'' then if native then [''+REPORT_WRITE=fffc''] else [''--report-write'', ''0xfffc''] else [])"

record bench_world =
  bw_executable :: "string \<Rightarrow> bool"
  bw_read :: "string \<Rightarrow> int list option"
  bw_sim :: "string list \<Rightarrow> sim_end"

datatype bench_error = MissingTestbench string | MissingImage string | NativeImage string

definition run_core ::
  "bench_world \<Rightarrow> string \<Rightarrow> string \<Rightarrow> string \<Rightarrow> string \<Rightarrow> int \<Rightarrow> bool \<Rightarrow> (bench_error, bench_result \<times> string) result"
where
  "run_core W core tb img memh max_cycles native =
     (if \<not> bw_executable W tb then Inl (MissingTestbench tb)
      else
        let r = failing core img tb in
        case bw_sim W (bench_command tb img memh max_cycles native) of
          TimedOut output \<Rightarrow> Inr (r\<lparr>br_cycles := timeout_cycles output, br_status := TIMEOUT\<rparr>, output)
        | Completed returncode output \<Rightarrow>
            let r' = (if native then classify_native returncode output r else classify_simple returncode output r) in
            Inr (if path_stem img = ''dhrystone'' \<and> br_status r' = PASS then add_timing output r' else (r', output)))"

section \<open>All runs\<close>

record bench_args =
  ba_root :: string
  ba_benchmarks :: "string list"
  ba_opt_levels :: "string list"
  ba_cores :: "(string \<times> string) list"
  ba_native_cores :: "(string \<times> string) list"
  ba_max_cycles :: int

text \<open>The converted images and the memory files written.\<close>

type_synonym memhs = "(string \<times> string) list"

definition bench_image :: "bench_args \<Rightarrow> string \<Rightarrow> string \<Rightarrow> string" where
  "bench_image a opt benchmark = path_join (path_join (ba_root a) opt) (benchmark @ ''.bin'')"

definition memh_path :: "bench_args \<Rightarrow> string \<Rightarrow> string \<Rightarrow> string" where
  "memh_path a opt benchmark = path_join (path_join (ba_root a) opt) (benchmark @ ''.memh'')"

definition native_memh :: "bench_world \<Rightarrow> bench_args \<Rightarrow> string \<Rightarrow> string \<Rightarrow> memhs \<Rightarrow> (bench_error, memhs) result" where
  "native_memh W a opt benchmark done_images =
     (let img = bench_image a opt benchmark in
      if ba_native_cores a = [] \<or> img \<in> fst ` set done_images then Inr done_images
      else case bw_read W img of
        None \<Rightarrow> Inl (MissingImage img)
      | Some data \<Rightarrow>
          if 64 * 1024 < int (length data) then Inl (NativeImage img)
          else Inr (done_images @ [(img, memh_text Memh 16 (memh_image data 2))]))"

record bench_entry =
  be_benchmark :: string
  be_opt :: string
  be_result :: bench_result

definition core_list :: "bench_args \<Rightarrow> (bool \<times> string \<times> string) list" where
  "core_list a = map (Pair False) (ba_cores a) @ map (Pair True) (ba_native_cores a)"

text \<open>One core on one benchmark.\<close>

definition bench_one :: "bench_world \<Rightarrow> bench_args \<Rightarrow> string \<Rightarrow> string \<Rightarrow> bool \<times> string \<times> string \<Rightarrow> (bench_error, bench_entry) result" where
  "bench_one W a opt benchmark = (\<lambda>(native, core, tb).
     bindE (run_core W core tb (bench_image a opt benchmark) (memh_path a opt benchmark) (ba_max_cycles a) native)
       (\<lambda>r. Inr \<lparr>be_benchmark = benchmark, be_opt = opt, be_result = fst r\<rparr>))"

text \<open>The loops, benchmark by benchmark; the first error ends the script.\<close>

fun bench_all ::
  "bench_world \<Rightarrow> bench_args \<Rightarrow> (string \<times> string) list \<Rightarrow> memhs \<Rightarrow> (bench_error, bench_entry list \<times> memhs) result"
where
  "bench_all W a [] images = Inr ([], images)"
| "bench_all W a ((opt, benchmark) # rest) images =
     (if bw_read W (bench_image a opt benchmark) = None then Inl (MissingImage (bench_image a opt benchmark))
      else
        bindE (native_memh W a opt benchmark images) (\<lambda>images1.
        bindE (mapE (bench_one W a opt benchmark) (core_list a)) (\<lambda>entries.
        bindE (bench_all W a rest images1) (\<lambda>(es, images2).
        Inr (entries @ es, images2)))))"

definition bench_cases :: "bench_args \<Rightarrow> (string \<times> string) list" where
  "bench_cases a = concat (map (\<lambda>opt. map (Pair opt) (ba_benchmarks a)) (ba_opt_levels a))"

definition failures :: "bench_entry list \<Rightarrow> nat" where
  "failures es = length (filter (\<lambda>e. br_status (be_result e) \<noteq> PASS) es)"

record bench_document =
  bd_passed :: bool
  bd_failures :: nat
  bd_results :: "bench_entry list"

text \<open>The exit status and the document, if it is written.\<close>

definition bench_main :: "bench_world \<Rightarrow> bench_args \<Rightarrow> int \<times> bench_document option" where
  "bench_main W a =
     (if ba_cores a = [] \<and> ba_native_cores a = [] then (2, None)
      else case bench_all W a (bench_cases a) [] of
        Inl e \<Rightarrow> (2, None)
      | Inr (es, _) \<Rightarrow>
          (if failures es = 0 then 0 else 1,
           Some \<lparr>bd_passed = (failures es = 0), bd_failures = failures es, bd_results = es\<rparr>))"

section \<open>Passing runs\<close>

text \<open>What a passing run has shown.\<close>

definition run_passes :: "bench_world \<Rightarrow> bench_args \<Rightarrow> string \<Rightarrow> string \<Rightarrow> bool \<times> string \<times> string \<Rightarrow> bool" where
  "run_passes W a opt benchmark = (\<lambda>(native, core, tb).
     bw_executable W tb \<and>
     (\<exists>output. bw_sim W (bench_command tb (bench_image a opt benchmark) (memh_path a opt benchmark) (ba_max_cycles a) native)
         = Completed 0 output \<and>
       (if native then \<exists>g. re_search NATIVE_PASS_RE output = Some g \<and> read_metrics (hd g) ''cycles'' \<noteq> None
        else \<exists>g. re_search DONE_RE output = Some g \<and> group_int 16 (g ! 1) = 0x600D \<and> py_upper (g ! 2) = ''PASS'') \<and>
       (path_stem (bench_image a opt benchmark) = ''dhrystone'' \<longrightarrow>
         (\<exists>c0 c1 n. markers output = [(c0, n), (c1, 0)] \<and> 0 < n \<and> c0 < c1))))"

lemma classify_native_pass:
  "br_status (classify_native rc output (failing c i t)) = PASS \<longleftrightarrow>
     rc = 0 \<and> (\<exists>g. re_search NATIVE_PASS_RE output = Some g \<and> read_metrics (hd g) ''cycles'' \<noteq> None)"
  by (auto simp: classify_native_def timeout_or_fail_def failing_def Let_def split: option.splits)

lemma classify_simple_pass:
  "br_status (classify_simple rc output (failing c i t)) = PASS \<longleftrightarrow>
     rc = 0 \<and> (\<exists>g. re_search DONE_RE output = Some g \<and> group_int 16 (g ! 1) = 0x600D \<and> py_upper (g ! 2) = ''PASS'')"
  by (auto simp: classify_simple_def timeout_or_fail_def failing_def Let_def split: option.splits)

lemma add_timing_pass:
  "br_status r = PASS \<Longrightarrow> br_status (fst (add_timing output r)) = PASS \<longleftrightarrow>
     (\<exists>c0 c1 n. markers output = [(c0, n), (c1, 0)] \<and> 0 < n \<and> c0 < c1)"
  by (auto simp: add_timing_def split: list.splits prod.splits)

lemma bench_one_pass:
  "(\<exists>e. bench_one W a opt benchmark job = Inr e \<and> br_status (be_result e) = PASS) \<longleftrightarrow> run_passes W a opt benchmark job"
proof -
  obtain native core tb where job: "job = (native, core, tb)" by (cases job)
  let ?img = "bench_image a opt benchmark"
  let ?run = "run_core W core tb ?img (memh_path a opt benchmark) (ba_max_cycles a) native"
  have "(\<exists>p. ?run = Inr p \<and> br_status (fst p) = PASS) \<longleftrightarrow> run_passes W a opt benchmark job"
  proof (cases "bw_sim W (bench_command tb ?img (memh_path a opt benchmark) (ba_max_cycles a) native)")
    case (Completed rc out)
    define r where "r = (if native then classify_native rc out (failing core ?img tb) else classify_simple rc out (failing core ?img tb))"
    have r: "br_status r = PASS \<longleftrightarrow> rc = 0 \<and>
        (if native then \<exists>g. re_search NATIVE_PASS_RE out = Some g \<and> read_metrics (hd g) ''cycles'' \<noteq> None
         else \<exists>g. re_search DONE_RE out = Some g \<and> group_int 16 (g ! 1) = 0x600D \<and> py_upper (g ! 2) = ''PASS'')"
      using classify_native_pass classify_simple_pass by (simp add: r_def)
    have "?run = (if bw_executable W tb then Inr (if path_stem ?img = ''dhrystone'' \<and> br_status r = PASS then add_timing out r else (r, out))
        else Inl (MissingTestbench tb))"
      by (simp add: run_core_def Completed r_def Let_def)
    then have "(\<exists>p. ?run = Inr p \<and> br_status (fst p) = PASS) \<longleftrightarrow> bw_executable W tb \<and> br_status r = PASS \<and>
        (path_stem ?img = ''dhrystone'' \<longrightarrow> (\<exists>c0 c1 n. markers out = [(c0, n), (c1, 0)] \<and> 0 < n \<and> c0 < c1))"
      using add_timing_pass [of r out] by (cases "add_timing out r") auto
    then show ?thesis unfolding r by (auto simp: job run_passes_def Completed)
  qed (auto simp: job run_passes_def run_core_def failing_def Let_def)
  then show ?thesis by (auto simp: job bench_one_def bindE_Inr_iff)
qed

lemma mapE_pass:
  assumes "mapE f xs = Inr ys"
  shows "list_all P ys \<longleftrightarrow> (\<forall>x \<in> set xs. \<exists>y. f x = Inr y \<and> P y)"
  using assms by (induction xs arbitrary: ys) (auto simp: bindE_Inr_iff)

lemma bench_all_pass:
  assumes "bench_all W a cases images = Inr (es, images')"
  shows "failures es = 0 \<longleftrightarrow> (\<forall>(opt, benchmark) \<in> set cases. \<forall>job \<in> set (core_list a). run_passes W a opt benchmark job)"
  using assms
proof (induction cases arbitrary: images es images')
  case (Cons c cases)
  obtain opt benchmark where c: "c = (opt, benchmark)" by (cases c)
  obtain images1 entries rest where run: "mapE (bench_one W a opt benchmark) (core_list a) = Inr entries"
      "bench_all W a cases images1 = Inr (rest, images')" "es = entries @ rest"
    using Cons.prems by (auto simp: c bindE_Inr_iff split: if_splits)
  have "failures entries = 0 \<longleftrightarrow> list_all (\<lambda>e. br_status (be_result e) = PASS) entries"
    by (auto simp: failures_def filter_empty_conv list_all_iff)
  also have "\<dots> \<longleftrightarrow> (\<forall>job \<in> set (core_list a). run_passes W a opt benchmark job)"
    unfolding mapE_pass [OF run(1)] bench_one_pass ..
  finally show ?case using Cons.IH [OF run(2)] by (simp add: c run(3) failures_def)
qed (simp add: failures_def)

text \<open>
  C36. The benchmark run exits with status 0 exactly when every benchmark, at every optimisation
  level and on every core, ended with status 0 and reported a pass with its cycles, and every
  Dhrystone run marked the start and the later end of a positive number of iterations. The
  document is written with status 0 or 1 only, and says that all passed exactly with status 0.
\<close>

theorem bench_exit_status:
  assumes "bench_main W a = (code, doc)"
  shows "(code \<in> {0, 1} \<longleftrightarrow> doc \<noteq> None) \<and> (\<forall>d. doc = Some d \<longrightarrow>
      (bd_passed d \<longleftrightarrow> code = 0) \<and> bd_failures d = failures (bd_results d) \<and>
      (code = 0 \<longleftrightarrow> (\<forall>opt \<in> set (ba_opt_levels a). \<forall>benchmark \<in> set (ba_benchmarks a).
         \<forall>job \<in> set (core_list a). run_passes W a opt benchmark job)))"
proof (cases "bench_all W a (bench_cases a) []")
  case (Inr p)
  obtain es images where p: "p = (es, images)" by (cases p)
  have "failures es = 0 \<longleftrightarrow> (\<forall>opt \<in> set (ba_opt_levels a). \<forall>benchmark \<in> set (ba_benchmarks a).
         \<forall>job \<in> set (core_list a). run_passes W a opt benchmark job)"
    using bench_all_pass [OF Inr [unfolded p]] by (auto simp: bench_cases_def)
  then show ?thesis using assms Inr p by (auto simp: bench_main_def split: if_splits)
qed (use assms in \<open>auto simp: bench_main_def split: if_splits\<close>)

section \<open>A run of two benchmarks\<close>

definition sample_bench :: bench_args where
  "sample_bench = \<lparr>ba_root = ''b'', ba_benchmarks = [''crc'', ''dhrystone''], ba_opt_levels = [''O2''],
     ba_cores = [], ba_native_cores = [(''fast'', ''tb'')], ba_max_cycles = 100\<rparr>"

definition sample_bench_world :: bench_world where
  "sample_bench_world = \<lparr>bw_executable = (\<lambda>_. True), bw_read = (\<lambda>_. Some [1, 0]),
     bw_sim = (\<lambda>cmd. Completed 0 (if length cmd = 3 then ''PASS XLEN=16 CACHED=0 cycles=12''
       else ''MARKER cycle=5 value=3'' @ [CHR 0x0A] @ ''MARKER cycle=9 value=0'' @ [CHR 0x0A] @ ''PASS XLEN=16 CACHED=0 cycles=12''))\<rparr>"

lemma sample_bench_run:
  "case bench_main sample_bench_world sample_bench of
     (code, Some d) \<Rightarrow> code = 0 \<and> map (\<lambda>e. br_loop_cycles (be_result e)) (bd_results d) = [None, Some 4]
   | _ \<Rightarrow> False"
  by code_simp

theorem bench_exit_status_witness:
  "\<exists>d. bench_main sample_bench_world sample_bench = (0, Some d) \<and> bd_passed d \<and> failures (bd_results d) = 0 \<and>
     run_passes sample_bench_world sample_bench ''O2'' ''crc'' (True, ''fast'', ''tb'') \<and>
     run_passes sample_bench_world sample_bench ''O2'' ''dhrystone'' (True, ''fast'', ''tb'')"
proof -
  obtain d where run: "bench_main sample_bench_world sample_bench = (0, Some d)"
    using sample_bench_run by (auto split: prod.splits option.splits)
  from bench_exit_status [OF run] have "bd_passed d" "\<forall>opt \<in> set (ba_opt_levels sample_bench).
      \<forall>benchmark \<in> set (ba_benchmarks sample_bench). \<forall>job \<in> set (core_list sample_bench).
        run_passes sample_bench_world sample_bench opt benchmark job"
    by blast+
  moreover have "failures (bd_results d) = 0"
    using bench_exit_status [OF run] \<open>bd_passed d\<close> run 
    by (auto simp: bench_main_def split: sum.splits prod.splits if_splits)
  ultimately show ?thesis using run by (auto simp: sample_bench_def core_list_def)
qed

end
