(* ===== verification/TuneCores.thy ===== *)
theory TuneCores
  imports PyRegex FuzzBuild
begin

text \<open>
  The designs the Lattice tuner measures (\<open>tools/lattice_tune.py\<close>): the recipes, the cores and
  their widths, the description of a core as a \<open>CoreSpec\<close>, the scripts given to the synthesis
  tool, and what is read from its logs.
\<close>

section \<open>Tables\<close>

definition ECP5_RECIPES :: "(string \<times> string) list" where
  "ECP5_RECIPES =
     [(''default'', ''''), (''dff'', ''-dff''), (''abc2'', ''-abc2''), (''abc2-dff'', ''-abc2 -dff''),
      (''abc9'', ''-abc9''), (''abc9-dff'', ''-abc9 -dff''), (''noccu2'', ''-noccu2''), (''noccu2-dff'', ''-noccu2 -dff'')]"

definition WIDE_CORES :: "string list" where
  "WIDE_CORES = concat (map (\<lambda>xlen. map (\<lambda>profile. ''wide'' @ fmt_d xlen @ ''-'' @ profile)
     [''min'', ''sys'', ''full'', ''mulh'', ''muldiv'']) [16, 32])"

definition WIDTHS :: "int list" where "WIDTHS = [1, 2, 4, 8, 16]"

definition MATRIX_CORES :: "string list" where
  "MATRIX_CORES = [''min'', ''sys'', ''full'', ''rc32-min'', ''rc32-sys'', ''rc32-full'']"

definition OTHER_CORES :: "string list" where
  "OTHER_CORES = [''nano'', ''mulh'', ''muldiv'', ''fast-soft'', ''fast-dsp'', ''fast32-soft'', ''fast32-dsp'',
     ''cached-dsp'', ''cached32-dsp'']"

definition SERIAL_CORES :: "string list" where
  "SERIAL_CORES = [''serial16-min'', ''serial16-sys'', ''serial16-full'', ''serial32-min'', ''serial32-sys'', ''serial32-full'']"

definition CORES :: "string list" where
  "CORES = [''min'', ''sys'', ''full'', ''rc32-min'', ''rc32-sys'', ''rc32-full'', ''nano'', ''mulh'', ''muldiv'',
     ''fast-soft'', ''fast-dsp'', ''fast32-soft'', ''fast32-dsp'', ''cached-dsp'', ''cached32-dsp'',
     ''serial16-min'', ''serial16-sys'', ''serial16-full'', ''serial32-min'', ''serial32-sys'', ''serial32-full''] @ WIDE_CORES"

section \<open>Describing a core\<close>

record core_desc =
  cs_source :: string
  cs_top :: string
  cs_defines :: "string list"
  cs_block_defines :: "string list"
  cs_synth_options :: "string list"
  cs_parameters :: "(string \<times> int) list"
  cs_extra_sources :: "string list"

definition removeprefix :: "string \<Rightarrow> string \<Rightarrow> string" where
  "removeprefix s p = (if startswith s p then drop (length p) s else s)"

text \<open>Which design a public name stands for at a width.\<close>

definition family_core :: "string \<Rightarrow> int \<Rightarrow> string py" where
  "family_core core width =
     (if core \<in> {''min'', ''sys'', ''full''} then Inr ((if width \<noteq> 16 then ''serial16-'' else ''wide16-'') @ core)
      else if core \<in> {''rc32-min'', ''rc32-sys'', ''rc32-full''} then Inr (''serial32-'' @ removeprefix core ''rc32-'')
      else if core \<in> {''mulh'', ''muldiv''} then
        if width \<noteq> 16 then Inl (ValueError (core @ '' supports only the native RC16 width 16''))
        else Inr (''wide16-'' @ core)
      else Inr core)"

text \<open>\<open>int\<close> of a text: space around it, a sign, digits that single underscores may group.\<close>

definition py_int10 :: "string \<Rightarrow> int py" where
  "py_int10 s =
     (let t = py_strip s in
      case (if t \<noteq> [] \<and> hd t = CHR ''-'' then map_option uminus (grouped 10 False (tl t))
            else if t \<noteq> [] \<and> hd t = CHR ''+'' then grouped 10 False (tl t)
            else grouped 10 False t) of
        Some v \<Rightarrow> Inr v
      | None \<Rightarrow> Inl (ValueError (''invalid literal for int() with base 10: '' @ s)))"

text \<open>The source, the top module, the defines after the target's, the parameters and further sources.\<close>

record variant =
  va_source :: string
  va_top :: string
  va_defines :: "string list"
  va_parameters :: "(string \<times> int) list"
  va_extra :: "string list"

definition wide_variant :: "string \<Rightarrow> string \<Rightarrow> variant py" where
  "wide_variant rtl core =
     bindE (py_int10 (take 2 (drop 4 core))) (\<lambda>xlen.
     let name = drop 7 core;
         profile = (if name = ''min'' then 0 else if name = ''sys'' then 1 else 2);
         mdu = (if name = ''mulh'' then 1 else if name = ''muldiv'' then 2 else 0) in
     Inr \<lparr>va_source = path_join rtl ''riscc_wide.v'', va_top = ''riscc_wide'',
          va_defines = [''RISCC_FMAX_WIDE'', ''RISCC_FMAX_WIDE_XLEN='' @ fmt_d xlen,
            ''RISCC_FMAX_WIDE_PROFILE='' @ fmt_d profile, ''RISCC_FMAX_WIDE_MDU='' @ fmt_d mdu],
          va_parameters = [(''XLEN'', xlen), (''PROFILE'', profile), (''MDU'', mdu)], va_extra = []\<rparr>)"

definition serial_variant :: "string \<Rightarrow> string \<Rightarrow> int \<Rightarrow> variant py" where
  "serial_variant rtl core width =
     (let xlen = (if startswith core ''serial16-'' then 16 else 32);
          name = removeprefix core (''serial'' @ fmt_d xlen @ ''-'');
          supported = (if xlen = 16 then [1, 2, 4, 8] else [1, 2, 4, 8, 16]) in
      case map_of [(''min'', 0), (''sys'', 1), (''full'', 2)] name of
        None \<Rightarrow> Inl (KeyError 0)
      | Some profile \<Rightarrow>
          if width \<notin> set supported then
            Inl (ValueError (''serial'' @ fmt_d xlen @ '' width must be '' @ py_join '', '' (map fmt_d supported)))
          else
            Inr \<lparr>va_source = path_join rtl ''riscc_serial.v'', va_top = ''riscc_serial'',
                 va_defines = [''RISCC_FMAX_SERIAL'', ''RISCC_FMAX_SERIAL_XLEN='' @ fmt_d xlen,
                   ''RISCC_FMAX_SERIAL_PROFILE='' @ fmt_d profile, ''RISCC_FMAX_SERIAL_W='' @ fmt_d width],
                 va_parameters = [(''XLEN'', xlen), (''W'', width), (''PROFILE'', profile)], va_extra = []\<rparr>)"

definition cached_variant :: "string \<Rightarrow> string \<Rightarrow> variant" where
  "cached_variant rtl core =
     \<lparr>va_source = path_join rtl ''riscc_cached.v'', va_top = ''riscc_cached'',
      va_defines = [if core = ''cached32-dsp'' then ''RISCC_FMAX_CACHED32'' else ''RISCC_FMAX_CACHED''],
      va_parameters = [(''XLEN'', if core = ''cached32-dsp'' then 32 else 16)],
      va_extra = [path_join rtl ''riscc_pipeline_shared.v'']\<rparr>"

definition fast_variant :: "string \<Rightarrow> string \<Rightarrow> variant" where
  "fast_variant rtl core =
     \<lparr>va_source = path_join rtl ''riscc_fast.v'', va_top = ''riscc_fast'',
      va_defines = ''RISCC_FMAX_FAST'' # (if startswith core ''fast32-'' then [''RISCC_FMAX_FAST32''] else []) @
        (if endswith core ''soft'' then [''RISCC_FAST_SOFT_MUL''] else []),
      va_parameters = (if startswith core ''fast32-'' then [(''XLEN'', 32)] else []),
      va_extra = [path_join rtl ''riscc_pipeline_shared.v'']\<rparr>"

definition core_variant :: "string \<Rightarrow> string \<Rightarrow> int \<Rightarrow> variant py" where
  "core_variant rtl core width =
     (if core \<in> set WIDE_CORES then wide_variant rtl core
      else if core \<in> set SERIAL_CORES then serial_variant rtl core width
      else if core = ''nano'' then
        Inr \<lparr>va_source = path_join rtl ''riscc_nano.v'', va_top = ''riscc_nano'', va_defines = [''RISCC_FMAX_NANO''],
             va_parameters = [], va_extra = []\<rparr>
      else if core \<in> {''cached-dsp'', ''cached32-dsp''} then Inr (cached_variant rtl core)
      else Inr (fast_variant rtl core))"

text \<open>The defines of the measurement with a block-RAM register file.\<close>

definition block_defines :: "string \<Rightarrow> string list \<Rightarrow> string list py" where
  "block_defines core defines =
     (if startswith core ''cached-'' \<or> startswith core ''cached32-'' then Inr defines
      else if startswith core ''fast-'' \<or> startswith core ''fast32-'' then
        if ''RISCC_ECP5'' \<in> set defines then Inr (remove1 ''RISCC_ECP5'' defines @ [''RISCC_FAST_BLOCK_RF''])
        else Inl (ValueError ''list.remove(x): x not in list'')
      else Inr (defines @ [''RISCC_ECP5_BLOCK_RF'']))"

definition core_spec :: "string \<Rightarrow> string \<Rightarrow> string \<Rightarrow> int \<Rightarrow> core_desc py" where
  "core_spec root target core width =
     bindE (family_core core width) (\<lambda>design_core.
     bindE (core_variant (path_join root ''rtl'') design_core width) (\<lambda>v.
     let defines = (if target = ''ecp5'' then [''RISCC_ECP5''] else []) @ va_defines v in
     bindE (block_defines design_core defines) (\<lambda>block.
     Inr \<lparr>cs_source = va_source v, cs_top = va_top v, cs_defines = defines, cs_block_defines = block,
          cs_synth_options = [], cs_parameters = va_parameters v, cs_extra_sources = va_extra v\<rparr>)))"

section \<open>Synthesis scripts and logs\<close>

definition parameter_commands :: "core_desc \<Rightarrow> string list" where
  "parameter_commands spec =
     concat (map (\<lambda>(name, v). [''chparam'', ''-set'', name, fmt_d v, cs_top spec, '';'']) (cs_parameters spec))"

definition source_paths :: "core_desc \<Rightarrow> string list" where
  "source_paths spec = cs_source spec # cs_extra_sources spec"

text \<open>\<open>shlex.split\<close> of the options of a recipe, which hold no quotes, is a split at blanks.\<close>

definition recipe_options :: "core_desc \<Rightarrow> string \<Rightarrow> string list" where
  "recipe_options spec options = cs_synth_options spec @ py_fields options"

definition timing_script :: "string \<Rightarrow> core_desc \<Rightarrow> string \<Rightarrow> string \<Rightarrow> string list" where
  "timing_script root spec options json =
     [''read_verilog''] @ map (\<lambda>d. ''-D'' @ d) (cs_block_defines spec) @ source_paths spec @
     [path_join root ''rtl/test/riscc_fmax_top.v'', '';''] @ parameter_commands spec @
     [''synth_ecp5''] @ recipe_options spec options @ [''-nowidelut'', ''-top'', ''riscc_fmax_top'', ''-json'', json]"

definition area_script :: "core_desc \<Rightarrow> string \<Rightarrow> string list \<Rightarrow> string list" where
  "area_script spec options selected =
     [''read_verilog''] @ map (\<lambda>d. ''-D'' @ d) selected @ source_paths spec @ ['';''] @ parameter_commands spec @
     [''synth_ecp5''] @ recipe_options spec options @ [''-nowidelut'', ''-top'', cs_top spec, '';'', ''stat'']"

definition yosys :: "string list \<Rightarrow> string list" where
  "yosys script = [''yosys'', ''-p'', py_join '' '' script]"

definition synthesis_failed :: "string \<Rightarrow> bool" where
  "synthesis_failed log \<longleftrightarrow> py_in ''Warning: ABC: execution'' log \<and> py_in ''failed: return code'' log"

definition cell_re :: "string \<Rightarrow> regex" where
  "cell_re cell = cats [Bol, spaces, lit cell, many1 py_space, Cap (many1 is_digit), spaces, Eol]"

definition last_count :: "string \<Rightarrow> string \<Rightarrow> int" where
  "last_count log cell =
     (let found = re_findall (cell_re cell) log in if found = [] then 0 else group_int 10 (hd (last found)))"

definition cell_count :: "string \<Rightarrow> int" where
  "cell_count log = last_count log ''LUT4'' + 2 * last_count log ''CCU2C'' + 6 * last_count log ''TRELLIS_DPR16X4''"

section \<open>The matrix\<close>

definition matrix_cases :: "bool \<Rightarrow> (string \<times> int) list" where
  "matrix_cases serial =
     (if serial then
        concat (map (\<lambda>core. map (Pair core) (if startswith core ''serial16-'' then [1, 2, 4, 8] else WIDTHS)) SERIAL_CORES)
      else concat (map (\<lambda>core. map (Pair core) WIDTHS) MATRIX_CORES) @ map (\<lambda>core. (core, 16)) OTHER_CORES)"

definition case_name :: "string \<Rightarrow> int \<Rightarrow> string" where
  "case_name core width = core @ (if core \<in> set (MATRIX_CORES @ SERIAL_CORES) then ''-'' @ fmt_d width else [])"

definition result_directory :: "string \<Rightarrow> string \<Rightarrow> int \<Rightarrow> string" where
  "result_directory base core width = path_join base (case_name core width)"

end
