(* ===== verification/TuneDesigns.thy ===== *)
theory TuneDesigns
  imports TuneCores
begin

text \<open>
  What the Lattice tuner measures is what the fuzzer tests: every case of the matrices describes
  the RTL source and the parameters of a testbench of \<open>tools/riscc_fuzz.py\<close>. No two cases share
  a result directory.
\<close>

section \<open>Measured and tested designs\<close>

text \<open>The family, core and configuration under which the fuzzer tests a core of a matrix.\<close>

definition fuzzed_core :: "string \<Rightarrow> int \<Rightarrow> string \<times> string \<times> string" where
  "fuzzed_core core width =
     (if core = ''nano'' then (''nano'', ''nano'', ''nano'')
      else if core \<in> {''min'', ''sys'', ''full''} then (''rc16'', ''rc16-'' @ fmt_d width, core)
      else if core \<in> {''mulh'', ''muldiv''} then (''rc16'', ''rc16-'' @ core, ''full-'' @ core)
      else if startswith core ''rc32-'' then (''rc32'', ''rc32-'' @ fmt_d width, drop 5 core)
      else if startswith core ''serial16-'' then (''rc16'', ''rc16-'' @ fmt_d width, drop 9 core)
      else if startswith core ''serial32-'' then (''rc32'', ''rc32-'' @ fmt_d width, drop 9 core)
      else (''fast'', core, ''full''))"

definition generic_option :: "string \<times> int \<Rightarrow> string" where
  "generic_option = (\<lambda>(name, v). ''-G'' @ name @ ''='' @ fmt_d v)"

text \<open>
  The same source, the tuner's parameters among the testbench's, nothing else set there but the
  default width, the same top module but for the cached core's wrapper, and the same choice of
  multiplier.
\<close>

definition same_design :: "core_desc \<Rightarrow> design \<Rightarrow> bool" where
  "same_design s d \<longleftrightarrow>
     ds_rtl d = cs_source s \<and>
     list_all (\<lambda>p. generic_option p \<in> set (ds_defs d)) (cs_parameters s) \<and>
     list_all (\<lambda>o'. startswith o' ''-G'' \<longrightarrow> o' \<in> set (map generic_option (cs_parameters s)) \<or> o' = ''-GXLEN=16'') (ds_defs d) \<and>
     (ds_top d = cs_top s \<or> ds_top d = ''riscc_cached_test_top'' \<and> cs_top s = ''riscc_cached'') \<and>
     (''-DRISCC_FAST_SOFT_MUL'' \<in> set (ds_defs d) \<longleftrightarrow> ''RISCC_FAST_SOFT_MUL'' \<in> set (cs_defines s))"

definition measured_design :: "string \<Rightarrow> string \<times> int \<Rightarrow> bool" where
  "measured_design root = (\<lambda>(core, width). case fuzzed_core core width of (family, core', config) \<Rightarrow>
     (case (core_spec root ''ecp5'' core width, core_design root core' family config []) of
        (Inr s, Inr d) \<Rightarrow> same_design s d
      | _ \<Rightarrow> False))"

lemma WIDE_CORES_code [code]:
  "WIDE_CORES = [''wide16-min'', ''wide16-sys'', ''wide16-full'', ''wide16-mulh'', ''wide16-muldiv'',
     ''wide32-min'', ''wide32-sys'', ''wide32-full'', ''wide32-mulh'', ''wide32-muldiv'']"
  by code_simp

lemma measured_rc16: "list_all (\<lambda>core. list_all (\<lambda>width. measured_design root (core, width)) WIDTHS) [''min'', ''sys'', ''full'']"
  by code_simp

lemma measured_rc32: "list_all (\<lambda>core. list_all (\<lambda>width. measured_design root (core, width)) WIDTHS) [''rc32-min'', ''rc32-sys'', ''rc32-full'']"
  by code_simp

lemma measured_others: "list_all (\<lambda>core. measured_design root (core, 16)) OTHER_CORES"
  by code_simp

lemma measured_serial16: "list_all (\<lambda>core. list_all (\<lambda>width. measured_design root (core, width)) [1, 2, 4, 8]) [''serial16-min'', ''serial16-sys'', ''serial16-full'']"
  by code_simp

lemma measured_serial32: "list_all (\<lambda>core. list_all (\<lambda>width. measured_design root (core, width)) WIDTHS) [''serial32-min'', ''serial32-sys'', ''serial32-full'']"
  by code_simp

lemma matrix_measured: "list_all (measured_design root) (matrix_cases serial)"
proof (cases serial)
  case True
  have "matrix_cases True = concat (map (\<lambda>core. map (Pair core) [1, 2, 4, 8]) [''serial16-min'', ''serial16-sys'', ''serial16-full'']) @
      concat (map (\<lambda>core. map (Pair core) WIDTHS) [''serial32-min'', ''serial32-sys'', ''serial32-full''])" by code_simp
  then show ?thesis using True measured_serial16 measured_serial32 by (simp only: list_all_iff) auto
next
  case False
  have "matrix_cases False = concat (map (\<lambda>core. map (Pair core) WIDTHS) [''min'', ''sys'', ''full'']) @
      concat (map (\<lambda>core. map (Pair core) WIDTHS) [''rc32-min'', ''rc32-sys'', ''rc32-full'']) @ map (\<lambda>core. (core, 16)) OTHER_CORES"
    by code_simp
  then show ?thesis using False measured_rc16 measured_rc32 measured_others by (simp only: list_all_iff) auto
qed

lemma distinct_case_names: "distinct (map (\<lambda>(core, width). case_name core width) (matrix_cases serial))"
  by (cases serial) (simp_all only:, code_simp+)

lemma path_join_inj: "path_join base a = path_join base b \<longleftrightarrow> a = b"
  by (simp add: path_join_def)

lemma rc32_min_measured: "(''rc32-min'', 4) \<in> set (matrix_cases False)"
  by (simp add: matrix_cases_def MATRIX_CORES_def WIDTHS_def)

lemma rc32_min_fuzzed: "fuzzed_core ''rc32-min'' 4 = (''rc32'', ''rc32-4'', ''min'')"
  by code_simp


end
