(* ===== verification/PyCsv.thy ===== *)
theory PyCsv
  imports PyText
begin

text \<open>
  Python's \<open>csv\<close> module with a tab as delimiter, as the tuner and the Agilex tools use it: a
  writer that quotes a field when it must, the reader as a state machine over the characters, and
  \<open>DictReader\<close>. What is written is read back.
\<close>

section \<open>Writing\<close>

definition csv_special :: "char \<Rightarrow> bool" where
  "csv_special c \<longleftrightarrow> c \<in> {CHR 0x09, CHR 0x0A, CHR 0x0D, CHR 0x22}"

definition csv_field :: "string \<Rightarrow> string" where
  "csv_field s =
     (if list_ex csv_special s then
        [CHR 0x22] @ concat (map (\<lambda>c. if c = CHR 0x22 then [c, c] else [c]) s) @ [CHR 0x22]
      else s)"

definition csv_line :: "string list \<Rightarrow> string" where
  "csv_line fields = py_join [CHR 0x09] (map csv_field fields) @ [CHR 0x0D, CHR 0x0A]"

definition csv_text :: "string list list \<Rightarrow> string" where
  "csv_text rows = concat (map csv_line rows)"

section \<open>Reading\<close>

datatype csv_mode = StartField | InField | InQuoted | QuoteInQuoted | AfterReturn

text \<open>The mode, the field so far and the fields of the row before it.\<close>

type_synonym csv_state = "csv_mode \<times> string \<times> string list"

definition start_row :: csv_state where "start_row = (StartField, [], [])"

text \<open>The end of a row: a row of no characters has no fields.\<close>

definition end_row :: "char \<Rightarrow> csv_state \<Rightarrow> csv_state \<times> string list list" where
  "end_row c = (\<lambda>(mode, cur, fields).
     ((if c = CHR 0x0D then AfterReturn else StartField, [], []),
      [if mode = StartField \<and> fields = [] then [] else fields @ [cur]]))"

definition start_field :: "char \<Rightarrow> string list \<Rightarrow> csv_state \<times> string list list" where
  "start_field c fields =
     (if c = CHR 0x0A \<or> c = CHR 0x0D then end_row c (StartField, [], fields)
      else if c = CHR 0x22 then ((InQuoted, [], fields), [])
      else if c = CHR 0x09 then ((StartField, [], fields @ [[]]), [])
      else ((InField, [c], fields), []))"

definition csv_step :: "csv_state \<Rightarrow> char \<Rightarrow> csv_state \<times> string list list" where
  "csv_step st c = (case st of (mode, cur, fields) \<Rightarrow>
     (case mode of
        StartField \<Rightarrow> start_field c fields
      | AfterReturn \<Rightarrow> if c = CHR 0x0A then (start_row, []) else start_field c []
      | InField \<Rightarrow>
          if c = CHR 0x0A \<or> c = CHR 0x0D then end_row c st
          else if c = CHR 0x09 then ((StartField, [], fields @ [cur]), [])
          else ((InField, cur @ [c], fields), [])
      | InQuoted \<Rightarrow>
          if c = CHR 0x22 then ((QuoteInQuoted, cur, fields), []) else ((InQuoted, cur @ [c], fields), [])
      | QuoteInQuoted \<Rightarrow>
          if c = CHR 0x22 then ((InQuoted, cur @ [c], fields), [])
          else if c = CHR 0x0A \<or> c = CHR 0x0D then end_row c st
          else if c = CHR 0x09 then ((StartField, [], fields @ [cur]), [])
          else ((InField, cur @ [c], fields), [])))"

text \<open>At the end of the text an unfinished row counts.\<close>

fun csv_feed :: "csv_state \<Rightarrow> string \<Rightarrow> string list list" where
  "csv_feed (mode, cur, fields) [] =
     (if mode = AfterReturn \<or> mode = StartField \<and> fields = [] then [] else [fields @ [cur]])"
| "csv_feed st (c # cs) = (case csv_step st c of (st', rows) \<Rightarrow> rows @ csv_feed st' cs)"

definition csv_rows :: "string \<Rightarrow> string list list" where
  "csv_rows s = csv_feed start_row s"

text \<open>\<open>DictReader\<close>: the first row names the fields; a missing value is \<open>None\<close>.\<close>

type_synonym dict_row = "string \<rightharpoonup> string option"

definition csv_dict :: "string list \<Rightarrow> string list \<Rightarrow> dict_row" where
  "csv_dict header row =
     map_of (rev (zip header (map Some row @ replicate (length header - length row) None)))"

definition csv_dicts :: "string \<Rightarrow> dict_row list" where
  "csv_dicts s =
     (case filter (\<lambda>row. row \<noteq> []) (csv_rows s) of [] \<Rightarrow> [] | header # rows \<Rightarrow> map (csv_dict header) rows)"

section \<open>What is written is read back\<close>

lemma feed_plain:
  "\<not> list_ex csv_special s \<Longrightarrow> csv_feed (InField, cur, fields) (s @ rest) = csv_feed (InField, cur @ s, fields) rest"
  by (induction s arbitrary: cur) (auto simp: csv_step_def csv_special_def)

lemma feed_quoted:
  "csv_feed (InQuoted, cur, fields) (concat (map (\<lambda>c. if c = CHR 0x22 then [c, c] else [c]) s) @ CHR 0x22 # rest) =
     csv_feed (QuoteInQuoted, cur @ s, fields) rest"
  by (induction s arbitrary: cur) (auto simp: csv_step_def)

text \<open>A written field up to the delimiter or the end of the row.\<close>

lemma feed_field_tab:
  "csv_feed (StartField, [], fields) (csv_field s @ CHR 0x09 # rest) = csv_feed (StartField, [], fields @ [s]) rest"
proof (cases "list_ex csv_special s")
  case True
  then show ?thesis by (simp add: csv_field_def csv_step_def start_field_def feed_quoted [of "[]", simplified])
next
  case plain: False
  show ?thesis
  proof (cases s)
    case (Cons c t)
    then show ?thesis using plain feed_plain [of t "[c]" fields "CHR 0x09 # rest"]
      by (simp add: csv_field_def csv_step_def start_field_def csv_special_def)
  qed (simp add: csv_field_def csv_step_def start_field_def)
qed

lemma feed_field_end:
  assumes "fields \<noteq> [] \<or> s \<noteq> []"
  shows "csv_feed (StartField, [], fields) (csv_field s @ CHR 0x0D # CHR 0x0A # rest) = (fields @ [s]) # csv_feed start_row rest"
proof (cases "list_ex csv_special s")
  case True
  then show ?thesis
    by (simp add: csv_field_def csv_step_def start_field_def end_row_def feed_quoted [of "[]", simplified])
next
  case plain: False
  show ?thesis
  proof (cases s)
    case (Cons c t)
    then show ?thesis using plain feed_plain [of t "[c]" fields "CHR 0x0D # CHR 0x0A # rest"]
      by (simp add: csv_field_def csv_step_def start_field_def csv_special_def end_row_def)
  qed (use assms in \<open>simp add: csv_field_def csv_step_def start_field_def end_row_def\<close>)
qed

lemma feed_line:
  assumes "fields @ row \<noteq> [[]]" "row \<noteq> []"
  shows "csv_feed (StartField, [], fields) (csv_line row @ rest) = (fields @ row) # csv_feed start_row rest"
  using assms
proof (induction row arbitrary: fields)
  case (Cons s row)
  show ?case
  proof (cases row)
    case Nil
    then show ?thesis using Cons.prems feed_field_end [of fields s rest] by (auto simp: csv_line_def)
  next
    case (Cons t ts)
    have "csv_line (s # row) @ rest = csv_field s @ CHR 0x09 # csv_line row @ rest" by (simp add: csv_line_def Cons)
    then show ?thesis using feed_field_tab Cons.IH [of "fields @ [s]"] Cons by simp
  qed
qed simp

definition csv_row_ok :: "string list \<Rightarrow> bool" where
  "csv_row_ok row \<longleftrightarrow> row \<noteq> [] \<and> row \<noteq> [[]]"

lemma csv_rows_text: "list_all csv_row_ok rows \<Longrightarrow> csv_rows (csv_text rows) = rows"
  unfolding csv_rows_def csv_text_def
  by (induction rows) (simp_all add: csv_row_ok_def start_row_def feed_line [of "[]", simplified])

lemma csv_dicts_text:
  assumes "list_all csv_row_ok (header # rows)"
  shows "csv_dicts (csv_text (header # rows)) = map (csv_dict header) rows"
proof -
  have "filter (\<lambda>row. row \<noteq> []) (header # rows) = header # rows"
    using assms by (intro filter_True) (auto simp: csv_row_ok_def list_all_iff)
  then show ?thesis by (simp only: csv_dicts_def csv_rows_text [OF assms] list.case)
qed

end
