(* ===== verification/TuneRows.thy ===== *)
theory TuneRows
  imports TuneCores PyCsv PyFloat "HOL-Library.Product_Lexorder" "HOL-Library.List_Lexorder"
begin

text \<open>
  The rows of the tuner's results file and the selection among them (\<open>select_timed\<close> and
  \<open>read_selection\<close> of \<open>tools/lattice_tune.py\<close>). A row is a dictionary of texts as \<open>csv.DictReader\<close>
  gives it; every exception the accesses and conversions can raise is a value.
\<close>

section \<open>Rows\<close>

datatype tune_error =
    KeyErr string
  | TypeErr
  | ValueErr string
  | ZeroDiv
  | RuntimeErr string
  | CalledProcess string
  | ExitWith string

type_synonym 'a tune = "(tune_error, 'a) result"

definition lift_py :: "'a py \<Rightarrow> 'a tune" where
  "lift_py m = (case m of Inr x \<Rightarrow> Inr x | Inl (ValueError s) \<Rightarrow> Inl (ValueErr s) | Inl _ \<Rightarrow> Inl (KeyErr []))"

definition row_get :: "dict_row \<Rightarrow> string \<Rightarrow> string option tune" where
  "row_get row key = (case row key of Some v \<Rightarrow> Inr v | None \<Rightarrow> Inl (KeyErr key))"

text \<open>\<open>int(v)\<close> and \<open>float(v)\<close> of what a row holds.\<close>

definition to_int :: "string option \<Rightarrow> int tune" where
  "to_int v = (case v of Some s \<Rightarrow> lift_py (py_int10 s) | None \<Rightarrow> Inl TypeErr)"

definition to_float :: "string option \<Rightarrow> rat tune" where
  "to_float v =
     (case v of
        Some s \<Rightarrow> (case py_float s of Some x \<Rightarrow> Inr x | None \<Rightarrow> Inl (ValueErr s))
      | None \<Rightarrow> Inl TypeErr)"

definition row_int :: "dict_row \<Rightarrow> string \<Rightarrow> int tune" where
  "row_int row key = bindE (row_get row key) to_int"

definition row_float :: "dict_row \<Rightarrow> string \<Rightarrow> rat tune" where
  "row_float row key = bindE (row_get row key) to_float"

text \<open>\<open>a / b\<close> of a float and an integer.\<close>

definition py_div :: "rat \<Rightarrow> int \<Rightarrow> rat tune" where
  "py_div x n = (if n = 0 then Inl ZeroDiv else Inr (fl (x / of_int n)))"

definition efficiency :: "dict_row \<Rightarrow> rat tune" where
  "efficiency row =
     bindE (row_float row ''fmax_mhz'') (\<lambda>f. bindE (row_int row ''block_area'') (\<lambda>a. py_div f a))"

section \<open>The first best of a list\<close>

fun best_by :: "('k \<Rightarrow> 'k \<Rightarrow> bool) \<Rightarrow> 'a \<times> 'k \<Rightarrow> ('a \<times> 'k) list \<Rightarrow> 'a \<times> 'k" where
  "best_by better b [] = b"
| "best_by better b (y # ys) = best_by better (if better (snd y) (snd b) then y else b) ys"

text \<open>\<open>max(rows, key=\<dots>)\<close> and \<open>min(rows, key=\<dots>)\<close>: the first of the best; empty lists are an error.\<close>

definition py_best :: "('k \<Rightarrow> 'k \<Rightarrow> bool) \<Rightarrow> ('a \<Rightarrow> 'k tune) \<Rightarrow> 'a list \<Rightarrow> 'a tune" where
  "py_best better key xs =
     bindE (mapE (\<lambda>x. bindE (key x) (\<lambda>k. Inr (x, k))) xs) (\<lambda>ks.
     case ks of [] \<Rightarrow> Inl (ValueErr ''empty'') | b # ys \<Rightarrow> Inr (fst (best_by better b ys)))"

definition py_max :: "('a \<Rightarrow> ('k :: linorder) tune) \<Rightarrow> 'a list \<Rightarrow> 'a tune" where
  "py_max = py_best (\<lambda>new old. old < new)"

definition py_min :: "('a \<Rightarrow> ('k :: linorder) tune) \<Rightarrow> 'a list \<Rightarrow> 'a tune" where
  "py_min = py_best (\<lambda>new old. new < old)"

section \<open>Selection\<close>

definition timed_key :: "dict_row \<Rightarrow> (rat \<times> int \<times> string \<times> int) tune" where
  "timed_key row =
     bindE (efficiency row) (\<lambda>e.
     bindE (row_int row ''block_area'') (\<lambda>area.
     bindE (row_get row ''recipe'') (\<lambda>recipe.
     bindE (row_int row ''seed'') (\<lambda>seed.
     case recipe of Some r \<Rightarrow> Inr (- e, area, r, seed) | None \<Rightarrow> Inl TypeErr))))"

fun filterE :: "('a \<Rightarrow> bool tune) \<Rightarrow> 'a list \<Rightarrow> 'a list tune" where
  "filterE p [] = Inr []"
| "filterE p (x # xs) =
     bindE (p x) (\<lambda>keep. bindE (filterE p xs) (\<lambda>ys. Inr (if keep then x # ys else ys)))"

definition select_timed :: "dict_row list \<Rightarrow> rat option \<Rightarrow> dict_row tune" where
  "select_timed rows minimum =
     (case minimum of
        None \<Rightarrow> py_max efficiency rows
      | Some m \<Rightarrow>
          bindE (filterE (\<lambda>row. bindE (row_float row ''fmax_mhz'') (\<lambda>f. Inr (m \<le> f))) rows) (\<lambda>feasible.
          if feasible = [] then Inl (RuntimeErr ''no successful mapping'') else py_min timed_key feasible))"

text \<open>The rows of the routes that count; the conditions are tested in order.\<close>

definition wanted :: "string list \<Rightarrow> int list \<Rightarrow> dict_row \<Rightarrow> bool tune" where
  "wanted recipes seeds row =
     bindE (row_get row ''status'') (\<lambda>status.
     if status \<noteq> Some ''ok'' then Inr False
     else
       bindE (row_get row ''recipe'') (\<lambda>recipe.
       if recipe \<notin> Some ` set recipes then Inr False
       else bindE (row_int row ''seed'') (\<lambda>seed. Inr (seed \<in> set seeds))))"

record selection_rows =
  sel_area :: dict_row
  sel_block :: dict_row
  sel_fastest :: dict_row
  sel_efficient :: dict_row
  sel_timed :: dict_row

definition read_selection :: "string \<Rightarrow> string list \<Rightarrow> int list \<Rightarrow> rat option \<Rightarrow> selection_rows tune" where
  "read_selection tsv recipes seeds minimum =
     bindE (filterE (wanted recipes seeds) (csv_dicts tsv)) (\<lambda>rows.
     if rows = [] then Inl (RuntimeErr ''no successful routes'')
     else
       bindE (py_min (\<lambda>row. row_int row ''area'') rows) (\<lambda>area.
       bindE (py_min (\<lambda>row. row_int row ''block_area'') rows) (\<lambda>block.
       bindE (py_max (\<lambda>row. row_float row ''fmax_mhz'') rows) (\<lambda>fastest.
       bindE (py_max efficiency rows) (\<lambda>efficient.
       bindE (select_timed rows minimum) (\<lambda>timed.
       Inr \<lparr>sel_area = area, sel_block = block, sel_fastest = fastest, sel_efficient = efficient, sel_timed = timed\<rparr>))))))"

section \<open>The best is the best\<close>

lemma best_by_member: "best_by better b ys \<in> set (b # ys)"
  by (induction ys arbitrary: b) (auto split: if_splits)

lemma best_by_min:
  fixes b :: "'a \<times> ('k :: linorder)"
  assumes "y \<in> set (b # ys)"
  shows "snd (best_by (\<lambda>new old. new < old) b ys) \<le> snd y"
  using assms
proof (induction ys arbitrary: b y)
  case (Cons z ys)
  let ?c = "if snd z < snd b then z else b"
  have "snd (best_by (\<lambda>new old. new < old) ?c ys) \<le> snd ?c" using Cons.IH [of ?c ?c] by simp
  then show ?case using Cons.prems Cons.IH [of y ?c] by (auto simp: not_less split: if_splits)
qed simp

lemma best_by_max:
  fixes b :: "'a \<times> ('k :: linorder)"
  assumes "y \<in> set (b # ys)"
  shows "snd y \<le> snd (best_by (\<lambda>new old. old < new) b ys)"
  using assms
proof (induction ys arbitrary: b y)
  case (Cons z ys)
  let ?c = "if snd b < snd z then z else b"
  have "snd ?c \<le> snd (best_by (\<lambda>new old. old < new) ?c ys)" using Cons.IH [of ?c ?c] by simp
  then show ?case using Cons.prems Cons.IH [of y ?c] by (auto simp: not_less split: if_splits)
qed simp

text \<open>The keys of the elements, in order.\<close>

lemma keyed_elements:
  assumes "mapE (\<lambda>x. bindE (key x) (\<lambda>k. Inr (x, k))) xs = Inr ks"
  shows "map fst ks = xs" "(x, k) \<in> set ks \<Longrightarrow> key x = Inr k" "x \<in> set xs \<Longrightarrow> \<exists>k. key x = Inr k \<and> (x, k) \<in> set ks"
  using assms by (induction xs arbitrary: ks) (auto simp: bindE_Inr_iff)

lemma py_best_keyed:
  assumes "py_best better key xs = Inr x"
  obtains b ys where "mapE (\<lambda>x. bindE (key x) (\<lambda>k. Inr (x, k))) xs = Inr (b # ys)" "x = fst (best_by better b ys)"
proof -
  obtain ks where ks: "mapE (\<lambda>x. bindE (key x) (\<lambda>k. Inr (x, k))) xs = Inr ks"
      "(case ks of [] \<Rightarrow> Inl (ValueErr ''empty'') | b # ys \<Rightarrow> Inr (fst (best_by better b ys))) = Inr x"
    using assms by (auto simp: py_best_def bindE_Inr_iff)
  then show thesis using that by (cases ks) auto
qed

lemma py_min_least:
  assumes "py_min key xs = Inr x"
  shows "x \<in> set xs" "\<exists>k. key x = Inr k \<and> (\<forall>y \<in> set xs. \<exists>k'. key y = Inr k' \<and> k \<le> k')"
proof -
  obtain b ys where ks: "mapE (\<lambda>x. bindE (key x) (\<lambda>k. Inr (x, k))) xs = Inr (b # ys)"
      and x: "x = fst (best_by (\<lambda>new old. new < old) b ys)"
    using assms unfolding py_min_def by (rule py_best_keyed)
  let ?m = "best_by (\<lambda>new old. new < old) b ys"
  have m: "?m \<in> set (b # ys)" by (rule best_by_member)
  then show "x \<in> set xs" using keyed_elements(1) [OF ks] x by (metis image_eqI image_set)
  have "key x = Inr (snd ?m)" using keyed_elements(2) [OF ks, of x "snd ?m"] m x by simp
  moreover have "\<exists>k'. key y = Inr k' \<and> snd ?m \<le> k'" if "y \<in> set xs" for y
    using keyed_elements(3) [OF ks that] best_by_min [of _ b ys] by fastforce
  ultimately show "\<exists>k. key x = Inr k \<and> (\<forall>y \<in> set xs. \<exists>k'. key y = Inr k' \<and> k \<le> k')" by blast
qed

lemma py_max_greatest:
  assumes "py_max key xs = Inr x"
  shows "x \<in> set xs" "\<exists>k. key x = Inr k \<and> (\<forall>y \<in> set xs. \<exists>k'. key y = Inr k' \<and> k' \<le> k)"
proof -
  obtain b ys where ks: "mapE (\<lambda>x. bindE (key x) (\<lambda>k. Inr (x, k))) xs = Inr (b # ys)"
      and x: "x = fst (best_by (\<lambda>new old. old < new) b ys)"
    using assms unfolding py_max_def by (rule py_best_keyed)
  let ?m = "best_by (\<lambda>new old. old < new) b ys"
  have m: "?m \<in> set (b # ys)" by (rule best_by_member)
  then show "x \<in> set xs" using keyed_elements(1) [OF ks] x by (metis image_eqI image_set)
  have "key x = Inr (snd ?m)" using keyed_elements(2) [OF ks, of x "snd ?m"] m x by simp
  moreover have "\<exists>k'. key y = Inr k' \<and> k' \<le> snd ?m" if "y \<in> set xs" for y
    using keyed_elements(3) [OF ks that] best_by_max [of _ b ys] by fastforce
  ultimately show "\<exists>k. key x = Inr k \<and> (\<forall>y \<in> set xs. \<exists>k'. key y = Inr k' \<and> k' \<le> k)" by blast
qed

lemma filterE_members:
  "filterE p xs = Inr ys \<Longrightarrow> y \<in> set ys \<longleftrightarrow> y \<in> set xs \<and> p y = Inr True"
  by (induction xs arbitrary: ys) (auto simp: bindE_Inr_iff split: if_splits)

text \<open>
  C38. The mapping chosen under a frequency requirement is a row that meets it, and no row that
  meets it has a better efficiency, nor the same efficiency and a smaller area, nor, these being
  equal, an earlier recipe or seed. Without a requirement no row is more efficient. The
  requirement is never relaxed: no row is chosen when none meets it.
\<close>

theorem selected_mapping_is_best:
  assumes "select_timed rows minimum = Inr row"
  shows "row \<in> set rows \<and>
    (case minimum of
       None \<Rightarrow> (\<exists>e. efficiency row = Inr e \<and> (\<forall>r \<in> set rows. \<exists>e'. efficiency r = Inr e' \<and> e' \<le> e))
     | Some m \<Rightarrow>
         (\<exists>f e a n s. row_float row ''fmax_mhz'' = Inr f \<and> m \<le> f \<and> timed_key row = Inr (- e, a, n, s) \<and>
           (\<forall>r \<in> set rows. \<exists>f'. row_float r ''fmax_mhz'' = Inr f' \<and> (m \<le> f' \<longrightarrow>
             (\<exists>e' a' n' s'. timed_key r = Inr (- e', a', n', s') \<and>
               (e' < e \<or> e' = e \<and> (a < a' \<or> a' = a \<and> (n < n' \<or> n' = n \<and> s \<le> s'))))))))"
proof (cases minimum)
  case None
  then show ?thesis using assms py_max_greatest [of efficiency rows row] by (simp add: select_timed_def)
next
  case (Some m)
  let ?meets = "\<lambda>row. bindE (row_float row ''fmax_mhz'') (\<lambda>f. Inr (m \<le> f))"
  obtain feasible where feasible: "filterE ?meets rows = Inr feasible" "py_min timed_key feasible = Inr row"
    using assms Some by (auto simp: select_timed_def bindE_Inr_iff split: if_splits)
  have floats: "\<exists>f. row_float r ''fmax_mhz'' = Inr f" if "r \<in> set rows" for r
    using feasible(1) that by (induction rows arbitrary: feasible) (auto simp: bindE_Inr_iff)
  have row: "row \<in> set rows" "?meets row = Inr True"
    using py_min_least(1) [OF feasible(2)] filterE_members [OF feasible(1)] by auto
  obtain k where k: "timed_key row = Inr k" "\<forall>y \<in> set feasible. \<exists>k'. timed_key y = Inr k' \<and> k \<le> k'"
    using py_min_least(2) [OF feasible(2)] by blast
  obtain e a n s where key: "k = (- e, a, n, s)" by (metis minus_minus prod_cases4)
  have better: "\<exists>f'. row_float r ''fmax_mhz'' = Inr f' \<and> (m \<le> f' \<longrightarrow>
      (\<exists>e' a' n' s'. timed_key r = Inr (- e', a', n', s') \<and>
        (e' < e \<or> e' = e \<and> (a < a' \<or> a' = a \<and> (n < n' \<or> n' = n \<and> s \<le> s')))))" if r: "r \<in> set rows" for r
  proof -
    obtain f' where f': "row_float r ''fmax_mhz'' = Inr f'" using floats [OF r] by blast
    have "\<exists>e' a' n' s'. timed_key r = Inr (- e', a', n', s') \<and>
        (e' < e \<or> e' = e \<and> (a < a' \<or> a' = a \<and> (n < n' \<or> n' = n \<and> s \<le> s')))" if "m \<le> f'"
    proof -
      have "r \<in> set feasible" using filterE_members [OF feasible(1)] r f' that by simp
      then obtain k' where k': "timed_key r = Inr k'" "k \<le> k'" using k(2) by blast
      obtain e' a' n' s' where key': "k' = (- e', a', n', s')" by (metis minus_minus prod_cases4)
      have "e' < e \<or> e' = e \<and> (a < a' \<or> a' = a \<and> (n < n' \<or> n' = n \<and> s \<le> s'))"
        using k'(2) unfolding key key' by (auto simp: less_eq_prod_def less_prod_def)
      then show ?thesis using k'(1) key' by blast
    qed
    then show ?thesis using f' by blast
  qed
  show ?thesis using row k(1) better by (auto simp: Some key bindE_Inr_iff)
qed

definition timed_row :: "string \<Rightarrow> string \<Rightarrow> string \<Rightarrow> dict_row" where
  "timed_row recipe area mhz = csv_dict [''recipe'', ''block_area'', ''fmax_mhz'', ''seed''] [recipe, area, mhz, ''1'']"

text \<open>The rows of a unit test: the most efficient mapping that meets the requirement.\<close>

lemma timed_rows_select:
  "case select_timed [timed_row ''small'' ''1240'' ''68'', timed_row ''slow'' ''100'' ''60'', timed_row ''efficient'' ''1293'' ''74'',
      timed_row ''fastest'' ''2000'' ''80''] (Some (fl (6667 / 100))) of
     Inr row \<Rightarrow> row ''recipe'' = Some (Some ''efficient'') | _ \<Rightarrow> False"
  by code_simp

theorem selected_mapping_is_best_witness:
  "\<exists>row. select_timed [timed_row ''small'' ''1240'' ''68'', timed_row ''slow'' ''100'' ''60'', timed_row ''efficient'' ''1293'' ''74'',
      timed_row ''fastest'' ''2000'' ''80''] (Some (fl (6667 / 100))) = Inr row \<and> row ''recipe'' = Some (Some ''efficient'') \<and>
    (\<exists>f. row_float row ''fmax_mhz'' = Inr f \<and> fl (6667 / 100) \<le> f)"
proof -
  obtain row where row: "select_timed [timed_row ''small'' ''1240'' ''68'', timed_row ''slow'' ''100'' ''60'', timed_row ''efficient'' ''1293'' ''74'',
      timed_row ''fastest'' ''2000'' ''80''] (Some (fl (6667 / 100))) = Inr row" "row ''recipe'' = Some (Some ''efficient'')"
    using timed_rows_select by (auto split: sum.splits)
  show ?thesis using row selected_mapping_is_best [OF row(1)] unfolding option.case by blast
qed

end
