(* ===== verification/TuneRun.thy ===== *)
theory TuneRun
  imports TuneRows
begin

text \<open>
  Tuning one core (\<open>synthesize\<close>, \<open>route\<close> and \<open>main\<close> of \<open>tools/lattice_tune.py\<close>): the synthesis of
  every recipe, the routes of every recipe and seed, the results file and what is reported.
  Files are a map from paths to texts; a tool is a function from its command line to its exit code
  and output. The thread pools are modelled by the orders in which their tasks complete, which
  are parameters. Messages of the argument parser are left out.
\<close>

section \<open>State, tools and errors\<close>

type_synonym tune_files = "string \<rightharpoonup> string"

type_synonym 'a tuner = "tune_files \<Rightarrow> 'a tune \<times> tune_files"

definition retT :: "'a \<Rightarrow> 'a tuner" where "retT x = (\<lambda>fs. (Inr x, fs))"

definition liftT :: "'a tune \<Rightarrow> 'a tuner" where "liftT m = (\<lambda>fs. (m, fs))"

definition bindT :: "'a tuner \<Rightarrow> ('a \<Rightarrow> 'b tuner) \<Rightarrow> 'b tuner" where
  "bindT m f = (\<lambda>fs. case m fs of (Inl e, fs') \<Rightarrow> (Inl e, fs') | (Inr x, fs') \<Rightarrow> f x fs')"

definition writeT :: "string \<Rightarrow> string \<Rightarrow> unit tuner" where
  "writeT path s = (\<lambda>fs. (Inr (), fs(path \<mapsto> s)))"

definition unlinkT :: "string \<Rightarrow> unit tuner" where
  "unlinkT path = (\<lambda>fs. (Inr (), fs(path := None)))"

fun mapT :: "('a \<Rightarrow> 'b tuner) \<Rightarrow> 'a list \<Rightarrow> 'b list tuner" where
  "mapT f [] = retT []"
| "mapT f (x # xs) = bindT (f x) (\<lambda>y. bindT (mapT f xs) (\<lambda>ys. retT (y # ys)))"

text \<open>\<open>subprocess.run(\<dots>, check=True)\<close>.\<close>

type_synonym tool = "string list \<Rightarrow> int \<times> string"

definition run_tool :: "tool \<Rightarrow> string list \<Rightarrow> string tune" where
  "run_tool W command = (case W command of (code, out) \<Rightarrow> if code \<noteq> 0 then Inl (CalledProcess out) else Inr out)"

text \<open>The exceptions the workers' callers handle, and the log they keep of them.\<close>

fun handled :: "tune_error \<Rightarrow> string option" where
  "handled (CalledProcess out) = Some (if out = [] then ''Command returned non-zero exit status'' else out)"
| "handled (RuntimeErr s) = Some s"
| "handled _ = None"

section \<open>Synthesis\<close>

record synth_result =
  sr_recipe :: string
  sr_options :: string
  sr_json :: string
  sr_area :: int
  sr_block_area :: int

definition checked_log :: "tool \<Rightarrow> string list \<Rightarrow> string \<Rightarrow> string tuner" where
  "checked_log W script path =
     bindT (liftT (run_tool W (yosys script))) (\<lambda>lg.
     bindT (writeT path lg) (\<lambda>_.
     if synthesis_failed lg then liftT (Inl (RuntimeErr lg)) else retT lg))"

definition synthesize :: "tool \<Rightarrow> string \<Rightarrow> string \<Rightarrow> core_desc \<Rightarrow> string \<times> string \<Rightarrow> synth_result tuner" where
  "synthesize W repo out spec = (\<lambda>(recipe, options).
     let dir = path_join out recipe; json = path_join dir ''core.json'' in
     bindT (checked_log W (timing_script repo spec options json) (path_join dir ''timing-synth.log'')) (\<lambda>_.
     bindT (checked_log W (area_script spec options (cs_defines spec)) (path_join dir ''area-synth.log'')) (\<lambda>area_log.
     bindT (checked_log W (area_script spec options (cs_block_defines spec)) (path_join dir ''block-area-synth.log'')) (\<lambda>block_log.
     retT \<lparr>sr_recipe = recipe, sr_options = options, sr_json = json, sr_area = cell_count area_log,
           sr_block_area = cell_count block_log\<rparr>))))"

text \<open>A recipe: its result, or the log of its failure; a result removes the log of an earlier failure.\<close>

definition failed_log :: "string \<Rightarrow> string \<Rightarrow> string" where
  "failed_log out recipe = path_join out (recipe @ ''-failed.log'')"

definition try_recipe :: "tool \<Rightarrow> string \<Rightarrow> string \<Rightarrow> core_desc \<Rightarrow> string \<times> string \<Rightarrow> ((string \<times> string) + synth_result) tuner" where
  "try_recipe W repo out spec r = (\<lambda>fs.
     case synthesize W repo out spec r fs of
       (Inr s, fs') \<Rightarrow> (Inr (Inr s), fs'(failed_log out (fst r) := None))
     | (Inl e, fs') \<Rightarrow>
         (case handled e of Some lg \<Rightarrow> (Inr (Inl (fst r, lg)), fs') | None \<Rightarrow> (Inl e, fs')))"

section \<open>Routing\<close>

type_synonym route_result = "synth_result \<times> int \<times> rat \<times> string"

definition FMAX_RE :: regex where
  "FMAX_RE = cats [lit ''Max frequency for clock'', Star (\<lambda>c. c \<noteq> CHR '':''), lit '':'', spaces,
     Cap (many1 (\<lambda>c. is_digit c \<or> c = CHR ''.'')), lit '' MHz'']"

definition seed_path :: "synth_result \<Rightarrow> int \<Rightarrow> string \<Rightarrow> string" where
  "seed_path s seed ext = path_join (py_dirname (sr_json s)) (''seed-'' @ fmt_d seed @ ext)"

definition nextpnr :: "synth_result \<Rightarrow> int \<Rightarrow> string \<Rightarrow> string list" where
  "nextpnr s seed frequency =
     [''nextpnr-ecp5'', ''--25k'', ''--package'', ''CABGA256'', ''--speed'', ''6'', ''--lpf-allow-unconstrained'',
      ''--freq'', frequency, ''--seed'', fmt_d seed, ''--json'', sr_json s, ''--textcfg'', seed_path s seed ''.config'']"

definition reported_fmax :: "string \<Rightarrow> rat tune" where
  "reported_fmax lg =
     (let found = re_findall FMAX_RE lg in
      if found = [] then Inl (RuntimeErr ''nextpnr did not report Fmax'')
      else to_float (Some (hd (last found))))"

text \<open>
  \<open>frequency\<close> is the text of the constraint. The log of a failed tool is its output, of a missing
  report the message.
\<close>

definition route :: "tool \<Rightarrow> string \<Rightarrow> synth_result \<times> int \<Rightarrow> route_result tuner" where
  "route W frequency = (\<lambda>(s, seed).
     let path = seed_path s seed ''.log'' in
     case run_tool W (nextpnr s seed frequency) of
       Inl e \<Rightarrow> bindT (writeT path (the (handled e))) (\<lambda>_. retT (s, seed, 0, ''failed''))
     | Inr lg \<Rightarrow>
         (case reported_fmax lg of
            Inr f \<Rightarrow> bindT (writeT path lg) (\<lambda>_. retT (s, seed, f, ''ok''))
          | Inl e \<Rightarrow>
              (case handled e of
                 Some msg \<Rightarrow> bindT (writeT path msg) (\<lambda>_. retT (s, seed, 0, ''failed''))
               | None \<Rightarrow> liftT (Inl e))))"

section \<open>The results file\<close>

definition RESULT_FIELDS :: "string list" where
  "RESULT_FIELDS = [''recipe'', ''synth_options'', ''area'', ''block_area'', ''seed'', ''fmax_mhz'', ''status'', ''constraint_mhz'']"

definition result_fields :: "string \<Rightarrow> route_result \<Rightarrow> string list" where
  "result_fields frequency = (\<lambda>(s, seed, fmax, status).
     [sr_recipe s, sr_options s, fmt_d (sr_area s), fmt_d (sr_block_area s), fmt_d seed, fmt_fixed 2 fmax, status, frequency])"

definition results_text :: "string \<Rightarrow> route_result list \<Rightarrow> string" where
  "results_text frequency results = csv_text (RESULT_FIELDS # map (result_fields frequency) results)"

definition result_key :: "route_result \<Rightarrow> string \<times> int" where
  "result_key r = (sr_recipe (fst r), fst (snd r))"

section \<open>The report\<close>

definition ljust :: "nat \<Rightarrow> string \<Rightarrow> string" where "ljust n s = s @ replicate (n - length s) (CHR '' '')"

definition rjust :: "nat \<Rightarrow> string \<Rightarrow> string" where "rjust n s = replicate (n - length s) (CHR '' '') @ s"

text \<open>The best route of a recipe, if one succeeded.\<close>

definition best_route :: "route_result list \<Rightarrow> synth_result \<Rightarrow> route_result option" where
  "best_route results s =
     (case filter (\<lambda>r. sr_recipe (fst r) = sr_recipe s \<and> snd (snd (snd r)) = ''ok'') results of
        [] \<Rightarrow> None
      | b # ys \<Rightarrow> Some (fst (best_by (\<lambda>new old. old < new) (b, fst (snd (snd b))) (map (\<lambda>y. (y, fst (snd (snd y)))) ys))))"

definition route_line :: "synth_result \<Rightarrow> route_result \<Rightarrow> string" where
  "route_line s best =
     ljust 14 (sr_recipe s) @ '' '' @ rjust 7 (fmt_d (sr_block_area s)) @ '' '' @ rjust 7 (fmt_d (fst (snd best))) @ '' '' @
     rjust 10 (fmt_fixed 2 (fst (snd (snd best))))"

definition report_lines :: "string \<Rightarrow> synth_result list \<Rightarrow> route_result list \<Rightarrow> string list tune" where
  "report_lines core synths results =
     (let ordered = sort_key sr_recipe synths;
          table = concat (map (\<lambda>s. case best_route results s of None \<Rightarrow> [] | Some b \<Rightarrow> [route_line s b]) ordered);
          best = concat (map (\<lambda>s. case best_route results s of None \<Rightarrow> [] | Some b \<Rightarrow> [b]) ordered) in
      bindE (py_min (\<lambda>s. Inr (sr_block_area s)) synths) (\<lambda>smallest.
      if best = [] then Inl (ExitWith ''all place-and-route runs failed'')
      else
        bindE (py_max (\<lambda>r. Inr (fst (snd (snd r)))) best) (\<lambda>fastest.
        bindE (py_max (\<lambda>r. py_div (fst (snd (snd r))) (sr_block_area (fst r))) best) (\<lambda>efficient.
        bindE (py_div (fl (1000 * fst (snd (snd efficient)))) (sr_block_area (fst efficient))) (\<lambda>per_klut.
        Inr ([ljust 14 ''recipe'' @ '' '' @ rjust 7 ''sites'' @ '' '' @ rjust 7 ''seed'' @ '' '' @ rjust 10 ''Fmax MHz''] @ table @
          [''smallest: '' @ sr_recipe smallest @ '', '' @ fmt_d (sr_block_area smallest) @ '' LUT sites ('' @
             (if startswith core ''cached'' then ''LUTRAM RF, two cache EBRs'' else ''block RF'') @ '')'',
           ''fastest:  '' @ sr_recipe (fst fastest) @ '', seed '' @ fmt_d (fst (snd fastest)) @ '', '' @
             fmt_fixed 2 (fst (snd (snd fastest))) @ '' MHz'',
           ''efficient:'' @ rjust 12 (sr_recipe (fst efficient)) @ '', seed '' @ fmt_d (fst (snd efficient)) @ '', '' @
             fmt_fixed 2 per_klut @ '' MHz/kLUT'']))))))"

section \<open>Tuning a core\<close>

record tune_args =
  ta_core :: string
  ta_width :: int
  ta_seeds :: int
  ta_seed_start :: int
  ta_jobs :: int
  ta_only :: "string list"

definition CACHED_TARGET :: rat where "CACHED_TARGET = fl (6667 / 100)"

text \<open>The recipes searched, each once and in the order they are first named; \<open>None\<close> for an unknown one.\<close>

definition chosen_recipes :: "tune_args \<Rightarrow> (string \<times> string) list option" where
  "chosen_recipes a =
     (if ta_only a = [] then Some ECP5_RECIPES
      else if \<not> set (ta_only a) \<subseteq> fst ` set ECP5_RECIPES then None
      else Some (map (\<lambda>name. (name, the (map_of ECP5_RECIPES name))) (rev (remdups (rev (ta_only a))))))"

definition seed_range :: "tune_args \<Rightarrow> int list" where
  "seed_range a = map (\<lambda>i. ta_seed_start a + int i) [0..<nat (ta_seeds a)]"

definition route_frequency :: "string \<Rightarrow> string" where
  "route_frequency core = (if startswith core ''cached'' then ''66.67'' else ''40'')"

definition failure_lines :: "(string \<times> string) list \<Rightarrow> string list" where
  "failure_lines failures = map (\<lambda>(name, _). name @ '': synthesis failed'') failures"

text \<open>The line on the mapping that meets the cached core's clock.\<close>

definition timed_line :: "dict_row \<Rightarrow> string" where
  "timed_line row =
     (let cell = (\<lambda>key. case row key of Some (Some s) \<Rightarrow> s | _ \<Rightarrow> ''None'') in
      ''best MHz/LUT meeting 66.67 MHz: '' @ cell ''recipe'' @ '', '' @ cell ''block_area'' @ '' LUT sites, '' @
      cell ''fmax_mhz'' @ '' MHz, seed '' @ cell ''seed'')"

fun write_failures :: "string \<Rightarrow> (string \<times> string) list \<Rightarrow> tune_files \<Rightarrow> tune_files" where
  "write_failures out [] fs = fs"
| "write_failures out ((name, lg) # rest) fs = write_failures out rest (fs(failed_log out name \<mapsto> lg))"

text \<open>
  The synthesis of the recipes, in the order \<open>order1\<close> in which they complete: the results and the
  failures.
\<close>

definition synthesize_all ::
  "tool \<Rightarrow> (((string \<times> string) + synth_result) list \<Rightarrow> ((string \<times> string) + synth_result) list) \<Rightarrow>
   string \<Rightarrow> string \<Rightarrow> core_desc \<Rightarrow> (string \<times> string) list \<Rightarrow> (synth_result list \<times> (string \<times> string) list) tuner"
where
  "synthesize_all W order1 repo out spec recipes =
     bindT (mapT (try_recipe W repo out spec) recipes) (\<lambda>ends. \<lambda>fs.
       let done_tasks = order1 ends;
           failures = concat (map (\<lambda>e. case e of Inl f \<Rightarrow> [f] | Inr _ \<Rightarrow> []) done_tasks);
           synths = concat (map (\<lambda>e. case e of Inl _ \<Rightarrow> [] | Inr s \<Rightarrow> [s]) done_tasks) in
       (if synths = [] then Inl (ExitWith ''all synthesis recipes failed'') else Inr (synths, failures),
        write_failures out failures fs))"

definition route_all ::
  "tool \<Rightarrow> (route_result list \<Rightarrow> route_result list) \<Rightarrow> string \<Rightarrow> synth_result list \<Rightarrow> int list \<Rightarrow> route_result list tuner"
where
  "route_all W order2 frequency synths seeds =
     bindT (mapT (route W frequency) (concat (map (\<lambda>s. map (Pair s) seeds) synths))) (\<lambda>rs.
     retT (sort_key result_key (order2 rs)))"

text \<open>\<open>main\<close> for one core; \<open>None\<close> stands for a usage message. The lines printed are the result.\<close>

definition tune_core ::
  "tool \<Rightarrow> (((string \<times> string) + synth_result) list \<Rightarrow> ((string \<times> string) + synth_result) list) \<Rightarrow>
   (route_result list \<Rightarrow> route_result list) \<Rightarrow> string \<Rightarrow> string \<Rightarrow> tune_args \<Rightarrow> string list option tuner"
where
  "tune_core W order1 order2 repo out a =
     (if ta_seeds a < 1 \<or> ta_jobs a < 1 then retT None
      else case chosen_recipes a of
        None \<Rightarrow> retT None
      | Some recipes \<Rightarrow>
          bindT (liftT (lift_py (core_spec repo ''ecp5'' (ta_core a) (ta_width a)))) (\<lambda>spec.
          bindT (synthesize_all W order1 repo out spec recipes) (\<lambda>(synths, failures).
          bindT (route_all W order2 (route_frequency (ta_core a)) synths (seed_range a)) (\<lambda>results.
          let tsv = results_text (route_frequency (ta_core a)) results in
          bindT (writeT (path_join out ''results.tsv'') tsv) (\<lambda>_.
          bindT (liftT (report_lines (ta_core a) synths results)) (\<lambda>ls.
          bindT (if startswith (ta_core a) ''cached'' then
                   bindT (liftT (read_selection tsv (map fst recipes) (seed_range a) (Some CACHED_TARGET))) (\<lambda>sel.
                   retT [timed_line (sel_timed sel)])
                 else retT []) (\<lambda>timed.
          retT (Some (failure_lines failures @ ls @ timed @ [''results:  '' @ path_join out ''results.tsv''])))))))))"

end
