(* ===== verification/TuneProps.thy ===== *)
theory TuneProps
  imports TuneRun FuzzReport "HOL-Library.Multiset"
begin

text \<open>
  What a tuning run leaves behind: the results file does not depend on the order in which the
  tasks complete, and reading it back gives the successful routes as they were measured.
\<close>

section \<open>The order of completion\<close>

text \<open>What a route returns does not depend on the files.\<close>

definition route_value :: "tool \<Rightarrow> string \<Rightarrow> synth_result \<times> int \<Rightarrow> route_result tune" where
  "route_value W frequency job = fst (route W frequency job Map.empty)"

lemma route_value: "fst (route W frequency job fs) = route_value W frequency job"
  by (cases job) (simp add: route_value_def route_def bindT_def writeT_def retT_def liftT_def Let_def
    split: sum.splits option.splits)

lemma route_value_key:
  "route_value W frequency (s, seed) = Inr r \<Longrightarrow> fst r = s \<and> fst (snd r) = seed"
  by (auto simp: route_value_def route_def bindT_def writeT_def retT_def liftT_def Let_def
    split: sum.splits option.splits)

lemma mapT_routes:
  "mapT (route W frequency) jobs fs = (Inr rs, fs') \<Longrightarrow> map (route_value W frequency) jobs = map Inr rs"
proof (induction jobs arbitrary: fs fs' rs)
  case (Cons job jobs)
  obtain v fs1 where job: "route W frequency job fs = (v, fs1)" by fastforce
  then have v: "route_value W frequency job = v" using route_value [of W frequency job fs] by simp
  obtain r where r: "v = Inr r" using Cons.prems job by (cases v) (auto simp: bindT_def)
  obtain vs fs2 where jobs: "mapT (route W frequency) jobs fs1 = (vs, fs2)" by fastforce
  then obtain ss where "vs = Inr ss" "rs = r # ss"
    using Cons.prems job r by (cases vs) (auto simp: bindT_def retT_def)
  then show ?case using Cons.IH jobs v r by simp
qed (simp add: retT_def)

definition route_jobs :: "synth_result list \<Rightarrow> int list \<Rightarrow> (synth_result \<times> int) list" where
  "route_jobs synths seeds = concat (map (\<lambda>s. map (Pair s) seeds) synths)"

lemma route_all_values:
  assumes "route_all W order2 frequency synths seeds fs = (Inr results, fs')"
  obtains rs where "map (route_value W frequency) (route_jobs synths seeds) = map Inr rs" "results = sort_key result_key (order2 rs)"
proof -
  obtain v fs1 where run: "mapT (route W frequency) (route_jobs synths seeds) fs = (v, fs1)" by fastforce
  obtain rs where "v = Inr rs" "results = sort_key result_key (order2 rs)"
    using assms run by (cases v) (auto simp: route_all_def bindT_def retT_def simp flip: route_jobs_def)
  then show thesis using that mapT_routes run by blast
qed

lemma mset_route_jobs: "mset synths = mset synths' \<Longrightarrow> mset (route_jobs synths seeds) = mset (route_jobs synths' seeds)"
proof -
  have "mset (route_jobs ss seeds) = sum_mset (image_mset (\<lambda>s. mset (map (Pair s) seeds)) (mset ss))" for ss
    by (induction ss) (simp_all add: route_jobs_def)
  then show "mset synths = mset synths' \<Longrightarrow> ?thesis" by simp
qed

lemma route_keys:
  assumes "map (route_value W frequency) jobs = map Inr rs"
  shows "map result_key rs = map (\<lambda>(s, seed). (sr_recipe s, seed)) jobs"
  using assms
proof (induction jobs arbitrary: rs)
  case (Cons job jobs)
  then obtain r rs' where rs: "rs = r # rs'" "route_value W frequency job = Inr r" "map (route_value W frequency) jobs = map Inr rs'"
    by (cases rs) auto
  then show ?case using Cons.IH [OF rs(3)] route_value_key [of W frequency "fst job" "snd job" r]
    by (simp add: result_key_def case_prod_beta)
qed simp

lemma distinct_route_keys:
  assumes "distinct (map sr_recipe synths)" "distinct seeds"
  shows "distinct (map (\<lambda>(s, seed). (sr_recipe s, seed)) (route_jobs synths seeds))"
  using assms
proof (induction synths)
  case (Cons s synths)
  have "map (\<lambda>(s, seed). (sr_recipe s, seed)) (route_jobs (s # synths) seeds) =
      map (Pair (sr_recipe s)) seeds @ map (\<lambda>(s, seed). (sr_recipe s, seed)) (route_jobs synths seeds)"
    by (simp add: route_jobs_def)
  moreover have "distinct (map (Pair (sr_recipe s)) seeds)" using Cons.prems(2) by (simp add: distinct_map inj_on_def)
  moreover have "set (map (Pair (sr_recipe s)) seeds) \<inter> set (map (\<lambda>(s, seed). (sr_recipe s, seed)) (route_jobs synths seeds)) = {}"
    using Cons.prems(1) by (auto simp: route_jobs_def)
  ultimately show ?case using Cons by simp
qed (simp add: route_jobs_def)

text \<open>
  C39. The results file is the same whatever order the concurrent tasks complete in: two runs of
  the routes over the same syntheses and seeds, with any two orders of completion of the
  syntheses and of the routes, write the same text, provided the recipes are different.
\<close>

theorem results_independent_of_order:
  assumes "route_all W order2 frequency synths seeds fs = (Inr results, fs1)"
    "route_all W order3 frequency synths' seeds fs' = (Inr results', fs1')"
    "mset synths' = mset synths" "\<And>rs. mset (order2 rs) = mset rs" "\<And>rs. mset (order3 rs) = mset rs"
    "distinct (map sr_recipe synths)" "distinct seeds"
  shows "results_text frequency results = results_text frequency results'"
proof -
  obtain rs where rs: "map (route_value W frequency) (route_jobs synths seeds) = map Inr rs" "results = sort_key result_key (order2 rs)"
    using route_all_values [OF assms(1)] .
  obtain rs' where rs': "map (route_value W frequency) (route_jobs synths' seeds) = map Inr rs'" "results' = sort_key result_key (order3 rs')"
    using route_all_values [OF assms(2)] .
  have "mset (map Inr rs :: route_result tune list) = mset (map Inr rs')"
    unfolding rs(1) [symmetric] rs'(1) [symmetric] using mset_route_jobs [OF assms(3)] by (simp del: map_map)
  then have "image_mset projr (mset (map Inr rs :: route_result tune list)) = image_mset projr (mset (map Inr rs' :: route_result tune list))" by simp
  then have same: "mset rs = mset rs'" by (simp add: multiset.map_comp comp_def)
  have "distinct (map result_key rs)"
    unfolding route_keys [OF rs(1)] by (rule distinct_route_keys [OF assms(6,7)])
  then have inj: "inj_on result_key (set (order2 rs))"
    using assms(4) [of rs] by (metis distinct_map mset_eq_setD)
  have "sort_key result_key (order2 rs) = sort_key result_key (order3 rs')"
    by (rule sort_key_inj_key_eq [OF _ inj]) (simp_all add: assms(4,5) same)
  then show ?thesis using rs(2) rs'(2) by simp
qed

definition sample_tool :: tool where
  "sample_tool = (\<lambda>_. (0, ''Max frequency for clock x: 70.5 MHz''))"

definition sample_synths :: "synth_result list" where
  "sample_synths = map (\<lambda>recipe. \<lparr>sr_recipe = recipe, sr_options = [], sr_json = recipe @ ''/core.json'', sr_area = 9, sr_block_area = 8\<rparr>)
     [''dff'', ''abc9'']"

lemma sample_routes:
  "\<not> isl (fst (route_all sample_tool (\<lambda>rs. rs) ''40'' sample_synths [1, 2] Map.empty))"
  "\<not> isl (fst (route_all sample_tool rev ''40'' (rev sample_synths) [1, 2] Map.empty))"
  by code_simp+

theorem results_independent_of_order_witness:
  "\<exists>rs fs rs' fs'. route_all sample_tool (\<lambda>rs. rs) ''40'' sample_synths [1, 2] Map.empty = (Inr rs, fs) \<and>
     route_all sample_tool rev ''40'' (rev sample_synths) [1, 2] Map.empty = (Inr rs', fs') \<and>
     results_text ''40'' rs = results_text ''40'' rs'"
proof -
  obtain rs fs rs' fs' where runs: "route_all sample_tool (\<lambda>rs. rs) ''40'' sample_synths [1, 2] Map.empty = (Inr rs, fs)"
      "route_all sample_tool rev ''40'' (rev sample_synths) [1, 2] Map.empty = (Inr rs', fs')"
    using sample_routes by (metis prod.collapse sum.collapse(2))
  have "distinct (map sr_recipe sample_synths)" by code_simp
  then have "results_text ''40'' rs = results_text ''40'' rs'"
    by (intro results_independent_of_order [OF runs]) simp_all
  then show ?thesis using runs by blast
qed

section \<open>Reading the results back\<close>

definition result_row :: "string \<Rightarrow> route_result \<Rightarrow> dict_row" where
  "result_row frequency r = csv_dict RESULT_FIELDS (result_fields frequency r)"

text \<open>The frequency as it is printed and read: to two decimals.\<close>

definition printed_fmax :: "rat \<Rightarrow> rat" where
  "printed_fmax x = fl (of_int (round_even (x * 100)) / 100)"

definition counts :: "string list \<Rightarrow> int list \<Rightarrow> route_result \<Rightarrow> bool" where
  "counts recipes seeds = (\<lambda>(s, seed, fmax, status). status = ''ok'' \<and> sr_recipe s \<in> set recipes \<and> seed \<in> set seeds)"

lemma csv_dicts_results: "csv_dicts (results_text frequency results) = map (result_row frequency) results"
proof -
  have "list_all csv_row_ok (RESULT_FIELDS # map (result_fields frequency) results)"
    by (auto simp: csv_row_ok_def RESULT_FIELDS_def result_fields_def list_all_iff)
  then show ?thesis unfolding results_text_def by (simp only: csv_dicts_text map_map comp_def result_row_def [abs_def])
qed

lemma result_row_values:
  "result_row frequency (s, seed, fmax, status) ''recipe'' = Some (Some (sr_recipe s))"
  "result_row frequency (s, seed, fmax, status) ''area'' = Some (Some (fmt_d (sr_area s)))"
  "result_row frequency (s, seed, fmax, status) ''block_area'' = Some (Some (fmt_d (sr_block_area s)))"
  "result_row frequency (s, seed, fmax, status) ''seed'' = Some (Some (fmt_d seed))"
  "result_row frequency (s, seed, fmax, status) ''fmax_mhz'' = Some (Some (fmt_fixed 2 fmax))"
  "result_row frequency (s, seed, fmax, status) ''status'' = Some (Some status)"
  by (simp_all add: result_row_def result_fields_def RESULT_FIELDS_def csv_dict_def)

lemma grouped_dec: "grouped 10 False (dec_str k) = Some (int k)"
proof -
  have "CHR ''_'' \<notin> set (dec_str k)" using dec_str_digits [of k] by (auto simp: list_all_iff is_digit_def ccode_def)
  then show ?thesis using grouped_plain [of "dec_str k" 10 False] by (simp add: digits_of_dec number_of_dec)
qed

lemma dec_str_ends:
  "hd (dec_str k) \<noteq> CHR ''-''" "hd (dec_str k) \<noteq> CHR ''+''" "\<not> py_space (hd (dec_str k))" "\<not> py_space (last (dec_str k))"
proof -
  have "is_digit (hd (dec_str k))" "is_digit (last (dec_str k))" using dec_str_digits [of k] by (auto simp: list_all_iff)
  then show "hd (dec_str k) \<noteq> CHR ''-''" "hd (dec_str k) \<noteq> CHR ''+''" "\<not> py_space (hd (dec_str k))" "\<not> py_space (last (dec_str k))"
    by (auto simp: is_digit_def py_space_def ccode_def)
qed

lemma py_int10_fmt_d: "py_int10 (fmt_d n) = Inr n"
proof (cases "n < 0")
  case True
  have "trimmed (CHR ''-'' # dec_str (nat (- n)))"
    using dec_str_ends(4) by (simp add: trimmed_def py_space_def ccode_def)
  then show ?thesis using True
    by (simp add: py_int10_def fmt_d_def py_strip_trimmed_id grouped_dec Let_def)
next
  case False
  have "trimmed (dec_str (nat n))" using dec_str_ends(3,4) by (simp add: trimmed_def)
  then show ?thesis using False dec_str_ends(1,2)
    by (simp add: py_int10_def fmt_d_def py_strip_trimmed_id grouped_dec Let_def)
qed

lemma result_row_numbers:
  "row_int (result_row frequency r) ''area'' = Inr (sr_area (fst r))"
  "row_int (result_row frequency r) ''block_area'' = Inr (sr_block_area (fst r))"
  "row_int (result_row frequency r) ''seed'' = Inr (fst (snd r))"
  "0 \<le> fst (snd (snd r)) \<Longrightarrow> row_float (result_row frequency r) ''fmax_mhz'' = Inr (printed_fmax (fst (snd (snd r))))"
  using result_row_values [of frequency "fst r" "fst (snd r)" "fst (snd (snd r))" "snd (snd (snd r))"]
  by (simp_all add: row_int_def row_float_def row_get_def to_int_def to_float_def lift_py_def py_int10_fmt_d
    py_float_fixed printed_fmax_def)

lemma wanted_result: "wanted recipes seeds (result_row frequency r) = Inr (counts recipes seeds r)"
  using result_row_values [of frequency "fst r" "fst (snd r)" "fst (snd (snd r))" "snd (snd (snd r))"] result_row_numbers(3) [of frequency r]
  by (auto simp: wanted_def row_get_def counts_def split: prod.splits)

lemma filterE_map: "(\<And>x. x \<in> set xs \<Longrightarrow> p (g x) = Inr (q x)) \<Longrightarrow> filterE p (map g xs) = Inr (map g (filter q xs))"
  by (induction xs) simp_all

text \<open>
  C40. The results file round-trips into the selection: what is selected from the text a run
  wrote are rows of its successful routes over the recipes and seeds asked for, with their own
  area, block area, seed and frequency (to the two decimals printed); the smallest areas and the
  highest frequency are those of the routes that were measured.
\<close>

theorem selection_from_results:
  assumes "read_selection (results_text frequency results) recipes seeds minimum = Inr sel"
    "\<And>r. r \<in> set results \<Longrightarrow> 0 \<le> fst (snd (snd r))"
  shows "\<exists>a b f e t. {a, b, f, e, t} \<subseteq> {r \<in> set results. counts recipes seeds r} \<and>
    sel = \<lparr>sel_area = result_row frequency a, sel_block = result_row frequency b, sel_fastest = result_row frequency f,
      sel_efficient = result_row frequency e, sel_timed = result_row frequency t\<rparr> \<and>
    (\<forall>r \<in> set results. counts recipes seeds r \<longrightarrow>
      sr_area (fst a) \<le> sr_area (fst r) \<and> sr_block_area (fst b) \<le> sr_block_area (fst r) \<and>
      printed_fmax (fst (snd (snd r))) \<le> printed_fmax (fst (snd (snd f))))"
proof -
  let ?ok = "filter (counts recipes seeds) results" and ?row = "result_row frequency"
  have rows: "filterE (wanted recipes seeds) (csv_dicts (results_text frequency results)) = Inr (map ?row ?ok)"
    unfolding csv_dicts_results by (rule filterE_map) (rule wanted_result)
  obtain area block fastest efficient timed where sel:
      "py_min (\<lambda>row. row_int row ''area'') (map ?row ?ok) = Inr area" "py_min (\<lambda>row. row_int row ''block_area'') (map ?row ?ok) = Inr block"
      "py_max (\<lambda>row. row_float row ''fmax_mhz'') (map ?row ?ok) = Inr fastest" "py_max efficiency (map ?row ?ok) = Inr efficient"
      "select_timed (map ?row ?ok) minimum = Inr timed"
      "sel = \<lparr>sel_area = area, sel_block = block, sel_fastest = fastest, sel_efficient = efficient, sel_timed = timed\<rparr>"
    using assms(1) by (auto simp: read_selection_def rows bindE_Inr_iff split: if_splits)
  have timed: "timed \<in> set (map ?row ?ok)" using sel(5)
    by (auto simp: select_timed_def bindE_Inr_iff dest: py_max_greatest(1) py_min_least(1) filterE_members split: option.splits if_splits)
  note members = py_min_least(1) [OF sel(1)] py_min_least(1) [OF sel(2)] py_max_greatest(1) [OF sel(3)] py_max_greatest(1) [OF sel(4)] timed
  obtain a b f e t where picks: "area = ?row a" "block = ?row b" "fastest = ?row f" "efficient = ?row e" "timed = ?row t"
      and ok: "{a, b, f, e, t} \<subseteq> {r \<in> set results. counts recipes seeds r}"
    using members by auto
  have least: "sr_area (fst a) \<le> sr_area (fst r)" "sr_block_area (fst b) \<le> sr_block_area (fst r)"
      "printed_fmax (fst (snd (snd r))) \<le> printed_fmax (fst (snd (snd f)))" if r: "r \<in> set results" "counts recipes seeds r" for r
  proof -
    have row: "?row r \<in> set (map ?row ?ok)" using r by simp
    show "sr_area (fst a) \<le> sr_area (fst r)"
    proof -
      obtain k where k: "row_int area ''area'' = Inr k" "\<forall>y \<in> set (map ?row ?ok). \<exists>k'. row_int y ''area'' = Inr k' \<and> k \<le> k'"
        using py_min_least(2) [OF sel(1)] by blast
      show ?thesis using k(1) bspec [OF k(2) row] by (simp add: picks result_row_numbers)
    qed
    show "sr_block_area (fst b) \<le> sr_block_area (fst r)"
    proof -
      obtain k where k: "row_int block ''block_area'' = Inr k" "\<forall>y \<in> set (map ?row ?ok). \<exists>k'. row_int y ''block_area'' = Inr k' \<and> k \<le> k'"
        using py_min_least(2) [OF sel(2)] by blast
      show ?thesis using k(1) bspec [OF k(2) row] by (simp add: picks result_row_numbers)
    qed
    show "printed_fmax (fst (snd (snd r))) \<le> printed_fmax (fst (snd (snd f)))"
    proof -
      obtain k where k: "row_float fastest ''fmax_mhz'' = Inr k" "\<forall>y \<in> set (map ?row ?ok). \<exists>k'. row_float y ''fmax_mhz'' = Inr k' \<and> k' \<le> k"
        using py_max_greatest(2) [OF sel(3)] by blast
      have "f \<in> set results" using ok by simp
      then have "printed_fmax (fst (snd (snd f))) = k"
        using k(1) result_row_numbers(4) [OF assms(2)] by (simp add: picks)
      moreover obtain k' where "row_float (?row r) ''fmax_mhz'' = Inr k'" "k' \<le> k" using bspec [OF k(2) row] by blast
      ultimately show ?thesis using result_row_numbers(4) [OF assms(2) [OF r(1)]] by simp
    qed
  qed
  show ?thesis
    by (intro exI [of _ a] exI [of _ b] exI [of _ f] exI [of _ e] exI [of _ t] conjI ballI impI ok least)
      (simp_all add: sel(6) picks)
qed

definition sample_results :: "route_result list" where
  "sample_results = [(sample_synths ! 0, 1, 1 / 2, ''ok''), (sample_synths ! 1, 1, 3 / 4, ''ok''), (sample_synths ! 1, 2, 0, ''failed'')]"

lemma sample_selection: "\<not> isl (read_selection (results_text ''40'' sample_results) [''dff'', ''abc9''] [1, 2] (Some (1 / 4)))"
  by code_simp

theorem selection_from_results_witness:
  "\<exists>sel f. read_selection (results_text ''40'' sample_results) [''dff'', ''abc9''] [1, 2] (Some (1 / 4)) = Inr sel \<and>
     f \<in> set sample_results \<and> sel_fastest sel = result_row ''40'' f \<and> counts [''dff'', ''abc9''] [1, 2] f"
proof -
  obtain sel where sel: "read_selection (results_text ''40'' sample_results) [''dff'', ''abc9''] [1, 2] (Some (1 / 4)) = Inr sel"
    using sample_selection by (metis sum.collapse(2))
  have "0 \<le> fst (snd (snd r))" if "r \<in> set sample_results" for r
    using that by (auto simp: sample_results_def)
  from selection_from_results [OF sel this] show ?thesis using sel by (metis (no_types, lifting) insert_subset mem_Collect_eq selection_rows.select_convs(3))
qed

end
